(* ===== verification/Prelude.thy ===== *)
theory Prelude
  imports Main "HOL-Library.Word"
begin

text \<open>
  What every component shares: the outcome of a C++ computation (a value, a thrown
  exception, or undefined behaviour), sequencing of computations over an explicit state,
  bytes as the code's \<^verbatim>\<open>char\<close>, the little-endian images of the unsigned integers and
  the decimal text that streams and \<^verbatim>\<open>std::to_string\<close> print.
\<close>

section \<open>Outcomes of a C++ computation\<close>

text \<open>
  The exceptions the code throws or catches. \<^verbatim>\<open>std::out_of_range\<close> and
  \<^verbatim>\<open>std::length_error\<close> derive from \<^verbatim>\<open>std::logic_error\<close>; \<^verbatim>\<open>throw 0\<close> and
  \<^verbatim>\<open>throw 1\<close> of the option parsers are \<open>Int_thrown\<close>.
\<close>

datatype exn =
    Logic_error string
  | Out_of_range
  | Length_error
  | Runtime_error string
  | Ptree_error
  | Bad_lexical_cast
  | Bad_any_cast
  | System_error
  | Int_thrown int

fun is_logic_error :: "exn \<Rightarrow> bool" where
  "is_logic_error (Logic_error _) = True"
| "is_logic_error Out_of_range = True"
| "is_logic_error Length_error = True"
| "is_logic_error _ = False"

fun is_std_exception :: "exn \<Rightarrow> bool" where
  "is_std_exception (Int_thrown _) = False"
| "is_std_exception _ = True"

text \<open>
  \<open>Undefined\<close> is undefined behaviour, a failed \<^verbatim>\<open>assert\<close> or \<^verbatim>\<open>std::terminate\<close>: no handler sees it.
  \<open>Looping\<close> is the value of a loop that has used up the fuel it was given, or that waits for
  what nothing is left to change.
\<close>

datatype fault = Throw exn | Undefined | Looping

type_synonym 'a res = "fault + 'a"

fun rbind :: "'a res \<Rightarrow> ('a \<Rightarrow> 'b res) \<Rightarrow> 'b res" where
  "rbind (Inl f) k = Inl f"
| "rbind (Inr x) k = k x"

definition of_option :: "exn \<Rightarrow> 'a option \<Rightarrow> 'a res" where
  "of_option e m = (case m of None \<Rightarrow> Inl (Throw e) | Some x \<Rightarrow> Inr x)"

named_theorems result_simps
  \<comment> \<open>characterisations of results that are values\<close>

lemma rbind_Inr_iff [result_simps]: "rbind m k = Inr y \<longleftrightarrow> (\<exists>x. m = Inr x \<and> k x = Inr y)"
  by (cases m) auto

lemma of_option_Inr_iff [result_simps]: "of_option e m = Inr x \<longleftrightarrow> m = Some x"
  by (auto simp: of_option_def split: option.splits)

lemma of_option_simps [simp]:
  "of_option e None = Inl (Throw e)" "of_option e (Some x) = Inr x"
  by (simp_all add: of_option_def)

fun mapM :: "('a \<Rightarrow> 'b res) \<Rightarrow> 'a list \<Rightarrow> 'b list res" where
  "mapM f [] = Inr []"
| "mapM f (x # xs) = rbind (f x) (\<lambda>y. rbind (mapM f xs) (\<lambda>ys. Inr (y # ys)))"

lemma mapM_Inr: "(\<And>x. x \<in> set xs \<Longrightarrow> f x = Inr (g x)) \<Longrightarrow> mapM f xs = Inr (map g xs)"
  by (induction xs) auto

lemma mapM_cong [fundef_cong]:
  "xs = ys \<Longrightarrow> (\<And>x. x \<in> set ys \<Longrightarrow> f x = g x) \<Longrightarrow> mapM f xs = mapM g ys"
  by (induction ys arbitrary: xs) auto

section \<open>Computations over a state\<close>

text \<open>
  An effectful member or handler is a function of the state it reads and writes. What was
  written before a throw stays written, so a fault carries the state as well.
\<close>

type_synonym ('w, 'a) act = "'w \<Rightarrow> 'a res \<times> 'w"

definition ret :: "'a \<Rightarrow> ('w, 'a) act" where
  "ret x = (\<lambda>w. (Inr x, w))"

definition raise :: "fault \<Rightarrow> ('w, 'a) act" where
  "raise f = (\<lambda>w. (Inl f, w))"

definition bnd :: "('w, 'a) act \<Rightarrow> ('a \<Rightarrow> ('w, 'b) act) \<Rightarrow> ('w, 'b) act" where
  "bnd m k = (\<lambda>w. case m w of (r, w') \<Rightarrow> (case r of Inl f \<Rightarrow> (Inl f, w') | Inr x \<Rightarrow> k x w'))"

definition lift_res :: "'a res \<Rightarrow> ('w, 'a) act" where
  "lift_res r = (\<lambda>w. (r, w))"

definition gets :: "('w \<Rightarrow> 'a) \<Rightarrow> ('w, 'a) act" where
  "gets f = (\<lambda>w. (Inr (f w), w))"

definition modify :: "('w \<Rightarrow> 'w) \<Rightarrow> ('w, unit) act" where
  "modify f = (\<lambda>w. (Inr (), f w))"

text \<open>\<^verbatim>\<open>try m catch (e matching P) h\<close>: only a thrown exception that matches is caught.\<close>

definition catching :: "(exn \<Rightarrow> bool) \<Rightarrow> ('w, 'a) act \<Rightarrow> (exn \<Rightarrow> ('w, 'a) act) \<Rightarrow> ('w, 'a) act" where
  "catching P m h = (\<lambda>w. case m w of (r, w') \<Rightarrow>
     (case r of
        Inl (Throw e) \<Rightarrow> (if P e then h e w' else (Inl (Throw e), w'))
      | _ \<Rightarrow> (r, w')))"

named_theorems act_simps \<comment> \<open>running a computation step by step\<close>

lemma ret_run [act_simps]: "ret x w = (Inr x, w)"
  by (simp add: ret_def)

lemma raise_run [act_simps]: "raise f w = (Inl f, w)"
  by (simp add: raise_def)

lemma lift_res_run [act_simps]: "lift_res r w = (r, w)"
  by (simp add: lift_res_def)

lemma gets_run [act_simps]: "gets f w = (Inr (f w), w)"
  by (simp add: gets_def)

lemma modify_run [act_simps]: "modify f w = (Inr (), f w)"
  by (simp add: modify_def)

lemma bnd_run [act_simps]:
  "bnd m k w = (case m w of (r, w') \<Rightarrow> (case r of Inl f \<Rightarrow> (Inl f, w') | Inr x \<Rightarrow> k x w'))"
  by (simp add: bnd_def)

lemma catching_run [act_simps]:
  "catching P m h w = (case m w of (r, w') \<Rightarrow>
     (case r of
        Inl (Throw e) \<Rightarrow> (if P e then h e w' else (Inl (Throw e), w'))
      | _ \<Rightarrow> (r, w')))"
  by (simp add: catching_def)

text \<open>A computation for each element of a list, in order.\<close>

fun mapA :: "('a \<Rightarrow> ('w, 'b) act) \<Rightarrow> 'a list \<Rightarrow> ('w, 'b list) act" where
  "mapA f [] = ret []"
| "mapA f (x # xs) = bnd (f x) (\<lambda>y. bnd (mapA f xs) (\<lambda>ys. ret (y # ys)))"

lemma mapA_reads: "(\<And>x. x \<in> set xs \<Longrightarrow> f x w = (Inr (g x), w)) \<Longrightarrow> mapA f xs w = (Inr (map g xs), w)"
  by (induction xs) (simp_all add: act_simps)

text \<open>A loop over a list for its effect.\<close>

fun forA :: "('a \<Rightarrow> ('w, unit) act) \<Rightarrow> 'a list \<Rightarrow> ('w, unit) act" where
  "forA f [] = ret ()"
| "forA f (x # xs) = bnd (f x) (\<lambda>_. forA f xs)"

text \<open>A sequence of statements.\<close>

fun seqA :: "('w, unit) act list \<Rightarrow> ('w, unit) act" where
  "seqA [] = ret ()"
| "seqA (m # ms) = bnd m (\<lambda>_. seqA ms)"

lemma bnd_assoc: "bnd (bnd m k) h = bnd m (\<lambda>x. bnd (k x) h)"
  by (rule ext) (simp add: bnd_def split: prod.splits sum.splits)

lemma ret_bnd: "bnd (ret x) k = k x"
  by (rule ext) (simp add: bnd_def ret_def)

lemma forA_append: "forA f (xs @ ys) = bnd (forA f xs) (\<lambda>_. forA f ys)"
  by (induction xs) (simp_all add: bnd_assoc ret_bnd)

section \<open>Bytes and little-endian integers\<close>

text \<open>
  \<^verbatim>\<open>CharT\<close> is \<^verbatim>\<open>char\<close>, eight bits: a byte buffer is a \<open>string\<close>. The structs of the
  protocol are packed and read and written in place, so an unsigned integer of \<open>k\<close> bytes
  is its host image, little-endian on the machines the program runs on.
\<close>

fun enc_nat :: "nat \<Rightarrow> nat \<Rightarrow> string" where
  "enc_nat 0 n = []"
| "enc_nat (Suc k) n = char_of (n mod 256) # enc_nat k (n div 256)"

fun dec_nat :: "string \<Rightarrow> nat" where
  "dec_nat [] = 0"
| "dec_nat (c # cs) = of_char c + 256 * dec_nat cs"

lemma length_enc_nat [simp]: "length (enc_nat k n) = k"
  by (induction k arbitrary: n) auto

lemma dec_enc_nat: "dec_nat (enc_nat k n) = n mod 256 ^ k"
proof (induction k arbitrary: n)
  case 0
  then show ?case by simp
next
  case (Suc k)
  have "n mod 256 + 256 * (n div 256 mod 256 ^ k) = n mod (256 * 256 ^ k)"
    by (simp add: mod_mult2_eq)
  with Suc show ?case by simp
qed

lemma enc_dec_nat: "enc_nat (length cs) (dec_nat cs) = cs"
proof (induction cs)
  case Nil
  then show ?case by simp
next
  case (Cons c cs)
  have "of_char c < (256::nat)" by simp
  then have "(of_char c + 256 * dec_nat cs) mod 256 = (of_char c :: nat)"
    and "(of_char c + 256 * dec_nat cs) div 256 = dec_nat cs"
    by simp_all
  with Cons show ?case by simp
qed

lemma dec_nat_less: "dec_nat cs < 256 ^ length cs"
proof (induction cs)
  case Nil
  then show ?case by simp
next
  case (Cons c cs)
  have "of_char c + 256 * dec_nat cs < 256 + 256 * dec_nat cs" by simp
  also have "\<dots> = 256 * (dec_nat cs + 1)" by simp
  also have "\<dots> \<le> 256 * 256 ^ length cs"
    using Cons by (intro mult_le_mono2) simp
  finally show ?case by simp
qed

definition enc_word :: "'a::len word \<Rightarrow> string" where
  "enc_word w = enc_nat (LENGTH('a) div 8) (unat w)"

definition dec_word :: "string \<Rightarrow> 'a::len word" where
  "dec_word cs = word_of_nat (dec_nat cs)"

lemma dec_enc_word:
  assumes "8 * (LENGTH('a) div 8) = LENGTH('a)"
  shows "dec_word (enc_word (w :: 'a::len word)) = w"
proof -
  have "(256::nat) ^ (LENGTH('a) div 8) = 2 ^ (8 * (LENGTH('a) div 8))"
    by (simp add: power_mult)
  also have "\<dots> = 2 ^ LENGTH('a)"
    using assms by simp
  finally have "(256::nat) ^ (LENGTH('a) div 8) = 2 ^ LENGTH('a)" .
  moreover have "unat w < 2 ^ LENGTH('a)"
    by (rule unsigned_less)
  ultimately show ?thesis
    by (simp add: enc_word_def dec_word_def dec_enc_nat)
qed

lemma unat_lt: "unat (w :: 'a::len word) < 2 ^ LENGTH('a)"
  by (rule unsigned_less)

lemma unat_word_of_nat: "n < 2 ^ LENGTH('a) \<Longrightarrow> unat (word_of_nat n :: 'a::len word) = n"
  by (simp add: unat_of_nat take_bit_nat_eq_self)

lemma unat_word_of_nat_64: "n < 2 ^ 64 \<Longrightarrow> unat (word_of_nat n :: 64 word) = n"
  using unat_word_of_nat [of n, where 'a = 64] by simp

lemma unat_word_of_nat_32: "n < 2 ^ 32 \<Longrightarrow> unat (word_of_nat n :: 32 word) = n"
  using unat_word_of_nat [of n, where 'a = 32] by simp

section \<open>Slices of a buffer\<close>

text \<open>The bytes at \<open>[off, off + len)\<close>, what a pointer and a size denote.\<close>

definition slice :: "nat \<Rightarrow> nat \<Rightarrow> 'a list \<Rightarrow> 'a list" where
  "slice off len xs = take len (drop off xs)"

lemma length_slice: "length (slice off len xs) = min len (length xs - off)"
  by (simp add: slice_def min.commute)

lemma length_slice_in [simp]: "off + len \<le> length xs \<Longrightarrow> length (slice off len xs) = len"
  by (simp add: length_slice)

lemma nth_slice [simp]: "i < len \<Longrightarrow> off + len \<le> length xs \<Longrightarrow> slice off len xs ! i = xs ! (off + i)"
  by (simp add: slice_def)

lemma take_slice_join: "take a xs @ slice a b xs = take (a + b) xs"
  by (simp add: slice_def take_add)

lemma slice_append_left: "off + len \<le> length xs \<Longrightarrow> slice off len (xs @ ys) = slice off len xs"
  by (simp add: slice_def)

lemma concat_slices: "concat (map (\<lambda>i. slice (i * c) c xs) [0..<n]) = take (n * c) xs"
proof (induction n)
  case 0
  then show ?case by simp
next
  case (Suc n)
  then show ?case by (simp add: take_slice_join add.commute)
qed

text \<open>Writing a block into a buffer at an offset, as \<^verbatim>\<open>memcpy\<close> into a mapped file does.\<close>

definition splice :: "nat \<Rightarrow> 'a list \<Rightarrow> 'a list \<Rightarrow> 'a list" where
  "splice off d xs = take off xs @ d @ drop (off + length d) xs"

lemma length_splice [simp]: "off + length d \<le> length xs \<Longrightarrow> length (splice off d xs) = length xs"
  by (simp add: splice_def)

lemma nth_splice:
  "off + length d \<le> length xs \<Longrightarrow> i < length xs \<Longrightarrow>
   splice off d xs ! i = (if off \<le> i \<and> i < off + length d then d ! (i - off) else xs ! i)"
  by (auto simp: splice_def nth_append min_def)

section \<open>Decimal text\<close>

text \<open>What \<^verbatim>\<open>isspace\<close> accepts, and a stream skips before it reads.\<close>

definition is_blank :: "char \<Rightarrow> bool" where
  "is_blank c \<longleftrightarrow> c \<in> {CHR '' '', CHR 0x09, CHR 0x0A, CHR 0x0B, CHR 0x0C, CHR 0x0D}"

text \<open>
  \<^verbatim>\<open>std::to_string\<close> and \<^verbatim>\<open>operator<<\<close> print an unsigned integer in decimal with no
  leading zero.
\<close>

definition digit_char :: "nat \<Rightarrow> char" where
  "digit_char d = char_of (48 + d)"

fun decimal :: "nat \<Rightarrow> string" where
  "decimal n = (if n < 10 then [digit_char n] else decimal (n div 10) @ [digit_char (n mod 10)])"

declare decimal.simps [simp del]

text \<open>The text of an \<^verbatim>\<open>int\<close>, as \<^verbatim>\<open>%d\<close> prints it.\<close>

definition int_text :: "32 word \<Rightarrow> string" where
  "int_text n = (if sint n < 0 then ''-'' @ decimal (nat (- sint n)) else decimal (nat (sint n)))"

definition is_digit :: "char \<Rightarrow> bool" where
  "is_digit c \<longleftrightarrow> 48 \<le> (of_char c :: nat) \<and> (of_char c :: nat) \<le> 57"

definition digit_val :: "char \<Rightarrow> nat" where
  "digit_val c = of_char c - 48"

lemma digit_char_props:
  "d < 10 \<Longrightarrow> is_digit (digit_char d)" "d < 10 \<Longrightarrow> digit_val (digit_char d) = d"
  by (simp_all add: is_digit_def digit_val_def digit_char_def)

lemma decimal_not_Nil [simp]: "decimal n \<noteq> []"
  by (subst decimal.simps) simp

lemma decimal_digits: "c \<in> set (decimal n) \<Longrightarrow> is_digit c"
proof (induction n rule: decimal.induct)
  case (1 n)
  then show ?case
    by (cases "n < 10") (auto simp: decimal.simps [of n] digit_char_props)
qed

definition num_value :: "string \<Rightarrow> nat" where
  "num_value s = foldl (\<lambda>a c. 10 * a + digit_val c) 0 s"

lemma num_value_snoc: "num_value (s @ [c]) = 10 * num_value s + digit_val c"
  by (simp add: num_value_def)

lemma num_value_decimal [simp]: "num_value (decimal n) = n"
proof (induction n rule: decimal.induct)
  case (1 n)
  show ?case
  proof (cases "n < 10")
    case True
    then show ?thesis
      by (subst decimal.simps) (simp add: num_value_def digit_char_props)
  next
    case False
    then have "num_value (decimal n) = 10 * num_value (decimal (n div 10)) + digit_val (digit_char (n mod 10))"
      by (subst decimal.simps) (simp add: num_value_snoc)
    also have "\<dots> = 10 * (n div 10) + n mod 10"
      using 1 [OF False] by (simp add: digit_char_props)
    finally show ?thesis by simp
  qed
qed

lemma decimal_inj: "decimal m = decimal n \<Longrightarrow> m = n"
  by (metis num_value_decimal)

lemma decimal_eq_iff [simp]: "decimal m = decimal n \<longleftrightarrow> m = n"
  by (auto dest: decimal_inj)

end
