(* ===== verification/Messages.thy ===== *)
theory Messages
  imports Prelude
begin

text \<open>
  The wire format of \<^verbatim>\<open>libtools/network/masks\<close>: the basic blocks of \<^verbatim>\<open>blocks.hh\<close>, the
  message structs of \<^verbatim>\<open>messages.hh\<close> and the error codes of \<^verbatim>\<open>network.hh\<close>. A packed struct
  is a record with its image (\<open>enc_\<close>) and the fields a cast pointer reads (\<open>dec_\<close>, at the
  offsets the packing gives). The locale \<open>packed\<close> is the contract between writer and
  reader; it is interpreted for every struct, and arrays of structs are handled once in it.
\<close>

section \<open>Basic blocks\<close>

type_synonym fid_type = "64 word"
type_synonym fsize_type = "64 word"
type_synonym avspace_type = "64 word"
type_synonym partnum_type = "32 word"
type_synonym size_type = "32 word"
type_synonym stid_type = "32 word"
type_synonym mtid_type = "32 word"
type_synonym port_type = "16 word"
type_synonym rdcy_type = "8 word"
type_synonym fromto_type = "8 word"
type_synonym what_type = "8 word"

definition ipv6_type_size :: nat where "ipv6_type_size = 16"
definition sha1_type_size :: nat where "sha1_type_size = 20"

record ADDR =
  addr_ipv6 :: string
  addr_port :: port_type

record PARTID =
  partid_fid :: fid_type
  partid_partnum :: partnum_type

record STPFIELD =
  stp_addr :: ADDR
  stp_nb :: partnum_type

record MTYPE =
  type_fromto :: fromto_type
  type_what :: what_type

record PACKET_HEADER =
  hdr_size :: size_type
  hdr_type :: MTYPE

text \<open>The fixed-size arrays inside a struct hold exactly their size.\<close>

definition wf_ADDR :: "ADDR \<Rightarrow> bool" where
  "wf_ADDR a \<longleftrightarrow> length (addr_ipv6 a) = ipv6_type_size"

definition wf_STPFIELD :: "STPFIELD \<Rightarrow> bool" where
  "wf_STPFIELD s \<longleftrightarrow> wf_ADDR (stp_addr s)"

definition sizeof_ADDR :: nat where "sizeof_ADDR = 18"
definition sizeof_PARTID :: nat where "sizeof_PARTID = 12"
definition sizeof_STPFIELD :: nat where "sizeof_STPFIELD = 22"
definition sizeof_PACKET_HEADER :: nat where "sizeof_PACKET_HEADER = 6"

lemmas sizeof_defs = ipv6_type_size_def sha1_type_size_def sizeof_ADDR_def sizeof_PARTID_def
  sizeof_STPFIELD_def sizeof_PACKET_HEADER_def

definition enc_ADDR :: "ADDR \<Rightarrow> string" where
  "enc_ADDR a = addr_ipv6 a @ enc_word (addr_port a)"

definition dec_ADDR :: "string \<Rightarrow> ADDR" where
  "dec_ADDR buf = \<lparr>addr_ipv6 = slice 0 16 buf, addr_port = dec_word (slice 16 2 buf)\<rparr>"

definition enc_PARTID :: "PARTID \<Rightarrow> string" where
  "enc_PARTID p = enc_word (partid_fid p) @ enc_word (partid_partnum p)"

definition dec_PARTID :: "string \<Rightarrow> PARTID" where
  "dec_PARTID buf = \<lparr>partid_fid = dec_word (slice 0 8 buf), partid_partnum = dec_word (slice 8 4 buf)\<rparr>"

definition enc_STPFIELD :: "STPFIELD \<Rightarrow> string" where
  "enc_STPFIELD s = enc_ADDR (stp_addr s) @ enc_word (stp_nb s)"

definition dec_STPFIELD :: "string \<Rightarrow> STPFIELD" where
  "dec_STPFIELD buf = \<lparr>stp_addr = dec_ADDR buf, stp_nb = dec_word (slice 18 4 buf)\<rparr>"

definition enc_PACKET_HEADER :: "PACKET_HEADER \<Rightarrow> string" where
  "enc_PACKET_HEADER h =
     enc_word (hdr_size h) @ enc_word (type_fromto (hdr_type h)) @ enc_word (type_what (hdr_type h))"

definition dec_PACKET_HEADER :: "string \<Rightarrow> PACKET_HEADER" where
  "dec_PACKET_HEADER buf =
     \<lparr>hdr_size = dec_word (slice 0 4 buf),
      hdr_type = \<lparr>type_fromto = dec_word (slice 4 1 buf), type_what = dec_word (slice 5 1 buf)\<rparr>\<rparr>"

section \<open>The contract of a packed struct\<close>

text \<open>Reading \<open>n\<close> structs that lie one after the other, as \<^verbatim>\<open>stplist[0]\<close> to \<^verbatim>\<open>stplist[n-1]\<close>.\<close>

definition array_of :: "nat \<Rightarrow> (string \<Rightarrow> 'a) \<Rightarrow> nat \<Rightarrow> string \<Rightarrow> 'a list" where
  "array_of sz dec n buf = map (\<lambda>i. dec (drop (i * sz) buf)) [0..<n]"

text \<open>
  Reading a struct through a cast pointer is defined only inside the buffer; the code
  never checks it.
\<close>

definition view :: "nat \<Rightarrow> (string \<Rightarrow> 'a) \<Rightarrow> string \<Rightarrow> 'a res" where
  "view sz dec buf = (if length buf < sz then Inl Undefined else Inr (dec buf))"

locale packed =
  fixes sz :: nat
    and enc :: "'a \<Rightarrow> string"
    and dec :: "string \<Rightarrow> 'a"
    and valid :: "'a \<Rightarrow> bool"
  assumes enc_size: "valid x \<Longrightarrow> length (enc x) = sz"
    and dec_enc: "valid x \<Longrightarrow> dec (enc x @ rest) = x"
begin

lemma dec_enc_exact: "valid x \<Longrightarrow> dec (enc x) = x"
  using dec_enc [of x "[]"] by simp

lemma view_enc: "valid x \<Longrightarrow> view sz dec (enc x @ rest) = Inr x"
  by (simp add: view_def enc_size dec_enc)

lemma array_size: "list_all valid xs \<Longrightarrow> length (concat (map enc xs)) = length xs * sz"
  by (induction xs) (auto simp: enc_size)

lemma drop_array:
  "list_all valid xs \<Longrightarrow> i < length xs \<Longrightarrow>
   drop (i * sz) (concat (map enc xs) @ rest) = enc (xs ! i) @ concat (map enc (drop (Suc i) xs)) @ rest"
proof (induction xs arbitrary: i)
  case Nil
  then show ?case by simp
next
  case (Cons x xs)
  show ?case
  proof (cases i)
    case 0
    then show ?thesis by simp
  next
    case (Suc j)
    have "length (enc x) = sz" using Cons.prems by (simp add: enc_size)
    with Suc Cons show ?thesis by simp
  qed
qed

lemma array_of_enc:
  assumes "list_all valid xs" "n = length xs"
  shows "array_of sz dec n (concat (map enc xs) @ rest) = xs"
proof -
  have "dec (drop (i * sz) (concat (map enc xs) @ rest)) = xs ! i" if "i < length xs" for i
    unfolding drop_array [OF assms(1) that]
    using that assms(1) by (intro dec_enc) (simp add: list_all_length)
  then show ?thesis
    by (intro nth_equalityI) (simp_all add: array_of_def assms(2) del: drop_append)
qed

end

named_theorems codec_simps \<comment> \<open>computing the fields of an image\<close>

lemma length_enc_words [codec_simps]:
  "length (enc_word (w8 :: 8 word)) = 1"
  "length (enc_word (w16 :: 16 word)) = 2"
  "length (enc_word (w32 :: 32 word)) = 4"
  "length (enc_word (w64 :: 64 word)) = 8"
  by (simp_all add: enc_word_def)

lemma dec_enc_words [codec_simps]:
  "dec_word (enc_word (w8 :: 8 word)) = w8"
  "dec_word (enc_word (w16 :: 16 word)) = w16"
  "dec_word (enc_word (w32 :: 32 word)) = w32"
  "dec_word (enc_word (w64 :: 64 word)) = w64"
  by (simp_all add: dec_enc_word)

lemma slice_here [codec_simps]: "length xs = n \<Longrightarrow> slice 0 n (xs @ ys) = xs"
  by (simp add: slice_def)

lemma slice_here_exact [codec_simps]: "length xs = n \<Longrightarrow> slice 0 n xs = xs"
  by (simp add: slice_def)

lemma slice_later [codec_simps]:
  "length xs \<le> off \<Longrightarrow> slice off n (xs @ ys) = slice (off - length xs) n ys"
  by (simp add: slice_def)

interpretation addr: packed sizeof_ADDR enc_ADDR dec_ADDR wf_ADDR
  by unfold_locales
    (simp_all add: enc_ADDR_def dec_ADDR_def wf_ADDR_def sizeof_defs codec_simps)

interpretation partid: packed sizeof_PARTID enc_PARTID dec_PARTID "\<lambda>_. True"
  by unfold_locales
    (simp_all add: enc_PARTID_def dec_PARTID_def sizeof_defs codec_simps)

lemma length_enc_ADDR [codec_simps]: "wf_ADDR a \<Longrightarrow> length (enc_ADDR a) = 18"
  using addr.enc_size by (simp add: sizeof_ADDR_def)

lemma length_enc_PARTID [codec_simps]: "length (enc_PARTID p) = 12"
  using partid.enc_size by (simp add: sizeof_PARTID_def)

interpretation stpfield: packed sizeof_STPFIELD enc_STPFIELD dec_STPFIELD wf_STPFIELD
  by unfold_locales
    (simp_all add: enc_STPFIELD_def dec_STPFIELD_def wf_STPFIELD_def sizeof_defs codec_simps addr.dec_enc)

interpretation header: packed sizeof_PACKET_HEADER enc_PACKET_HEADER dec_PACKET_HEADER "\<lambda>_. True"
  by unfold_locales
    (simp_all add: enc_PACKET_HEADER_def dec_PACKET_HEADER_def sizeof_defs codec_simps)


section \<open>Error codes and acknowledgements\<close>

datatype error_code =
    success | error | file_not_found | hash_failed | invalid_packet
  | missing_storage | incomplete_file | redundancy

fun error_code_value :: "error_code \<Rightarrow> 8 word" where
  "error_code_value success = 0"
| "error_code_value error = 1"
| "error_code_value file_not_found = 3"
| "error_code_value hash_failed = 4"
| "error_code_value invalid_packet = 5"
| "error_code_value missing_storage = 6"
| "error_code_value incomplete_file = 7"
| "error_code_value redundancy = 11"

text \<open>The comparison of the scoped enumeration is that of its \<^verbatim>\<open>uint8_t\<close> values.\<close>

instantiation error_code :: linorder
begin

definition less_eq_error_code :: "error_code \<Rightarrow> error_code \<Rightarrow> bool" where
  "less_eq_error_code a b \<longleftrightarrow> error_code_value a \<le> error_code_value b"

definition less_error_code :: "error_code \<Rightarrow> error_code \<Rightarrow> bool" where
  "less_error_code a b \<longleftrightarrow> error_code_value a < error_code_value b"

instance
proof
  fix a b c :: error_code
  show "a < b \<longleftrightarrow> a \<le> b \<and> \<not> b \<le> a"
    by (auto simp: less_error_code_def less_eq_error_code_def)
  show "a \<le> a"
    by (simp add: less_eq_error_code_def)
  show "a \<le> b \<Longrightarrow> b \<le> c \<Longrightarrow> a \<le> c"
    by (simp add: less_eq_error_code_def)
  show "a \<le> b \<Longrightarrow> b \<le> a \<Longrightarrow> a = b"
    unfolding less_eq_error_code_def by (cases a; cases b; simp add: word_le_nat_alt)
  show "a \<le> b \<or> b \<le> a"
    by (auto simp: less_eq_error_code_def)
qed

end

lemma error_code_value_inj: "error_code_value a = error_code_value b \<Longrightarrow> a = b"
  by (rule order_antisym) (simp_all add: less_eq_error_code_def)

datatype keep_alive = KA_Yes | KA_No

definition ack_w :: what_type where "ack_w = 0"

section \<open>Who talks to whom, and about what\<close>

definition c_m_fromto :: fromto_type where "c_m_fromto = 0"
definition m_c_fromto :: fromto_type where "m_c_fromto = 1"
definition c_s_fromto :: fromto_type where "c_s_fromto = 2"
definition s_c_fromto :: fromto_type where "s_c_fromto = 3"
definition m_s_fromto :: fromto_type where "m_s_fromto = 4"
definition s_m_fromto :: fromto_type where "s_m_fromto = 5"
definition m_m_fromto :: fromto_type where "m_m_fromto = 6"
definition s_s_fromto :: fromto_type where "s_s_fromto = 7"

lemmas fromto_defs = c_m_fromto_def m_c_fromto_def c_s_fromto_def s_c_fromto_def
  m_s_fromto_def s_m_fromto_def m_m_fromto_def s_s_fromto_def

definition up_req_w :: what_type where "up_req_w = 1"
definition down_req_w :: what_type where "down_req_w = 2"
definition del_req_w :: what_type where "del_req_w = 3"
definition file_ack_w :: what_type where "file_ack_w = 4"
definition up_pieces_loc_w :: what_type where "up_pieces_loc_w = 1"
definition down_pieces_loc_w :: what_type where "down_pieces_loc_w = 2"
definition cs_up_act_w :: what_type where "cs_up_act_w = 1"
definition cs_down_act_w :: what_type where "cs_down_act_w = 2"
definition sc_up_act_w :: what_type where "sc_up_act_w = 2"
definition del_act_w :: what_type where "del_act_w = 1"
definition ms_part_ack_w :: what_type where "ms_part_ack_w = 2"
definition part_loc_w :: what_type where "part_loc_w = 3"
definition fid_info_w :: what_type where "fid_info_w = 4"
definition sm_part_ack_w :: what_type where "sm_part_ack_w = 2"
definition id_req_w :: what_type where "id_req_w = 3"
definition ss_up_act_w :: what_type where "ss_up_act_w = 1"

lemmas what_defs = ack_w_def up_req_w_def down_req_w_def del_req_w_def file_ack_w_def
  up_pieces_loc_w_def down_pieces_loc_w_def cs_up_act_w_def cs_down_act_w_def sc_up_act_w_def
  del_act_w_def ms_part_ack_w_def part_loc_w_def fid_info_w_def sm_part_ack_w_def id_req_w_def
  ss_up_act_w_def

section \<open>Message structs\<close>

text \<open>
  A struct that ends in a zero-length array is its fixed part; the trailing bytes lie at
  the offset \<open>sizeof_\<close> of the struct. Both \<^verbatim>\<open>up_act\<close> of the client, the storage's answer and
  the storage-to-storage one have the same layout.
\<close>

record up_req =
  up_req_fsize :: fsize_type
  up_req_rdcy :: rdcy_type

definition sizeof_up_req :: nat where "sizeof_up_req = 9"

definition enc_up_req :: "up_req \<Rightarrow> string" where
  "enc_up_req r = enc_word (up_req_fsize r) @ enc_word (up_req_rdcy r)"

definition dec_up_req :: "string \<Rightarrow> up_req" where
  "dec_up_req buf = \<lparr>up_req_fsize = dec_word (slice 0 8 buf), up_req_rdcy = dec_word (slice 8 1 buf)\<rparr>"

record up_act =
  up_act_partid :: PARTID
  up_act_sha1 :: string

definition sizeof_up_act :: nat where "sizeof_up_act = 32"

definition wf_up_act :: "up_act \<Rightarrow> bool" where
  "wf_up_act a \<longleftrightarrow> length (up_act_sha1 a) = sha1_type_size"

definition enc_up_act :: "up_act \<Rightarrow> string" where
  "enc_up_act a = enc_PARTID (up_act_partid a) @ up_act_sha1 a"

definition dec_up_act :: "string \<Rightarrow> up_act" where
  "dec_up_act buf = \<lparr>up_act_partid = dec_PARTID buf, up_act_sha1 = slice 12 20 buf\<rparr>"

record part_loc =
  part_loc_partid :: PARTID
  part_loc_addr :: ADDR

definition sizeof_part_loc :: nat where "sizeof_part_loc = 30"

definition enc_part_loc :: "part_loc \<Rightarrow> string" where
  "enc_part_loc l = enc_PARTID (part_loc_partid l) @ enc_ADDR (part_loc_addr l)"

definition dec_part_loc :: "string \<Rightarrow> part_loc" where
  "dec_part_loc buf = \<lparr>part_loc_partid = dec_PARTID buf, part_loc_addr = dec_ADDR (drop 12 buf)\<rparr>"

record fid_info =
  fid_info_stid :: stid_type

definition sizeof_fid_info :: nat where "sizeof_fid_info = 4"

definition enc_fid_info :: "fid_info \<Rightarrow> string" where
  "enc_fid_info i = enc_word (fid_info_stid i)"

definition dec_fid_info :: "string \<Rightarrow> fid_info" where
  "dec_fid_info buf = \<lparr>fid_info_stid = dec_word (slice 0 4 buf)\<rparr>"

record part_ack =
  part_ack_stid :: stid_type
  part_ack_partid :: PARTID
  part_ack_avspace :: avspace_type

definition sizeof_part_ack :: nat where "sizeof_part_ack = 24"

definition enc_part_ack :: "part_ack \<Rightarrow> string" where
  "enc_part_ack a = enc_word (part_ack_stid a) @ enc_PARTID (part_ack_partid a) @ enc_word (part_ack_avspace a)"

definition dec_part_ack :: "string \<Rightarrow> part_ack" where
  "dec_part_ack buf =
     \<lparr>part_ack_stid = dec_word (slice 0 4 buf), part_ack_partid = dec_PARTID (drop 4 buf),
      part_ack_avspace = dec_word (slice 16 8 buf)\<rparr>"

record id_req =
  id_req_port :: port_type
  id_req_avspace :: avspace_type

definition sizeof_id_req :: nat where "sizeof_id_req = 10"

definition enc_id_req :: "id_req \<Rightarrow> string" where
  "enc_id_req r = enc_word (id_req_port r) @ enc_word (id_req_avspace r)"

definition dec_id_req :: "string \<Rightarrow> id_req" where
  "dec_id_req buf = \<lparr>id_req_port = dec_word (slice 0 2 buf), id_req_avspace = dec_word (slice 2 8 buf)\<rparr>"

text \<open>
  The answers of the master: the file id, before it the file size for a download, and
  then the list of locations (\<^verbatim>\<open>FDETAILS\<close>).
\<close>

record fdetails =
  fdetails_fid :: fid_type
  fdetails_stplist :: "STPFIELD list"

definition enc_fdetails :: "fdetails \<Rightarrow> string" where
  "enc_fdetails d = enc_word (fdetails_fid d) @ concat (map enc_STPFIELD (fdetails_stplist d))"

definition dec_fdetails :: "nat \<Rightarrow> string \<Rightarrow> fdetails" where
  "dec_fdetails n buf =
     \<lparr>fdetails_fid = dec_word (slice 0 8 buf),
      fdetails_stplist = array_of sizeof_STPFIELD dec_STPFIELD n (drop 8 buf)\<rparr>"

lemmas sizeof_msg_defs = sizeof_up_req_def sizeof_up_act_def sizeof_part_loc_def
  sizeof_fid_info_def sizeof_part_ack_def sizeof_id_req_def

interpretation up_req: packed sizeof_up_req enc_up_req dec_up_req "\<lambda>_. True"
  by unfold_locales (simp_all add: enc_up_req_def dec_up_req_def sizeof_msg_defs codec_simps)

interpretation up_act: packed sizeof_up_act enc_up_act dec_up_act wf_up_act
  by unfold_locales
    (simp_all add: enc_up_act_def dec_up_act_def wf_up_act_def sizeof_msg_defs sizeof_defs codec_simps
      partid.dec_enc)

interpretation part_loc: packed sizeof_part_loc enc_part_loc dec_part_loc "\<lambda>l. wf_ADDR (part_loc_addr l)"
  by unfold_locales
    (simp_all add: enc_part_loc_def dec_part_loc_def sizeof_msg_defs codec_simps
      partid.dec_enc addr.dec_enc)

interpretation fid_info: packed sizeof_fid_info enc_fid_info dec_fid_info "\<lambda>_. True"
  by unfold_locales (simp_all add: enc_fid_info_def dec_fid_info_def sizeof_msg_defs codec_simps)

interpretation part_ack: packed sizeof_part_ack enc_part_ack dec_part_ack "\<lambda>_. True"
  by unfold_locales
    (simp_all add: enc_part_ack_def dec_part_ack_def sizeof_msg_defs codec_simps partid.dec_enc)

interpretation id_req: packed sizeof_id_req enc_id_req dec_id_req "\<lambda>_. True"
  by unfold_locales (simp_all add: enc_id_req_def dec_id_req_def sizeof_msg_defs codec_simps)

lemma dec_enc_fdetails:
  assumes "list_all wf_STPFIELD (fdetails_stplist d)" "n = length (fdetails_stplist d)"
  shows "dec_fdetails n (enc_fdetails d @ rest) = d"
  using assms
  by (simp add: dec_fdetails_def enc_fdetails_def codec_simps stpfield.array_of_enc)

lemma length_enc_fdetails:
  assumes "list_all wf_STPFIELD (fdetails_stplist d)"
  shows "length (enc_fdetails d) = 8 + 22 * length (fdetails_stplist d)"
  using stpfield.array_size [OF assms]
  by (simp add: enc_fdetails_def codec_simps sizeof_STPFIELD_def)

end
