(* ===== verification/Shared_Buffer.thy ===== *)
theory Shared_Buffer
  imports Prelude
begin

text \<open>
  \<^verbatim>\<open>utils::shared_buffer\<close> (\<^verbatim>\<open>libtools/utils/shared-buffer*\<close>): a buffer that owns a copy of
  its bytes or only points at bytes of somebody else. Memory is explicit here, because what
  the two kinds promise differs only in what a later write to the source does to them.
\<close>

section \<open>Memory\<close>

text \<open>Allocated blocks by number; a pointer is a block and an offset, \<open>None\<close> is null.\<close>

record memory =
  mem_block :: "nat \<Rightarrow> string"
  mem_next :: nat

type_synonym ptr = "(nat \<times> nat) option"

definition alloc :: "string \<Rightarrow> memory \<Rightarrow> nat \<times> memory" where
  "alloc bs m = (mem_next m,
     m\<lparr>mem_block := (mem_block m)(mem_next m := bs), mem_next := Suc (mem_next m)\<rparr>)"

definition read_mem :: "memory \<Rightarrow> ptr \<Rightarrow> nat \<Rightarrow> string res" where
  "read_mem m p n =
     (if n = 0 then Inr []
      else case p of
        None \<Rightarrow> Inl Undefined
      | Some (b, off) \<Rightarrow>
          (if off + n \<le> length (mem_block m b) then Inr (slice off n (mem_block m b))
           else Inl Undefined))"

definition write_mem :: "memory \<Rightarrow> nat \<Rightarrow> nat \<Rightarrow> string \<Rightarrow> memory" where
  "write_mem m b off bs = m\<lparr>mem_block := (mem_block m)(b := splice off bs (mem_block m b))\<rparr>"

section \<open>The buffer and its constructors\<close>

datatype copy = copy_Yes | copy_No

text \<open>
  The implementation object: \<^verbatim>\<open>buf_\<close>, the \<^verbatim>\<open>mutable_buffer\<close> handed to asio (an address and
  a size), and the block of the vector \<^verbatim>\<open>data_\<close> when the object is the owning one.
\<close>

record shared_buffer =
  buf_ptr :: ptr
  buf_size :: nat
  owned_block :: "nat option"

text \<open>\<^verbatim>\<open>owning_impl(const CharT*, size_t)\<close>: copy the bytes, point at the copy.\<close>

definition owning_impl :: "ptr \<Rightarrow> nat \<Rightarrow> memory \<Rightarrow> (shared_buffer \<times> memory) res" where
  "owning_impl data sz m = rbind (read_mem m data sz) (\<lambda>bs.
     (let (b, m') = alloc bs m
      in Inr (\<lparr>buf_ptr = Some (b, 0), buf_size = length bs, owned_block = Some b\<rparr>, m')))"

text \<open>\<^verbatim>\<open>owning_impl(size_t)\<close>: \<^verbatim>\<open>sz\<close> zero bytes.\<close>

definition owning_impl_size :: "nat \<Rightarrow> memory \<Rightarrow> shared_buffer \<times> memory" where
  "owning_impl_size sz m =
     (let (b, m') = alloc (replicate sz (CHR 0x00)) m
      in (\<lparr>buf_ptr = Some (b, 0), buf_size = sz, owned_block = Some b\<rparr>, m'))"

text \<open>
  \<^verbatim>\<open>owning_impl(container_type&&)\<close>: the vector is moved into \<^verbatim>\<open>data_\<close>, and \<^verbatim>\<open>buf_\<close> keeps the
  default-constructed \<^verbatim>\<open>mutable_buffer\<close>, which is null and empty.
\<close>

definition owning_impl_move :: "string \<Rightarrow> memory \<Rightarrow> shared_buffer \<times> memory" where
  "owning_impl_move container m =
     (let (b, m') = alloc container m
      in (\<lparr>buf_ptr = None, buf_size = 0, owned_block = Some b\<rparr>, m'))"

text \<open>\<^verbatim>\<open>owning_impl(size_t, CharT)\<close>: \<^verbatim>\<open>sz\<close> times the same byte.\<close>

definition owning_impl_fill :: "nat \<Rightarrow> char \<Rightarrow> memory \<Rightarrow> shared_buffer \<times> memory" where
  "owning_impl_fill sz default_char m =
     (let (b, m') = alloc (replicate sz default_char) m
      in (\<lparr>buf_ptr = Some (b, 0), buf_size = sz, owned_block = Some b\<rparr>, m'))"

text \<open>\<^verbatim>\<open>weak_impl\<close>: only the address and the sz.\<close>

definition weak_impl :: "ptr \<Rightarrow> nat \<Rightarrow> shared_buffer" where
  "weak_impl data sz = \<lparr>buf_ptr = data, buf_size = sz, owned_block = None\<rparr>"

definition shared_buffer_of :: "ptr \<Rightarrow> nat \<Rightarrow> copy \<Rightarrow> memory \<Rightarrow> (shared_buffer \<times> memory) res" where
  "shared_buffer_of data sz to_copy m =
     (if to_copy = copy_Yes then owning_impl data sz m
      else Inr (weak_impl data sz, m))"

section \<open>Accessors\<close>

definition sb_data :: "shared_buffer \<Rightarrow> ptr" where
  "sb_data b = buf_ptr b"

definition sb_size :: "shared_buffer \<Rightarrow> nat" where
  "sb_size b = buf_size b"

definition string_get :: "shared_buffer \<Rightarrow> memory \<Rightarrow> string res" where
  "string_get b m = read_mem m (sb_data b) (sb_size b)"

lemmas sb_defs = shared_buffer_of_def owning_impl_def owning_impl_size_def owning_impl_move_def
  weak_impl_def string_get_def sb_data_def sb_size_def alloc_def read_mem_def write_mem_def

section \<open>What the two kinds of buffer promise\<close>

lemma read_mem_length: "read_mem m p n = Inr bs \<Longrightarrow> length bs = n"
  by (auto simp: read_mem_def split: if_splits option.splits)

lemma owning_reads_back:
  assumes "owning_impl p n m = Inr (b, m')" "read_mem m p n = Inr bs"
  shows "string_get b m' = Inr bs"
  using assms read_mem_length [OF assms(2)]
  by (auto simp: sb_defs slice_def split: if_splits)

lemma owning_isolated:
  assumes "owning_impl p n m = Inr (b, m')" "q < mem_next m"
  shows "string_get b (write_mem m' q off d) = string_get b m'"
  using assms by (auto simp: owning_impl_def alloc_def string_get_def sb_data_def sb_size_def
      read_mem_def write_mem_def result_simps)

text \<open>
  A buffer made with \<^verbatim>\<open>copy::Yes\<close> denotes the bytes the source held at that moment,
  whatever is written to any block that existed before; one made with \<^verbatim>\<open>copy::No\<close> denotes
  what the source holds when it is read.
\<close>

lemma copy_isolates_weak_aliases:
  assumes "read_mem m p n = Inr bs" "q < mem_next m"
  shows "(\<exists>b m'. shared_buffer_of p n copy_Yes m = Inr (b, m')
           \<and> string_get b (write_mem m' q off d) = Inr bs)
    \<and> (\<exists>b. shared_buffer_of p n copy_No m = Inr (b, m)
           \<and> string_get b (write_mem m q off d) = read_mem (write_mem m q off d) p n)"
proof -
  obtain b m' where c: "owning_impl p n m = Inr (b, m')"
    using assms(1) by (auto simp: owning_impl_def alloc_def)
  have "string_get b (write_mem m' q off d) = Inr bs"
    using owning_isolated [OF c assms(2)] owning_reads_back [OF c assms(1)] by simp
  with c show ?thesis
    by (auto simp: shared_buffer_of_def weak_impl_def string_get_def sb_data_def sb_size_def)
qed

lemma copy_isolates_weak_aliases_witness:
  "let m = \<lparr>mem_block = (\<lambda>_. ''abcd''), mem_next = 1\<rparr>; m2 = write_mem m 0 1 ''z''
   in (\<exists>b m'. shared_buffer_of (Some (0, 1)) 2 copy_Yes m = Inr (b, m')
         \<and> string_get b (write_mem m' 0 1 ''z'') = Inr ''bc'')
    \<and> (\<exists>b. shared_buffer_of (Some (0, 1)) 2 copy_No m = Inr (b, m) \<and> string_get b m2 = Inr ''zc'')"
proof -
  let ?m = "\<lparr>mem_block = (\<lambda>_. ''abcd''), mem_next = 1\<rparr>"
  have 1: "read_mem ?m (Some (0, 1)) 2 = Inr ''bc''" by (simp add: read_mem_def slice_def)
  have 2: "0 < mem_next ?m" by simp
  have 3: "read_mem (write_mem ?m 0 1 ''z'') (Some (0, 1)) 2 = Inr ''zc''"
    by (simp add: read_mem_def write_mem_def slice_def splice_def)
  from copy_isolates_weak_aliases [OF 1 2, of 1 "''z''"] show ?thesis
    by (simp only: Let_def 3)
qed

lemma moved_buffer_is_empty:
  "owning_impl_move c m = (b, m') \<Longrightarrow> sb_size b = 0 \<and> string_get b m'' = Inr []"
  by (auto simp: owning_impl_move_def alloc_def sb_size_def string_get_def read_mem_def)

lemma sized_buffer_is_zeros:
  "owning_impl_size n m = (b, m') \<Longrightarrow> string_get b m' = Inr (replicate n (CHR 0x00))"
  by (auto simp: sb_defs slice_def)

end
