(* ===== verification/Packet.thy ===== *)
theory Packet
  imports Messages Shared_Buffer
begin

text \<open>
  \<^verbatim>\<open>network::Packet\<close> (\<^verbatim>\<open>libtools/network/packet.cc\<close>, \<^verbatim>\<open>packet.hxx\<close>): a header and a
  sequence of messages. A message is represented by the bytes its buffer denotes; what a
  buffer denotes is the business of the theory of shared buffers.
\<close>

section \<open>The packet\<close>

record Packet =
  pkt_header :: PACKET_HEADER
  pkt_messages :: "string list"

definition mk_header :: "size_type \<Rightarrow> fromto_type \<Rightarrow> what_type \<Rightarrow> PACKET_HEADER" where
  "mk_header sz fromto what =
     \<lparr>hdr_size = sz, hdr_type = \<lparr>type_fromto = fromto, type_what = what\<rparr>\<rparr>"

text \<open>\<^verbatim>\<open>Packet(size, fromto, what, data)\<close>: the first \<open>size\<close> bytes at \<open>data\<close>.\<close>

definition packet_of_data :: "size_type \<Rightarrow> fromto_type \<Rightarrow> what_type \<Rightarrow> string \<Rightarrow> Packet res" where
  "packet_of_data sz fromto what data =
     rbind (view (unat sz) (take (unat sz)) data) (\<lambda>message.
       Inr \<lparr>pkt_header = mk_header sz fromto what, pkt_messages = [message]\<rparr>)"

text \<open>\<^verbatim>\<open>Packet(fromto, what, message)\<close>: the size is cast to 32 bits.\<close>

definition packet_of_message :: "fromto_type \<Rightarrow> what_type \<Rightarrow> string \<Rightarrow> Packet" where
  "packet_of_message fromto what message =
     \<lparr>pkt_header = mk_header (word_of_nat (length message)) fromto what, pkt_messages = [message]\<rparr>"

text \<open>
  \<^verbatim>\<open>Packet(fromto, what, vector&&)\<close>: the header takes the vector's size, then the message
  buffer is built by moving the vector into it.
\<close>

definition packet_of_vector :: "fromto_type \<Rightarrow> what_type \<Rightarrow> string \<Rightarrow> memory \<Rightarrow> (Packet \<times> memory) res" where
  "packet_of_vector fromto what data m =
     (let (b, m') = owning_impl_move data m
      in rbind (string_get b m') (\<lambda>message.
           Inr (\<lparr>pkt_header = mk_header (word_of_nat (length data)) fromto what,
                 pkt_messages = [message]\<rparr>, m')))"

definition packet_of_header :: "PACKET_HEADER \<Rightarrow> Packet" where
  "packet_of_header h = \<lparr>pkt_header = h, pkt_messages = []\<rparr>"

definition packet_empty :: "fromto_type \<Rightarrow> what_type \<Rightarrow> Packet" where
  "packet_empty fromto what = \<lparr>pkt_header = mk_header 0 fromto what, pkt_messages = []\<rparr>"

text \<open>\<^verbatim>\<open>header_.size += message.size()\<close> is an addition modulo \<open>2\<^sup>3\<^sup>2\<close>.\<close>

definition add_message :: "string \<Rightarrow> Packet \<Rightarrow> Packet" where
  "add_message message p =
     p\<lparr>pkt_messages := pkt_messages p @ [message],
       pkt_header := (pkt_header p)\<lparr>hdr_size := hdr_size (pkt_header p) + word_of_nat (length message)\<rparr>\<rparr>"

definition copy_message :: "string \<Rightarrow> Packet \<Rightarrow> Packet" where
  "copy_message message p = add_message message p"

definition size_get :: "Packet \<Rightarrow> size_type" where
  "size_get p = hdr_size (pkt_header p)"

definition fromto_get :: "Packet \<Rightarrow> fromto_type" where
  "fromto_get p = type_fromto (hdr_type (pkt_header p))"

definition what_get :: "Packet \<Rightarrow> what_type" where
  "what_get p = type_what (hdr_type (pkt_header p))"

definition message_seq_get :: "Packet \<Rightarrow> string list" where
  "message_seq_get p = pkt_messages p"

definition serialize_header :: "Packet \<Rightarrow> string" where
  "serialize_header p = enc_PACKET_HEADER (pkt_header p)"

definition empty_message :: "size_type \<Rightarrow> string" where
  "empty_message sz = replicate (unat sz) (CHR 0x00)"

text \<open>\<^verbatim>\<open>operator<<(ostream, Packet)\<close>\<close>

definition show_packet :: "Packet \<Rightarrow> string" where
  "show_packet p =
     ''{s: '' @ decimal (unat (size_get p)) @ '', f: '' @ decimal (unat (fromto_get p)) @
     '', w: '' @ decimal (unat (what_get p)) @ ''}''"

text \<open>\<^verbatim>\<open>fromto_inverse\<close>: the \<^verbatim>\<open>default\<close> branch is \<^verbatim>\<open>assert(!"Invalid fromto")\<close>.\<close>

definition fromto_inverse :: "fromto_type \<Rightarrow> fromto_type res" where
  "fromto_inverse fromto =
     (if fromto = c_m_fromto then Inr m_c_fromto
      else if fromto = m_c_fromto then Inr c_m_fromto
      else if fromto = c_s_fromto then Inr s_c_fromto
      else if fromto = s_c_fromto then Inr c_s_fromto
      else if fromto = s_m_fromto then Inr m_s_fromto
      else if fromto = m_s_fromto then Inr s_m_fromto
      else Inl Undefined)"

text \<open>
  The bytes behind \<^verbatim>\<open>message_seq_get().front().data()\<close>, the pointer every handler casts. On
  an empty sequence \<^verbatim>\<open>front()\<close> is undefined.
\<close>

definition front_data :: "Packet \<Rightarrow> string res" where
  "front_data p = (case message_seq_get p of [] \<Rightarrow> Inl Undefined | m # _ \<Rightarrow> Inr m)"

text \<open>What \<^verbatim>\<open>send\<close> puts on the wire: the serialized header, then the messages.\<close>

definition packet_bytes :: "Packet \<Rightarrow> string" where
  "packet_bytes p = concat (serialize_header p # message_seq_get p)"

named_theorems packet_simps

lemma packet_gets [packet_simps]:
  "size_get (packet_empty ft w) = 0" "fromto_get (packet_empty ft w) = ft"
  "what_get (packet_empty ft w) = w" "message_seq_get (packet_empty ft w) = []"
  "size_get (add_message m p) = size_get p + word_of_nat (length m)"
  "fromto_get (add_message m p) = fromto_get p" "what_get (add_message m p) = what_get p"
  "message_seq_get (add_message m p) = message_seq_get p @ [m]"
  "size_get (packet_of_message ft w m) = word_of_nat (length m)"
  "fromto_get (packet_of_message ft w m) = ft" "what_get (packet_of_message ft w m) = w"
  "message_seq_get (packet_of_message ft w m) = [m]"
  by (simp_all add: size_get_def fromto_get_def what_get_def message_seq_get_def packet_empty_def
      add_message_def packet_of_message_def mk_header_def)

lemma header_by_gets: "pkt_header p = mk_header (size_get p) (fromto_get p) (what_get p)"
  by (simp add: mk_header_def size_get_def fromto_get_def what_get_def)

lemma length_serialize_header [simp]: "length (serialize_header p) = 6"
  using header.enc_size by (simp add: serialize_header_def sizeof_PACKET_HEADER_def)

section \<open>The size in the header\<close>

text \<open>The invariant of a packet: the header counts the bytes of the messages.\<close>

definition payload :: "Packet \<Rightarrow> string" where
  "payload p = concat (message_seq_get p)"

definition packet_ok :: "Packet \<Rightarrow> bool" where
  "packet_ok p \<longleftrightarrow> size_get p = word_of_nat (length (payload p))"

lemma packet_ok_empty [simp]: "packet_ok (packet_empty ft w)"
  by (simp add: packet_ok_def payload_def packet_simps)

lemma packet_ok_add [simp]: "packet_ok p \<Longrightarrow> packet_ok (add_message m p)"
  by (simp add: packet_ok_def payload_def packet_simps)

lemma packet_ok_message [simp]: "packet_ok (packet_of_message ft w m)"
  by (simp add: packet_ok_def payload_def packet_simps)

lemma payload_add [packet_simps]: "payload (add_message m p) = payload p @ m"
  by (simp add: payload_def packet_simps)

lemma payload_empty [packet_simps]: "payload (packet_empty ft w) = []"
  by (simp add: payload_def packet_simps)

lemma packet_bytes_payload: "packet_bytes p = serialize_header p @ payload p"
  by (simp add: packet_bytes_def payload_def)

lemma fold_add_message:
  "packet_ok p \<Longrightarrow>
   packet_ok (fold add_message ms p) \<and> payload (fold add_message ms p) = payload p @ concat ms
   \<and> fromto_get (fold add_message ms p) = fromto_get p \<and> what_get (fold add_message ms p) = what_get p"
  by (induction ms arbitrary: p) (simp_all add: packet_simps)

text \<open>
  However a packet is filled with \<^verbatim>\<open>add_message\<close>, its header announces the total
  number of message bytes modulo \<open>2\<^sup>3\<^sup>2\<close>, the bytes come in the order they were added, and the
  type in the header is the one it was created with.
\<close>

lemma add_messages_header:
  "size_get (fold add_message ms (packet_empty ft w)) = word_of_nat (sum_list (map length ms))
   \<and> packet_bytes (fold add_message ms (packet_empty ft w))
       = enc_PACKET_HEADER (mk_header (word_of_nat (sum_list (map length ms))) ft w) @ concat ms"
proof -
  let ?p = "fold add_message ms (packet_empty ft w)"
  have ok: "packet_ok ?p" and pl: "payload ?p = concat ms"
    and ft: "fromto_get ?p = ft" and wh: "what_get ?p = w"
    using fold_add_message [of "packet_empty ft w" ms] by (simp_all add: packet_simps)
  have size: "size_get ?p = word_of_nat (sum_list (map length ms))"
    using ok by (simp add: packet_ok_def pl length_concat)
  show ?thesis
    by (simp add: packet_bytes_payload pl serialize_header_def header_by_gets size ft wh)
qed

text \<open>
  A packet built from a moved vector announces the vector's size in its header and
  carries no byte of it: the moved-from constructor of the owning buffer leaves the buffer
  that is sent empty.
\<close>

lemma packet_of_vector_loses_data:
  "\<exists>p m'. packet_of_vector ft w data m = Inr (p, m')
     \<and> size_get p = word_of_nat (length data) \<and> payload p = []"
  by (simp add: packet_of_vector_def owning_impl_move_def alloc_def string_get_def sb_data_def
      sb_size_def read_mem_def size_get_def mk_header_def payload_def message_seq_get_def)

section \<open>The reverse direction\<close>

lemma fromto_inverse_Undefined: "fromto_inverse x = Inl Undefined \<longleftrightarrow> 6 \<le> unat x"
proof -
  have "6 \<le> unat x \<longleftrightarrow> x \<noteq> 0 \<and> x \<noteq> 1 \<and> x \<noteq> 2 \<and> x \<noteq> 3 \<and> x \<noteq> 4 \<and> x \<noteq> 5"
    by (auto simp: word_unat_eq_iff)
  then show ?thesis
    by (auto simp: fromto_inverse_def fromto_defs)
qed

lemma fromto_inverse_defined: "unat x < 6 \<Longrightarrow> \<exists>y. fromto_inverse x = Inr y"
  using fromto_inverse_Undefined [of x] by (auto simp: fromto_inverse_def split: if_splits)

text \<open>
  \<^verbatim>\<open>fromto_inverse\<close> is defined exactly on the six directions between two different
  kinds of program; there it is an involution that exchanges the two ends. On a
  master-to-master or storage-to-storage packet, or any other byte, it runs into its
  assertion.
\<close>

lemma fromto_inverse_involution:
  "(fromto_inverse x = Inl Undefined \<longleftrightarrow> 6 \<le> unat x)
   \<and> (fromto_inverse x = Inr y \<longleftrightarrow> fromto_inverse y = Inr x)
   \<and> fromto_inverse x \<noteq> Inr x"
proof (intro conjI)
  show "fromto_inverse x = Inl Undefined \<longleftrightarrow> 6 \<le> unat x"
    by (rule fromto_inverse_Undefined)
  show "fromto_inverse x = Inr y \<longleftrightarrow> fromto_inverse y = Inr x"
    by (auto simp: fromto_inverse_def fromto_defs split: if_splits)
  show "fromto_inverse x \<noteq> Inr x"
    by (simp add: fromto_inverse_def fromto_defs)
qed

end
