(* ===== verification/Session.thy ===== *)
theory Session
  imports Packet
begin

text \<open>
  \<^verbatim>\<open>network::Session\<close> and the free functions over it (\<^verbatim>\<open>libtools/network/session.cc\<close>,
  \<^verbatim>\<open>session.hxx\<close>): sending a packet, receiving one, the receive loop that a dispatcher keeps
  alive, and acknowledgements.

  The socket is the byte stream of a TCP connection: \<open>ses_inbox\<close> holds the bytes the peer
  sends on it until it closes it and that have not been read, \<open>ses_outbox\<close> the bytes
  written, and \<open>ses_open\<close> tells whether writing works. A read that asks for more than the
  peer sends fails, as does a write on a broken connection; the code logs both.
\<close>

section \<open>The session\<close>

record session =
  ses_id :: nat
  ses_remote :: string
  ses_inbox :: string
  ses_outbox :: string
  ses_open :: bool

text \<open>
  A computation on a session also has the state of the program around it, so that the
  callbacks it runs can change that.
\<close>

type_synonym 'w conn = "session \<times> 'w"
type_synonym 'w dispatcher = "Packet \<Rightarrow> ('w conn, keep_alive) act"

definition session_create :: "nat \<Rightarrow> string \<Rightarrow> string \<Rightarrow> session" where
  "session_create i remote inbox =
     \<lparr>ses_id = i, ses_remote = remote, ses_inbox = inbox, ses_outbox = [], ses_open = True\<rparr>"

text \<open>\<^verbatim>\<open>Session::unique_id\<close>: the static counter and the id handed out.\<close>

definition first_unique_id :: "64 word" where "first_unique_id = 1"

definition unique_id :: "64 word \<Rightarrow> 64 word \<times> 64 word" where
  "unique_id c = (c, c + 1)"

fun take_ids :: "nat \<Rightarrow> 64 word \<Rightarrow> 64 word list" where
  "take_ids 0 c = []"
| "take_ids (Suc n) c = (let (i, c') = unique_id c in i # take_ids n c')"

definition same_session :: "session \<Rightarrow> session \<Rightarrow> bool" where
  "same_session lhs rhs \<longleftrightarrow> ses_id lhs = ses_id rhs"

text \<open>A computation on the state of the program alone.\<close>

definition on_world :: "('w, 'a) act \<Rightarrow> ('w conn, 'a) act" where
  "on_world m = (\<lambda>(s, w). case m w of (r, w') \<Rightarrow> (r, (s, w')))"

lemma on_world_run [act_simps]: "on_world m (s, w) = (case m w of (r, w') \<Rightarrow> (r, (s, w')))"
  by (simp add: on_world_def)

section \<open>Sending\<close>

definition write_socket :: "string \<Rightarrow> ('w conn, bool) act" where
  "write_socket bs = (\<lambda>(s, w).
     if ses_open s then (Inr True, (s\<lparr>ses_outbox := ses_outbox s @ bs\<rparr>, w))
     else (Inr False, (s, w)))"

text \<open>
  \<^verbatim>\<open>blocking_send\<close>: the callback runs only after a successful write, and inside the same
  \<^verbatim>\<open>try\<close>, so a standard exception it throws is logged and swallowed.
\<close>

definition blocking_send_with :: "Packet \<Rightarrow> 'w dispatcher \<Rightarrow> ('w conn, unit) act" where
  "blocking_send_with packet callback =
     catching is_std_exception
       (bnd (write_socket (packet_bytes packet)) (\<lambda>written.
          if written then bnd (callback packet) (\<lambda>_. ret ()) else ret ()))
       (\<lambda>e. ret ())"

definition blocking_send :: "Packet \<Rightarrow> ('w conn, unit) act" where
  "blocking_send packet = blocking_send_with packet (\<lambda>_. ret KA_No)"

text \<open>
  \<^verbatim>\<open>send\<close>: the asynchronous variant. The callback is given the copy of the packet into which
  the serialized header was inserted, and what it throws is not caught.
\<close>

definition send_with :: "Packet \<Rightarrow> 'w dispatcher \<Rightarrow> ('w conn, unit) act" where
  "send_with packet callback =
     (let p = packet\<lparr>pkt_messages := serialize_header packet # message_seq_get packet\<rparr>
      in bnd (write_socket (concat (message_seq_get p))) (\<lambda>written.
           if written then bnd (callback p) (\<lambda>_. ret ()) else ret ()))"

definition send :: "Packet \<Rightarrow> ('w conn, unit) act" where
  "send packet = send_with packet (\<lambda>_. ret KA_No)"

section \<open>Receiving\<close>

text \<open>\<open>read_exactly n\<close>: \<^verbatim>\<open>read(socket, buffer of n bytes)\<close>; \<open>None\<close> is the read error.\<close>

definition read_exactly :: "nat \<Rightarrow> ('w conn, string option) act" where
  "read_exactly n = (\<lambda>(s, w).
     if n \<le> length (ses_inbox s)
     then (Inr (Some (take n (ses_inbox s))), (s\<lparr>ses_inbox := drop n (ses_inbox s)\<rparr>, w))
     else (Inr None, (s\<lparr>ses_inbox := []\<rparr>, w)))"

text \<open>
  One round of \<^verbatim>\<open>blocking_receive\<close>: the header, a message of the announced size, the
  callback. \<open>None\<close> is the early return after a read error.
\<close>

definition receive_packet :: "('w conn, Packet option) act" where
  "receive_packet =
     bnd (read_exactly sizeof_PACKET_HEADER) (\<lambda>h. case h of
       None \<Rightarrow> ret None
     | Some buff \<Rightarrow>
         (let hdr = dec_PACKET_HEADER buff in
          bnd (read_exactly (unat (hdr_size hdr))) (\<lambda>m. case m of
            None \<Rightarrow> ret None
          | Some message \<Rightarrow>
              ret (Some (packet_of_message (type_fromto (hdr_type hdr)) (type_what (hdr_type hdr)) message)))))"

definition receive_round :: "'w dispatcher \<Rightarrow> ('w conn, keep_alive) act" where
  "receive_round callback =
     bnd receive_packet (\<lambda>p. case p of None \<Rightarrow> ret KA_No | Some packet \<Rightarrow> callback packet)"

fun receive_rounds :: "nat \<Rightarrow> 'w dispatcher \<Rightarrow> ('w conn, unit) act" where
  "receive_rounds 0 callback = raise Looping"
| "receive_rounds (Suc n) callback =
     bnd (receive_round callback) (\<lambda>k.
       if k = KA_Yes then receive_rounds n callback else ret ())"

text \<open>
  Each round that goes on has read a header, so more rounds than bytes are never needed,
  whatever the callback reads itself (\<open>receive_rounds_enough\<close> below).
\<close>

definition blocking_receive :: "'w dispatcher \<Rightarrow> ('w conn, unit) act" where
  "blocking_receive callback = (\<lambda>(s, w). receive_rounds (Suc (length (ses_inbox s))) callback (s, w))"

text \<open>
  The asynchronous \<^verbatim>\<open>receive\<close>: \<^verbatim>\<open>receive_header\<close> builds an empty packet and adds an empty
  message of the announced size, \<^verbatim>\<open>receive_message\<close> fills it and runs the callback; when
  the callback keeps the connection alive, the next round runs the dispatcher of the
  session.
\<close>

definition receive_header :: "('w conn, Packet option) act" where
  "receive_header =
     bnd (read_exactly sizeof_PACKET_HEADER) (\<lambda>h. case h of
       None \<Rightarrow> ret None
     | Some buff \<Rightarrow>
         (let hdr = dec_PACKET_HEADER buff
          in ret (Some (add_message (empty_message (hdr_size hdr))
                   (packet_empty (type_fromto (hdr_type hdr)) (type_what (hdr_type hdr)))))))"

definition receive_message :: "Packet \<Rightarrow> 'w dispatcher \<Rightarrow> ('w conn, keep_alive) act" where
  "receive_message p callback =
     bnd (read_exactly (unat (size_get p))) (\<lambda>m. case m of
       None \<Rightarrow> ret KA_No
     | Some message \<Rightarrow> callback (p\<lparr>pkt_messages := [message]\<rparr>))"

definition async_round :: "'w dispatcher \<Rightarrow> ('w conn, keep_alive) act" where
  "async_round callback =
     bnd receive_header (\<lambda>p. case p of None \<Rightarrow> ret KA_No | Some packet \<Rightarrow> receive_message packet callback)"

fun async_rounds :: "nat \<Rightarrow> 'w dispatcher \<Rightarrow> 'w dispatcher \<Rightarrow> ('w conn, unit) act" where
  "async_rounds 0 dispatch callback = raise Looping"
| "async_rounds (Suc n) dispatch callback =
     bnd (async_round callback) (\<lambda>k.
       if k = KA_Yes then async_rounds n dispatch dispatch else ret ())"

definition receive_with :: "'w dispatcher \<Rightarrow> 'w dispatcher \<Rightarrow> ('w conn, unit) act" where
  "receive_with dispatch callback =
     (\<lambda>(s, w). async_rounds (Suc (length (ses_inbox s))) dispatch callback (s, w))"

definition receive :: "'w dispatcher \<Rightarrow> ('w conn, unit) act" where
  "receive dispatch = receive_with dispatch dispatch"

section \<open>Acknowledgements\<close>

definition send_ack :: "Packet \<Rightarrow> error_code \<Rightarrow> ('w conn, unit) act" where
  "send_ack packet ack =
     bnd (lift_res (fromto_inverse (fromto_get packet))) (\<lambda>fromto_dst.
       blocking_send (add_message (enc_word (error_code_value ack)) (packet_empty fromto_dst ack_w)))"

definition recv_ack_callback :: "'w dispatcher" where
  "recv_ack_callback p =
     bnd (lift_res (rbind (front_data p) (view 1 (\<lambda>d. dec_word (slice 0 1 d) :: 8 word)))) (\<lambda>ack_code.
       if ack_code \<noteq> error_code_value success
       then raise (Throw (Logic_error (''Error : '' @ decimal (unat ack_code))))
       else ret KA_No)"

definition recv_ack :: "('w conn, unit) act" where
  "recv_ack = blocking_receive recv_ack_callback"


section \<open>One packet over the wire\<close>

lemma read_exactly_run [act_simps]:
  "read_exactly n (s, w) =
     (if n \<le> length (ses_inbox s)
      then (Inr (Some (take n (ses_inbox s))), (s\<lparr>ses_inbox := drop n (ses_inbox s)\<rparr>, w))
      else (Inr None, (s\<lparr>ses_inbox := []\<rparr>, w)))"
  by (simp add: read_exactly_def)

lemma write_socket_run [act_simps]:
  "write_socket bs (s, w) =
     (if ses_open s then (Inr True, (s\<lparr>ses_outbox := ses_outbox s @ bs\<rparr>, w)) else (Inr False, (s, w)))"
  by (simp add: write_socket_def)

lemma blocking_send_run [act_simps]:
  "blocking_send p (s, w) =
     (Inr (), (if ses_open s then s\<lparr>ses_outbox := ses_outbox s @ packet_bytes p\<rparr> else s, w))"
  by (simp add: blocking_send_def blocking_send_with_def act_simps)

lemma send_run [act_simps]:
  "send p (s, w) =
     (Inr (), (if ses_open s then s\<lparr>ses_outbox := ses_outbox s @ packet_bytes p\<rparr> else s, w))"
  by (simp add: send_def send_with_def Let_def act_simps packet_bytes_def message_seq_get_def)

text \<open>The session after an answer.\<close>

definition answered :: "Packet \<Rightarrow> session \<Rightarrow> session" where
  "answered p s = (if ses_open s then s\<lparr>ses_outbox := ses_outbox s @ packet_bytes p\<rparr> else s)"

lemma blocking_send_answered: "blocking_send p (s, w) = (Inr (), (answered p s, w))"
  by (simp add: blocking_send_run answered_def)

definition ack_answer :: "fromto_type \<Rightarrow> error_code \<Rightarrow> Packet" where
  "ack_answer ft code = add_message (enc_word (error_code_value code)) (packet_empty ft ack_w)"

lemma send_ack_run:
  "fromto_inverse (fromto_get p) = Inr ft \<Longrightarrow> send_ack p code (s, w) = (Inr (), (answered (ack_answer ft code) s, w))"
  by (simp add: send_ack_def act_simps answered_def ack_answer_def)

text \<open>The packet a receiver gets: the type of the sent one, and all its bytes as one message.\<close>

definition delivered :: "Packet \<Rightarrow> Packet" where
  "delivered p = packet_of_message (fromto_get p) (what_get p) (payload p)"

lemma delivered_simps:
  "fromto_get (delivered p) = fromto_get p" "what_get (delivered p) = what_get p"
  "front_data (delivered p) = Inr (payload p)" "size_get (delivered p) = word_of_nat (length (payload p))"
  by (simp_all add: delivered_def packet_of_message_def mk_header_def fromto_get_def what_get_def front_data_def
      message_seq_get_def size_get_def)

definition sendable :: "Packet \<Rightarrow> bool" where
  "sendable p \<longleftrightarrow> packet_ok p \<and> length (payload p) < 2 ^ 32"

lemma sendable_size: "sendable p \<Longrightarrow> unat (size_get p) = length (payload p)"
  by (simp add: sendable_def packet_ok_def unat_of_nat take_bit_nat_eq_self)

lemma dec_serialized_header:
  "dec_PACKET_HEADER (serialize_header p) = mk_header (size_get p) (fromto_get p) (what_get p)"
  using header.dec_enc_exact [of "pkt_header p"]
  by (simp add: serialize_header_def header_by_gets)

lemma receive_packet_sent:
  assumes "sendable p" "ses_inbox s = packet_bytes p @ rest"
  shows "receive_packet (s, w) = (Inr (Some (delivered p)), (s\<lparr>ses_inbox := rest\<rparr>, w))"
  using assms(2)
  by (simp add: receive_packet_def act_simps packet_bytes_payload sizeof_PACKET_HEADER_def
      dec_serialized_header mk_header_def sendable_size [OF assms(1)] delivered_def)

text \<open>
  C20: A packet whose messages total fewer than \<open>2\<^sup>3\<^sup>2\<close> bytes and that was filled through the
  packet's own operations arrives whole: the receiver gets the type that was sent and the
  concatenation of the messages, and the bytes that follow on the stream are left for the
  next round.
\<close>

theorem send_receive_roundtrip:
  assumes "sendable p" "ses_open a" "ses_outbox a = []"
    and "blocking_send p (a, v) = (r, (a', v'))"
    and "ses_inbox b = ses_outbox a' @ rest"
  shows "receive_packet (b, w) = (Inr (Some (delivered p)), (b\<lparr>ses_inbox := rest\<rparr>, w))"
proof -
  have "ses_outbox a' = packet_bytes p"
    using assms(2-4) by (auto simp: blocking_send_run)
  with assms(5) show ?thesis
    by (intro receive_packet_sent [OF assms(1)]) simp
qed

lemma send_receive_roundtrip_witness:
  "let p = add_message ''ab'' (add_message ''c'' (packet_empty 2 1));
       s = session_create 1 ''::1'' [];
       s' = fst (snd (blocking_send p (s, ())))
   in receive_packet (s\<lparr>ses_inbox := ses_outbox s' @ ''zz''\<rparr>, ()) =
      (Inr (Some (delivered p)), (s\<lparr>ses_inbox := ''zz''\<rparr>, ()))"
proof -
  let ?p = "add_message ''ab'' (add_message ''c'' (packet_empty 2 1))"
  let ?s = "session_create 1 ''::1'' []"
  let ?s' = "fst (snd (blocking_send ?p (?s, ())))"
  have 1: "sendable ?p"
    by (simp add: sendable_def packet_simps)
  have 2: "ses_open ?s" "ses_outbox ?s = []"
    by (simp_all add: session_create_def)
  have 3: "blocking_send ?p (?s, ()) = (Inr (), (?s', ()))"
    by (simp add: blocking_send_run)
  have "receive_packet (?s\<lparr>ses_inbox := ses_outbox ?s' @ ''zz''\<rparr>, ()) =
      (Inr (Some (delivered ?p)), (?s\<lparr>ses_inbox := ses_outbox ?s' @ ''zz''\<rparr>\<lparr>ses_inbox := ''zz''\<rparr>, ()))"
    by (rule send_receive_roundtrip [OF 1 2 3]) simp
  then show ?thesis by (simp add: Let_def)
qed

text \<open>
  The asynchronous receive, which allocates the message inside an empty packet before
  reading it, hands the callback the same packet as the blocking one and leaves the same
  state.
\<close>

lemma async_round_is_blocking_round: "async_round callback c = receive_round callback c"
proof (cases c)
  case (Pair s w)
  have len: "length (empty_message n) = unat n" for n
    by (simp add: empty_message_def)
  have "add_message (empty_message n) (packet_empty ft wh) \<lparr>pkt_messages := [m]\<rparr> = packet_of_message ft wh m"
    if "length m = unat n" for n ft wh m
    using that by (simp add: add_message_def packet_empty_def packet_of_message_def mk_header_def len)
  then show ?thesis
    by (auto simp: Pair async_round_def receive_header_def receive_message_def receive_round_def
        receive_packet_def act_simps Let_def packet_simps len sizeof_PACKET_HEADER_def)
qed

section \<open>The receive loop\<close>

lemma receive_rounds_Suc [act_simps]:
  "receive_rounds (Suc n) cb c = bnd (receive_round cb) (\<lambda>k.
     if k = KA_Yes then receive_rounds n cb else ret ()) c"
  by simp

lemma async_rounds_dispatch: "async_rounds n d d = receive_rounds n d"
proof (induction n)
  case 0
  then show ?case by simp
next
  case (Suc n)
  have "async_round d = receive_round d"
    by (rule ext) (rule async_round_is_blocking_round)
  with Suc show ?case by (simp cong: if_cong)
qed

text \<open>A callback may read from the connection, it does not make the peer send more.\<close>

definition only_reads :: "'w dispatcher \<Rightarrow> bool" where
  "only_reads cb \<longleftrightarrow> (\<forall>p s w r s' w'. cb p (s, w) = (r, (s', w'))
     \<longrightarrow> length (ses_inbox s') \<le> length (ses_inbox s) \<and> r \<noteq> Inl Looping)"

lemma receive_packet_consumes:
  assumes "receive_packet (s, w) = (Inr (Some p), (s', w'))"
  shows "length (ses_inbox s') < length (ses_inbox s)"
  using assms
  by (auto simp: receive_packet_def act_simps Let_def sizeof_PACKET_HEADER_def split: if_splits)

lemma receive_packet_total: "\<exists>p s'. receive_packet (s, w) = (Inr p, (s', w))"
  by (simp add: receive_packet_def act_simps Let_def)

lemma receive_round_yes_consumes:
  assumes "only_reads cb" "receive_round cb (s, w) = (Inr KA_Yes, (s', w'))"
  shows "length (ses_inbox s') < length (ses_inbox s)"
proof -
  obtain p s1 where p: "receive_packet (s, w) = (Inr p, (s1, w))"
    using receive_packet_total [of s w] by blast
  with assms(2) obtain q where q: "p = Some q" and cb: "cb q (s1, w) = (Inr KA_Yes, (s', w'))"
    by (cases p) (auto simp: receive_round_def act_simps)
  have "length (ses_inbox s') \<le> length (ses_inbox s1)"
    using assms(1) cb unfolding only_reads_def by blast
  moreover have "length (ses_inbox s1) < length (ses_inbox s)"
    using receive_packet_consumes [of s w q s1 w] p q by simp
  ultimately show ?thesis by simp
qed

lemma receive_round_not_looping:
  assumes "only_reads cb"
  shows "fst (receive_round cb (s, w)) \<noteq> Inl Looping"
proof -
  obtain p s1 where p: "receive_packet (s, w) = (Inr p, (s1, w))"
    using receive_packet_total [of s w] by blast
  show ?thesis
  proof (cases p)
    case None
    with p show ?thesis by (simp add: receive_round_def act_simps)
  next
    case (Some q)
    obtain r s' w' where cb: "cb q (s1, w) = (r, (s', w'))"
      by (cases "cb q (s1, w)") auto
    with assms have "r \<noteq> Inl Looping" unfolding only_reads_def by blast
    with p Some cb show ?thesis by (simp add: receive_round_def act_simps)
  qed
qed

lemma receive_rounds_enough:
  assumes "only_reads cb"
  shows "length (ses_inbox s) < n \<Longrightarrow>
    receive_rounds n cb (s, w) = blocking_receive cb (s, w)
    \<and> fst (receive_rounds n cb (s, w)) \<noteq> Inl Looping"
proof (induction "length (ses_inbox s)" arbitrary: n s w rule: less_induct)
  case less
  obtain m where m: "n = Suc m"
    using less.prems by (cases n) auto
  obtain r s' w' where r: "receive_round cb (s, w) = (r, (s', w'))"
    by (cases "receive_round cb (s, w)") auto
  show ?case
  proof (cases "r = Inr KA_Yes")
    case True
    then have shorter: "length (ses_inbox s') < length (ses_inbox s)"
      using receive_round_yes_consumes [OF assms] r by blast
    have less_m: "length (ses_inbox s') < m"
      using shorter less.prems m by simp
    have m_eq: "receive_rounds m cb (s', w') = blocking_receive cb (s', w')"
      and ne: "fst (receive_rounds m cb (s', w')) \<noteq> Inl Looping"
      using less.hyps [OF shorter less_m, of w'] by blast+
    have "receive_rounds (length (ses_inbox s)) cb (s', w') = blocking_receive cb (s', w')"
      using less.hyps [OF shorter, of "length (ses_inbox s)" w'] shorter by simp
    then have "blocking_receive cb (s, w) = receive_rounds m cb (s', w')"
      using r True m_eq by (simp add: blocking_receive_def [of cb, THEN fun_cong, of "(s, w)"] act_simps)
    moreover have "receive_rounds n cb (s, w) = receive_rounds m cb (s', w')"
      using r True by (simp add: m act_simps)
    ultimately show ?thesis
      using ne by simp
  next
    case False
    then have "receive_rounds k cb (s, w) = (case r of Inl f \<Rightarrow> (Inl f, (s', w')) | Inr _ \<Rightarrow> (Inr (), (s', w')))"
      if "k = Suc l" for k l
      using r that by (auto simp: act_simps split: sum.splits)
    moreover have "r \<noteq> Inl Looping"
      using receive_round_not_looping [OF assms, of s w] r by simp
    ultimately show ?thesis
      by (auto simp: m blocking_receive_def split: sum.splits)
  qed
qed


text \<open>
  C22: The receive loop ends. For a callback that only reads from its connection, the
  number of rounds is bounded by the number of bytes the peer sends: any larger number of
  rounds gives the same result as \<^verbatim>\<open>blocking_receive\<close>, and it is not the result of running
  out of rounds.
\<close>

theorem receive_loop_terminates:
  assumes "only_reads cb" "length (ses_inbox s) < n"
  shows "receive_rounds n cb (s, w) = blocking_receive cb (s, w)
    \<and> fst (blocking_receive cb (s, w)) \<noteq> Inl Looping"
  using receive_rounds_enough [OF assms, of w] by metis

lemma receive_loop_terminates_witness:
  "receive_rounds 8 (\<lambda>p. ret KA_Yes) (session_create 1 [] ''abc'', ())
   = blocking_receive (\<lambda>p. ret KA_Yes) (session_create 1 [] ''abc'', ())"
proof -
  have 1: "only_reads (\<lambda>p. ret KA_Yes :: (unit conn, keep_alive) act)"
    by (simp add: only_reads_def act_simps)
  have 2: "length (ses_inbox (session_create 1 [] ''abc'')) < 8"
    by (simp add: session_create_def)
  show ?thesis
    using receive_loop_terminates [OF 1 2] by blast
qed

lemma receive_is_blocking_receive: "receive d c = blocking_receive d c"
  by (cases c) (simp add: receive_def receive_with_def blocking_receive_def async_rounds_dispatch)

lemma packets_shorter_than_bytes: "length ps \<le> length (concat (map packet_bytes ps))"
proof (induction ps)
  case Nil
  then show ?case by simp
next
  case (Cons p ps)
  then show ?case by (simp add: packet_bytes_payload)
qed

section \<open>One answer\<close>

text \<open>A blocking receive whose callback does not keep the connection alive.\<close>

lemma blocking_receive_once:
  assumes "sendable p" "ses_inbox s = packet_bytes p @ rest"
    and "callback (delivered p) (s\<lparr>ses_inbox := rest\<rparr>, w) = (r, c)" "r \<noteq> Inr KA_Yes"
  shows "blocking_receive callback (s, w) = (case r of Inl f \<Rightarrow> Inl f | Inr _ \<Rightarrow> Inr (), c)"
  using receive_packet_sent [OF assms(1,2), of w] assms(3,4)
  by (cases r) (auto simp: blocking_receive_def receive_round_def act_simps)

definition id_answer :: "stid_type \<Rightarrow> Packet" where
  "id_answer i = add_message (enc_fid_info \<lparr>fid_info_stid = i\<rparr>) (packet_empty m_s_fromto fid_info_w)"

lemma id_answer_sendable: "sendable (id_answer i)"
  by (simp add: sendable_def id_answer_def packet_simps enc_fid_info_def codec_simps)

section \<open>Acknowledgements\<close>

lemma ack_sendable:
  "sendable (add_message (enc_word (error_code_value a)) (packet_empty ft w))"
  by (simp add: sendable_def packet_simps codec_simps)

lemma recv_ack_run:
  assumes "ses_inbox s = packet_bytes (add_message (enc_word (error_code_value a)) (packet_empty ft ack_w)) @ rest"
  shows "recv_ack (s, w) =
    (if a = success then Inr () else Inl (Throw (Logic_error (''Error : '' @ decimal (unat (error_code_value a))))),
     (s\<lparr>ses_inbox := rest\<rparr>, w))"
proof -
  have neq: "a \<noteq> success \<Longrightarrow> error_code_value a \<noteq> 0"
    using error_code_value_inj [of a success] by auto
  show ?thesis
    using receive_packet_sent [OF ack_sendable assms, of w]
    by (auto simp: recv_ack_def blocking_receive_def receive_round_def act_simps delivered_def
        recv_ack_callback_def front_data_def view_def packet_simps codec_simps neq)
qed

text \<open>
  C23: An acknowledgement sent with \<^verbatim>\<open>send_ack\<close> in answer to a packet of any of the six
  directions reaches \<^verbatim>\<open>recv_ack\<close> at the other end: it returns for \<^verbatim>\<open>success\<close> and throws a
  \<^verbatim>\<open>logic_error\<close> that shows the code for every other error code.
\<close>

theorem ack_reaches_peer:
  assumes "unat (fromto_get p) < 6" "ses_open a" "ses_outbox a = []"
    and "send_ack p code (a, v) = (r, (a', v'))" "ses_inbox b = ses_outbox a' @ rest"
  shows "recv_ack (b, w) =
    (if code = success then Inr ()
     else Inl (Throw (Logic_error (''Error : '' @ decimal (unat (error_code_value code))))),
     (b\<lparr>ses_inbox := rest\<rparr>, w))"
proof -
  obtain ft where ft: "fromto_inverse (fromto_get p) = Inr ft"
    using fromto_inverse_defined [OF assms(1)] by blast
  have "ses_outbox a' = packet_bytes (add_message (enc_word (error_code_value code)) (packet_empty ft ack_w))"
    using assms(2-4) by (auto simp: send_ack_def act_simps ft)
  with assms(5) show ?thesis by (intro recv_ack_run) simp
qed

lemma ack_reaches_peer_witness:
  "let a = session_create 1 [] []; b = session_create 2 [] [];
       a' = fst (snd (send_ack (packet_empty 2 1) hash_failed (a, ())))
   in recv_ack (b\<lparr>ses_inbox := ses_outbox a'\<rparr>, ()) = (Inl (Throw (Logic_error ''Error : 4'')), (b, ()))"
proof -
  let ?a = "session_create 1 [] []" and ?b = "session_create 2 [] []"
  let ?a' = "fst (snd (send_ack (packet_empty 2 1) hash_failed (?a, ())))"
  have 1: "unat (fromto_get (packet_empty 2 1)) < 6"
    by (simp add: packet_simps)
  have 2: "ses_open ?a" "ses_outbox ?a = []"
    by (simp_all add: session_create_def)
  have 3: "send_ack (packet_empty 2 1) hash_failed (?a, ()) = (Inr (), (?a', ()))"
    by (simp add: send_ack_def act_simps packet_simps fromto_inverse_def fromto_defs)
  have "recv_ack (?b\<lparr>ses_inbox := ses_outbox ?a'\<rparr>, ()) =
      (if hash_failed = success then Inr ()
       else Inl (Throw (Logic_error (''Error : '' @ decimal (unat (error_code_value hash_failed))))),
       (?b\<lparr>ses_inbox := ses_outbox ?a'\<rparr>\<lparr>ses_inbox := []\<rparr>, ()))"
    by (rule ack_reaches_peer [OF 1 2 3]) simp
  moreover have "decimal 4 = ''4''"
    by code_simp
  ultimately show ?thesis
    by (simp add: Let_def session_create_def)
qed

text \<open>
  C24: A peer that closes the connection without answering is taken for a success: with
  fewer bytes than a header left to read, \<^verbatim>\<open>recv_ack\<close> returns without throwing.
\<close>

theorem lost_ack_is_success:
  assumes "length (ses_inbox s) < sizeof_PACKET_HEADER"
  shows "recv_ack (s, w) = (Inr (), (s\<lparr>ses_inbox := []\<rparr>, w))"
  using assms
  by (simp add: recv_ack_def blocking_receive_def receive_round_def receive_packet_def act_simps)

lemma lost_ack_is_success_witness:
  "recv_ack (session_create 1 [] [], ()) = (Inr (), (session_create 1 [] [], ()))"
proof -
  have "length (ses_inbox (session_create 1 [] [])) < sizeof_PACKET_HEADER"
    by (simp add: session_create_def sizeof_PACKET_HEADER_def)
  from lost_ack_is_success [OF this] show ?thesis
    by (simp add: session_create_def)
qed

section \<open>Session numbers\<close>

lemma take_ids_eq: "take_ids n c = map (\<lambda>i. c + word_of_nat i) [0..<n]"
proof (induction n arbitrary: c)
  case 0
  then show ?case by simp
next
  case (Suc n)
  have upt: "[0..<Suc n] = 0 # map Suc [0..<n]"
    by (simp only: map_Suc_upt) (simp only: upt_rec [of 0 "Suc n"] zero_less_Suc if_True)
  have "take_ids (Suc n) c = c # map (\<lambda>i. (c + 1) + word_of_nat i) [0..<n]"
    using Suc by (simp add: unique_id_def)
  also have "\<dots> = map (\<lambda>i. c + word_of_nat i) [0..<Suc n]"
    by (simp only: upt list.map map_map) (simp add: ac_simps)
  finally show ?case .
qed

text \<open>
  The numbers \<^verbatim>\<open>Session::unique_id\<close> hands out are pairwise different as long as no
  more than \<open>2\<^sup>6\<^sup>4\<close> sessions are created.
\<close>

lemma unique_ids_distinct:
  assumes "n \<le> 2 ^ 64"
  shows "distinct (take_ids n first_unique_id)"
proof -
  have "inj_on (\<lambda>i. (1 :: 64 word) + word_of_nat i) (set [0..<n])"
  proof (rule inj_onI)
    fix i j
    assume i: "i \<in> set [0..<n]" and j: "j \<in> set [0..<n]"
      and "(1 :: 64 word) + word_of_nat i = 1 + word_of_nat j"
    then have eq: "unat (word_of_nat i :: 64 word) = unat (word_of_nat j :: 64 word)"
      by (metis add_left_imp_eq)
    from i assms have "i < 2 ^ LENGTH(64)"
      by (simp only: set_upt atLeastLessThan_iff len_num0 len_num1 len_bit0 len_bit1) simp
    moreover from j assms have "j < 2 ^ LENGTH(64)"
      by (simp only: set_upt atLeastLessThan_iff len_num0 len_num1 len_bit0 len_bit1) simp
    ultimately show "i = j"
      using eq by (simp only: unat_word_of_nat)
  qed
  then show ?thesis
    by (simp add: take_ids_eq first_unique_id_def distinct_map)
qed

lemma unique_ids_distinct_witness: "distinct (take_ids 3 first_unique_id)"
  by (rule unique_ids_distinct) simp

end
