(* ===== verification/Net_Misc.thy ===== *)
theory Net_Misc
  imports Messages
begin

text \<open>
  Host names and addresses (\<^verbatim>\<open>libtools/network/misc.hxx\<close>). The resolver and the textual form
  of addresses are those of Boost.Asio and are parameters of the model.
\<close>

section \<open>The library\<close>

text \<open>An address is its bytes in network order: four of them, or sixteen.\<close>

datatype ip_address = V4 string | V6 string

text \<open>
  \<open>ip_from_string\<close> is \<^verbatim>\<open>ip::address::from_string\<close> (\<open>None\<close> when it throws), \<open>ip6_to_string\<close> is
  \<^verbatim>\<open>address_v6::to_string\<close> and \<open>resolve_host\<close> the endpoints of \<^verbatim>\<open>resolve_host(host, port)\<close>
  (\<open>None\<close> when the resolver throws).
\<close>

record net_lib =
  ip_from_string :: "string \<Rightarrow> ip_address option"
  ip6_to_string :: "string \<Rightarrow> string"
  resolve_host :: "string \<Rightarrow> string \<Rightarrow> (ip_address \<times> port_type) list option"

text \<open>What the code relies on: addresses have their sizes, and the text of an address is read back.\<close>

fun ip_ok :: "ip_address \<Rightarrow> bool" where
  "ip_ok (V4 b) \<longleftrightarrow> length b = 4"
| "ip_ok (V6 b) \<longleftrightarrow> length b = ipv6_type_size"

definition net_ok :: "net_lib \<Rightarrow> bool" where
  "net_ok N \<longleftrightarrow>
     (\<forall>s ip. ip_from_string N s = Some ip \<longrightarrow> ip_ok ip)
     \<and> (\<forall>h p es. resolve_host N h p = Some es \<longrightarrow> list_all (\<lambda>e. ip_ok (fst e)) es)
     \<and> (\<forall>b. length b = ipv6_type_size \<longrightarrow> ip_from_string N (ip6_to_string N b) = Some (V6 b))"

section \<open>The functions\<close>

definition endpoint_from_host :: "net_lib \<Rightarrow> string \<Rightarrow> string \<Rightarrow> (ip_address \<times> port_type) res" where
  "endpoint_from_host N host port =
     (case resolve_host N host port of
        None \<Rightarrow> Inl (Throw System_error)
      | Some (i # _) \<Rightarrow> Inr i
      | Some [] \<Rightarrow> Inl (Throw (Logic_error (''Could not resolve '' @ host @ '' ip(s).''))))"

definition endpoint_from_host_port :: "net_lib \<Rightarrow> string \<Rightarrow> 16 word \<Rightarrow> (ip_address \<times> port_type) res" where
  "endpoint_from_host_port N host port = endpoint_from_host N host (decimal (unat port))"

definition one_ip_from_host :: "net_lib \<Rightarrow> string \<Rightarrow> string \<Rightarrow> ip_address res" where
  "one_ip_from_host N host port = rbind (endpoint_from_host N host port) (\<lambda>e. Inr (fst e))"

text \<open>\<^verbatim>\<open>if (ip.is_v4()) ip = address_v6::v4_mapped(ip.to_v4()); return ip.to_v6();\<close>\<close>

fun to_v6_mapped :: "ip_address \<Rightarrow> string" where
  "to_v6_mapped (V4 b) = replicate 10 (CHR 0x00) @ [CHR 0xFF, CHR 0xFF] @ b"
| "to_v6_mapped (V6 b) = b"

text \<open>The result is the sixteen bytes. The default port of \<^verbatim>\<open>one_ip_from_host\<close> is the empty text.\<close>

definition get_ipv6 :: "net_lib \<Rightarrow> string \<Rightarrow> string res" where
  "get_ipv6 N str =
     (case ip_from_string N str of
        Some ip \<Rightarrow> Inr (to_v6_mapped ip)
      | None \<Rightarrow> rbind (one_ip_from_host N str []) (\<lambda>ip. Inr (to_v6_mapped ip)))"

text \<open>\<^verbatim>\<open>get_ipv6(ch, size)\<close> copies \<open>size\<close> bytes into a sixteen byte array.\<close>

definition get_ipv6_bytes :: "net_lib \<Rightarrow> string \<Rightarrow> nat \<Rightarrow> string res" where
  "get_ipv6_bytes N ch n =
     (if n = ipv6_type_size \<and> n \<le> length ch then get_ipv6 N (ip6_to_string N (take n ch)) else Inl Undefined)"

definition get_addr :: "net_lib \<Rightarrow> string \<Rightarrow> port_type \<Rightarrow> ADDR res" where
  "get_addr N str port =
     rbind (get_ipv6 N str) (\<lambda>ip. Inr \<lparr>addr_ipv6 = ip, addr_port = port\<rparr>)"

definition binary_to_string_ipv6 :: "net_lib \<Rightarrow> string \<Rightarrow> nat \<Rightarrow> string res" where
  "binary_to_string_ipv6 N ch n = rbind (get_ipv6_bytes N ch n) (\<lambda>ip. Inr (ip6_to_string N ip))"

section \<open>Addresses survive their text\<close>

lemma length_to_v6 [simp]: "ip_ok ip \<Longrightarrow> length (to_v6_mapped ip) = ipv6_type_size"
  by (cases ip) (simp_all add: ipv6_type_size_def)

lemma get_ipv6_length:
  assumes "net_ok N" "get_ipv6 N s = Inr b"
  shows "length b = ipv6_type_size"
proof (cases "ip_from_string N s")
  case (Some ip)
  with assms show ?thesis by (auto simp: get_ipv6_def net_ok_def)
next
  case None
  with assms(2) obtain e es where "resolve_host N s [] = Some (e # es)" "b = to_v6_mapped (fst e)"
    by (auto simp: get_ipv6_def one_ip_from_host_def endpoint_from_host_def result_simps
        split: option.splits list.splits)
  with assms(1) show ?thesis unfolding net_ok_def by fastforce
qed

lemma get_addr_wf: "net_ok N \<Longrightarrow> get_addr N s p = Inr a \<Longrightarrow> wf_ADDR a \<and> addr_port a = p"
  by (auto simp: get_addr_def result_simps wf_ADDR_def dest: get_ipv6_length)

text \<open>Name resolution fails with an exception, never otherwise.\<close>

lemma get_addr_throws: "get_addr N s p = Inl f \<Longrightarrow> \<exists>e. f = Throw e"
  by (auto simp: get_addr_def get_ipv6_def one_ip_from_host_def endpoint_from_host_def
      split: option.splits list.splits)

lemma binary_to_string_text:
  "net_ok N \<Longrightarrow> length b = ipv6_type_size \<Longrightarrow> binary_to_string_ipv6 N b 16 = Inr (ip6_to_string N b)"
  by (simp add: binary_to_string_ipv6_def get_ipv6_bytes_def get_ipv6_def net_ok_def ipv6_type_size_def)

lemma get_addr_text:
  "net_ok N \<Longrightarrow> length b = ipv6_type_size \<Longrightarrow>
   get_addr N (ip6_to_string N b) p = Inr \<lparr>addr_ipv6 = b, addr_port = p\<rparr>"
  by (simp add: get_addr_def get_ipv6_def net_ok_def)

section \<open>An instance\<close>

text \<open>Addresses written as their bytes, no name resolves.\<close>

definition sample_net :: net_lib where
  "sample_net =
     \<lparr> ip_from_string = (\<lambda>s. if length s = 16 then Some (V6 s) else if length s = 4 then Some (V4 s) else None),
       ip6_to_string = (\<lambda>b. b),
       resolve_host = (\<lambda>h p. None) \<rparr>"

lemma sample_net_ok: "net_ok sample_net"
  by (auto simp: net_ok_def sample_net_def ipv6_type_size_def split: if_splits)

end
