(* ===== verification/Server.thy ===== *)
theory Server
  imports Session Net_Misc
begin

text \<open>
  \<^verbatim>\<open>network::Server\<close> (\<^verbatim>\<open>libtools/network/server.cc\<close>) and the life of the two programs built on it
  (\<^verbatim>\<open>master.hxx\<close>, \<^verbatim>\<open>storage.cc\<close>, the main functions): accepting connections, the receive loops
  the threads of the \<^verbatim>\<open>io_service\<close> run on them, and stopping.

  The pending operations of the \<^verbatim>\<open>io_service\<close> are the accept and one receive for each
  connection that is kept alive. A completed operation runs its handler, which is one step
  here: the handlers of different connections interleave, each runs as a whole.
\<close>

section \<open>The server\<close>

text \<open>
  \<open>srv_open\<close> is \<^verbatim>\<open>acceptor_.is_open()\<close>, \<open>srv_accepting\<close> a pending \<^verbatim>\<open>async_accept\<close>, \<open>srv_ids\<close> the
  static counter of \<^verbatim>\<open>Session::unique_id\<close>; a connection carries whether a receive is pending
  on it. \<open>srv_fault\<close> is what ended the run: an exception that left a handler, which nothing
  catches in the thread, so that the process is terminated; or a handler that loops, which
  the model does not follow further.
\<close>

record 'w server =
  srv_open :: bool
  srv_accepting :: bool
  srv_ids :: "64 word"
  srv_conns :: "(session \<times> bool) list"
  srv_world :: 'w
  srv_fault :: "fault option"

definition server_listen :: "'w server \<Rightarrow> 'w server" where
  "server_listen s = s\<lparr>srv_accepting := True\<rparr>"

definition is_running :: "'w server \<Rightarrow> bool" where
  "is_running s \<longleftrightarrow> srv_open s"

text \<open>The constructor; \<open>binds\<close> tells whether \<^verbatim>\<open>acceptor_.bind\<close> succeeds.\<close>

definition server_create :: "(string \<times> port_type \<Rightarrow> bool) \<Rightarrow> string \<Rightarrow> port_type \<Rightarrow> 'w server \<Rightarrow> 'w server res" where
  "server_create binds addr port s =
     (if binds (addr, port) then Inr (server_listen (s\<lparr>srv_open := True\<rparr>)) else Inl (Throw System_error))"

text \<open>The handler of \<^verbatim>\<open>async_accept\<close>: \<open>None\<close> is an error, of whatever kind.\<close>

definition accept_handler :: "(string \<times> string) option \<Rightarrow> 'w server \<Rightarrow> 'w server" where
  "accept_handler result s =
     (case result of
        None \<Rightarrow> s
      | Some (remote, inbox) \<Rightarrow>
          (case unique_id (srv_ids s) of (i, ids) \<Rightarrow>
             let s = s\<lparr>srv_ids := ids, srv_conns := srv_conns s @ [(session_create (unat i) remote inbox, True)]\<rparr>
             in server_listen s))"

definition complete_accept :: "(string \<times> string) option \<Rightarrow> 'w server \<Rightarrow> 'w server" where
  "complete_accept result s =
     (if srv_accepting s then accept_handler result (s\<lparr>srv_accepting := False\<rparr>) else s)"

text \<open>\<^verbatim>\<open>acceptor_.cancel()\<close> completes the pending accept with an error; the acceptor stays open.\<close>

definition server_stop :: "'w server \<Rightarrow> 'w server" where
  "server_stop s = (if srv_open s then complete_accept None s else s)"

text \<open>A pending receive: one round of the receive loop on connection \<open>k\<close>.\<close>

definition complete_receive :: "'w dispatcher \<Rightarrow> nat \<Rightarrow> 'w server \<Rightarrow> 'w server" where
  "complete_receive dispatch k s =
     (if k < length (srv_conns s) \<and> snd (srv_conns s ! k) then
        (case async_round dispatch (fst (srv_conns s ! k), srv_world s) of (r, (se, w)) \<Rightarrow>
           (case r of
              Inr keep \<Rightarrow> s\<lparr>srv_conns := (srv_conns s)[k := (se, keep = KA_Yes)], srv_world := w\<rparr>
            | Inl f \<Rightarrow> s\<lparr>srv_conns := (srv_conns s)[k := (se, False)], srv_world := w, srv_fault := Some f\<rparr>))
      else s)"

datatype server_event = Connects string string | Accept_fails | Receives nat

definition server_step :: "'w dispatcher \<Rightarrow> server_event \<Rightarrow> 'w server \<Rightarrow> 'w server" where
  "server_step dispatch ev s =
     (if srv_fault s \<noteq> None then s
      else case ev of
        Connects remote inbox \<Rightarrow> complete_accept (Some (remote, inbox)) s
      | Accept_fails \<Rightarrow> complete_accept None s
      | Receives k \<Rightarrow> complete_receive dispatch k s)"

definition server_run :: "'w dispatcher \<Rightarrow> server_event list \<Rightarrow> 'w server \<Rightarrow> 'w server" where
  "server_run dispatch es s = fold (server_step dispatch) es s"

text \<open>Nothing is pending: \<^verbatim>\<open>io_service_.run()\<close> returns in every thread.\<close>

definition server_idle :: "'w server \<Rightarrow> bool" where
  "server_idle s \<longleftrightarrow> \<not> srv_accepting s \<and> (\<forall>c\<in>set (srv_conns s). \<not> snd c)"

section \<open>A program around a server\<close>

text \<open>
  What the program is given: its host, port and level of concurrency, the dispatcher, and what
  happens until the signal comes and after it.
\<close>

record 'w program_env =
  pge_net :: net_lib
  pge_hostname :: string
  pge_port :: port_type
  pge_concurrency :: "32 word"
  pge_binds :: "string \<times> port_type \<Rightarrow> bool"
  pge_dispatch :: "'w dispatcher"
  pge_before :: "server_event list"
  pge_after :: "server_event list"

text \<open>The threads are known by whether they can still be joined.\<close>

record 'w program =
  prg_server :: "'w server"
  prg_threads :: "bool list"

definition on_server :: "('w server \<Rightarrow> 'w server) \<Rightarrow> ('w program, unit) act" where
  "on_server f = modify (\<lambda>p. p\<lparr>prg_server := f (prg_server p)\<rparr>)"

definition program_create :: "'w program_env \<Rightarrow> ('w program, unit) act" where
  "program_create E =
     bnd (lift_res (get_ipv6 (pge_net E) (pge_hostname E))) (\<lambda>addr.
     bnd (gets prg_server) (\<lambda>s.
     bnd (lift_res (server_create (pge_binds E) addr (pge_port E) s)) (\<lambda>s'.
       on_server (\<lambda>_. s'))))"

text \<open>
  \<^verbatim>\<open>t.join()\<close>: an exception for a thread that was joined before; otherwise it waits for
  \<^verbatim>\<open>io_service_.run()\<close>, and a thread that has something pending that never completes is
  waited for without end. An exception of a handler has terminated the process instead.
\<close>

definition join_thread :: "nat \<Rightarrow> ('w program, unit) act" where
  "join_thread i =
     bnd (gets id) (\<lambda>p.
       if srv_fault (prg_server p) = Some Looping then raise Looping
       else if srv_fault (prg_server p) \<noteq> None then raise Undefined
       else if \<not> prg_threads p ! i then raise (Throw System_error)
       else if \<not> server_idle (prg_server p) then raise Looping
       else modify (\<lambda>p. p\<lparr>prg_threads := (prg_threads p)[i := False]\<rparr>))"

text \<open>Operations complete on the threads, if there are any.\<close>

definition threads_run :: "'w program_env \<Rightarrow> server_event list \<Rightarrow> ('w program, unit) act" where
  "threads_run E es =
     bnd (gets prg_threads) (\<lambda>ts. if True \<in> set ts then on_server (server_run (pge_dispatch E) es) else ret ())"

text \<open>\<^verbatim>\<open>stop()\<close>; \<open>after\<close>: what completes while the threads are joined.\<close>

definition program_stop :: "'w program_env \<Rightarrow> server_event list \<Rightarrow> ('w program, unit) act" where
  "program_stop E after =
     bnd (on_server server_stop) (\<lambda>_.
     bnd (threads_run E after) (\<lambda>_.
     bnd (gets (\<lambda>p. length (prg_threads p))) (\<lambda>n.
       forA join_thread [0..<n])))"

definition program_run :: "'w program_env \<Rightarrow> ('w program, bool) act" where
  "program_run E =
     bnd (gets (\<lambda>p. is_running (prg_server p))) (\<lambda>running.
       if \<not> running then bnd (program_stop E []) (\<lambda>_. ret False)
       else bnd (modify (\<lambda>p. p\<lparr>prg_threads := prg_threads p @ replicate (unat (pge_concurrency E)) True\<rparr>)) (\<lambda>_.
         ret True))"

text \<open>\<^verbatim>\<open>catch_stop()\<close>: the threads run until the signal, then \<^verbatim>\<open>stop()\<close>.\<close>

definition program_catch_stop :: "'w program_env \<Rightarrow> ('w program, unit) act" where
  "program_catch_stop E =
     bnd (threads_run E (pge_before E)) (\<lambda>_.
       program_stop E (pge_after E))"

text \<open>The destructor. An exception that leaves it terminates the process.\<close>

definition program_destroy :: "'w program_env \<Rightarrow> ('w program, unit) act" where
  "program_destroy E =
     catching (\<lambda>_. True)
       (bnd (gets prg_threads) (\<lambda>ts. if ts \<noteq> [] then program_stop E [] else ret ()))
       (\<lambda>e. raise Undefined)"

text \<open>A block with an object in it: the destructor runs however the block is left.\<close>

definition scoped :: "('w, 'a) act \<Rightarrow> ('w, unit) act \<Rightarrow> ('w, 'a) act" where
  "scoped m destroy = (\<lambda>w. case m w of (r, w') \<Rightarrow>
     (case r of
        Inl Undefined \<Rightarrow> (r, w')
      | Inl Looping \<Rightarrow> (r, w')
      | _ \<Rightarrow> (case destroy w' of (d, w'') \<Rightarrow> (case d of Inl f \<Rightarrow> (Inl f, w'') | Inr _ \<Rightarrow> (r, w'')))))"

definition program_body :: "'w program_env \<Rightarrow> ('w program, unit) act" where
  "program_body E =
     bnd (program_create E) (\<lambda>_.
       scoped
         (bnd (program_run E) (\<lambda>running. if running then program_catch_stop E else ret ()))
         (program_destroy E))"

text \<open>The two \<^verbatim>\<open>try\<close> blocks of a main function; the second is the program's own.\<close>

definition main_init :: "('w, unit) act \<Rightarrow> ('w, int option) act" where
  "main_init init =
     catching (\<lambda>_. True)
       (bnd init (\<lambda>_. ret None))
       (\<lambda>e. ret (Some (case e of Int_thrown i \<Rightarrow> i | _ \<Rightarrow> 1)))"

definition main_rest :: "('w, unit) act \<Rightarrow> ('w, int) act" where
  "main_rest body = catching is_std_exception (bnd body (\<lambda>_. ret 0)) (\<lambda>e. ret 1)"

definition program_main :: "('w, unit) act \<Rightarrow> ('w, int) act \<Rightarrow> ('w, int) act" where
  "program_main init rest =
     bnd (main_init init) (\<lambda>failed. case failed of Some i \<Rightarrow> ret i | None \<Rightarrow> rest)"

section \<open>Accepting\<close>

lemma server_run_simps [simp]:
  "server_run d [] s = s" "server_run d (e # es) s = server_run d es (server_step d e s)"
  "server_run d (es @ fs) s = server_run d fs (server_run d es s)"
  by (simp_all add: server_run_def)

lemma complete_receive_same [simp]:
  "length (srv_conns (complete_receive d k s)) = length (srv_conns s)"
  "srv_accepting (complete_receive d k s) = srv_accepting s"
  "srv_open (complete_receive d k s) = srv_open s"
  "srv_ids (complete_receive d k s) = srv_ids s"
  by (auto simp: complete_receive_def split: prod.splits sum.splits)

lemma server_step_open [simp]: "srv_open (server_step d e s) = srv_open s"
  by (cases e) (auto simp: server_step_def complete_accept_def accept_handler_def unique_id_def server_listen_def Let_def)

lemma server_run_open [simp]: "srv_open (server_run d es s) = srv_open s"
  by (induction es arbitrary: s) simp_all

lemma not_accepting_step:
  "\<not> srv_accepting s \<Longrightarrow> \<not> srv_accepting (server_step d e s) \<and> length (srv_conns (server_step d e s)) = length (srv_conns s)"
  by (cases e) (simp_all add: server_step_def complete_accept_def accept_handler_def)

lemma not_accepting_run:
  "\<not> srv_accepting s \<Longrightarrow> length (srv_conns (server_run d es s)) = length (srv_conns s)"
  by (induction es arbitrary: s) (simp_all add: not_accepting_step)

lemma faulty_step: "srv_fault s \<noteq> None \<Longrightarrow> server_step d e s = s"
  by (simp add: server_step_def)

lemma faulty_run: "srv_fault s \<noteq> None \<Longrightarrow> server_run d es s = s"
  by (induction es) (simp_all add: faulty_step)

fun connects :: "server_event list \<Rightarrow> nat" where
  "connects [] = 0"
| "connects (Connects remote inbox # es) = Suc (connects es)"
| "connects (_ # es) = connects es"

lemma accepting_step:
  assumes "srv_accepting s" "e \<noteq> Accept_fails" "srv_fault s = None"
  shows "srv_accepting (server_step d e s) \<and>
    length (srv_conns (server_step d e s)) = length (srv_conns s) + connects [e]"
  using assms by (cases e) (simp_all add: server_step_def complete_accept_def accept_handler_def unique_id_def server_listen_def Let_def)

lemma accepting_run:
  "srv_accepting s \<Longrightarrow> Accept_fails \<notin> set es \<Longrightarrow> srv_fault (server_run d es s) = None \<Longrightarrow>
   srv_accepting (server_run d es s) \<and> length (srv_conns (server_run d es s)) = length (srv_conns s) + connects es"
proof (induction es arbitrary: s)
  case Nil
  then show ?case by simp
next
  case (Cons e es)
  have "srv_fault s = None" using Cons.prems(3) faulty_run [of s d "e # es"] by fastforce
  then have "srv_accepting (server_step d e s)"
    "length (srv_conns (server_step d e s)) = length (srv_conns s) + connects [e]"
    using accepting_step [OF Cons.prems(1), of e d] Cons.prems(2) by auto
  moreover have "connects (e # es) = connects [e] + connects es" by (cases e) simp_all
  ultimately show ?case using Cons.IH [of "server_step d e s"] Cons.prems by simp
qed

text \<open>
  C31: A server accepts every connection that reaches it, until the first accept that fails: from
  then on it accepts none, although it goes on running, since the handler of a failed accept
  does not listen again.
\<close>

theorem accept_error_stops_listening:
  assumes "server_create binds addr port s0 = Inr s" "srv_conns s0 = []"
    and "Accept_fails \<notin> set xs" "srv_fault (server_run d xs s) = None"
  shows "length (srv_conns (server_run d xs s)) = connects xs
    \<and> length (srv_conns (server_run d (xs @ Accept_fails # ys) s)) = connects xs
    \<and> is_running (server_run d (xs @ Accept_fails # ys) s)"
proof -
  have s: "srv_accepting s" "srv_conns s = []" "srv_open s"
    using assms(1,2) by (auto simp: server_create_def server_listen_def split: if_splits)
  have xs: "length (srv_conns (server_run d xs s)) = connects xs" "srv_accepting (server_run d xs s)"
    using accepting_run [OF s(1) assms(3,4)] s(2) by simp_all
  let ?t = "server_step d Accept_fails (server_run d xs s)"
  have "\<not> srv_accepting ?t" "length (srv_conns ?t) = connects xs"
    using xs assms(4) by (simp_all add: server_step_def complete_accept_def accept_handler_def)
  with not_accepting_run [of ?t d ys] xs(1) s(3) show ?thesis by (simp add: is_running_def)
qed

definition closed_server :: "'w \<Rightarrow> 'w server" where
  "closed_server w = \<lparr>srv_open = False, srv_accepting = False, srv_ids = first_unique_id, srv_conns = [],
     srv_world = w, srv_fault = None\<rparr>"

lemma accept_error_stops_listening_witness:
  "\<exists>s. server_create (\<lambda>_. True) ''host'' 1 (closed_server ()) = Inr s
     \<and> length (srv_conns (server_run (\<lambda>p. ret KA_No) ([Connects ''a'' [], Receives 0] @ Accept_fails # [Connects ''b'' []]) s)) = 1"
proof -
  obtain s where s: "server_create (\<lambda>_. True) ''host'' 1 (closed_server ()) = Inr s"
    by (simp add: server_create_def)
  let ?d = "\<lambda>p. ret KA_No :: (unit conn, keep_alive) act"
  have "srv_fault (server_run ?d [Connects ''a'' [], Receives 0] s) = None"
    using s by (auto simp: server_step_def server_create_def server_listen_def closed_server_def complete_accept_def accept_handler_def
        unique_id_def complete_receive_def async_round_def receive_header_def read_exactly_def session_create_def
        sizeof_PACKET_HEADER_def act_simps)
  then show ?thesis
    using accept_error_stops_listening [OF s _ _, where d = ?d and xs = "[Connects ''a'' [], Receives 0]" and ys = "[Connects ''b'' []]"] s
    by (auto simp: closed_server_def)
qed

section \<open>Handlers that consume\<close>

text \<open>A handler may read from its connection; it does not make the peer send more.\<close>

definition consumes :: "('w conn, 'a) act \<Rightarrow> bool" where
  "consumes m \<longleftrightarrow> (\<forall>s w. length (ses_inbox (fst (snd (m (s, w))))) \<le> length (ses_inbox s))"

lemma consumesD: "consumes m \<Longrightarrow> m (s, w) = (r, (s', w')) \<Longrightarrow> length (ses_inbox s') \<le> length (ses_inbox s)"
  unfolding consumes_def by (metis fst_conv snd_conv)

lemma consumesI:
  "(\<And>s w r s' w'. m (s, w) = (r, (s', w')) \<Longrightarrow> length (ses_inbox s') \<le> length (ses_inbox s)) \<Longrightarrow> consumes m"
  unfolding consumes_def by (metis prod.collapse)

named_theorems consumes_intros \<comment> \<open>what consumes\<close>

lemma consumes_ret [consumes_intros]: "consumes (ret x)" "consumes (raise f)" "consumes (lift_res r)" "consumes (gets g)"
  by (simp_all add: consumes_def act_simps)

lemma consumes_on_world [consumes_intros]: "consumes (on_world m)"
  by (auto simp: on_world_run intro!: consumesI split: prod.splits)

lemma consumes_send [consumes_intros]: "consumes (blocking_send p)" "consumes (send p)"
  by (simp_all add: consumes_def blocking_send_run send_run)

lemma consumes_bnd [consumes_intros]: "consumes m \<Longrightarrow> (\<And>x. consumes (k x)) \<Longrightarrow> consumes (bnd m k)"
  by (rule consumesI) (force simp: bnd_run split: prod.splits sum.splits dest: consumesD)

lemma consumes_if [consumes_intros]: "consumes m \<Longrightarrow> consumes n \<Longrightarrow> consumes (if b then m else n)"
  by simp

lemma consumes_option [consumes_intros]:
  "consumes m \<Longrightarrow> (\<And>x. consumes (k x)) \<Longrightarrow> consumes (case z of None \<Rightarrow> m | Some x \<Rightarrow> k x)"
  by (cases z) simp_all

lemma consumes_send_ack [consumes_intros]: "consumes (send_ack p code)"
  by (auto simp: send_ack_def intro!: consumes_intros)

lemma consumes_receive_packet [consumes_intros]: "consumes receive_packet"
  by (simp add: consumes_def receive_packet_def act_simps Let_def)

lemma consumes_round: "(\<And>p. consumes (d p)) \<Longrightarrow> consumes (receive_round d)"
  by (auto simp: receive_round_def intro!: consumes_intros)

lemma consumes_rounds: "(\<And>p. consumes (d p)) \<Longrightarrow> consumes (receive_rounds n d)"
  by (induction n) (auto intro!: consumes_intros consumes_round)

lemma consumes_blocking_receive [consumes_intros]: "(\<And>p. consumes (d p)) \<Longrightarrow> consumes (blocking_receive d)"
  using consumes_rounds [of d] unfolding consumes_def blocking_receive_def prod.case by blast

lemma consumes_recv_ack [consumes_intros]: "consumes recv_ack"
  by (auto simp: recv_ack_def recv_ack_callback_def intro!: consumes_intros)

lemma round_yes_reads:
  assumes "\<forall>p. consumes (d p)" "receive_round d (s, w) = (Inr KA_Yes, (s', w'))"
  shows "length (ses_inbox s') < length (ses_inbox s)"
proof -
  obtain p s1 where p: "receive_packet (s, w) = (Inr p, (s1, w))"
    using receive_packet_total [of s w] by blast
  with assms(2) obtain q where "p = Some q" "d q (s1, w) = (Inr KA_Yes, (s', w'))"
    by (cases p) (auto simp: receive_round_def act_simps)
  with consumesD [OF assms(1) [rule_format]] receive_packet_consumes [of s w q s1 w] p show ?thesis by fastforce
qed

section \<open>Stopping\<close>

text \<open>What is left to receive on the connections that are kept alive.\<close>

definition left_on :: "session \<times> bool \<Rightarrow> nat" where
  "left_on c = (if snd c then Suc (length (ses_inbox (fst c))) else 0)"

definition server_left :: "'w server \<Rightarrow> nat" where
  "server_left s = sum_list (map left_on (srv_conns s))"

lemma sum_list_update_less:
  "k < length xs \<Longrightarrow> f y < (f (xs ! k) :: nat) \<Longrightarrow> sum_list (map f (xs[k := y])) < sum_list (map f xs)"
proof (induction xs arbitrary: k)
  case Nil
  then show ?case by simp
next
  case (Cons x xs)
  then show ?case by (cases k) auto
qed

lemma receive_decreases:
  assumes "\<forall>p. consumes (d p)" "k < length (srv_conns s)" "snd (srv_conns s ! k)" "srv_fault s = None"
  shows "srv_fault (server_step d (Receives k) s) \<noteq> None \<or> server_left (server_step d (Receives k) s) < server_left s"
proof -
  let ?c = "srv_conns s ! k"
  obtain r se w where r: "async_round d (fst ?c, srv_world s) = (r, (se, w))"
    by (cases "async_round d (fst ?c, srv_world s)") auto
  show ?thesis
  proof (cases r)
    case (Inl f)
    with r assms show ?thesis by (simp add: server_step_def complete_receive_def)
  next
    case (Inr keep)
    have "receive_round d (fst ?c, srv_world s) = (Inr keep, (se, w))"
      using r Inr async_round_is_blocking_round [of d "(fst ?c, srv_world s)"] by simp
    then have "keep = KA_Yes \<longrightarrow> length (ses_inbox se) < length (ses_inbox (fst ?c))"
      using round_yes_reads [OF assms(1)] by blast
    then have "left_on (se, keep = KA_Yes) < left_on ?c" using assms(3) by (simp add: left_on_def)
    with sum_list_update_less [OF assms(2), of left_on] r Inr assms show ?thesis
      by (simp add: server_step_def complete_receive_def server_left_def)
  qed
qed

lemma idle_when_nothing_left: "\<not> srv_accepting s \<Longrightarrow> server_left s = 0 \<Longrightarrow> server_idle s"
  by (auto simp: server_idle_def server_left_def left_on_def split: if_splits)

lemma busy_connection:
  assumes "\<not> srv_accepting s" "\<not> server_idle s"
  shows "\<exists>k < length (srv_conns s). snd (srv_conns s ! k)"
  using assms unfolding server_idle_def by (metis in_set_conv_nth)

text \<open>
  Whatever its connections were doing, some completions of their receives leave a stopped
  server with nothing pending.
\<close>

lemma stopped_server_comes_to_rest:
  assumes "\<forall>p. consumes (d p)" "srv_open s"
  shows "\<exists>ks. (let s' = server_run d (map Receives ks) (server_stop s) in srv_fault s' \<noteq> None \<or> server_idle s')"
proof -
  have stop: "\<not> srv_accepting (server_stop s)"
    using assms(2) by (simp add: server_stop_def complete_accept_def accept_handler_def)
  have "\<not> srv_accepting t \<Longrightarrow> \<exists>ks. (let s' = server_run d (map Receives ks) t in srv_fault s' \<noteq> None \<or> server_idle s')" for t
  proof (induction "server_left t" arbitrary: t rule: less_induct)
    case less
    show ?case
    proof (cases "srv_fault t \<noteq> None \<or> server_idle t")
      case True
      then show ?thesis by (intro exI [of _ "[]"]) simp
    next
      case False
      then obtain k where k: "k < length (srv_conns t)" "snd (srv_conns t ! k)"
        using busy_connection [OF less.prems] by blast
      let ?t = "server_step d (Receives k) t"
      consider "srv_fault ?t \<noteq> None" | "server_left ?t < server_left t"
        using receive_decreases [OF assms(1) k] False by blast
      then show ?thesis
      proof cases
        case 1
        then show ?thesis by (intro exI [of _ "[k]"]) simp
      next
        case 2
        obtain ks where "let s' = server_run d (map Receives ks) ?t in srv_fault s' \<noteq> None \<or> server_idle s'"
          using less.hyps [OF 2] not_accepting_step [OF less.prems] by blast
        then show ?thesis by (intro exI [of _ "k # ks"]) simp
      qed
    qed
  qed
  from this [OF stop] show ?thesis .
qed

section \<open>The end of a program\<close>

lemma joins:
  assumes "srv_fault (prg_server p) = None" "server_idle (prg_server p)"
  shows "n \<le> length (prg_threads p) \<Longrightarrow> (\<forall>i<n. prg_threads p ! i) \<Longrightarrow>
    forA join_thread [0..<n] p = (Inr (), p\<lparr>prg_threads := replicate n False @ drop n (prg_threads p)\<rparr>)"
proof (induction n)
  case 0
  then show ?case by (simp add: ret_run)
next
  case (Suc n)
  let ?p = "p\<lparr>prg_threads := replicate n False @ drop n (prg_threads p)\<rparr>"
  have "(replicate n False @ drop n (prg_threads p))[n := False] = replicate (Suc n) False @ drop (Suc n) (prg_threads p)"
    using Suc.prems(1) by (simp add: list_update_append Cons_nth_drop_Suc [symmetric] replicate_append_same)
  then have "join_thread n ?p = (Inr (), p\<lparr>prg_threads := replicate (Suc n) False @ drop (Suc n) (prg_threads p)\<rparr>)"
    using assms Suc.prems by (simp add: join_thread_def act_simps nth_append)
  then show ?case using Suc by (simp add: forA_append bnd_run ret_run)
qed

lemma stop_joins:
  assumes "prg_threads p = replicate (Suc n) True"
    and "s = server_run (pge_dispatch E) after (server_stop (prg_server p))" "srv_fault s = None" "server_idle s"
  shows "program_stop E after p = (Inr (), p\<lparr>prg_server := s, prg_threads := replicate (Suc n) False\<rparr>)"
proof -
  let ?p = "p\<lparr>prg_server := s\<rparr>"
  have "forA join_thread [0..<Suc n] ?p = (Inr (), ?p\<lparr>prg_threads := replicate (Suc n) False @ drop (Suc n) (prg_threads ?p)\<rparr>)"
    by (rule joins) (use assms in \<open>simp_all del: replicate_Suc\<close>)
  then show ?thesis
    using assms(1,2) by (simp add: program_stop_def threads_run_def on_server_def bnd_run gets_run modify_run del: upt_Suc)
qed

text \<open>Joining threads that were joined is an exception.\<close>

lemma stop_twice:
  assumes "prg_threads p = replicate (Suc n) False" "srv_fault (server_stop (prg_server p)) = None"
  shows "program_stop E [] p = (Inl (Throw System_error), p\<lparr>prg_server := server_stop (prg_server p)\<rparr>)"
proof -
  have "[0..<Suc n] = 0 # [Suc 0..<Suc n]" by (simp add: upt_conv_Cons)
  then show ?thesis
    using assms by (simp add: program_stop_def threads_run_def on_server_def join_thread_def act_simps del: upt_Suc)
qed

lemma server_stop_idle: "server_idle s \<Longrightarrow> server_stop s = s"
  by (simp add: server_stop_def complete_accept_def server_idle_def)

text \<open>A program with threads does not get past its destructor.\<close>

lemma join_thread_returns:
  "join_thread i p = (Inr (), p') \<Longrightarrow> p' = p\<lparr>prg_threads := (prg_threads p)[i := False]\<rparr>"
  by (auto simp: join_thread_def act_simps split: if_splits)

lemma cleared_entry: "k < length ts \<Longrightarrow> ts[i := False] ! k \<Longrightarrow> ts ! k \<and> k \<noteq> i"
  by (cases "k = i") auto

lemma joined_threads:
  "forA join_thread is p = (Inr (), p') \<Longrightarrow> length (prg_threads p') = length (prg_threads p)
     \<and> (\<forall>k < length (prg_threads p). prg_threads p' ! k \<longrightarrow> prg_threads p ! k \<and> k \<notin> set is)"
proof (induction "is" arbitrary: p)
  case Nil
  then show ?case by (simp add: ret_run)
next
  case (Cons i js)
  then obtain q where q: "join_thread i p = (Inr (), q)" "forA join_thread js q = (Inr (), p')"
    by (auto simp: bnd_run split: prod.splits sum.splits)
  have th: "prg_threads q = (prg_threads p)[i := False]" using join_thread_returns [OF q(1)] by simp
  have "prg_threads p ! k \<and> k \<notin> set (i # js)" if "k < length (prg_threads p)" "prg_threads p' ! k" for k
  proof -
    have "prg_threads q ! k \<and> k \<notin> set js" using Cons.IH [OF q(2)] that by (simp add: th)
    with cleared_entry [OF that(1), of i] show ?thesis by (simp add: th)
  qed
  moreover have "length (prg_threads p') = length (prg_threads p)" using Cons.IH [OF q(2)] by (simp add: th)
  ultimately show ?case by blast
qed

lemma stop_returns:
  assumes "program_stop E after p = (Inr (), p')"
  shows "length (prg_threads p') = length (prg_threads p) \<and> (\<forall>i < length (prg_threads p). \<not> prg_threads p' ! i)"
proof -
  obtain q where "forA join_thread [0..<length (prg_threads q)] q = (Inr (), p')" "prg_threads q = prg_threads p"
    using assms by (auto simp: program_stop_def threads_run_def on_server_def bnd_run modify_run gets_run ret_run split: if_splits)
  with joined_threads [of "[0..<length (prg_threads q)]" q p'] show ?thesis by auto
qed

lemma destroy_fails:
  assumes "prg_threads p \<noteq> []" "\<not> prg_threads p ! 0"
  shows "fst (program_destroy E p) \<noteq> Inr ()"
proof -
  have "fst (program_stop E [] p) \<noteq> Inr ()"
  proof
    assume "fst (program_stop E [] p) = Inr ()"
    moreover have "[0..<length (prg_threads p)] = 0 # [1..<length (prg_threads p)]"
      using assms(1) by (simp add: upt_conv_Cons)
    ultimately show False
      using assms(2) by (auto simp: program_stop_def threads_run_def on_server_def join_thread_def act_simps
          split: if_splits prod.splits sum.splits)
  qed
  with assms(1) show ?thesis
    by (auto simp: program_destroy_def catching_run bnd_run gets_run raise_run split: prod.splits sum.splits fault.splits)
qed

lemma life_never_returns:
  assumes "\<And>b r. run q = (Inr b, r) \<Longrightarrow> b \<and> prg_threads r \<noteq> []"
  shows "fst (scoped (bnd run (\<lambda>running. if running then program_catch_stop E else ret ())) (program_destroy E) q) \<noteq> Inr ()"
proof
  assume sc: "fst (scoped (bnd run (\<lambda>running. if running then program_catch_stop E else ret ())) (program_destroy E) q) = Inr ()"
  obtain r t where r: "run q = (Inr True, r)" and t: "program_catch_stop E r = (Inr (), t)" "fst (program_destroy E t) = Inr ()"
    using sc assms by (auto simp: scoped_def bnd_run split: prod.splits sum.splits fault.splits if_splits)
  have "prg_threads r \<noteq> []" using assms [OF r] by simp
  moreover obtain u where "program_stop E (pge_after E) u = (Inr (), t)" "prg_threads u = prg_threads r"
    using t(1) by (auto simp: program_catch_stop_def threads_run_def on_server_def bnd_run modify_run gets_run ret_run split: if_splits)
  ultimately have "prg_threads t \<noteq> []" "\<not> prg_threads t ! 0"
    using stop_returns [of E "pge_after E" u t] by auto
  with destroy_fails [of t E] t(2) show False by blast
qed

lemma create_opens: "program_create E p = (Inr (), q) \<Longrightarrow> srv_open (prg_server q)"
  by (auto simp: program_create_def server_create_def server_listen_def on_server_def act_simps split: sum.splits if_splits)

lemma run_starts:
  assumes "srv_open (prg_server q)" "pge_concurrency E \<noteq> 0" "program_run E q = (Inr b, r)"
  shows "b \<and> prg_threads r \<noteq> []"
proof -
  have "unat (pge_concurrency E) \<noteq> 0" using assms(2) by (simp add: unat_eq_0)
  then show ?thesis using assms(1,3) by (auto simp: program_run_def act_simps is_running_def)
qed

lemma body_never_returns:
  assumes "pge_concurrency E \<noteq> 0"
  shows "fst (program_body E p) \<noteq> Inr ()"
proof
  assume "fst (program_body E p) = Inr ()"
  then obtain q where q: "program_create E p = (Inr (), q)"
    and sc: "fst (scoped (bnd (program_run E) (\<lambda>running. if running then program_catch_stop E else ret ())) (program_destroy E) q) = Inr ()"
    by (auto simp: program_body_def bnd_run split: prod.splits sum.splits)
  have "b \<and> prg_threads r \<noteq> []" if "program_run E q = (Inr b, r)" for b r
    using run_starts [OF create_opens [OF q] assms that] .
  from life_never_returns [of "program_run E" q E, OF this] sc show False by blast
qed

text \<open>
  C30: A program stopped by a signal is aborted: once its connections have come to rest, the
  handler of the signal joins every thread, and the destructor then stops the program again
  and joins the same threads, which is an exception it cannot let out. The state of the
  program is by then complete, but its exit code is never 0.
\<close>

theorem shutdown_aborts:
  assumes "get_ipv6 (pge_net E) (pge_hostname E) = Inr addr" "pge_binds E (addr, pge_port E)"
    and "pge_concurrency E \<noteq> 0" "prg_threads p = []"
    and "s = server_run (pge_dispatch E) (pge_after E) (server_stop
      (server_run (pge_dispatch E) (pge_before E) (server_listen ((prg_server p)\<lparr>srv_open := True\<rparr>))))"
    and "srv_fault s = None" "server_idle s"
  shows "program_body E p =
    (Inl Undefined, \<lparr>prg_server = s, prg_threads = replicate (unat (pge_concurrency E)) False\<rparr>)"
proof -
  obtain sv where p: "p = \<lparr>prg_server = sv, prg_threads = []\<rparr>" using assms(4) by (cases p) simp
  obtain n where n: "unat (pge_concurrency E) = Suc n"
    using assms(3) by (cases "unat (pge_concurrency E)") (simp_all add: unat_eq_zero)
  let ?s0 = "server_listen (sv\<lparr>srv_open := True\<rparr>)"
  let ?s1 = "server_run (pge_dispatch E) (pge_before E) ?s0"
  have create: "program_create E p = (Inr (), \<lparr>prg_server = ?s0, prg_threads = []\<rparr>)"
    using assms(1,2) by (simp add: p program_create_def server_create_def on_server_def act_simps)
  have run: "program_run E (\<lparr>prg_server = ?s0, prg_threads = []\<rparr>) = (Inr True, \<lparr>prg_server = ?s0, prg_threads = replicate (Suc n) True\<rparr>)"
    using n by (simp add: program_run_def act_simps is_running_def server_listen_def)
  have "program_stop E (pge_after E) (\<lparr>prg_server = ?s1, prg_threads = replicate (Suc n) True\<rparr>) =
      (Inr (), \<lparr>prg_server = s, prg_threads = replicate (Suc n) False\<rparr>)"
    using stop_joins [of "\<lparr>prg_server = ?s1, prg_threads = replicate (Suc n) True\<rparr>" n s E "pge_after E"] assms(5-7) p
    by (simp del: replicate_Suc)
  then have catch_stop: "program_catch_stop E (\<lparr>prg_server = ?s0, prg_threads = replicate (Suc n) True\<rparr>) =
      (Inr (), \<lparr>prg_server = s, prg_threads = replicate (Suc n) False\<rparr>)"
    by (simp add: program_catch_stop_def threads_run_def on_server_def bnd_run gets_run modify_run)
  have "program_destroy E (\<lparr>prg_server = s, prg_threads = replicate (Suc n) False\<rparr>) =
      (Inl Undefined, \<lparr>prg_server = s, prg_threads = replicate (Suc n) False\<rparr>)"
    using stop_twice [of "\<lparr>prg_server = s, prg_threads = replicate (Suc n) False\<rparr>" n E] assms(6) server_stop_idle [OF assms(7)]
    by (simp add: program_destroy_def catching_run bnd_run gets_run raise_run del: replicate_Suc)
  then show ?thesis
    unfolding n by (simp add: program_body_def scoped_def bnd_run create run catch_stop del: replicate_Suc)
qed

definition sample_program :: "unit program_env" where
  "sample_program = \<lparr>pge_net = sample_net, pge_hostname = ''abcdefghijklmnop'', pge_port = 3727, pge_concurrency = 2,
     pge_binds = (\<lambda>_. True), pge_dispatch = (\<lambda>p. ret KA_No), pge_before = [Connects ''a'' []], pge_after = [Receives 0]\<rparr>"

lemma shutdown_aborts_witness:
  "\<exists>s. program_body sample_program \<lparr>prg_server = closed_server (), prg_threads = []\<rparr> =
     (Inl Undefined, \<lparr>prg_server = s, prg_threads = replicate (unat (pge_concurrency sample_program)) False\<rparr>)"
proof -
  let ?d = "pge_dispatch sample_program"
  let ?p = "\<lparr>prg_server = closed_server (), prg_threads = []\<rparr>"
  let ?s = "server_run ?d (pge_after sample_program) (server_stop
    (server_run ?d (pge_before sample_program) (server_listen ((prg_server ?p)\<lparr>srv_open := True\<rparr>))))"
  have "get_ipv6 (pge_net sample_program) (pge_hostname sample_program) = Inr ''abcdefghijklmnop''"
    by (simp add: sample_program_def get_ipv6_def sample_net_def)
  moreover have "srv_fault ?s = None \<and> server_idle ?s"
    by (simp add: sample_program_def server_step_def server_listen_def server_stop_def closed_server_def complete_accept_def
        accept_handler_def unique_id_def complete_receive_def async_round_def receive_header_def read_exactly_def
        session_create_def sizeof_PACKET_HEADER_def server_idle_def act_simps)
  ultimately show ?thesis
    using shutdown_aborts [of sample_program "''abcdefghijklmnop''" ?p ?s]
    by (simp add: sample_program_def)
qed

section \<open>Exit codes\<close>

lemma main_rest_zero: "fst (body w) \<noteq> Inr () \<Longrightarrow> fst (main_rest body w) \<noteq> Inr 0"
  by (auto simp: main_rest_def catching_run bnd_run ret_run split: prod.splits sum.splits fault.splits)

text \<open>A main function whose second part never gives 0 gives it for \<^verbatim>\<open>throw 0\<close> only.\<close>

lemma main_zero:
  assumes "\<And>v. init w = (Inr (), v) \<Longrightarrow> fst (rest v) \<noteq> Inr 0" "program_main init rest w = (Inr 0, w')"
  shows "init w = (Inl (Throw (Int_thrown 0)), w')"
proof -
  obtain r v where r: "init w = (r, v)" by (cases "init w")
  show ?thesis
  proof (cases r)
    case (Inr x)
    then show ?thesis
      using assms r by (auto simp: program_main_def main_init_def catching_run bnd_run ret_run dest: arg_cong [of _ _ fst])
  next
    case (Inl f)
    then show ?thesis
      using assms(2) r by (cases f) (auto simp: program_main_def main_init_def catching_run bnd_run ret_run split: exn.splits)
  qed
qed

text \<open>The codes of a main function whose initialisation throws no other \<^verbatim>\<open>int\<close> than 0 and 1.\<close>

lemma main_code:
  assumes "\<And>i v. init w = (Inl (Throw (Int_thrown i)), v) \<Longrightarrow> i = 0 \<or> i = 1"
    and "\<And>v x. fst (rest v) = Inr x \<Longrightarrow> x = 0 \<or> x = 1"
    and "fst (program_main init rest w) = Inr x"
  shows "x = 0 \<or> x = 1"
proof -
  obtain r v where r: "init w = (r, v)" by (cases "init w")
  show ?thesis
  proof (cases r)
    case (Inr y)
    then show ?thesis
      using assms(2,3) r by (simp add: program_main_def main_init_def catching_run bnd_run ret_run)
  next
    case (Inl f)
    then show ?thesis
      using assms(1,3) r by (cases f) (auto simp: program_main_def main_init_def catching_run bnd_run ret_run split: exn.splits)
  qed
qed

lemma main_rest_code: "fst (main_rest body v) = Inr x \<Longrightarrow> x = 0 \<or> x = 1"
  by (auto simp: main_rest_def catching_run bnd_run ret_run split: prod.splits sum.splits fault.splits if_splits)

end
