(* ===== verification/Conf.thy ===== *)
theory Conf
  imports Session Net_Misc
begin

text \<open>
  The configurations of the three programs (\<^verbatim>\<open>master.hh\<close>, \<^verbatim>\<open>storage.hh\<close>, \<^verbatim>\<open>client.hh\<close>) and
  the outgoing connections they open (\<^verbatim>\<open>libtools/network/session.cc\<close>).
\<close>

section \<open>Configurations\<close>

record DB_conf =
  db_hostname :: string
  db_password :: string
  db_bucket :: string

record master_Conf =
  mc_config_path :: string
  mc_hostname :: string
  mc_port :: port_type
  mc_concurrency :: "32 word"
  mc_timeout :: "32 word"
  mc_db :: DB_conf

record storage_Conf =
  sc_config_path :: string
  sc_hostname :: string
  sc_port :: port_type
  sc_concurrency :: "32 word"
  sc_timeout :: "32 word"
  sc_master_hostname :: string
  sc_master_port :: port_type
  sc_storage_path :: string
  sc_id_path :: string

datatype action = Act_none | Act_upload | Act_download

record client_Conf =
  cc_config_path :: string
  cc_concurrency :: "32 word"
  cc_master_hostname :: string
  cc_master_port :: port_type
  cc_action :: action
  cc_file_path :: string
  cc_redundancy :: rdcy_type

section \<open>Outgoing connections\<close>

text \<open>
  The network as the program sees it: for an endpoint, an error message, or the bytes the
  peer is going to send on a new connection to it.
\<close>

type_synonym tcp = "ip_address \<times> port_type \<Rightarrow> string + string"

text \<open>\<^verbatim>\<open>Session::create(io_service, host, port)\<close>\<close>

definition session_connect :: "net_lib \<Rightarrow> tcp \<Rightarrow> nat \<Rightarrow> string \<Rightarrow> port_type \<Rightarrow> session res" where
  "session_connect N connect i host port =
     rbind (endpoint_from_host_port N host port) (\<lambda>endpoint.
       case connect endpoint of
         Inl msg \<Rightarrow> Inl (Throw (Logic_error (''Unable to connect to server ('' @ msg @ '').'')))
       | Inr inbox \<Rightarrow> Inr (session_create i host inbox))"

text \<open>\<open>opened\<close>: the connections a program has opened, with what it wrote on each.\<close>

type_synonym opened = "(string \<times> port_type \<times> string) list"

lemma session_connect_fresh:
  assumes "session_connect N connect i host port = Inr s"
  shows "ses_open s \<and> ses_outbox s = [] \<and>
    (\<exists>e. endpoint_from_host_port N host port = Inr e \<and> connect e = Inr (ses_inbox s))"
proof -
  obtain e where e: "endpoint_from_host_port N host port = Inr e"
    and s: "(case connect e of Inl msg \<Rightarrow> Inl (Throw (Logic_error (''Unable to connect to server ('' @ msg @ '').'')))
       | Inr inbox \<Rightarrow> Inr (session_create i host inbox)) = Inr s"
    using assms by (cases "endpoint_from_host_port N host port") (simp_all add: session_connect_def)
  then show ?thesis by (cases "connect e") (auto simp: session_create_def)
qed

end
