(* ===== verification/Json.thy ===== *)
theory Json
  imports Prelude
begin

text \<open>
  The part of Boost the stored items and the configuration files go through: reading JSON
  into a property tree, fetching a child and converting its text. These are parameters of
  the model. What the code relies on is stated once, over a grammar of the JSON texts the
  program produces and reads; a reader that meets it is given at the end, so that the
  statements that assume it can be applied.
\<close>

section \<open>Property trees and the library\<close>

text \<open>A \<^verbatim>\<open>ptree\<close> is a text and an ordered list of children with their keys.\<close>

datatype ptree = PTree (ptree_data: string) (ptree_children: "(string \<times> ptree) list")

text \<open>
  \<open>read_json\<close> is \<^verbatim>\<open>read_json(is, pt)\<close>, \<open>get_child\<close> is \<^verbatim>\<open>pt.get_child(key)\<close>;
  \<open>get_unsigned\<close> converts the text of a node to an unsigned integer of that many bits and
  \<open>get_bool\<close> to a \<^verbatim>\<open>bool\<close> (as \<^verbatim>\<open>get<T>\<close> does), \<open>cast_unsigned\<close> is \<^verbatim>\<open>lexical_cast\<close>. \<open>None\<close> is
  the exception.
\<close>

record boost =
  read_json :: "string \<Rightarrow> ptree option"
  get_child :: "ptree \<Rightarrow> string \<Rightarrow> ptree option"
  get_unsigned :: "nat \<Rightarrow> string \<Rightarrow> nat option"
  get_bool :: "string \<Rightarrow> bool option"
  cast_unsigned :: "nat \<Rightarrow> string \<Rightarrow> nat option"

section \<open>JSON texts\<close>

definition is_space :: "char \<Rightarrow> bool" where
  "is_space c \<longleftrightarrow> c = CHR '' '' \<or> c = CHR 0x0A"

definition spaces :: "string \<Rightarrow> bool" where
  "spaces s \<longleftrightarrow> list_all is_space s"

text \<open>
  A text that stands for itself between quotes: printable ASCII without the quote and the
  backslash. The program writes strings without escaping anything.
\<close>

definition plain_char :: "char \<Rightarrow> bool" where
  "plain_char c \<longleftrightarrow> 32 \<le> (of_char c :: nat) \<and> (of_char c :: nat) < 127 \<and> c \<noteq> CHR 0x22 \<and> c \<noteq> CHR 0x5C"

definition plain :: "string \<Rightarrow> bool" where
  "plain s \<longleftrightarrow> list_all plain_char s"

definition quoted :: "string \<Rightarrow> string" where
  "quoted s = [CHR 0x22] @ s @ [CHR 0x22]"

text \<open>
  \<open>json_text s t\<close>: the value written \<open>s\<close> is read as the tree \<open>t\<close>. Space may stand around
  the tokens of objects and arrays; the elements of an array have the empty key.
\<close>

inductive json_text :: "string \<Rightarrow> ptree \<Rightarrow> bool"
  and json_members :: "string \<Rightarrow> (string \<times> ptree) list \<Rightarrow> bool"
  and json_elements :: "string \<Rightarrow> ptree list \<Rightarrow> bool"
where
  number: "json_text (decimal n) (PTree (decimal n) [])"
| string: "plain s \<Longrightarrow> json_text (quoted s) (PTree s [])"
| empty_object: "spaces w \<Longrightarrow> json_text (''{'' @ w @ ''}'') (PTree [] [])"
| object: "json_members s ms \<Longrightarrow> json_text (''{'' @ s @ ''}'') (PTree [] ms)"
| empty_array: "spaces w \<Longrightarrow> json_text (''['' @ w @ '']'') (PTree [] [])"
| array: "json_elements s es \<Longrightarrow> json_text (''['' @ s @ '']'') (PTree [] (map (Pair []) es))"
| last_member: "spaces w \<Longrightarrow> spaces w' \<Longrightarrow> spaces w'' \<Longrightarrow> spaces w''' \<Longrightarrow> plain k \<Longrightarrow> json_text v t
    \<Longrightarrow> json_members (w @ quoted k @ w' @ '':'' @ w'' @ v @ w''') [(k, t)]"
| member: "spaces w \<Longrightarrow> spaces w' \<Longrightarrow> spaces w'' \<Longrightarrow> spaces w''' \<Longrightarrow> plain k \<Longrightarrow> json_text v t
    \<Longrightarrow> json_members s ms
    \<Longrightarrow> json_members (w @ quoted k @ w' @ '':'' @ w'' @ v @ w''' @ '','' @ s) ((k, t) # ms)"
| last_element: "spaces w \<Longrightarrow> spaces w' \<Longrightarrow> json_text v t \<Longrightarrow> json_elements (w @ v @ w') [t]"
| element: "spaces w \<Longrightarrow> spaces w' \<Longrightarrow> json_text v t \<Longrightarrow> json_elements s es
    \<Longrightarrow> json_elements (w @ v @ w' @ '','' @ s) (t # es)"

text \<open>
  What the program relies on: JSON is read as it is documented, a key without a dot names
  the first child with that key, and decimal text converts to the number it shows when that
  number fits the type.
\<close>

definition boost_ok :: "boost \<Rightarrow> bool" where
  "boost_ok B \<longleftrightarrow>
     (\<forall>s t w w'. json_text s t \<longrightarrow> spaces w \<longrightarrow> spaces w' \<longrightarrow> read_json B (w @ s @ w') = Some t)
     \<and> (\<forall>d cs k. CHR ''.'' \<notin> set k \<longrightarrow> get_child B (PTree d cs) k = map_of cs k)
     \<and> (\<forall>w n. n < 2 ^ w \<longrightarrow> get_unsigned B w (decimal n) = Some n \<and> cast_unsigned B w (decimal n) = Some n)
     \<and> get_bool B (decimal 0) = Some False \<and> get_bool B (decimal 1) = Some True"

lemma spaces_Nil [simp]: "spaces []"
  by (simp add: spaces_def)

lemma boost_read:
  assumes "boost_ok B" "json_text s t"
  shows "read_json B s = Some t"
proof -
  from assms have "spaces [] \<longrightarrow> spaces [] \<longrightarrow> read_json B ([] @ s @ []) = Some t"
    unfolding boost_ok_def by blast
  then show ?thesis by simp
qed

lemma boost_child: "boost_ok B \<Longrightarrow> CHR ''.'' \<notin> set k \<Longrightarrow> get_child B (PTree d cs) k = map_of cs k"
  by (simp add: boost_ok_def)

lemma boost_number: "boost_ok B \<Longrightarrow> n < 2 ^ w \<Longrightarrow> get_unsigned B w (decimal n) = Some n"
  by (simp add: boost_ok_def)

lemma boost_cast: "boost_ok B \<Longrightarrow> n < 2 ^ w \<Longrightarrow> cast_unsigned B w (decimal n) = Some n"
  by (simp add: boost_ok_def)

lemma boost_bool: "boost_ok B \<Longrightarrow> get_bool B (decimal (of_bool b)) = Some b"
  by (cases b) (simp_all add: boost_ok_def)

section \<open>Typed access\<close>

text \<open>\<^verbatim>\<open>pt.get<T>(key)\<close> for an unsigned type, a string and a \<^verbatim>\<open>bool\<close>.\<close>

definition pt_get_word :: "boost \<Rightarrow> ptree \<Rightarrow> string \<Rightarrow> 'a::len word res" where
  "pt_get_word B pt k =
     rbind (of_option Ptree_error (get_child B pt k)) (\<lambda>c.
     rbind (of_option Ptree_error (get_unsigned B LENGTH('a) (ptree_data c))) (\<lambda>n.
       Inr (word_of_nat n)))"

definition pt_get_string :: "boost \<Rightarrow> ptree \<Rightarrow> string \<Rightarrow> string res" where
  "pt_get_string B pt k =
     rbind (of_option Ptree_error (get_child B pt k)) (\<lambda>c. Inr (ptree_data c))"

definition pt_get_bool :: "boost \<Rightarrow> ptree \<Rightarrow> string \<Rightarrow> bool res" where
  "pt_get_bool B pt k =
     rbind (of_option Ptree_error (get_child B pt k)) (\<lambda>c.
       of_option Ptree_error (get_bool B (ptree_data c)))"

text \<open>\<^verbatim>\<open>lexical_cast<T>\<close> of the text of a node.\<close>

definition lexical_word :: "boost \<Rightarrow> string \<Rightarrow> 'a::len word res" where
  "lexical_word B s =
     rbind (of_option Bad_lexical_cast (cast_unsigned B LENGTH('a) s)) (\<lambda>n. Inr (word_of_nat n))"

definition word_tree :: "'a::len word \<Rightarrow> ptree" where
  "word_tree w = PTree (decimal (unat w)) []"

definition bool_tree :: "bool \<Rightarrow> ptree" where
  "bool_tree b = PTree (decimal (of_bool b)) []"

named_theorems pt_simps \<comment> \<open>reading back what was written\<close>

lemma pt_get_word [pt_simps]:
  "boost_ok B \<Longrightarrow> CHR ''.'' \<notin> set k \<Longrightarrow> map_of cs k = Some (word_tree (x :: 'a::len word))
   \<Longrightarrow> pt_get_word B (PTree d cs) k = Inr x"
  by (simp add: pt_get_word_def boost_child word_tree_def boost_number unsigned_less)

lemma pt_get_string [pt_simps]:
  "boost_ok B \<Longrightarrow> CHR ''.'' \<notin> set k \<Longrightarrow> map_of cs k = Some (PTree s [])
   \<Longrightarrow> pt_get_string B (PTree d cs) k = Inr s"
  by (simp add: pt_get_string_def boost_child)

lemma pt_get_bool [pt_simps]:
  "boost_ok B \<Longrightarrow> CHR ''.'' \<notin> set k \<Longrightarrow> map_of cs k = Some (bool_tree b)
   \<Longrightarrow> pt_get_bool B (PTree d cs) k = Inr b"
  by (simp add: pt_get_bool_def boost_child boost_bool bool_tree_def del: of_bool_eq_iff)

lemma lexical_word [pt_simps]:
  "boost_ok B \<Longrightarrow> lexical_word B (ptree_data (word_tree (x :: 'a::len word))) = Inr x"
  by (simp add: lexical_word_def word_tree_def boost_cast unsigned_less)

lemma json_word: "json_text (decimal (unat w)) (word_tree w)"
  by (simp add: word_tree_def json_text_json_members_json_elements.number)

text \<open>Members and elements as lists, written with commas and no space.\<close>

fun comma_separated :: "string list \<Rightarrow> string" where
  "comma_separated [] = []"
| "comma_separated [s] = s"
| "comma_separated (s # ss) = s @ '','' @ comma_separated ss"

lemma json_elements_list:
  "es \<noteq> [] \<Longrightarrow> list_all2 json_text ss es \<Longrightarrow> json_elements (comma_separated ss) es"
proof (induction es arbitrary: ss)
  case Nil
  then show ?case by simp
next
  case (Cons t es)
  then obtain s ss' where ss: "ss = s # ss'" "json_text s t" "list_all2 json_text ss' es"
    by (cases ss) auto
  have w: "spaces []" by (simp add: spaces_def)
  show ?case
  proof (cases es)
    case Nil
    with ss json_text_json_members_json_elements.last_element [OF w w ss(2)] show ?thesis by simp
  next
    case (Cons t' es')
    with ss obtain s' ss'' where "ss' = s' # ss''" by (cases ss') auto
    with Cons Cons.IH [OF _ ss(3)] ss
      json_text_json_members_json_elements.element [OF w w ss(2), of "comma_separated ss'" es]
    show ?thesis by simp
  qed
qed

definition json_array :: "string list \<Rightarrow> string" where
  "json_array ss = ''['' @ comma_separated ss @ '']''"

lemma json_array:
  assumes "list_all2 json_text ss es"
  shows "json_text (json_array ss) (PTree [] (map (Pair []) es))"
proof (cases "es = []")
  case True
  with assms json_text_json_members_json_elements.empty_array [of "[]"] show ?thesis
    by (simp add: json_array_def spaces_def)
next
  case False
  then show ?thesis
    unfolding json_array_def
    by (intro json_text_json_members_json_elements.array json_elements_list assms)
qed

text \<open>Objects: each member is a key, possibly space after the colon, and a value.\<close>

definition member_text :: "string \<times> string \<times> string \<Rightarrow> string" where
  "member_text m = (case m of (k, w, v) \<Rightarrow> quoted k @ '':'' @ w @ v)"

lemma member_text: "member_text (k, w, v) = quoted k @ '':'' @ w @ v"
  by (simp add: member_text_def)

definition json_object :: "(string \<times> string \<times> string) list \<Rightarrow> string" where
  "json_object ms = ''{'' @ comma_separated (map member_text ms) @ ''}''"

definition member_ok :: "string \<times> string \<times> string \<Rightarrow> string \<times> ptree \<Rightarrow> bool" where
  "member_ok m kt \<longleftrightarrow> (case m of (k, w, v) \<Rightarrow> plain k \<and> spaces w \<and> fst kt = k \<and> json_text v (snd kt))"

lemma json_members_list:
  "kts \<noteq> [] \<Longrightarrow> list_all2 member_ok ms kts \<Longrightarrow> json_members (comma_separated (map member_text ms)) kts"
proof (induction kts arbitrary: ms)
  case Nil
  then show ?case by simp
next
  case (Cons kt kts)
  obtain k t where kt: "kt = (k, t)" by (cases kt)
  from Cons.prems obtain m ms' where m: "ms = m # ms'" "member_ok m kt"
    and rest: "list_all2 member_ok ms' kts"
    by (auto simp: list_all2_Cons2)
  from m kt obtain w v where ms: "ms = (k, w, v) # ms'"
    and ok: "plain k" "spaces w" "json_text v t"
    by (cases m) (auto simp: member_ok_def)
  have e: "spaces []" by (simp add: spaces_def)
  show ?case
  proof (cases kts)
    case Nil
    with rest ms kt json_text_json_members_json_elements.last_member [OF e e ok(2) e ok(1,3)]
    show ?thesis by (simp add: member_text)
  next
    case (Cons a list)
    with rest obtain m ms'' where "ms' = m # ms''" by (cases ms') auto
    with Cons Cons.IH [OF _ rest] ms kt
      json_text_json_members_json_elements.member [OF e e ok(2) e ok(1,3), of "comma_separated (map member_text ms')" kts]
    show ?thesis by (simp add: member_text)
  qed
qed

lemma json_object:
  assumes "list_all2 member_ok ms kts" "kts \<noteq> []"
  shows "json_text (json_object ms) (PTree [] kts)"
  unfolding json_object_def
  by (intro json_text_json_members_json_elements.object json_members_list assms)

section \<open>A reader that meets the contract\<close>

text \<open>
  Recursive descent with fuel; the length of the text is enough fuel.
\<close>

abbreviation skip :: "string \<Rightarrow> string" where
  "skip s \<equiv> dropWhile is_space s"

fun read_string :: "string \<Rightarrow> (string \<times> string) option" where
  "read_string [] = None"
| "read_string (c # s) =
     (if c \<noteq> CHR 0x22 then None
      else case dropWhile (\<lambda>d. d \<noteq> CHR 0x22) s of
             [] \<Rightarrow> None
           | _ # rest \<Rightarrow> Some (takeWhile (\<lambda>d. d \<noteq> CHR 0x22) s, rest))"

fun expect :: "char \<Rightarrow> 'a \<times> string \<Rightarrow> ('a \<times> string) option" where
  "expect c (x, []) = None"
| "expect c (x, d # s) = (if d = c then Some (x, s) else None)"

fun read_value :: "nat \<Rightarrow> string \<Rightarrow> (ptree \<times> string) option"
  and read_members :: "nat \<Rightarrow> string \<Rightarrow> ((string \<times> ptree) list \<times> string) option"
  and read_elements :: "nat \<Rightarrow> string \<Rightarrow> (ptree list \<times> string) option"
where
  "read_value 0 s = None"
| "read_value (Suc f) s =
     (case s of
        [] \<Rightarrow> None
      | c # r \<Rightarrow>
          if c = CHR 0x22 then map_option (\<lambda>(v, r'). (PTree v [], r')) (read_string s)
          else if c = CHR ''{'' then
            (case skip r of
               [] \<Rightarrow> None
             | d # r' \<Rightarrow> if d = CHR ''}'' then Some (PTree [] [], r')
                 else Option.bind (read_members f r) (\<lambda>(ms, r''). expect (CHR ''}'') (PTree [] ms, r'')))
          else if c = CHR ''['' then
            (case skip r of
               [] \<Rightarrow> None
             | d # r' \<Rightarrow> if d = CHR '']'' then Some (PTree [] [], r')
                 else Option.bind (read_elements f r)
                        (\<lambda>(es, r''). expect (CHR '']'') (PTree [] (map (Pair []) es), r'')))
          else if is_digit c then Some (PTree (takeWhile is_digit s) [], dropWhile is_digit s)
          else None)"
| "read_members 0 s = None"
| "read_members (Suc f) s =
     Option.bind (read_string (skip s)) (\<lambda>(k, r).
     Option.bind (expect (CHR '':'') ((), skip r)) (\<lambda>(_, r').
     Option.bind (read_value f (skip r')) (\<lambda>(t, r'').
       case skip r'' of
         [] \<Rightarrow> None
       | d # r3 \<Rightarrow> if d = CHR '','' then map_option (\<lambda>(ms, z). ((k, t) # ms, z)) (read_members f r3)
                  else Some ([(k, t)], d # r3))))"
| "read_elements 0 s = None"
| "read_elements (Suc f) s =
     Option.bind (read_value f (skip s)) (\<lambda>(t, r).
       case skip r of
         [] \<Rightarrow> None
       | d # r' \<Rightarrow> if d = CHR '','' then map_option (\<lambda>(es, z). (t # es, z)) (read_elements f r')
                  else Some ([t], d # r'))"

lemma skip_spaces [simp]: "spaces w \<Longrightarrow> skip (w @ s) = skip s"
  by (induction w) (auto simp: spaces_def)

lemma plain_no_quote: "plain s \<Longrightarrow> CHR 0x22 \<notin> set s"
  by (auto simp: plain_def plain_char_def list_all_iff)

lemma takeWhile_stop: "\<forall>x\<in>set xs. P x \<Longrightarrow> \<not> P y \<Longrightarrow> takeWhile P (xs @ y # ys) = xs"
  and dropWhile_stop: "\<forall>x\<in>set xs. P x \<Longrightarrow> \<not> P y \<Longrightarrow> dropWhile P (xs @ y # ys) = y # ys"
  by (simp_all add: takeWhile_append dropWhile_append)

lemma read_quoted: "plain s \<Longrightarrow> read_string (quoted s @ r) = Some (s, r)"
proof -
  assume "plain s"
  then have "\<forall>x\<in>set s. x \<noteq> CHR 0x22" using plain_no_quote by metis
  then show ?thesis by (simp add: quoted_def takeWhile_stop dropWhile_stop)
qed

lemma is_space_cases: "is_space c \<Longrightarrow> c = CHR '' '' \<or> c = CHR 0x0A"
  by (simp add: is_space_def)

lemma digit_distinct:
  assumes "is_digit c"
  shows "c \<noteq> CHR 0x22" "c \<noteq> CHR ''{''" "c \<noteq> CHR ''[''" "c \<noteq> CHR ''}''" "c \<noteq> CHR '']''" "c \<noteq> CHR '':''"
    "c \<noteq> CHR '',''" "c \<noteq> CHR '' ''" "c \<noteq> CHR 0x0A" "\<not> is_space c"
  using assms by (auto simp: is_digit_def is_space_def)

text \<open>The first character of a value.\<close>

lemma json_text_start:
  assumes "json_text s t"
  obtains c r where "s = c # r" "c = CHR 0x22 \<or> c = CHR ''{'' \<or> c = CHR ''['' \<or> is_digit c"
  using assms
proof (cases rule: json_text.cases)
  case (number n)
  then obtain c r where "decimal n = c # r" by (cases "decimal n") auto
  with number decimal_digits [of c n] that show ?thesis by simp
qed (auto simp: quoted_def intro: that)

lemma skip_value:
  assumes "json_text s t"
  shows "skip (s @ r) = s @ r"
  using assms by (rule json_text_start) (auto simp: digit_distinct, auto simp: is_space_def)

lemma json_members_start:
  "json_members s ms \<Longrightarrow> \<exists>r'. skip (s @ r) = CHR 0x22 # r'"
  by (erule json_members.cases) (simp_all add: quoted_def is_space_def)

lemma json_elements_start:
  assumes "json_elements s es"
  obtains c r' where "skip (s @ r) = c # r'" "c \<noteq> CHR '']''"
proof -
  from assms obtain w v t z where s: "s = w @ v @ z" "spaces w" "json_text v t"
    by (cases rule: json_elements.cases) (auto simp: append_assoc)
  from s(3) show ?thesis
  proof (cases rule: json_text_start)
    case (1 c r')
    with s skip_value [OF s(3), of "z @ r"] show ?thesis
      by (intro that [of c "r' @ z @ r"]) (auto simp: digit_distinct is_digit_def)
  qed
qed

definition number_ends :: "string \<Rightarrow> bool" where
  "number_ends r \<longleftrightarrow> r = [] \<or> \<not> is_digit (hd r)"

lemma number_ends_Cons [simp]: "number_ends (c # r) \<longleftrightarrow> \<not> is_digit c"
  by (simp add: number_ends_def)

lemma number_ends_spaces: "spaces w \<Longrightarrow> \<not> is_digit c \<Longrightarrow> number_ends (w @ c # r)"
  by (cases w) (auto simp: number_ends_def spaces_def is_space_def is_digit_def)

lemma read_number:
  assumes "number_ends r" "0 < f"
  shows "read_value f (decimal n @ r) = Some (PTree (decimal n) [], r)"
proof -
  obtain f' where f: "f = Suc f'" using assms(2) by (cases f) auto
  obtain c cs where d: "decimal n = c # cs" by (cases "decimal n") auto
  have dig: "\<forall>x\<in>set (decimal n). is_digit x" by (simp add: decimal_digits)
  have "takeWhile is_digit (decimal n @ r) = decimal n \<and> dropWhile is_digit (decimal n @ r) = r"
    using dig assms(1) by (cases r) (auto simp: number_ends_def takeWhile_append dropWhile_append)
  moreover have "is_digit c" using dig d by simp
  ultimately show ?thesis
    using d by (auto simp: f digit_distinct)
qed

lemma read_json_correct:
  "json_text s t \<Longrightarrow> length s \<le> f \<Longrightarrow> number_ends r \<Longrightarrow> read_value f (s @ r) = Some (t, r)"
  "json_members s ms \<Longrightarrow> length s \<le> f \<Longrightarrow> read_members f (s @ CHR ''}'' # r) = Some (ms, CHR ''}'' # r)"
  "json_elements s es \<Longrightarrow> length s < f \<Longrightarrow> read_elements f (s @ CHR '']'' # r) = Some (es, CHR '']'' # r)"
proof (induction arbitrary: f r and f r and f r rule: json_text_json_members_json_elements.inducts)
  case (number n)
  have "0 < length (decimal n)" by simp
  then have "0 < f" using number(1) by linarith
  then show ?case using number by (simp add: read_number)
next
  case (string s)
  then obtain f' where "f = Suc f'" by (cases f) (auto simp: quoted_def)
  with string read_quoted [of s r] show ?case by (simp add: quoted_def)
next
  case (empty_object w)
  then obtain f' where "f = Suc f'" by (cases f) auto
  with empty_object show ?case by (simp add: is_space_def)
next
  case (object s ms)
  then obtain f' where f: "f = Suc f'" "length s \<le> f'" by (cases f) auto
  obtain r' where "skip (s @ CHR ''}'' # r) = CHR 0x22 # r'" using json_members_start [OF object(1)] by blast
  with object.IH [OF f(2)] show ?case by (simp add: f)
next
  case (empty_array w)
  then obtain f' where "f = Suc f'" by (cases f) auto
  with empty_array show ?case by (simp add: is_space_def)
next
  case (array s es)
  then obtain f' where f: "f = Suc f'" "length s < f'" by (cases f) auto
  obtain c r' where "skip (s @ CHR '']'' # r) = c # r'" "c \<noteq> CHR '']''" using json_elements_start [OF array(1)] by blast
  with array.IH [OF f(2)] show ?case by (simp add: f)
next
  case (last_member w w' w'' w3 k v t)
  then obtain f' where f: "f = Suc f'" "length v \<le> f'" by (cases f) (auto simp: quoted_def)
  have "number_ends (w3 @ CHR ''}'' # r)"
    by (rule number_ends_spaces) (simp_all add: last_member is_digit_def)
  note v = last_member.IH [OF f(2) this]
  have "read_string (skip (w @ quoted k @ w' @ CHR '':'' # w'' @ v @ w3 @ CHR ''}'' # r))
      = Some (k, w' @ CHR '':'' # w'' @ v @ w3 @ CHR ''}'' # r)"
    using last_member read_quoted [of k] by (simp add: quoted_def is_space_def)
  with last_member v show ?case
    by (simp add: f skip_value [OF last_member(6)] is_space_def)
next
  case (member w w' w'' w3 k v t s ms)
  then obtain f' where f: "f = Suc f'" "length v \<le> f'" "length s \<le> f'" by (cases f) (auto simp: quoted_def)
  have "number_ends (w3 @ CHR '','' # s @ CHR ''}'' # r)"
    by (rule number_ends_spaces) (simp_all add: member is_digit_def)
  note v = member.IH(1) [OF f(2) this]
  have "read_string (skip (w @ quoted k @ w' @ CHR '':'' # w'' @ v @ w3 @ CHR '','' # s @ CHR ''}'' # r))
      = Some (k, w' @ CHR '':'' # w'' @ v @ w3 @ CHR '','' # s @ CHR ''}'' # r)"
    using member read_quoted [of k] by (simp add: quoted_def is_space_def)
  with member v member.IH(2) [OF f(3)] show ?case
    by (simp add: f skip_value [OF member(6)] is_space_def)
next
  case (last_element w w' v t)
  then obtain f' where f: "f = Suc f'" "length v \<le> f'" by (cases f) auto
  have "number_ends (w' @ CHR '']'' # r)"
    by (rule number_ends_spaces) (simp_all add: last_element is_digit_def)
  note v = last_element.IH [OF f(2) this]
  from last_element v show ?case
    by (simp add: f skip_value [OF last_element(3)] is_space_def)
next
  case (element w w' v t s es)
  then obtain f' where f: "f = Suc f'" "length v \<le> f'" "length s < f'" by (cases f) auto
  have "number_ends (w' @ CHR '','' # s @ CHR '']'' # r)"
    by (rule number_ends_spaces) (simp_all add: element is_digit_def)
  note v = element.IH(1) [OF f(2) this]
  from element v element.IH(2) [OF f(3)] show ?case
    by (simp add: f skip_value [OF element(3)] is_space_def)
qed

text \<open>The reader, with numbers read by their digits.\<close>

definition read_number_text :: "nat \<Rightarrow> string \<Rightarrow> nat option" where
  "read_number_text w s =
     (if s \<noteq> [] \<and> list_all is_digit s \<and> num_value s < 2 ^ w then Some (num_value s) else None)"

definition sample_boost :: boost where
  "sample_boost =
     \<lparr> read_json = (\<lambda>s. case read_value (length s) (skip s) of
                          Some (t, r) \<Rightarrow> if skip r = [] then Some t else None
                        | None \<Rightarrow> None),
       get_child = (\<lambda>t k. map_of (ptree_children t) k),
       get_unsigned = read_number_text,
       get_bool = (\<lambda>s. if s = ''0'' \<or> s = ''false'' then Some False
                       else if s = ''1'' \<or> s = ''true'' then Some True else None),
       cast_unsigned = read_number_text \<rparr>"

lemma sample_boost_reads:
  assumes "json_text s t" "spaces w" "spaces w'"
  shows "read_json sample_boost (w @ s @ w') = Some t"
proof -
  have "number_ends w'" using assms(3)
    by (cases w') (auto simp: number_ends_def spaces_def is_space_def is_digit_def)
  then have "read_value (length (w @ s @ w')) (s @ w') = Some (t, w')"
    by (intro read_json_correct(1) assms) auto
  moreover have "skip w' = []" using assms(3) by (simp add: spaces_def list_all_iff)
  ultimately show ?thesis
    by (simp add: sample_boost_def assms(2) skip_value [OF assms(1)])
qed

lemma sample_boost_ok: "boost_ok sample_boost"
proof -
  have "list_all is_digit (decimal n)" for n by (simp add: list_all_iff decimal_digits)
  then have "read_number_text w (decimal n) = Some n" if "n < 2 ^ w" for n w
    using that by (simp add: read_number_text_def)
  moreover have "decimal 0 = ''0''" "decimal 1 = ''1''"
    by code_simp+
  ultimately show ?thesis
    unfolding boost_ok_def using sample_boost_reads by (simp add: sample_boost_def)
qed

end
