(* ===== verification/Utils.thy ===== *)
theory Utils
  imports Json "HOL-Library.Sublist"
begin

text \<open>
  \<^verbatim>\<open>libtools/utils\<close>: the text helpers the serializers are written with (\<^verbatim>\<open>misc.cc\<close>,
  \<^verbatim>\<open>misc.hxx\<close>), the terminal colours, and the active object behind the logger
  (\<^verbatim>\<open>logger.cc\<close>, \<^verbatim>\<open>logger.hxx\<close>) as a step relation.
\<close>

section \<open>Text\<close>

text \<open>
  \<^verbatim>\<open>string_from\<close>: the generic one prints with \<^verbatim>\<open>operator<<\<close>, which is decimal for an
  unsigned integer and \<open>0\<close> or \<open>1\<close> for a \<^verbatim>\<open>bool\<close>; the specialisations for \<^verbatim>\<open>uint8_t\<close> and
  \<^verbatim>\<open>std::string\<close> are those of \<^verbatim>\<open>misc.cc\<close>. Nothing is escaped.
\<close>

definition string_from :: "'a::len word \<Rightarrow> string" where
  "string_from w = decimal (unat w)"

definition string_from_uint8 :: "8 word \<Rightarrow> string" where
  "string_from_uint8 w = decimal (unat (ucast w :: 32 word))"

definition string_from_bool :: "bool \<Rightarrow> string" where
  "string_from_bool b = decimal (of_bool b)"

definition string_from_string :: "string \<Rightarrow> string" where
  "string_from_string s = [CHR 0x22] @ s @ [CHR 0x22]"

definition string_from_bytes :: "string \<Rightarrow> nat \<Rightarrow> string res" where
  "string_from_bytes bytes sz =
     (if sz \<le> length bytes then Inr ([CHR 0x22] @ take sz bytes @ [CHR 0x22]) else Inl Undefined)"

lemma string_from_uint8: "string_from_uint8 w = string_from w"
  by (simp add: string_from_uint8_def string_from_def unsigned_ucast_eq take_bit_nat_eq_self
      unsigned_less [THEN less_le_trans])

lemma string_from_quoted: "string_from_string s = quoted s"
  by (simp add: string_from_string_def quoted_def)

text \<open>\<^verbatim>\<open>Separator\<close>: between two elements, and not after the last, comes the separator.\<close>

fun separator_loop :: "('a \<Rightarrow> string) \<Rightarrow> string \<Rightarrow> nat \<Rightarrow> nat \<Rightarrow> 'a list \<Rightarrow> string" where
  "separator_loop pr sep i n [] = []"
| "separator_loop pr sep i n (x # xs) =
     pr x @ (if i \<noteq> n - 1 then sep else []) @ separator_loop pr sep (Suc i) n xs"

definition separate :: "('a \<Rightarrow> string) \<Rightarrow> 'a list \<Rightarrow> string \<Rightarrow> string" where
  "separate pr xs sep = separator_loop pr sep 0 (length xs) xs"

lemma separator_loop_comma:
  "n = i + length xs \<Longrightarrow> separator_loop pr '','' i n xs = comma_separated (map pr xs)"
proof (induction xs arbitrary: i)
  case Nil
  then show ?case by simp
next
  case (Cons x xs)
  then show ?case by (cases xs) auto
qed

lemma separate_comma: "separate pr xs '','' = comma_separated (map pr xs)"
  by (simp add: separate_def separator_loop_comma)

text \<open>Facts every serializer uses.\<close>

named_theorems json_intros \<comment> \<open>texts of the values written\<close>

lemma json_string_from [json_intros]: "json_text (string_from w) (word_tree w)"
  by (simp add: string_from_def json_word)

lemma json_string_from_uint8 [json_intros]: "json_text (string_from_uint8 w) (word_tree w)"
  by (simp add: string_from_uint8 json_intros)

lemma json_string_from_bool [json_intros]: "json_text (string_from_bool b) (bool_tree b)"
  by (simp add: string_from_bool_def bool_tree_def json_text_json_members_json_elements.number)

lemma json_quoted [json_intros]: "plain s \<Longrightarrow> json_text (quoted s) (PTree s [])"
  by (rule json_text_json_members_json_elements.string)

lemma json_string_from_string [json_intros]: "plain s \<Longrightarrow> json_text (string_from_string s) (PTree s [])"
  by (simp add: string_from_quoted json_quoted)

lemma json_text_quoted_empty_key: "plain []"
  by (simp add: plain_def)

lemma plain_keys [simp]: "plain (c # s) \<longleftrightarrow> plain_char c \<and> plain s" "plain []"
  by (simp_all add: plain_def)

lemma space_char [simp]: "spaces '' ''"
  by (simp add: spaces_def is_space_def)

lemma member_okI: "plain k \<Longrightarrow> spaces w \<Longrightarrow> json_text v t \<Longrightarrow> member_ok (k, w, v) (k, t)"
  by (simp add: member_ok_def)

section \<open>What a program says of itself\<close>

definition infos_version :: string where
  "infos_version = ''V0.5''"

definition infos_copyright :: string where
  "infos_copyright =
      ''Copyright (C) 2015 - 2015  MP2P'' @ [CHR 0x0A, CHR 0x0A] @
      ''This program comes with NO WARRANTY, to the extent permitted by law.'' @ [CHR 0x0A] @
      ''You may redistribute copies of this program under the terms of'' @ [CHR 0x0A] @
      ''the GNU General Public License.'' @ [CHR 0x0A] @
      ''For more information about these matters, see the file named COPYING.''"

section \<open>Colours\<close>

datatype colour = White | Red | Green | Yellow | Blue | Purple | Cyan

fun colour_code :: "colour \<Rightarrow> string" where
  "colour_code White = CHR 0x1B # ''[0m''"
| "colour_code Red = CHR 0x1B # ''[91m''"
| "colour_code Green = CHR 0x1B # ''[92m''"
| "colour_code Yellow = CHR 0x1B # ''[93m''"
| "colour_code Blue = CHR 0x1B # ''[94m''"
| "colour_code Purple = CHR 0x1B # ''[95m''"
| "colour_code Cyan = CHR 0x1B # ''[96m''"

text \<open>The manipulators \<^verbatim>\<open>w r b c g y p\<close> of a stream append the code.\<close>

definition set_colour :: "colour \<Rightarrow> string \<Rightarrow> string" where
  "set_colour col stream = stream @ colour_code col"

text \<open>\<^verbatim>\<open>Logger::Print\<close> queues this action on the stream; the clock is a parameter.\<close>

definition print_line :: "string \<Rightarrow> string \<Rightarrow> string \<Rightarrow> string" where
  "print_line now t stream =
     set_colour White (set_colour Green stream @ ''<'' @ now @ ''> '') @ t @ [CHR 0x0A]"

text \<open>\<^verbatim>\<open>check_system\<close>: the two system calls are parameters, \<open>None\<close> a failed \<^verbatim>\<open>socket\<close>.\<close>

definition check_system :: "'sock option \<Rightarrow> ('sock \<Rightarrow> bool) \<Rightarrow> unit res" where
  "check_system sock getsockopt_fails =
     (case sock of
        None \<Rightarrow> Inl (Throw (Logic_error ''Fatal error: unable to initialize network check.''))
      | Some s \<Rightarrow>
          if getsockopt_fails s
          then Inl (Throw (Logic_error ''Fatal error: IPV6_V6ONLY must be false.''))
          else Inr ())"

section \<open>The active object\<close>

text \<open>
  \<^verbatim>\<open>Active\<close> runs queued actions on a thread of its own. Any thread may call \<^verbatim>\<open>Send\<close>; the
  queue keeps the order of each sender and promises nothing between senders, so it is a
  queue per sender and \<^verbatim>\<open>try_dequeue\<close> takes the head of any. An action either writes a
  line (\<open>Line\<close>) or is the one the destructor sends (\<open>Finish\<close>), which sets \<^verbatim>\<open>done_\<close>.
\<close>

datatype 'm action = Line 'm | Finish

record 'm active =
  act_done :: bool
  act_mq :: "nat \<Rightarrow> 'm action list"
  act_log :: "(nat \<times> 'm) list"

definition Active_new :: "'m active" where
  "Active_new = \<lparr>act_done = False, act_mq = (\<lambda>_. []), act_log = []\<rparr>"

definition Active_Send :: "nat \<Rightarrow> 'm action \<Rightarrow> 'm active \<Rightarrow> 'm active" where
  "Active_Send t m a = a\<lparr>act_mq := (act_mq a)(t := act_mq a t @ [m])\<rparr>"

fun run_action :: "nat \<Rightarrow> 'm action \<Rightarrow> 'm active \<Rightarrow> 'm active" where
  "run_action t (Line m) a = a\<lparr>act_log := act_log a @ [(t, m)]\<rparr>"
| "run_action t Finish a = a\<lparr>act_done := True\<rparr>"

text \<open>One iteration of \<^verbatim>\<open>Run\<close> that finds the queue of sender \<open>t\<close> (or nothing, and sleeps).\<close>

definition Active_Run_step :: "nat \<Rightarrow> 'm active \<Rightarrow> 'm active" where
  "Active_Run_step t a =
     (if act_done a then a
      else case act_mq a t of
             [] \<Rightarrow> a
           | m # ms \<Rightarrow> run_action t m (a\<lparr>act_mq := (act_mq a)(t := ms)\<rparr>))"

text \<open>
  The interleavings of senders and the thread. Only the owner of the object (sender \<open>0\<close>)
  destroys it, as the last thing it does with it.
\<close>

datatype 'm event = Sends nat 'm | Destroys | Runs nat

fun active_step :: "'m event \<Rightarrow> 'm active \<Rightarrow> 'm active" where
  "active_step (Sends t m) a = Active_Send t (Line m) a"
| "active_step Destroys a = Active_Send 0 Finish a"
| "active_step (Runs t) a = Active_Run_step t a"

definition active_run :: "'m event list \<Rightarrow> 'm active" where
  "active_run es = fold active_step es Active_new"

fun sent_by :: "nat \<Rightarrow> 'm event list \<Rightarrow> 'm list" where
  "sent_by t [] = []"
| "sent_by t (Sends t' m # es) = (if t' = t then m # sent_by t es else sent_by t es)"
| "sent_by t (_ # es) = sent_by t es"

definition logged_by :: "nat \<Rightarrow> 'm active \<Rightarrow> 'm list" where
  "logged_by t a = map snd (filter (\<lambda>p. fst p = t) (act_log a))"

definition lines :: "'m action list \<Rightarrow> 'm list" where
  "lines ms = concat (map (\<lambda>a. case a of Line m \<Rightarrow> [m] | Finish \<Rightarrow> []) ms)"

text \<open>What was sent is what was run followed by what is queued, for each sender.\<close>

lemma sent_by_snoc: "sent_by t (es @ [e]) = sent_by t es @ sent_by t [e]"
  by (induction t es rule: sent_by.induct) auto

lemma active_run_snoc: "active_run (es @ [e]) = active_step e (active_run es)"
  by (simp add: active_run_def)

lemma logged_then_queued:
  "sent_by t es = logged_by t (active_run es) @ lines (act_mq (active_run es) t)"
proof (induction es rule: rev_induct)
  case Nil
  show ?case by (simp add: active_run_def Active_new_def logged_by_def lines_def)
next
  case (snoc e es)
  show ?case
  proof (cases e)
    case (Sends t' m)
    with snoc show ?thesis
      by (auto simp: sent_by_snoc active_run_snoc Active_Send_def logged_by_def lines_def)
  next
    case Destroys
    with snoc show ?thesis
      by (auto simp: sent_by_snoc active_run_snoc Active_Send_def logged_by_def lines_def)
  next
    case (Runs t')
    show ?thesis
    proof (cases "act_done (active_run es) \<or> act_mq (active_run es) t' = []")
      case True
      with Runs snoc show ?thesis
        by (auto simp: sent_by_snoc active_run_snoc Active_Run_step_def)
    next
      case False
      then obtain m ms where "act_mq (active_run es) t' = m # ms" "\<not> act_done (active_run es)"
        by (cases "act_mq (active_run es) t'") auto
      with Runs snoc show ?thesis
        by (cases m) (auto simp: sent_by_snoc active_run_snoc Active_Run_step_def logged_by_def lines_def)
    qed
  qed
qed

lemma no_finish_before:
  "Destroys \<notin> set es \<Longrightarrow> \<not> act_done (active_run es) \<and> (\<forall>t. Finish \<notin> set (act_mq (active_run es) t))"
proof (induction es rule: rev_induct)
  case Nil
  show ?case by (simp add: active_run_def Active_new_def)
next
  case (snoc e es)
  then have IH: "\<not> act_done (active_run es)" "\<forall>t. Finish \<notin> set (act_mq (active_run es) t)"
    by auto
  show ?case
  proof (cases e)
    case (Runs t')
    show ?thesis
    proof (cases "act_mq (active_run es) t'")
      case Nil
      with Runs IH show ?thesis by (auto simp: active_run_snoc Active_Run_step_def)
    next
      case (Cons m ms)
      with IH(2) have "m \<noteq> Finish" "Finish \<notin> set ms"
        by (metis list.set_intros(1), metis list.set_intros(2))
      with Cons Runs IH show ?thesis
        by (cases m) (auto simp: active_run_snoc Active_Run_step_def)
    qed
  qed (use snoc IH in \<open>auto simp: active_run_snoc Active_Send_def\<close>)
qed

text \<open>After the destructor's message its sender's queue ends in it, until it is run.\<close>

definition draining :: "'m active \<Rightarrow> bool" where
  "draining a \<longleftrightarrow> (\<forall>t. t \<noteq> 0 \<longrightarrow> Finish \<notin> set (act_mq a t)) \<and>
     (if act_done a then act_mq a 0 = []
      else act_mq a 0 \<noteq> [] \<and> last (act_mq a 0) = Finish \<and> Finish \<notin> set (butlast (act_mq a 0)))"

definition after_destruction :: "'m event \<Rightarrow> bool" where
  "after_destruction e = (case e of Runs _ \<Rightarrow> True | Sends t _ \<Rightarrow> t \<noteq> 0 | Destroys \<Rightarrow> False)"

lemma draining_run:
  assumes "draining a"
  shows "draining (Active_Run_step t a)"
proof (cases "act_done a \<or> act_mq a t = []")
  case True
  with assms show ?thesis by (auto simp: Active_Run_step_def)
next
  case False
  then obtain m ms where m: "act_mq a t = m # ms" by (cases "act_mq a t") auto
  show ?thesis
  proof (cases "t = 0")
    case True
    with assms False m show ?thesis
      by (cases m; cases ms) (auto simp: draining_def Active_Run_step_def)
  next
    case t: False
    with assms m have "m \<noteq> Finish" "Finish \<notin> set ms"
      unfolding draining_def by (metis list.set_intros(1), metis list.set_intros(2))
    with assms False m t show ?thesis
      by (cases m) (auto simp: draining_def Active_Run_step_def)
  qed
qed

lemma draining_step: "draining a \<Longrightarrow> after_destruction e \<Longrightarrow> draining (active_step e a)"
  by (cases e) (auto simp: after_destruction_def draining_run, simp add: draining_def Active_Send_def)

lemma draining_fold: "draining a \<Longrightarrow> list_all after_destruction es \<Longrightarrow> draining (fold active_step es a)"
  by (induction es arbitrary: a) (simp_all add: draining_step)

lemma draining_after:
  assumes "Destroys \<notin> set xs" "list_all after_destruction ys"
  shows "draining (active_run (xs @ Destroys # ys))"
proof -
  have "draining (active_step Destroys (active_run xs))"
    using no_finish_before [OF assms(1)] by (auto simp: draining_def Active_Send_def)
  from draining_fold [OF this assms(2)] show ?thesis by (simp add: active_run_def)
qed

text \<open>
  C38: The destructor of the logger's active object loses none of its owner's lines, whatever
  other threads send meanwhile and however the steps interleave: when the thread has left
  its loop, it has written every line the owner sent, in order; and it has written no line
  of another thread out of order or that was not sent.
\<close>

theorem active_object_flushes:
  assumes "Destroys \<notin> set xs" "list_all after_destruction ys"
    and "a = active_run (xs @ Destroys # ys)" "act_done a"
  shows "logged_by 0 a = sent_by 0 (xs @ Destroys # ys)
    \<and> prefix (logged_by t a) (sent_by t (xs @ Destroys # ys))"
proof -
  have "act_mq a 0 = []"
    using draining_after [OF assms(1,2)] assms(3,4) by (simp add: draining_def)
  then show ?thesis
    using logged_then_queued [of _ "xs @ Destroys # ys"] assms(3) by (simp add: lines_def)
qed

lemma active_object_flushes_witness:
  "let es = [Sends 0 ''a'', Sends 1 ''b'', Runs 0, Sends 0 ''c'', Destroys, Sends 1 ''d'', Runs 0, Runs 1, Runs 0]
   in logged_by 0 (active_run es) = [''a'', ''c''] \<and> logged_by 1 (active_run es) = [''b'']"
proof -
  let ?xs = "[Sends 0 ''a'', Sends 1 ''b'', Runs 0, Sends 0 ''c'']"
  let ?ys = "[Sends 1 ''d'', Runs 0, Runs 1, Runs 0]"
  have 1: "Destroys \<notin> set ?xs" "list_all after_destruction ?ys"
    by (simp_all add: after_destruction_def)
  have run: "active_run (?xs @ Destroys # ?ys) =
      \<lparr>act_done = True, act_mq = (\<lambda>_. [])(1 := [Line ''d'']), act_log = [(0, ''a''), (0, ''c''), (1, ''b'')]\<rparr>"
    by (simp add: active_run_def Active_new_def Active_Send_def Active_Run_step_def fun_eq_iff)
  show ?thesis
    using active_object_flushes [OF 1 refl, of 0] run
    by (simp add: Let_def logged_by_def)
qed

text \<open>
  The thread gets there: once the object is being destroyed, as many turns for the owner's
  queue as it holds messages end the loop.
\<close>

lemma run_head:
  "\<not> act_done a \<Longrightarrow> act_mq a 0 = m # ms \<Longrightarrow>
   Active_Run_step 0 a = run_action 0 m (a\<lparr>act_mq := (act_mq a)(0 := ms)\<rparr>)"
  by (simp add: Active_Run_step_def)

lemma draining_finishes:
  "draining a \<Longrightarrow> act_done (fold active_step (replicate (length (act_mq a 0)) (Runs 0)) a)"
proof (induction "act_mq a 0" arbitrary: a)
  case Nil
  then have "act_mq a 0 = []" by simp
  with Nil show ?case by (simp add: draining_def split: if_splits)
next
  case (Cons m ms)
  let ?a' = "Active_Run_step 0 a"
  have m: "act_mq a 0 = m # ms" using Cons.hyps(2) by simp
  with Cons.prems have d: "\<not> act_done a" by (auto simp: draining_def)
  have "ms = act_mq ?a' 0"
    by (cases m) (simp_all add: run_head [OF d m])
  from Cons.hyps(1) [OF this draining_run [OF Cons.prems]] this show ?case
    by (simp add: m)
qed

text \<open>
  The destructor of the logger's active object returns: however it was used, some number of
  turns of the thread after the destructor's message ends its loop.
\<close>

lemma active_object_terminates:
  assumes "Destroys \<notin> set xs" "list_all after_destruction ys"
  shows "\<exists>n. act_done (active_run (xs @ Destroys # ys @ replicate n (Runs 0)))"
proof -
  from draining_finishes [OF draining_after [OF assms]] show ?thesis
    by (auto simp: active_run_def)
qed

lemma active_object_terminates_witness:
  "\<exists>n. act_done (active_run ([Sends 0 ''a'', Sends 1 ''b''] @ Destroys # [Sends 1 ''c''] @ replicate n (Runs 0)))"
  by (rule active_object_terminates) (simp_all add: after_destruction_def)

end
