(* ===== verification/Options.thy ===== *)
theory Options
  imports Conf Utils
begin

text \<open>
  What the option parsers of the three programs share: the declared options, the texts Boost
  finds for them on the command line and their conversion, the stream operator that reads
  \<^verbatim>\<open>host:port\<close>, reading the configuration file, and the handlers that turn every failure
  into an exit code.
\<close>

section \<open>Streams\<close>

text \<open>An input stream: what is left to read, whether blanks are skipped, the fail bit.\<close>

record istream =
  is_text :: string
  is_skipws :: bool
  is_fail :: bool

text \<open>\<^verbatim>\<open>is >> tmp\<close> for a \<^verbatim>\<open>std::string\<close>: the characters up to the next blank, one at least.\<close>

definition read_word :: "istream \<Rightarrow> string \<times> istream" where
  "read_word s =
     (if is_fail s then ([], s)
      else let t = (if is_skipws s then dropWhile is_blank (is_text s) else is_text s);
               w = takeWhile (\<lambda>c. \<not> is_blank c) t
           in if w = [] then ([], s\<lparr>is_text := t, is_fail := True\<rparr>)
              else (w, s\<lparr>is_text := drop (length w) t\<rparr>))"

text \<open>\<^verbatim>\<open>tmp.find_last_of(c)\<close>, \<open>None\<close> for \<^verbatim>\<open>npos\<close>.\<close>

fun find_last_of :: "char \<Rightarrow> string \<Rightarrow> nat option" where
  "find_last_of c [] = None"
| "find_last_of c (x # xs) =
     (case find_last_of c xs of
        Some i \<Rightarrow> Some (Suc i)
      | None \<Rightarrow> if x = c then Some 0 else None)"

text \<open>\<^verbatim>\<open>operator>>(istream&, std::pair<lh_ty, lp_ty>&)\<close>, the same text in the three parsers.\<close>

type_synonym host_port = "string \<times> port_type"

definition read_host_port :: "boost \<Rightarrow> istream \<Rightarrow> host_port res \<times> istream" where
  "read_host_port B is0 =
     (case read_word is0 of (tmp, is1) \<Rightarrow>
        (case find_last_of CHR '':'' tmp of
           Some sep \<Rightarrow> (rbind (lexical_word B (drop (sep + 1) tmp)) (\<lambda>port. Inr (take sep tmp, port)), is1)
         | None \<Rightarrow> (Inr (tmp, 0), is1)))"

section \<open>The library\<close>

text \<open>
  A declared option: its names, long and short, the type of its value (\<open>T_flag\<close> for none),
  the text of the help.
\<close>

datatype opt_type = T_flag | T_string | T_unsigned | T_char | T_host_port

record option_decl =
  decl_names :: string
  decl_type :: opt_type
  decl_help :: string

definition long_name :: "option_decl \<Rightarrow> string" where
  "long_name d = takeWhile (\<lambda>c. c \<noteq> CHR '','') (decl_names d)"

text \<open>
  \<open>opl_parse\<close> is \<^verbatim>\<open>parse_command_line\<close>: the message of the exception it throws, or the text
  given for each option by its long name. \<open>opl_cast_char\<close> and \<open>opl_cast_host_port\<close> are
  \<^verbatim>\<open>lexical_cast\<close> to \<^verbatim>\<open>uint8_t\<close> and to a type read by the stream operator it is given;
  \<open>opl_invalid\<close> is the message of \<^verbatim>\<open>invalid_option_value\<close>, \<open>opl_usage\<close> the text of an
  \<^verbatim>\<open>options_description\<close>, \<open>opl_what\<close> the texts of the exceptions of libraries.
  \<open>opl_read_file\<close>, \<open>opl_exists\<close> and \<open>opl_mkdirs\<close> ask the file system, \<open>opl_threads\<close> is
  \<^verbatim>\<open>hardware_concurrency()\<close>.
\<close>

record opt_lib =
  opl_boost :: boost
  opl_net :: net_lib
  opl_parse :: "option_decl list \<Rightarrow> string list \<Rightarrow> string + (string \<Rightarrow> string option)"
  opl_cast_char :: "string \<Rightarrow> 8 word option"
  opl_cast_host_port :: "(istream \<Rightarrow> host_port res \<times> istream) \<Rightarrow> string \<Rightarrow> host_port option"
  opl_invalid :: "string \<Rightarrow> string"
  opl_usage :: "option_decl list \<Rightarrow> string"
  opl_what :: "exn \<Rightarrow> string"
  opl_read_file :: "string \<Rightarrow> string option"
  opl_exists :: "string \<Rightarrow> bool"
  opl_mkdirs :: "string \<Rightarrow> bool"
  opl_threads :: "32 word"

text \<open>
  What the code relies on: a cast to a character takes exactly one character; a cast through a
  stream operator runs it on the text, blanks not skipped, and succeeds when it leaves
  nothing and no failure.
\<close>

definition casts_ok :: "opt_lib \<Rightarrow> bool" where
  "casts_ok L \<longleftrightarrow>
     (\<forall>t. opl_cast_char L t = (case t of [c] \<Rightarrow> Some (of_char c) | _ \<Rightarrow> None))
     \<and> (\<forall>op t. opl_cast_host_port L op t =
          (case op \<lparr>is_text = t, is_skipws = False, is_fail = False\<rparr> of
             (Inr v, s) \<Rightarrow> if is_fail s \<or> is_text s \<noteq> [] then None else Some v
           | (Inl _, _) \<Rightarrow> None))"

section \<open>The parsed options\<close>

datatype opt_value = V_flag | V_string string | V_unsigned "32 word" | V_char "8 word" | V_host_port host_port

type_synonym variables_map = "string \<Rightarrow> opt_value option"

text \<open>The value semantics of each type: \<^verbatim>\<open>lexical_cast\<close> of the text, or an invalid value.\<close>

definition validate :: "opt_lib \<Rightarrow> opt_type \<Rightarrow> string \<Rightarrow> opt_value res" where
  "validate L ty t =
     (let invalid = Logic_error (opl_invalid L t) in
      case ty of
        T_flag \<Rightarrow> Inr V_flag
      | T_string \<Rightarrow> Inr (V_string t)
      | T_unsigned \<Rightarrow> rbind (of_option invalid (cast_unsigned (opl_boost L) 32 t)) (\<lambda>n. Inr (V_unsigned (word_of_nat n)))
      | T_char \<Rightarrow> rbind (of_option invalid (opl_cast_char L t)) (\<lambda>c. Inr (V_char c))
      | T_host_port \<Rightarrow>
          rbind (of_option invalid (opl_cast_host_port L (read_host_port (opl_boost L)) t)) (\<lambda>hp. Inr (V_host_port hp)))"

text \<open>\<^verbatim>\<open>store(parse_command_line(argc, argv, desc), vm)\<close>\<close>

definition store_option :: "opt_lib \<Rightarrow> (string \<Rightarrow> string option) \<Rightarrow> option_decl \<Rightarrow> (string \<times> opt_value) list res" where
  "store_option L texts d =
     (case texts (long_name d) of
        None \<Rightarrow> Inr []
      | Some t \<Rightarrow> rbind (validate L (decl_type d) t) (\<lambda>v. Inr [(long_name d, v)]))"

definition parse_cli :: "opt_lib \<Rightarrow> option_decl list \<Rightarrow> string list \<Rightarrow> variables_map res" where
  "parse_cli L desc argv =
     (case opl_parse L desc argv of
        Inl msg \<Rightarrow> Inl (Throw (Logic_error msg))
      | Inr texts \<Rightarrow> rbind (mapM (store_option L texts) desc) (\<lambda>vs. Inr (map_of (concat vs))))"

text \<open>\<^verbatim>\<open>vm.count(name)\<close> and \<^verbatim>\<open>vm[name].as<T>()\<close>\<close>

definition vm_count :: "variables_map \<Rightarrow> string \<Rightarrow> bool" where
  "vm_count vm name \<longleftrightarrow> vm name \<noteq> None"

definition as_string :: "variables_map \<Rightarrow> string \<Rightarrow> string res" where
  "as_string vm name = (case vm name of Some (V_string s) \<Rightarrow> Inr s | _ \<Rightarrow> Inl (Throw Bad_any_cast))"

definition as_unsigned :: "variables_map \<Rightarrow> string \<Rightarrow> 32 word res" where
  "as_unsigned vm name = (case vm name of Some (V_unsigned w) \<Rightarrow> Inr w | _ \<Rightarrow> Inl (Throw Bad_any_cast))"

definition as_char :: "variables_map \<Rightarrow> string \<Rightarrow> 8 word res" where
  "as_char vm name = (case vm name of Some (V_char c) \<Rightarrow> Inr c | _ \<Rightarrow> Inl (Throw Bad_any_cast))"

definition as_host_port :: "variables_map \<Rightarrow> string \<Rightarrow> host_port res" where
  "as_host_port vm name = (case vm name of Some (V_host_port hp) \<Rightarrow> Inr hp | _ \<Rightarrow> Inl (Throw Bad_any_cast))"

section \<open>State and statements\<close>

text \<open>The global configuration, the lines written, and the directories made.\<close>

record 'c opt_state =
  ops_conf :: 'c
  ops_out :: "string list"
  ops_err :: "string list"
  ops_dirs :: "string list"

definition set_conf :: "('c \<Rightarrow> 'c) \<Rightarrow> ('c opt_state, unit) act" where
  "set_conf f = modify (\<lambda>w. w\<lparr>ops_conf := f (ops_conf w)\<rparr>)"

definition assign :: "'a res \<Rightarrow> ('a \<Rightarrow> 'c \<Rightarrow> 'c) \<Rightarrow> ('c opt_state, unit) act" where
  "assign r f = bnd (lift_res r) (\<lambda>x. set_conf (f x))"

definition print_cout :: "string \<Rightarrow> ('c opt_state, unit) act" where
  "print_cout t = modify (\<lambda>w. w\<lparr>ops_out := ops_out w @ [t]\<rparr>)"

definition print_cerr :: "string \<Rightarrow> ('c opt_state, unit) act" where
  "print_cerr t = modify (\<lambda>w. w\<lparr>ops_err := ops_err w @ [t]\<rparr>)"

text \<open>\<^verbatim>\<open>if (vm.count(name)) conf.field = vm[name].as<T>();\<close>\<close>

definition override :: "variables_map \<Rightarrow> string \<Rightarrow> (variables_map \<Rightarrow> string \<Rightarrow> 'a res) \<Rightarrow> ('a \<Rightarrow> 'c \<Rightarrow> 'c) \<Rightarrow> ('c opt_state, unit) act" where
  "override vm name as_type f = (if vm_count vm name then assign (as_type vm name) f else ret ())"

text \<open>\<^verbatim>\<open>std::ifstream fs(config_path); if (!fs) throw ...; read_json(fs, pt);\<close>\<close>

definition read_config :: "opt_lib \<Rightarrow> string \<Rightarrow> ptree res" where
  "read_config L config_path =
     rbind (of_option (Runtime_error (''File not found: '' @ config_path @ ''.'')) (opl_read_file L config_path)) (\<lambda>t.
       of_option Ptree_error (read_json (opl_boost L) t))"

text \<open>\<^verbatim>\<open>network::get_ipv6(host);\<close> for its exception only.\<close>

definition try_resolve :: "opt_lib \<Rightarrow> string \<Rightarrow> ('c opt_state, unit) act" where
  "try_resolve L host = bnd (lift_res (get_ipv6 (opl_net L) host)) (\<lambda>_. ret ())"

fun what_text :: "opt_lib \<Rightarrow> exn \<Rightarrow> string" where
  "what_text L (Logic_error s) = s"
| "what_text L (Runtime_error s) = s"
| "what_text L e = opl_what L e"

text \<open>
  The handlers of every \<^verbatim>\<open>parse_options\<close>. No exception of the model is anything else than an
  \<^verbatim>\<open>int\<close> or a \<^verbatim>\<open>std::exception\<close>, so \<^verbatim>\<open>catch (...)\<close> is never reached.
\<close>

definition handle_exn :: "opt_lib \<Rightarrow> exn \<Rightarrow> ('c opt_state, unit) act" where
  "handle_exn L e =
     (case e of
        Int_thrown i \<Rightarrow> raise (Throw (Int_thrown i))
      | _ \<Rightarrow> bnd (print_cerr (what_text L e @ '' Try --help.'')) (\<lambda>_. raise (Throw (Int_thrown 1))))"

definition catch_options :: "opt_lib \<Rightarrow> ('c opt_state, unit) act \<Rightarrow> ('c opt_state, unit) act" where
  "catch_options L body = catching (\<lambda>_. True) body (handle_exn L)"

text \<open>The two options every program answers at once: the rest of the parser is \<open>k\<close>.\<close>

definition help_version :: "opt_lib \<Rightarrow> option_decl list \<Rightarrow> string \<Rightarrow> variables_map \<Rightarrow> ('c opt_state, unit) act \<Rightarrow> ('c opt_state, unit) act" where
  "help_version L desc program vm k =
     (if vm_count vm ''help'' then bnd (print_cout (opl_usage L desc)) (\<lambda>_. raise (Throw (Int_thrown 0)))
      else if vm_count vm ''version'' then
        bnd (print_cout (program @ '' '' @ infos_version @ [CHR 0x0A, CHR 0x0A] @ infos_copyright @ [CHR 0x0A]))
          (\<lambda>_. raise (Throw (Int_thrown 0)))
      else k)"

text \<open>\<^verbatim>\<open>auto p = vm[name].as<l_ty>(); host = p.first; if (p.second) port = p.second;\<close>\<close>

definition override_host :: "variables_map \<Rightarrow> string \<Rightarrow> (string \<Rightarrow> 'c \<Rightarrow> 'c) \<Rightarrow> (port_type \<Rightarrow> 'c \<Rightarrow> 'c) \<Rightarrow> ('c opt_state, unit) act" where
  "override_host vm name set_host set_port =
     override vm name as_host_port (\<lambda>(host, port) c.
       (let c = set_host host c in if port \<noteq> 0 then set_port port c else c))"

section \<open>Hosts and ports\<close>

lemma find_last_none: "c \<notin> set s \<Longrightarrow> find_last_of c s = None"
  by (induction s) auto

lemma find_last_append: "c \<notin> set b \<Longrightarrow> find_last_of c (a @ c # b) = Some (length a)"
  by (induction a) (simp_all add: find_last_none)

definition word_text :: "string \<Rightarrow> bool" where
  "word_text t \<longleftrightarrow> t \<noteq> [] \<and> (\<forall>c\<in>set t. \<not> is_blank c)"

lemma read_word_all:
  "word_text t \<Longrightarrow> read_word \<lparr>is_text = t, is_skipws = False, is_fail = False\<rparr>
     = (t, \<lparr>is_text = [], is_skipws = False, is_fail = False\<rparr>)"
  by (simp add: word_text_def read_word_def Let_def takeWhile_eq_all_conv [THEN iffD2])

lemma cast_host_port:
  assumes "casts_ok L" "word_text t"
  shows "opl_cast_host_port L (read_host_port B) t =
    (case find_last_of CHR '':'' t of
       None \<Rightarrow> Some (t, 0)
     | Some sep \<Rightarrow> (case lexical_word B (drop (sep + 1) t) of Inl _ \<Rightarrow> None | Inr port \<Rightarrow> Some (take sep t, port)))"
  using assms by (simp add: casts_ok_def read_host_port_def read_word_all split: option.splits sum.splits)

lemma digit_not_blank: "is_digit c \<Longrightarrow> \<not> is_blank c"
  by (auto simp: is_blank_def is_digit_def)

lemma word_text_decimal: "(\<forall>c\<in>set host. \<not> is_blank c) \<Longrightarrow> word_text (host @ CHR '':'' # decimal n)"
  using digit_not_blank [OF decimal_digits [of _ n]] by (auto simp: word_text_def is_blank_def)

lemma decimal_no_colon: "CHR '':'' \<notin> set (decimal n)"
  using decimal_digits [of "CHR '':''" n] by (auto simp: is_digit_def)

text \<open>
  A host and a port written \<^verbatim>\<open>host:port\<close> are read back by the operator the parsers use,
  whatever colons the host itself holds; a host alone is read with the port that stands for
  none.
\<close>

lemma host_port_roundtrip:
  assumes "casts_ok L" "boost_ok (opl_boost L)" "\<forall>c\<in>set host. \<not> is_blank c"
  shows "validate L T_host_port (host @ '':'' @ decimal (unat port)) = Inr (V_host_port (host, port))
    \<and> (host \<noteq> [] \<and> CHR '':'' \<notin> set host \<longrightarrow> validate L T_host_port host = Inr (V_host_port (host, 0)))"
proof -
  have "lexical_word (opl_boost L) (decimal (unat port)) = Inr port"
    using lexical_word [OF assms(2), of port] by (simp add: word_tree_def)
  then show ?thesis
    using cast_host_port [OF assms(1) word_text_decimal [OF assms(3)], of "opl_boost L" "unat port"]
      cast_host_port [OF assms(1), of host] assms(3)
    by (auto simp: validate_def Let_def find_last_append decimal_no_colon find_last_none word_text_def)
qed

text \<open>An IPv6 address without a port loses its last group to the port.\<close>

lemma address_cut:
  assumes "casts_ok L" "boost_ok (opl_boost L)"
  shows "validate L T_host_port ''fe80::1'' = Inr (V_host_port (''fe80:'', 1))"
proof -
  have "decimal (unat (1 :: port_type)) = ''1''" by code_simp
  then show ?thesis using host_port_roundtrip [OF assms, of "''fe80:''" 1] by (simp add: is_blank_def)
qed

section \<open>Values have the type that was declared\<close>

fun value_type :: "opt_value \<Rightarrow> opt_type" where
  "value_type V_flag = T_flag"
| "value_type (V_string _) = T_string"
| "value_type (V_unsigned _) = T_unsigned"
| "value_type (V_char _) = T_char"
| "value_type (V_host_port _) = T_host_port"

lemma validate_type: "validate L ty t = Inr v \<Longrightarrow> value_type v = ty"
  by (cases ty) (auto simp: validate_def Let_def result_simps)

definition typed_as :: "variables_map \<Rightarrow> string \<Rightarrow> opt_type \<Rightarrow> bool" where
  "typed_as vm k ty \<longleftrightarrow> (\<forall>v. vm k = Some v \<longrightarrow> value_type v = ty)"

lemma mapM_length: "mapM f xs = Inr ys \<Longrightarrow> list_all2 (\<lambda>x y. f x = Inr y) xs ys"
  by (induction xs arbitrary: ys) (auto simp: result_simps)

lemma mapM_mem: "mapM f xs = Inr ys \<Longrightarrow> y \<in> set ys \<Longrightarrow> \<exists>x\<in>set xs. f x = Inr y"
  by (drule mapM_length) (auto simp: list_all2_conv_all_nth in_set_conv_nth, metis nth_mem)

lemma parsed_declared:
  assumes "parse_cli L desc argv = Inr vm" "vm k = Some v"
  shows "\<exists>d\<in>set desc. long_name d = k \<and> value_type v = decl_type d"
proof -
  obtain texts vs where vs: "mapM (store_option L texts) desc = Inr vs" "vm = map_of (concat vs)"
    using assms(1) by (auto simp: parse_cli_def result_simps split: sum.splits)
  with assms(2) have "(k, v) \<in> set (concat vs)" by (metis map_of_SomeD)
  then obtain ps where "ps \<in> set vs" "(k, v) \<in> set ps" by auto
  with mapM_mem [OF vs(1)] obtain d where "d \<in> set desc" "store_option L texts d = Inr ps" by blast
  with \<open>(k, v) \<in> set ps\<close> have "long_name d = k" "value_type v = decl_type d"
    by (auto simp: store_option_def result_simps validate_type split: option.splits)
  with \<open>d \<in> set desc\<close> show ?thesis by blast
qed

text \<open>An option that is not declared is never in the map.\<close>

lemma undeclared_not_parsed:
  "parse_cli L desc argv = Inr vm \<Longrightarrow> k \<notin> long_name ` set desc \<Longrightarrow> \<not> vm_count vm k"
  using parsed_declared by (fastforce simp: vm_count_def)

lemma parsed_typed:
  "parse_cli L desc argv = Inr vm \<Longrightarrow> \<forall>d\<in>set desc. long_name d = k \<longrightarrow> decl_type d = ty \<Longrightarrow> typed_as vm k ty"
  using parsed_declared by (fastforce simp: typed_as_def)

text \<open>What was given for an option, as the type it was declared with.\<close>

definition string_of :: "variables_map \<Rightarrow> string \<Rightarrow> string option" where
  "string_of vm k = (case vm k of Some (V_string s) \<Rightarrow> Some s | _ \<Rightarrow> None)"

definition unsigned_of :: "variables_map \<Rightarrow> string \<Rightarrow> 32 word option" where
  "unsigned_of vm k = (case vm k of Some (V_unsigned w) \<Rightarrow> Some w | _ \<Rightarrow> None)"

definition char_of_opt :: "variables_map \<Rightarrow> string \<Rightarrow> 8 word option" where
  "char_of_opt vm k = (case vm k of Some (V_char c) \<Rightarrow> Some c | _ \<Rightarrow> None)"

definition host_port_of :: "variables_map \<Rightarrow> string \<Rightarrow> host_port option" where
  "host_port_of vm k = (case vm k of Some (V_host_port hp) \<Rightarrow> Some hp | _ \<Rightarrow> None)"

lemmas of_defs = string_of_def unsigned_of_def char_of_opt_def host_port_of_def
lemmas as_defs = as_string_def as_unsigned_def as_char_def as_host_port_def

named_theorems opt_simps \<comment> \<open>running the statements of a parser\<close>

lemma set_conf_run [opt_simps]: "set_conf f w = (Inr (), w\<lparr>ops_conf := f (ops_conf w)\<rparr>)"
  by (simp add: set_conf_def act_simps)

lemma override_typed [opt_simps]:
  "typed_as vm k T_string \<Longrightarrow> override vm k as_string f = set_conf (case string_of vm k of None \<Rightarrow> id | Some x \<Rightarrow> f x)"
  "typed_as vm k T_unsigned \<Longrightarrow> override vm k as_unsigned g = set_conf (case unsigned_of vm k of None \<Rightarrow> id | Some x \<Rightarrow> g x)"
  "typed_as vm k T_host_port \<Longrightarrow> override vm k as_host_port h = set_conf (case host_port_of vm k of None \<Rightarrow> id | Some x \<Rightarrow> h x)"
  by (rule ext; cases "vm k"; auto simp: override_def vm_count_def assign_def typed_as_def of_defs as_defs act_simps
      set_conf_def split: opt_value.splits)+

lemma override_host_conf:
  assumes "typed_as vm k T_host_port"
  shows "override_host vm k set_host set_port =
    set_conf (\<lambda>c. case host_port_of vm k of None \<Rightarrow> c
      | Some (host, port) \<Rightarrow> if port \<noteq> 0 then set_port port (set_host host c) else set_host host c)"
  unfolding override_host_def override_typed(3) [OF assms]
  by (rule arg_cong [of _ _ set_conf]) (auto simp: fun_eq_iff Let_def split: option.splits)

lemma seqA_returns:
  "seqA [] w = (Inr (), w') \<longleftrightarrow> w' = w"
  "seqA (m # ms) w = (Inr (), w') \<longleftrightarrow> (\<exists>v. m w = (Inr (), v) \<and> seqA ms v = (Inr (), w'))"
  by (auto simp: act_simps split: prod.splits sum.splits)

lemma bnd_returns: "bnd m k w = (Inr y, w') \<longleftrightarrow> (\<exists>x v. m w = (Inr x, v) \<and> k x v = (Inr y, w'))"
  by (auto simp: act_simps split: prod.splits sum.splits)

lemma assign_returns: "assign r f w = (Inr (), w') \<longleftrightarrow> (\<exists>x. r = Inr x \<and> w' = w\<lparr>ops_conf := f x (ops_conf w)\<rparr>)"
  by (cases r) (auto simp: assign_def act_simps set_conf_run)

text \<open>A text given on the command line goes before the file, and nothing before both.\<close>

definition given_or :: "'a option \<Rightarrow> 'a \<Rightarrow> 'a" where
  "given_or x d = (case x of Some v \<Rightarrow> v | None \<Rightarrow> d)"

definition nonzero_or :: "'a::zero \<Rightarrow> 'a \<Rightarrow> 'a" where
  "nonzero_or x d = (if x = 0 then d else x)"

definition nonempty_or :: "string \<Rightarrow> string \<Rightarrow> string" where
  "nonempty_or s d = (if s = [] then d else s)"

lemma filled [simp]: "d \<noteq> 0 \<Longrightarrow> nonzero_or x d \<noteq> 0" "d' \<noteq> [] \<Longrightarrow> nonempty_or s d' \<noteq> []"
  by (simp_all add: nonzero_or_def nonempty_or_def)

definition resolves :: "opt_lib \<Rightarrow> string \<Rightarrow> bool" where
  "resolves L host \<longleftrightarrow> (\<exists>ip. get_ipv6 (opl_net L) host = Inr ip)"

lemma try_resolve_returns: "try_resolve L host w = (Inr (), w') \<longleftrightarrow> resolves L host \<and> w' = w"
  by (cases "get_ipv6 (opl_net L) host") (auto simp: try_resolve_def resolves_def act_simps)

section \<open>Failures\<close>

text \<open>
  A piece of a parser fails with exceptions only, and throws no \<^verbatim>\<open>int\<close> but \<open>0\<close>, which it may
  throw when \<open>z\<close> holds.
\<close>

definition fair_fault :: "bool \<Rightarrow> fault \<Rightarrow> bool" where
  "fair_fault z f \<longleftrightarrow> (\<exists>e. f = Throw e \<and> (is_std_exception e \<or> z \<and> e = Int_thrown 0))"

definition fair_res :: "bool \<Rightarrow> 'a res \<Rightarrow> bool" where
  "fair_res z r \<longleftrightarrow> (\<forall>f. r = Inl f \<longrightarrow> fair_fault z f)"

definition fair :: "bool \<Rightarrow> ('w, 'a) act \<Rightarrow> bool" where
  "fair z m \<longleftrightarrow> (\<forall>w. fair_res z (fst (m w)))"

named_theorems fair_intros \<comment> \<open>what fails fairly\<close>

lemma fair_ret [fair_intros]: "fair z (ret x)"
  by (simp add: fair_def fair_res_def act_simps)

lemma fair_modify [fair_intros]: "fair z (modify f)"
  by (simp add: fair_def fair_res_def act_simps)

lemma fair_gets [fair_intros]: "fair z (gets f)"
  by (simp add: fair_def fair_res_def act_simps)

lemma fair_raise_int [fair_intros]: "fair True (raise (Throw (Int_thrown 0)))"
  by (simp add: fair_def fair_res_def fair_fault_def act_simps)

lemma fair_raise [fair_intros]: "is_std_exception e \<Longrightarrow> fair z (raise (Throw e))"
  by (simp add: fair_def fair_res_def fair_fault_def act_simps)

lemma fair_lift [fair_intros]: "fair_res z r \<Longrightarrow> fair z (lift_res r)"
  by (simp add: fair_def act_simps)

lemma fair_bnd [fair_intros]: "fair z m \<Longrightarrow> (\<And>x. fair z (k x)) \<Longrightarrow> fair z (bnd m k)"
  by (auto simp: fair_def fair_res_def act_simps split: prod.splits sum.splits) (metis fst_conv)+

lemma fair_seqA [fair_intros]: "(\<And>m. m \<in> set ms \<Longrightarrow> fair z m) \<Longrightarrow> fair z (seqA ms)"
  by (induction ms) (auto intro: fair_intros)

lemma fair_if [fair_intros]: "(b \<Longrightarrow> fair z m) \<Longrightarrow> (\<not> b \<Longrightarrow> fair z n) \<Longrightarrow> fair z (if b then m else n)"
  by simp

lemma fair_print [fair_intros]: "fair z (print_cout t)" "fair z (set_conf f)"
  by (simp_all add: print_cout_def set_conf_def fair_intros)

lemma fair_res_Inr [fair_intros]: "fair_res z (Inr x)"
  by (simp add: fair_res_def)

lemma fair_res_Inl [fair_intros]: "is_std_exception e \<Longrightarrow> fair_res z (Inl (Throw e))"
  by (simp add: fair_res_def fair_fault_def)

lemma fair_res_bind [fair_intros]: "fair_res z r \<Longrightarrow> (\<And>x. fair_res z (k x)) \<Longrightarrow> fair_res z (rbind r k)"
  by (cases r) (simp_all add: fair_res_def)

lemma fair_res_option [fair_intros]: "is_std_exception e \<Longrightarrow> fair_res z (of_option e m)"
  by (cases m) (simp_all add: fair_intros)

lemma fair_res_mapM [fair_intros]: "(\<And>x. fair_res z (f x)) \<Longrightarrow> fair_res z (mapM f xs)"
  by (induction xs) (simp_all add: fair_intros)

lemma fair_pt [fair_intros]:
  "fair_res z (pt_get_word B pt k :: 'a::len word res)" "fair_res z (pt_get_string B pt k)"
  by (auto simp: pt_get_word_def pt_get_string_def intro!: fair_intros)

lemma fair_as [fair_intros]:
  "fair_res z (as_string vm k)" "fair_res z (as_unsigned vm k)" "fair_res z (as_char vm k)" "fair_res z (as_host_port vm k)"
  by (auto simp: as_defs intro!: fair_intros split: option.splits opt_value.splits)

lemma fair_read_config [fair_intros]: "fair_res z (read_config L path)"
  by (auto simp: read_config_def intro!: fair_intros)

lemma fair_get_ipv6 [fair_intros]: "fair_res z (get_ipv6 N host)"
  by (auto simp: get_ipv6_def one_ip_from_host_def endpoint_from_host_def intro!: fair_intros split: option.splits list.splits)

lemma fair_try_resolve [fair_intros]: "fair z (try_resolve L host)"
  by (auto simp: try_resolve_def intro!: fair_intros)

lemma fair_assign [fair_intros]: "fair_res z r \<Longrightarrow> fair z (assign r f)"
  by (auto simp: assign_def intro!: fair_intros)

lemma fair_override [fair_intros]: "(\<And>k. fair_res z (as_type vm k)) \<Longrightarrow> fair z (override vm k as_type f)"
  by (auto simp: override_def intro!: fair_intros)

lemma fair_override_host [fair_intros]: "fair z (override_host vm k f g)"
  by (auto simp: override_host_def intro!: fair_intros)

lemma fair_parse_cli [fair_intros]: "fair_res z (parse_cli L desc argv)"
proof -
  have "fair_res z (validate L ty t)" for ty t
    by (cases ty) (auto simp: validate_def Let_def intro!: fair_intros)
  then have "fair_res z (store_option L texts d)" for texts d
    by (auto simp: store_option_def intro!: fair_intros split: option.splits)
  then show ?thesis by (auto simp: parse_cli_def intro!: fair_intros split: sum.splits)
qed

lemma fair_any: "fair z m \<Longrightarrow> fair True m"
  unfolding fair_def fair_res_def fair_fault_def by blast

section \<open>What every parser promises\<close>

text \<open>What is printed for \<^verbatim>\<open>--help\<close> or \<^verbatim>\<open>--version\<close>, when one of them is given.\<close>

definition asked_text :: "opt_lib \<Rightarrow> option_decl list \<Rightarrow> string \<Rightarrow> string list \<Rightarrow> string option" where
  "asked_text L desc program argv =
     (case parse_cli L desc argv of
        Inl _ \<Rightarrow> None
      | Inr vm \<Rightarrow>
          if vm_count vm ''help'' then Some (opl_usage L desc)
          else if vm_count vm ''version'' then
            Some (program @ '' '' @ infos_version @ [CHR 0x0A, CHR 0x0A] @ infos_copyright @ [CHR 0x0A])
          else None)"

text \<open>
  A program's parser is its handlers around the parsing of its options, the answers to
  \<^verbatim>\<open>--help\<close> and \<^verbatim>\<open>--version\<close>, and a body that fails fairly; \<open>zero\<close> tells whether the body throws
  \<open>0\<close> too, as that of the client does when it has nothing to transfer.
\<close>

locale option_parser =
  fixes parse :: "opt_lib \<Rightarrow> string list \<Rightarrow> ('c opt_state, unit) act"
    and desc :: "option_decl list"
    and program :: string
    and body :: "opt_lib \<Rightarrow> variables_map \<Rightarrow> ('c opt_state, unit) act"
    and zero :: bool
  assumes parse: "parse L argv = catch_options L
      (bnd (lift_res (parse_cli L desc argv)) (\<lambda>vm. help_version L desc program vm (body L vm)))"
    and fair_body: "fair zero (body L vm)"
begin

lemma fair_inner: "fair True (bnd (lift_res (parse_cli L desc argv)) (\<lambda>vm. help_version L desc program vm (body L vm)))"
  using fair_any [OF fair_body]
  by (auto simp: help_version_def intro!: fair_intros)

lemma exit_code:
  assumes "parse L argv w = (Inl f, w')"
  shows "f = Throw (Int_thrown 0) \<or>
    f = Throw (Int_thrown 1) \<and> (\<exists>e. ops_err w' \<noteq> [] \<and> last (ops_err w') = e @ '' Try --help.'')"
proof -
  let ?m = "bnd (lift_res (parse_cli L desc argv)) (\<lambda>vm. help_version L desc program vm (body L vm))"
  obtain r v where r: "?m w = (r, v)" by (cases "?m w")
  with assms have f: "catch_options L ?m w = (Inl f, w')" by (simp add: parse)
  show ?thesis
  proof (cases r)
    case (Inr x)
    with f r show ?thesis by (simp add: catch_options_def catching_run)
  next
    case (Inl g)
    with fair_inner [of L argv] r have "fair_fault True g" by (auto simp: fair_def fair_res_def dest: spec [of _ w])
    then obtain e where e: "g = Throw e" "is_std_exception e \<or> e = Int_thrown 0" by (auto simp: fair_fault_def)
    with f r Inl have h: "handle_exn L e v = (Inl f, w')" by (simp add: catch_options_def catching_run)
    with e(2) show ?thesis
      by (cases e) (auto simp: handle_exn_def print_cerr_def act_simps)
  qed
qed

lemma returns_iff:
  "parse L argv w = (Inr (), w') \<longleftrightarrow>
   (\<exists>vm. parse_cli L desc argv = Inr vm \<and> \<not> vm_count vm ''help'' \<and> \<not> vm_count vm ''version'' \<and> body L vm w = (Inr (), w'))"
proof -
  have h: "handle_exn L e v \<noteq> (Inr (), w')" for e v
    by (cases e) (auto simp: handle_exn_def print_cerr_def act_simps)
  let ?m = "bnd (lift_res (parse_cli L desc argv)) (\<lambda>vm. help_version L desc program vm (body L vm))"
  have "catch_options L ?m w = (Inr (), w') \<longleftrightarrow> ?m w = (Inr (), w')"
    using h by (auto simp: catch_options_def catching_run split: prod.splits sum.splits fault.splits)
  also have "\<dots> \<longleftrightarrow> (\<exists>vm. parse_cli L desc argv = Inr vm \<and> \<not> vm_count vm ''help'' \<and> \<not> vm_count vm ''version'' \<and> body L vm w = (Inr (), w'))"
    by (auto simp: bnd_returns lift_res_run help_version_def raise_run print_cout_def)
  finally show ?thesis by (simp add: parse)
qed

lemma answers_help:
  "parse_cli L desc argv = Inr vm \<Longrightarrow> vm_count vm ''help'' \<Longrightarrow>
   parse L argv w = (Inl (Throw (Int_thrown 0)), w\<lparr>ops_out := ops_out w @ [opl_usage L desc]\<rparr>)"
  by (simp add: parse catch_options_def help_version_def handle_exn_def print_cout_def act_simps)

lemma throws_zero_iff:
  assumes "\<not> zero"
  shows "parse L argv w = (Inl (Throw (Int_thrown 0)), w') \<longleftrightarrow>
    (\<exists>t. asked_text L desc program argv = Some t \<and> w' = w\<lparr>ops_out := ops_out w @ [t]\<rparr>)"
proof (cases "parse_cli L desc argv")
  case (Inl f)
  then have "fair_fault False f" using fair_parse_cli [of False L desc argv] by (simp add: fair_res_def)
  with Inl show ?thesis
    by (auto simp: parse catch_options_def catching_run bnd_run lift_res_run handle_exn_def print_cerr_def asked_text_def
        act_simps fair_fault_def split: exn.splits)
next
  case (Inr vm)
  show ?thesis
  proof (cases "vm_count vm ''help'' \<or> vm_count vm ''version''")
    case True
    with Inr show ?thesis
      by (auto simp: parse catch_options_def help_version_def handle_exn_def print_cout_def asked_text_def act_simps)
  next
    case False
    have "fair_res False (fst (body L vm w))" using fair_body assms by (simp add: fair_def)
    with Inr False show ?thesis
      by (cases "body L vm w")
        (auto simp: parse catch_options_def help_version_def catching_run bnd_run lift_res_run handle_exn_def print_cerr_def
          asked_text_def act_simps fair_res_def fair_fault_def split: sum.splits fault.splits exn.splits)
  qed
qed

end

section \<open>An instance\<close>

text \<open>Keys with a dot name a path, as Boost documents it.\<close>

definition paths_ok :: "boost \<Rightarrow> bool" where
  "paths_ok B \<longleftrightarrow> (\<forall>t a b. CHR ''.'' \<notin> set a \<longrightarrow>
     get_child B t (a @ CHR ''.'' # b) = (case get_child B t a of None \<Rightarrow> None | Some c \<Rightarrow> get_child B c b))"

lemma pt_get_string_path:
  assumes "boost_ok B" "paths_ok B" "CHR ''.'' \<notin> set a" "CHR ''.'' \<notin> set b"
    and "map_of cs a = Some (PTree d ds)" "map_of ds b = Some (PTree t [])"
  shows "pt_get_string B (PTree e cs) (a @ CHR ''.'' # b) = Inr t"
  using assms by (simp add: pt_get_string_def paths_ok_def boost_child)

lemma pt_get_word_path:
  assumes "boost_ok B" "paths_ok B" "CHR ''.'' \<notin> set a" "CHR ''.'' \<notin> set b"
    and "map_of cs a = Some (PTree d ds)" "map_of ds b = Some (word_tree (x :: 'a::len word))"
  shows "pt_get_word B (PTree e cs) (a @ CHR ''.'' # b) = Inr x"
  using assms by (simp add: pt_get_word_def paths_ok_def boost_child word_tree_def boost_number unsigned_less)

function child_at :: "ptree \<Rightarrow> string \<Rightarrow> ptree option" where
  "child_at t k =
     (case map_of (ptree_children t) (takeWhile (\<lambda>c. c \<noteq> CHR ''.'') k) of
        None \<Rightarrow> None
      | Some c \<Rightarrow> (case dropWhile (\<lambda>c. c \<noteq> CHR ''.'') k of [] \<Rightarrow> Some c | _ # r \<Rightarrow> child_at c r))"
  by auto
termination
proof (relation "measure (\<lambda>(t, k). length k)")
  fix k c r
  assume "dropWhile (\<lambda>c. c \<noteq> CHR ''.'') k = c # (r :: string)"
  then have "length (c # r) \<le> length k" by (metis length_dropWhile_le)
  then show "((t', r), (t, k)) \<in> measure (\<lambda>(t, k). length k)" for t' t :: ptree by simp
qed simp

declare child_at.simps [simp del]

definition path_boost :: boost where
  "path_boost = sample_boost\<lparr>get_child := child_at\<rparr>"

lemma until_dot:
  assumes "CHR ''.'' \<notin> set a"
  shows "takeWhile (\<lambda>c. c \<noteq> CHR ''.'') a = a" "dropWhile (\<lambda>c. c \<noteq> CHR ''.'') a = []"
    "takeWhile (\<lambda>c. c \<noteq> CHR ''.'') (a @ CHR ''.'' # b) = a"
    "dropWhile (\<lambda>c. c \<noteq> CHR ''.'') (a @ CHR ''.'' # b) = CHR ''.'' # b"
  using assms by (induction a) auto

lemma child_at_plain: "CHR ''.'' \<notin> set k \<Longrightarrow> child_at t k = map_of (ptree_children t) k"
  by (subst child_at.simps) (simp add: until_dot split: option.splits)

lemma path_boost_ok: "boost_ok path_boost" "paths_ok path_boost"
proof -
  show "boost_ok path_boost"
    using sample_boost_ok by (simp add: boost_ok_def path_boost_def child_at_plain sample_boost_def)
  have "child_at t (a @ CHR ''.'' # b) = (case child_at t a of None \<Rightarrow> None | Some c \<Rightarrow> child_at c b)"
    if "CHR ''.'' \<notin> set a" for t a b
    using that by (subst child_at.simps) (simp add: child_at_plain until_dot split: option.splits)
  moreover have g: "get_child path_boost = child_at" by (simp add: path_boost_def)
  ultimately show "paths_ok path_boost" unfolding paths_ok_def g by blast
qed

fun argument_pairs :: "string list \<Rightarrow> (string \<times> string) list" where
  "argument_pairs (k # v # r) = (k, v) # argument_pairs r"
| "argument_pairs _ = []"

text \<open>Arguments alternate long names and texts; every host is an address; one file exists.\<close>

definition sample_options :: "string \<Rightarrow> string \<Rightarrow> opt_lib" where
  "sample_options path text =
     \<lparr> opl_boost = path_boost,
       opl_net = sample_net\<lparr>resolve_host := (\<lambda>h p. Some [(V4 ''abcd'', 0)])\<rparr>,
       opl_parse = (\<lambda>desc argv.
         let ps = argument_pairs argv in
         if \<forall>k\<in>set (map fst ps). k \<in> set (map long_name desc) then Inr (map_of ps) else Inl ''unrecognised option''),
       opl_cast_char = (\<lambda>t. case t of [c] \<Rightarrow> Some (of_char c) | _ \<Rightarrow> None),
       opl_cast_host_port = (\<lambda>op t.
         case op \<lparr>is_text = t, is_skipws = False, is_fail = False\<rparr> of
           (Inr v, s) \<Rightarrow> if is_fail s \<or> is_text s \<noteq> [] then None else Some v
         | (Inl _, _) \<Rightarrow> None),
       opl_invalid = (\<lambda>t. ''the argument is invalid: '' @ t),
       opl_usage = (\<lambda>desc. concat (map (\<lambda>d. decl_names d @ '' '' @ decl_help d) desc)),
       opl_what = (\<lambda>e. ''error''),
       opl_read_file = [path \<mapsto> text],
       opl_exists = (\<lambda>p. False),
       opl_mkdirs = (\<lambda>p. True),
       opl_threads = 4 \<rparr>"

lemma sample_options_ok: "casts_ok (sample_options path text)" "opl_boost (sample_options path text) = path_boost"
  unfolding casts_ok_def by (simp_all add: sample_options_def)

lemma host_port_roundtrip_witness:
  "validate (sample_options [] []) T_host_port (''::1'' @ '':'' @ ''3727'') = Inr (V_host_port (''::1'', 3727))"
proof -
  have "boost_ok (opl_boost (sample_options [] []))" by (simp add: sample_options_ok path_boost_ok)
  moreover have "decimal 3727 = ''3727''" by (simp add: decimal.simps digit_char_def char_of_eq_iff)
  moreover have "unat (3727 :: port_type) = 3727" by simp
  moreover have "\<forall>c\<in>set ''::1''. \<not> is_blank c" by (simp add: is_blank_def)
  ultimately show ?thesis
    using host_port_roundtrip [OF sample_options_ok(1) [of "[]" "[]"], where host = "''::1''" and port = 3727]
    by (simp only: simp_thms)
qed

end
