(* ===== verification/Options_Master.thy ===== *)
theory Options_Master
  imports Options
begin

text \<open>
  The options of the master (\<^verbatim>\<open>master/option_parser.hxx\<close>) and the configuration they and the
  configuration file give.
\<close>

section \<open>The parser\<close>

definition master_desc :: "option_decl list" where
  "master_desc =
     [\<lparr>decl_names = ''help,h'', decl_type = T_flag, decl_help = ''display this help and exit''\<rparr>,
      \<lparr>decl_names = ''version,v'', decl_type = T_flag, decl_help = ''displays version of the master''\<rparr>,
      \<lparr>decl_names = ''config,c'', decl_type = T_string, decl_help = ''path to the configuration file''\<rparr>,
      \<lparr>decl_names = ''listen,l'', decl_type = T_host_port, decl_help = ''the host:ip to listen''\<rparr>,
      \<lparr>decl_names = ''concurrency,y'', decl_type = T_unsigned, decl_help = ''the number of thread that listen''\<rparr>,
      \<lparr>decl_names = ''timeout,t'', decl_type = T_unsigned, decl_help = ''timeout in seconds''\<rparr>]"

definition master_parse_options_file :: "opt_lib \<Rightarrow> string \<Rightarrow> (master_Conf opt_state, unit) act" where
  "master_parse_options_file L config_path =
     bnd (lift_res (read_config L config_path)) (\<lambda>pt.
       (let B = opl_boost L in
        seqA
         [assign (pt_get_word B pt ''concurrency'') (\<lambda>x c. c\<lparr>mc_concurrency := x\<rparr>),
          assign (pt_get_string B pt ''hostname'') (\<lambda>x c. c\<lparr>mc_hostname := x\<rparr>),
          assign (pt_get_word B pt ''port'') (\<lambda>x c. c\<lparr>mc_port := x\<rparr>),
          assign (pt_get_word B pt ''timeout'') (\<lambda>x c. c\<lparr>mc_timeout := x\<rparr>),
          assign (pt_get_string B pt ''database.hostname'') (\<lambda>x c. c\<lparr>mc_db := (mc_db c)\<lparr>db_hostname := x\<rparr>\<rparr>),
          assign (pt_get_string B pt ''database.password'') (\<lambda>x c. c\<lparr>mc_db := (mc_db c)\<lparr>db_password := x\<rparr>\<rparr>),
          assign (pt_get_string B pt ''database.bucket'') (\<lambda>x c. c\<lparr>mc_db := (mc_db c)\<lparr>db_bucket := x\<rparr>\<rparr>)]))"

definition master_defaults :: "opt_lib \<Rightarrow> master_Conf \<Rightarrow> master_Conf" where
  "master_defaults L c = c\<lparr>
     mc_config_path := ''../config/master.conf'',
     mc_hostname := ''localhost'',
     mc_port := 3727,
     mc_concurrency := opl_threads L * 2,
     mc_timeout := 300\<rparr>"

definition master_checks :: "master_Conf \<Rightarrow> master_Conf" where
  "master_checks c0 =
     (let c1 = (if mc_hostname c0 = [] then c0\<lparr>mc_hostname := ''localhost''\<rparr> else c0);
          c2 = (if mc_port c1 = 0 then c1\<lparr>mc_port := 3727\<rparr> else c1);
          c3 = (if mc_concurrency c2 = 0 then c2\<lparr>mc_concurrency := 4\<rparr> else c2)
      in (if mc_timeout c3 = 0 then c3\<lparr>mc_timeout := 300\<rparr> else c3))"

definition master_body :: "opt_lib \<Rightarrow> variables_map \<Rightarrow> (master_Conf opt_state, unit) act" where
  "master_body L vm =
     seqA
      [set_conf (master_defaults L),
       override vm ''config'' as_string (\<lambda>x c. c\<lparr>mc_config_path := x\<rparr>),
       bnd (gets (\<lambda>w. mc_config_path (ops_conf w))) (master_parse_options_file L),
       override_host vm ''listen'' (\<lambda>x c. c\<lparr>mc_hostname := x\<rparr>) (\<lambda>x c. c\<lparr>mc_port := x\<rparr>),
       override vm ''concurrency'' as_unsigned (\<lambda>x c. c\<lparr>mc_concurrency := x\<rparr>),
       override vm ''timeout'' as_unsigned (\<lambda>x c. c\<lparr>mc_timeout := x\<rparr>),
       set_conf master_checks,
       bnd (gets (\<lambda>w. mc_hostname (ops_conf w))) (try_resolve L),
       bnd (gets (\<lambda>w. db_hostname (mc_db (ops_conf w)))) (try_resolve L)]"

definition master_parse_options :: "opt_lib \<Rightarrow> string list \<Rightarrow> (master_Conf opt_state, unit) act" where
  "master_parse_options L argv =
     catch_options L
       (bnd (lift_res (parse_cli L master_desc argv)) (\<lambda>vm.
          help_version L master_desc ''Master'' vm (master_body L vm)))"

section \<open>What it promises\<close>

lemma fair_master_body: "fair False (master_body L vm)"
  by (auto simp: master_body_def master_parse_options_file_def Let_def intro!: fair_intros)

interpretation master_parser: option_parser master_parse_options master_desc "''Master''" master_body False
  by unfold_locales (rule master_parse_options_def, rule fair_master_body)

text \<open>The contents of the file, all of which it has to give.\<close>

definition master_file :: "opt_lib \<Rightarrow> string \<Rightarrow> master_Conf res" where
  "master_file L path =
     rbind (read_config L path) (\<lambda>pt. (let B = opl_boost L in
     rbind (pt_get_word B pt ''concurrency'') (\<lambda>y.
     rbind (pt_get_string B pt ''hostname'') (\<lambda>h.
     rbind (pt_get_word B pt ''port'') (\<lambda>p.
     rbind (pt_get_word B pt ''timeout'') (\<lambda>t.
     rbind (pt_get_string B pt ''database.hostname'') (\<lambda>dh.
     rbind (pt_get_string B pt ''database.password'') (\<lambda>dp.
     rbind (pt_get_string B pt ''database.bucket'') (\<lambda>db.
       Inr \<lparr>mc_config_path = path, mc_hostname = h, mc_port = p, mc_concurrency = y, mc_timeout = t,
            mc_db = \<lparr>db_hostname = dh, db_password = dp, db_bucket = db\<rparr>\<rparr>)))))))))"

lemma master_file_runs:
  "master_parse_options_file L path w = (Inr (), w') \<longleftrightarrow>
   (\<exists>c. master_file L path = Inr c \<and> w' = w\<lparr>ops_conf := c\<lparr>mc_config_path := mc_config_path (ops_conf w)\<rparr>\<rparr>)"
  unfolding master_parse_options_file_def bnd_returns lift_res_run Let_def seqA_returns assign_returns
    master_file_def rbind_Inr_iff
  by (cases "ops_conf w") auto

definition master_conf_of :: "variables_map \<Rightarrow> master_Conf \<Rightarrow> master_Conf" where
  "master_conf_of vm c = c\<lparr>
     mc_hostname := nonempty_or (given_or (map_option fst (host_port_of vm ''listen'')) (mc_hostname c)) ''localhost'',
     mc_port := nonzero_or (nonzero_or (given_or (map_option snd (host_port_of vm ''listen'')) 0) (mc_port c)) 3727,
     mc_concurrency := nonzero_or (given_or (unsigned_of vm ''concurrency'') (mc_concurrency c)) 4,
     mc_timeout := nonzero_or (given_or (unsigned_of vm ''timeout'') (mc_timeout c)) 300\<rparr>"

lemma master_typed:
  assumes "parse_cli L master_desc argv = Inr vm"
  shows "typed_as vm ''config'' T_string" "typed_as vm ''listen'' T_host_port"
    "typed_as vm ''concurrency'' T_unsigned" "typed_as vm ''timeout'' T_unsigned"
  by (rule parsed_typed [OF assms]; simp add: master_desc_def long_name_def)+

lemma master_checks_eq:
  "master_checks c = c\<lparr>mc_hostname := nonempty_or (mc_hostname c) ''localhost'', mc_port := nonzero_or (mc_port c) 3727,
     mc_concurrency := nonzero_or (mc_concurrency c) 4, mc_timeout := nonzero_or (mc_timeout c) 300\<rparr>"
  by (cases c) (simp add: master_checks_def nonzero_or_def nonempty_or_def Let_def)

lemma master_merge:
  "master_checks
     ((case unsigned_of vm ''timeout'' of None \<Rightarrow> id | Some x \<Rightarrow> (\<lambda>c. c\<lparr>mc_timeout := x\<rparr>))
     ((case unsigned_of vm ''concurrency'' of None \<Rightarrow> id | Some x \<Rightarrow> (\<lambda>c. c\<lparr>mc_concurrency := x\<rparr>))
     ((case host_port_of vm ''listen'' of None \<Rightarrow> id
       | Some x \<Rightarrow> (case x of (host, port) \<Rightarrow> (\<lambda>c. let c = c\<lparr>mc_hostname := host\<rparr> in if port \<noteq> 0 then c\<lparr>mc_port := port\<rparr> else c))) c)))
   = master_conf_of vm c"
  unfolding master_checks_eq master_conf_of_def
  by (cases c; cases "unsigned_of vm ''timeout''"; cases "unsigned_of vm ''concurrency''"; cases "host_port_of vm ''listen''")
    (simp_all add: given_or_def nonzero_or_def Let_def split: prod.splits)

definition master_options :: "opt_lib \<Rightarrow> string list \<Rightarrow> variables_map \<Rightarrow> bool" where
  "master_options L argv vm \<longleftrightarrow> parse_cli L master_desc argv = Inr vm \<and> \<not> vm_count vm ''help'' \<and> \<not> vm_count vm ''version''"

lemma master_body_runs:
  assumes "parse_cli L master_desc argv = Inr vm"
  shows "master_body L vm w = (Inr (), w') \<longleftrightarrow>
    (\<exists>c. master_file L (given_or (string_of vm ''config'') ''../config/master.conf'') = Inr c
       \<and> w' = w\<lparr>ops_conf := master_conf_of vm c\<rparr>
       \<and> resolves L (mc_hostname (master_conf_of vm c)) \<and> resolves L (db_hostname (mc_db (master_conf_of vm c))))"
proof -
  note t = master_typed [OF assms]
  let ?path = "given_or (string_of vm ''config'') ''../config/master.conf''"
  have path: "mc_config_path ((case string_of vm ''config'' of None \<Rightarrow> id | Some x \<Rightarrow> (\<lambda>c. c\<lparr>mc_config_path := x\<rparr>)) (master_defaults L c)) = ?path" for c
    by (simp add: given_or_def master_defaults_def split: option.splits)
  have keep: "master_file L p = Inr c \<Longrightarrow> c\<lparr>mc_config_path := p\<rparr> = c" for p c
    by (auto simp: master_file_def rbind_Inr_iff Let_def)
  show ?thesis
    unfolding master_body_def seqA_returns override_host_def override_typed(1) [OF t(1)] override_typed(3) [OF t(2)]
      override_typed(2) [OF t(3)] override_typed(2) [OF t(4)] set_conf_run bnd_returns gets_run master_file_runs try_resolve_returns
    using keep by (auto simp: path master_merge)
qed

text \<open>
  C34: The options of the master: it starts exactly when its arguments parse, ask for neither help
  nor version, its configuration file holds every setting, and the names of its own host and
  of the database resolve; then its configuration is the file's, with what the command line
  gives put over it, and a default for what is still empty or zero.
\<close>

theorem master_options_refine:
  "master_parse_options L argv w = (Inr (), w') \<longleftrightarrow>
   (\<exists>vm c. master_options L argv vm
      \<and> master_file L (given_or (string_of vm ''config'') ''../config/master.conf'') = Inr c
      \<and> w' = w\<lparr>ops_conf := master_conf_of vm c\<rparr>
      \<and> resolves L (mc_hostname (master_conf_of vm c)) \<and> resolves L (db_hostname (mc_db (master_conf_of vm c))))"
  unfolding master_parser.returns_iff master_options_def using master_body_runs by blast

text \<open>Every setting of a master that has started is usable.\<close>

lemma master_options_valid:
  assumes "master_parse_options L argv w = (Inr (), w')"
  shows "mc_hostname (ops_conf w') \<noteq> [] \<and> mc_port (ops_conf w') \<noteq> 0 \<and> mc_concurrency (ops_conf w') \<noteq> 0
     \<and> mc_timeout (ops_conf w') \<noteq> 0 \<and> resolves L (mc_hostname (ops_conf w'))"
proof -
  have "mc_hostname (master_conf_of vm c) \<noteq> []" "mc_port (master_conf_of vm c) \<noteq> 0"
    "mc_concurrency (master_conf_of vm c) \<noteq> 0" "mc_timeout (master_conf_of vm c) \<noteq> 0" for vm c
    by (simp_all add: master_conf_of_def)
  with assms show ?thesis unfolding master_parser.returns_iff using master_body_runs by auto
qed

section \<open>A configuration file\<close>

definition master_config_tree :: "master_Conf \<Rightarrow> ptree" where
  "master_config_tree c = PTree []
     [(''concurrency'', word_tree (mc_concurrency c)), (''hostname'', PTree (mc_hostname c) []),
      (''port'', word_tree (mc_port c)), (''timeout'', word_tree (mc_timeout c)),
      (''database'', PTree []
        [(''hostname'', PTree (db_hostname (mc_db c)) []), (''password'', PTree (db_password (mc_db c)) []),
         (''bucket'', PTree (db_bucket (mc_db c)) [])])]"

lemma master_file_read:
  assumes "boost_ok (opl_boost L)" "paths_ok (opl_boost L)"
    and "opl_read_file L (mc_config_path c) = Some s" "json_text s (master_config_tree c)"
  shows "master_file L (mc_config_path c) = Inr c"
proof -
  note path = pt_get_string_path [OF assms(1,2), of "''database''"]
  have "pt_get_string (opl_boost L) (master_config_tree c) ''database.hostname'' = Inr (db_hostname (mc_db c))"
    "pt_get_string (opl_boost L) (master_config_tree c) ''database.password'' = Inr (db_password (mc_db c))"
    "pt_get_string (opl_boost L) (master_config_tree c) ''database.bucket'' = Inr (db_bucket (mc_db c))"
    using path [of "''hostname''"] path [of "''password''"] path [of "''bucket''"]
    by (simp_all add: master_config_tree_def)
  moreover have "pt_get_word (opl_boost L) (master_config_tree c) ''concurrency'' = Inr (mc_concurrency c)"
    "pt_get_string (opl_boost L) (master_config_tree c) ''hostname'' = Inr (mc_hostname c)"
    "pt_get_word (opl_boost L) (master_config_tree c) ''port'' = Inr (mc_port c)"
    "pt_get_word (opl_boost L) (master_config_tree c) ''timeout'' = Inr (mc_timeout c)"
    using assms(1) by (simp_all add: master_config_tree_def pt_simps)
  moreover have "read_config L (mc_config_path c) = Inr (master_config_tree c)"
    by (simp add: read_config_def assms(3) boost_read [OF assms(1,4)])
  ultimately show ?thesis by (simp add: master_file_def)
qed

end
