(* ===== verification/Options_Storage.thy ===== *)
theory Options_Storage
  imports Options
begin

text \<open>
  The options of the storage server (\<^verbatim>\<open>storage/option_parser.cc\<close>).
\<close>

section \<open>The parser\<close>

definition storage_desc :: "option_decl list" where
  "storage_desc =
     [\<lparr>decl_names = ''help,h'', decl_type = T_flag, decl_help = ''display this help and exit''\<rparr>,
      \<lparr>decl_names = ''version,v'', decl_type = T_flag, decl_help = ''displays version of the client''\<rparr>,
      \<lparr>decl_names = ''config,c'', decl_type = T_string, decl_help = ''path to the configuration file''\<rparr>,
      \<lparr>decl_names = ''listen,l'', decl_type = T_host_port, decl_help = ''the host:ip to listen''\<rparr>,
      \<lparr>decl_names = ''master,m'', decl_type = T_host_port, decl_help = ''the hostname and port of the master''\<rparr>,
      \<lparr>decl_names = ''concurrency,y'', decl_type = T_unsigned, decl_help = ''concurrency level when uploading''\<rparr>,
      \<lparr>decl_names = ''timeout,t'', decl_type = T_unsigned, decl_help = ''timeout in seconds''\<rparr>,
      \<lparr>decl_names = ''id_path,i'', decl_type = T_string, decl_help = ''the folder where the storage id will be saved''\<rparr>]"

definition storage_parse_options_file :: "opt_lib \<Rightarrow> string \<Rightarrow> (storage_Conf opt_state, unit) act" where
  "storage_parse_options_file L config_path =
     bnd (lift_res (read_config L config_path)) (\<lambda>pt.
       (let B = opl_boost L in
        seqA
         [assign (pt_get_word B pt ''concurrency'') (\<lambda>x c. c\<lparr>sc_concurrency := x\<rparr>),
          assign (pt_get_string B pt ''hostname'') (\<lambda>x c. c\<lparr>sc_hostname := x\<rparr>),
          assign (pt_get_word B pt ''port'') (\<lambda>x c. c\<lparr>sc_port := x\<rparr>),
          assign (pt_get_word B pt ''timeout'') (\<lambda>x c. c\<lparr>sc_timeout := x\<rparr>),
          assign (pt_get_string B pt ''master.hostname'') (\<lambda>x c. c\<lparr>sc_master_hostname := x\<rparr>),
          assign (pt_get_word B pt ''master.port'') (\<lambda>x c. c\<lparr>sc_master_port := x\<rparr>),
          assign (pt_get_string B pt ''storage_path'') (\<lambda>x c. c\<lparr>sc_storage_path := x\<rparr>),
          assign (pt_get_string B pt ''id_path'') (\<lambda>x c. c\<lparr>sc_id_path := x\<rparr>)]))"

definition storage_defaults :: "opt_lib \<Rightarrow> storage_Conf \<Rightarrow> storage_Conf" where
  "storage_defaults L c = c\<lparr>
     sc_config_path := ''../config/storage.conf'',
     sc_hostname := ''localhost'',
     sc_port := 3728,
     sc_master_hostname := ''localhost'',
     sc_master_port := 3727,
     sc_concurrency := opl_threads L * 2,
     sc_timeout := 300,
     sc_storage_path := ''stock_dir'',
     sc_id_path := ''storage.id''\<rparr>"

definition storage_checks :: "(storage_Conf opt_state, unit) act" where
  "storage_checks = seqA
     [set_conf (\<lambda>c. if sc_hostname c = [] then c\<lparr>sc_hostname := ''localhost''\<rparr> else c),
      set_conf (\<lambda>c. if sc_port c = 0 then c\<lparr>sc_port := 3728\<rparr> else c),
      set_conf (\<lambda>c. if sc_master_hostname c = [] then c\<lparr>sc_master_hostname := ''localhost''\<rparr> else c),
      set_conf (\<lambda>c. if sc_master_port c = 0 then c\<lparr>sc_master_port := 3727\<rparr> else c),
      set_conf (\<lambda>c. if sc_concurrency c = 0 then c\<lparr>sc_concurrency := 4\<rparr> else c),
      set_conf (\<lambda>c. if sc_timeout c = 0 then c\<lparr>sc_timeout := 300\<rparr> else c)]"

text \<open>
  \<^verbatim>\<open>if (!exists(path)) create_directories(path);\<close> A directory that cannot be made is an
  exception of the file system.
\<close>

definition make_storage_path :: "opt_lib \<Rightarrow> string \<Rightarrow> ('c opt_state, unit) act" where
  "make_storage_path L path =
     (if opl_exists L path then ret ()
      else if opl_mkdirs L path then modify (\<lambda>w. w\<lparr>ops_dirs := ops_dirs w @ [path]\<rparr>)
      else raise (Throw System_error))"

text \<open>The option \<^verbatim>\<open>storage_path\<close> is asked for although it is not declared.\<close>

definition storage_body :: "opt_lib \<Rightarrow> variables_map \<Rightarrow> (storage_Conf opt_state, unit) act" where
  "storage_body L vm =
     seqA
      [set_conf (storage_defaults L),
       override vm ''config'' as_string (\<lambda>x c. c\<lparr>sc_config_path := x\<rparr>),
       bnd (gets (\<lambda>w. sc_config_path (ops_conf w))) (storage_parse_options_file L),
       override_host vm ''master'' (\<lambda>x c. c\<lparr>sc_master_hostname := x\<rparr>) (\<lambda>x c. c\<lparr>sc_master_port := x\<rparr>),
       override_host vm ''listen'' (\<lambda>x c. c\<lparr>sc_hostname := x\<rparr>) (\<lambda>x c. c\<lparr>sc_port := x\<rparr>),
       override vm ''concurrency'' as_unsigned (\<lambda>x c. c\<lparr>sc_concurrency := x\<rparr>),
       override vm ''timeout'' as_unsigned (\<lambda>x c. c\<lparr>sc_timeout := x\<rparr>),
       override vm ''storage_path'' as_string (\<lambda>x c. c\<lparr>sc_storage_path := x\<rparr>),
       override vm ''id_path'' as_string (\<lambda>x c. c\<lparr>sc_id_path := x\<rparr>),
       storage_checks,
       bnd (gets (\<lambda>w. sc_storage_path (ops_conf w))) (make_storage_path L),
       bnd (gets (\<lambda>w. sc_hostname (ops_conf w))) (try_resolve L),
       bnd (gets (\<lambda>w. sc_master_hostname (ops_conf w))) (try_resolve L)]"

definition storage_parse_options :: "opt_lib \<Rightarrow> string list \<Rightarrow> (storage_Conf opt_state, unit) act" where
  "storage_parse_options L argv =
     catch_options L
       (bnd (lift_res (parse_cli L storage_desc argv)) (\<lambda>vm.
          help_version L storage_desc ''Storage'' vm (storage_body L vm)))"

section \<open>What it promises\<close>

lemma fair_storage_body: "fair False (storage_body L vm)"
  by (auto simp: storage_body_def storage_parse_options_file_def storage_checks_def make_storage_path_def Let_def intro!: fair_intros)

interpretation storage_parser: option_parser storage_parse_options storage_desc "''Storage''" storage_body False
  by unfold_locales (rule storage_parse_options_def, rule fair_storage_body)

text \<open>The contents of the file, all of which it has to give.\<close>

definition storage_file :: "opt_lib \<Rightarrow> string \<Rightarrow> storage_Conf res" where
  "storage_file L path =
     rbind (read_config L path) (\<lambda>pt. (let B = opl_boost L in
     rbind (pt_get_word B pt ''concurrency'') (\<lambda>y.
     rbind (pt_get_string B pt ''hostname'') (\<lambda>h.
     rbind (pt_get_word B pt ''port'') (\<lambda>p.
     rbind (pt_get_word B pt ''timeout'') (\<lambda>t.
     rbind (pt_get_string B pt ''master.hostname'') (\<lambda>mh.
     rbind (pt_get_word B pt ''master.port'') (\<lambda>mp.
     rbind (pt_get_string B pt ''storage_path'') (\<lambda>sp.
     rbind (pt_get_string B pt ''id_path'') (\<lambda>ip.
       Inr \<lparr>sc_config_path = path, sc_hostname = h, sc_port = p, sc_concurrency = y, sc_timeout = t,
            sc_master_hostname = mh, sc_master_port = mp, sc_storage_path = sp, sc_id_path = ip\<rparr>))))))))))"

lemma storage_file_runs:
  "storage_parse_options_file L path w = (Inr (), w') \<longleftrightarrow>
   (\<exists>c. storage_file L path = Inr c \<and> w' = w\<lparr>ops_conf := c\<lparr>sc_config_path := sc_config_path (ops_conf w)\<rparr>\<rparr>)"
  unfolding storage_parse_options_file_def bnd_returns lift_res_run Let_def seqA_returns assign_returns
    storage_file_def rbind_Inr_iff
  by (cases "ops_conf w") auto

definition storage_conf_of :: "variables_map \<Rightarrow> storage_Conf \<Rightarrow> storage_Conf" where
  "storage_conf_of vm c = c\<lparr>
     sc_hostname := nonempty_or (given_or (map_option fst (host_port_of vm ''listen'')) (sc_hostname c)) ''localhost'',
     sc_port := nonzero_or (nonzero_or (given_or (map_option snd (host_port_of vm ''listen'')) 0) (sc_port c)) 3728,
     sc_master_hostname := nonempty_or (given_or (map_option fst (host_port_of vm ''master'')) (sc_master_hostname c)) ''localhost'',
     sc_master_port := nonzero_or (nonzero_or (given_or (map_option snd (host_port_of vm ''master'')) 0) (sc_master_port c)) 3727,
     sc_concurrency := nonzero_or (given_or (unsigned_of vm ''concurrency'') (sc_concurrency c)) 4,
     sc_timeout := nonzero_or (given_or (unsigned_of vm ''timeout'') (sc_timeout c)) 300,
     sc_id_path := given_or (string_of vm ''id_path'') (sc_id_path c)\<rparr>"

lemma storage_typed:
  assumes "parse_cli L storage_desc argv = Inr vm"
  shows "typed_as vm ''config'' T_string" "typed_as vm ''listen'' T_host_port" "typed_as vm ''master'' T_host_port"
    "typed_as vm ''concurrency'' T_unsigned" "typed_as vm ''timeout'' T_unsigned" "typed_as vm ''id_path'' T_string"
  by (rule parsed_typed [OF assms]; simp add: storage_desc_def long_name_def)+

lemma storage_path_never_given:
  assumes "parse_cli L storage_desc argv = Inr vm"
  shows "override vm ''storage_path'' as_string f = set_conf id"
proof -
  have "\<not> vm_count vm ''storage_path''"
    by (rule undeclared_not_parsed [OF assms]) (simp add: storage_desc_def long_name_def)
  then show ?thesis by (intro ext) (simp add: override_def set_conf_run ret_run)
qed

definition storage_fill :: "storage_Conf \<Rightarrow> storage_Conf" where
  "storage_fill c = c\<lparr>
     sc_hostname := nonempty_or (sc_hostname c) ''localhost'', sc_port := nonzero_or (sc_port c) 3728,
     sc_master_hostname := nonempty_or (sc_master_hostname c) ''localhost'', sc_master_port := nonzero_or (sc_master_port c) 3727,
     sc_concurrency := nonzero_or (sc_concurrency c) 4, sc_timeout := nonzero_or (sc_timeout c) 300\<rparr>"

lemma storage_checks_run: "storage_checks w = (Inr (), w\<lparr>ops_conf := storage_fill (ops_conf w)\<rparr>)"
proof -
  have fills: "(if sc_hostname c = [] then c\<lparr>sc_hostname := h\<rparr> else c) = c\<lparr>sc_hostname := nonempty_or (sc_hostname c) h\<rparr>"
    "(if sc_port c = 0 then c\<lparr>sc_port := p\<rparr> else c) = c\<lparr>sc_port := nonzero_or (sc_port c) p\<rparr>"
    "(if sc_master_hostname c = [] then c\<lparr>sc_master_hostname := h\<rparr> else c) = c\<lparr>sc_master_hostname := nonempty_or (sc_master_hostname c) h\<rparr>"
    "(if sc_master_port c = 0 then c\<lparr>sc_master_port := p\<rparr> else c) = c\<lparr>sc_master_port := nonzero_or (sc_master_port c) p\<rparr>"
    "(if sc_concurrency c = 0 then c\<lparr>sc_concurrency := n\<rparr> else c) = c\<lparr>sc_concurrency := nonzero_or (sc_concurrency c) n\<rparr>"
    "(if sc_timeout c = 0 then c\<lparr>sc_timeout := n\<rparr> else c) = c\<lparr>sc_timeout := nonzero_or (sc_timeout c) n\<rparr>" for c h p n
    by (simp_all add: nonempty_or_def nonzero_or_def)
  show ?thesis
    unfolding storage_checks_def fills storage_fill_def by (simp add: bnd_run set_conf_run ret_run)
qed

text \<open>Each override as an update of its fields.\<close>

lemma storage_updates:
  "(case x of None \<Rightarrow> id | Some v \<Rightarrow> (\<lambda>c. c\<lparr>sc_id_path := v\<rparr>)) c = c\<lparr>sc_id_path := given_or x (sc_id_path c)\<rparr>"
  "(case y of None \<Rightarrow> id | Some v \<Rightarrow> (\<lambda>c. c\<lparr>sc_timeout := v\<rparr>)) c = c\<lparr>sc_timeout := given_or y (sc_timeout c)\<rparr>"
  "(case y of None \<Rightarrow> id | Some v \<Rightarrow> (\<lambda>c. c\<lparr>sc_concurrency := v\<rparr>)) c = c\<lparr>sc_concurrency := given_or y (sc_concurrency c)\<rparr>"
  "(case hp of None \<Rightarrow> c
    | Some (host, port) \<Rightarrow> if port \<noteq> 0 then c\<lparr>sc_hostname := host, sc_port := port\<rparr> else c\<lparr>sc_hostname := host\<rparr>)
   = c\<lparr>sc_hostname := given_or (map_option fst hp) (sc_hostname c),
       sc_port := nonzero_or (given_or (map_option snd hp) 0) (sc_port c)\<rparr>"
  "(case hp of None \<Rightarrow> c
    | Some (host, port) \<Rightarrow> if port \<noteq> 0 then c\<lparr>sc_master_hostname := host, sc_master_port := port\<rparr> else c\<lparr>sc_master_hostname := host\<rparr>)
   = c\<lparr>sc_master_hostname := given_or (map_option fst hp) (sc_master_hostname c),
       sc_master_port := nonzero_or (given_or (map_option snd hp) 0) (sc_master_port c)\<rparr>"
  by (cases c; auto simp: given_or_def nonzero_or_def split: option.splits)+

lemma make_storage_path_returns:
  "make_storage_path L p w = (Inr (), w') \<longleftrightarrow> (opl_exists L p \<or> opl_mkdirs L p)
     \<and> w' = w\<lparr>ops_dirs := ops_dirs w @ (if opl_exists L p then [] else [p])\<rparr>"
  by (auto simp: make_storage_path_def ret_run modify_run raise_run)

lemma storage_body_runs:
  assumes "parse_cli L storage_desc argv = Inr vm"
  shows "storage_body L vm w = (Inr (), w') \<longleftrightarrow>
    (\<exists>c. storage_file L (given_or (string_of vm ''config'') ''../config/storage.conf'') = Inr c
       \<and> (let conf = storage_conf_of vm c in
          resolves L (sc_hostname conf) \<and> resolves L (sc_master_hostname conf)
          \<and> (opl_exists L (sc_storage_path conf) \<or> opl_mkdirs L (sc_storage_path conf))
          \<and> w' = w\<lparr>ops_conf := conf, ops_dirs := ops_dirs w @ (if opl_exists L (sc_storage_path conf) then [] else [sc_storage_path conf])\<rparr>))"
proof -
  note t = storage_typed [OF assms]
  let ?path = "given_or (string_of vm ''config'') ''../config/storage.conf''"
  have path: "sc_config_path ((case string_of vm ''config'' of None \<Rightarrow> id | Some x \<Rightarrow> (\<lambda>c. c\<lparr>sc_config_path := x\<rparr>)) (storage_defaults L c)) = ?path" for c
    by (simp add: given_or_def storage_defaults_def split: option.splits)
  have keep: "storage_file L p = Inr c \<Longrightarrow> c\<lparr>sc_config_path := p\<rparr> = c" for p c
    by (auto simp: storage_file_def rbind_Inr_iff Let_def)
  have merge: "storage_fill (c\<lparr>sc_master_hostname := given_or (map_option fst (host_port_of vm ''master'')) (sc_master_hostname c),
      sc_master_port := nonzero_or (given_or (map_option snd (host_port_of vm ''master'')) 0) (sc_master_port c),
      sc_hostname := given_or (map_option fst (host_port_of vm ''listen'')) (sc_hostname c),
      sc_port := nonzero_or (given_or (map_option snd (host_port_of vm ''listen'')) 0) (sc_port c),
      sc_concurrency := given_or (unsigned_of vm ''concurrency'') (sc_concurrency c),
      sc_timeout := given_or (unsigned_of vm ''timeout'') (sc_timeout c),
      sc_id_path := given_or (string_of vm ''id_path'') (sc_id_path c)\<rparr>) = storage_conf_of vm c" for c
    by (cases c) (simp add: storage_fill_def storage_conf_of_def)
  show ?thesis
    unfolding storage_body_def seqA_returns storage_path_never_given [OF assms] override_typed(1) [OF t(1)]
      override_host_conf [OF t(2)] override_host_conf [OF t(3)] override_typed(2) [OF t(4)]
      override_typed(2) [OF t(5)] override_typed(1) [OF t(6)] set_conf_run storage_checks_run bnd_returns gets_run storage_file_runs
      try_resolve_returns make_storage_path_returns Let_def
    using keep by (auto simp: path storage_updates merge)
qed

lemma storage_returns:
  "storage_parse_options L argv w = (Inr (), w') \<longleftrightarrow>
   (\<exists>vm c. parse_cli L storage_desc argv = Inr vm \<and> \<not> vm_count vm ''help'' \<and> \<not> vm_count vm ''version''
      \<and> storage_file L (given_or (string_of vm ''config'') ''../config/storage.conf'') = Inr c
      \<and> (let conf = storage_conf_of vm c in
          resolves L (sc_hostname conf) \<and> resolves L (sc_master_hostname conf)
          \<and> (opl_exists L (sc_storage_path conf) \<or> opl_mkdirs L (sc_storage_path conf))
          \<and> w' = w\<lparr>ops_conf := conf, ops_dirs := ops_dirs w @ (if opl_exists L (sc_storage_path conf) then [] else [sc_storage_path conf])\<rparr>))"
  unfolding storage_parser.returns_iff using storage_body_runs by blast

lemma storage_concurrency_set:
  "storage_parse_options L argv w = (Inr (), w') \<Longrightarrow> sc_concurrency (ops_conf w') \<noteq> 0"
  by (auto simp: storage_returns Let_def storage_conf_of_def)

text \<open>
  C36: A storage server that has read its options can run with them: its names are not empty and
  resolve, no port, level of concurrency or timeout is zero, and the directory of its parts
  is there or has just been made. That directory is the one of the configuration file
  whatever the arguments: the option \<^verbatim>\<open>storage_path\<close> the parser asks for is not declared.
\<close>

theorem storage_options_valid:
  assumes "storage_parse_options L argv w = (Inr (), w')"
  shows "sc_port (ops_conf w') \<noteq> 0 \<and> sc_master_port (ops_conf w') \<noteq> 0
    \<and> sc_concurrency (ops_conf w') \<noteq> 0 \<and> sc_timeout (ops_conf w') \<noteq> 0
    \<and> sc_hostname (ops_conf w') \<noteq> [] \<and> resolves L (sc_hostname (ops_conf w'))
    \<and> sc_master_hostname (ops_conf w') \<noteq> [] \<and> resolves L (sc_master_hostname (ops_conf w'))
    \<and> (opl_exists L (sc_storage_path (ops_conf w')) \<or> last (ops_dirs w') = sc_storage_path (ops_conf w'))
    \<and> (\<exists>c. storage_file L (sc_config_path (ops_conf w')) = Inr c \<and> sc_storage_path (ops_conf w') = sc_storage_path c)"
proof -
  obtain vm c where c: "storage_file L (given_or (string_of vm ''config'') ''../config/storage.conf'') = Inr c"
    and conf: "ops_conf w' = storage_conf_of vm c"
    and "resolves L (sc_hostname (storage_conf_of vm c))" "resolves L (sc_master_hostname (storage_conf_of vm c))"
    and "opl_exists L (sc_storage_path (storage_conf_of vm c)) \<or> last (ops_dirs w') = sc_storage_path (storage_conf_of vm c)"
    using assms unfolding storage_returns Let_def by fastforce
  moreover have "sc_config_path c = given_or (string_of vm ''config'') ''../config/storage.conf''"
    using c by (auto simp: storage_file_def rbind_Inr_iff Let_def)
  ultimately show ?thesis
    unfolding conf by (simp add: storage_conf_of_def)
qed

section \<open>A configuration file\<close>

definition storage_config_tree :: "storage_Conf \<Rightarrow> ptree" where
  "storage_config_tree c = PTree []
     [(''concurrency'', word_tree (sc_concurrency c)), (''hostname'', PTree (sc_hostname c) []),
      (''port'', word_tree (sc_port c)), (''timeout'', word_tree (sc_timeout c)),
      (''master'', PTree [] [(''hostname'', PTree (sc_master_hostname c) []), (''port'', word_tree (sc_master_port c))]),
      (''storage_path'', PTree (sc_storage_path c) []), (''id_path'', PTree (sc_id_path c) [])]"

lemma storage_file_read:
  assumes "boost_ok (opl_boost L)" "paths_ok (opl_boost L)"
    and "opl_read_file L (sc_config_path c) = Some s" "json_text s (storage_config_tree c)"
  shows "storage_file L (sc_config_path c) = Inr c"
proof -
  have "pt_get_string (opl_boost L) (storage_config_tree c) ''master.hostname'' = Inr (sc_master_hostname c)"
    "pt_get_word (opl_boost L) (storage_config_tree c) ''master.port'' = Inr (sc_master_port c)"
    using pt_get_string_path [OF assms(1,2), of "''master''" "''hostname''"]
      pt_get_word_path [OF assms(1,2), of "''master''" "''port''", where 'a = 16]
    by (simp_all add: storage_config_tree_def)
  moreover have "pt_get_word (opl_boost L) (storage_config_tree c) ''concurrency'' = Inr (sc_concurrency c)"
    "pt_get_string (opl_boost L) (storage_config_tree c) ''hostname'' = Inr (sc_hostname c)"
    "pt_get_word (opl_boost L) (storage_config_tree c) ''port'' = Inr (sc_port c)"
    "pt_get_word (opl_boost L) (storage_config_tree c) ''timeout'' = Inr (sc_timeout c)"
    "pt_get_string (opl_boost L) (storage_config_tree c) ''storage_path'' = Inr (sc_storage_path c)"
    "pt_get_string (opl_boost L) (storage_config_tree c) ''id_path'' = Inr (sc_id_path c)"
    using assms(1) by (simp_all add: storage_config_tree_def pt_simps)
  moreover have "read_config L (sc_config_path c) = Inr (storage_config_tree c)"
    by (simp add: read_config_def assms(3) boost_read [OF assms(1,4)])
  ultimately show ?thesis by (simp add: storage_file_def)
qed

text \<open>The file a configuration would be written as.\<close>

definition storage_config_text :: "storage_Conf \<Rightarrow> string" where
  "storage_config_text c = json_object
     [(''concurrency'', [], string_from (sc_concurrency c)), (''hostname'', [], quoted (sc_hostname c)),
      (''port'', [], string_from (sc_port c)), (''timeout'', [], string_from (sc_timeout c)),
      (''master'', [], json_object [(''hostname'', [], quoted (sc_master_hostname c)), (''port'', [], string_from (sc_master_port c))]),
      (''storage_path'', [], quoted (sc_storage_path c)), (''id_path'', [], quoted (sc_id_path c))]"

lemma storage_config_json:
  assumes "plain (sc_hostname c)" "plain (sc_master_hostname c)" "plain (sc_storage_path c)" "plain (sc_id_path c)"
  shows "json_text (storage_config_text c) (storage_config_tree c)"
  unfolding storage_config_text_def storage_config_tree_def
  using assms by (intro json_object) (simp_all add: plain_char_def member_okI json_intros json_object)

definition example_storage_conf :: storage_Conf where
  "example_storage_conf = \<lparr>sc_config_path = ''s.conf'', sc_hostname = ''localhost'', sc_port = 3728, sc_concurrency = 4,
     sc_timeout = 300, sc_master_hostname = ''localhost'', sc_master_port = 0, sc_storage_path = ''stock_dir'', sc_id_path = ''storage.id''\<rparr>"

lemma storage_options_valid_witness:
  "\<exists>w'. storage_parse_options (sample_options ''s.conf'' (storage_config_text example_storage_conf)) [''config'', ''s.conf'', ''id_path'', ''me'']
      \<lparr>ops_conf = example_storage_conf, ops_out = [], ops_err = [], ops_dirs = []\<rparr> = (Inr (), w')
    \<and> sc_master_port (ops_conf w') \<noteq> 0 \<and> last (ops_dirs w') = sc_storage_path (ops_conf w')"
proof -
  let ?L = "sample_options ''s.conf'' (storage_config_text example_storage_conf)"
  let ?argv = "[''config'', ''s.conf'', ''id_path'', ''me'']"
  let ?w = "\<lparr>ops_conf = example_storage_conf, ops_out = [], ops_err = [], ops_dirs = []\<rparr>"
  have plain: "plain (sc_hostname example_storage_conf)" "plain (sc_master_hostname example_storage_conf)"
    "plain (sc_storage_path example_storage_conf)" "plain (sc_id_path example_storage_conf)"
    by (simp_all add: example_storage_conf_def plain_char_def)
  have f: "storage_file ?L ''s.conf'' = Inr example_storage_conf"
    using storage_file_read [of ?L example_storage_conf, OF _ _ _ storage_config_json [OF plain]] path_boost_ok
    by (simp add: sample_options_def example_storage_conf_def)
  let ?vm = "[''config'' \<mapsto> V_string ''s.conf'', ''id_path'' \<mapsto> V_string ''me'']"
  have vm: "parse_cli ?L storage_desc ?argv = Inr ?vm"
    by (simp add: parse_cli_def sample_options_def storage_desc_def long_name_def store_option_def validate_def fun_eq_iff)
  have r: "resolves ?L h" for h
    by (simp add: resolves_def sample_options_def get_ipv6_def one_ip_from_host_def endpoint_from_host_def sample_net_def)
  have "\<exists>w'. storage_parse_options ?L ?argv ?w = (Inr (), w')"
    unfolding storage_returns Let_def
    by (intro exI [of _ ?vm] exI [of _ example_storage_conf] exI) (simp add: vm r f vm_count_def string_of_def given_or_def, simp add: sample_options_def)
  then obtain w' where w': "storage_parse_options ?L ?argv ?w = (Inr (), w')" by blast
  have "\<not> opl_exists ?L p" for p by (simp add: sample_options_def)
  with storage_options_valid [OF w'] w' show ?thesis by blast
qed

end
