(* ===== verification/Options_Client.thy ===== *)
theory Options_Client
  imports Options_Master Options_Storage
begin

text \<open>
  The options of the client (\<^verbatim>\<open>client/option_parser.cc\<close>), and the exit codes of all three
  parsers.
\<close>

section \<open>The parser\<close>

definition client_desc :: "option_decl list" where
  "client_desc =
     [\<lparr>decl_names = ''help,h'', decl_type = T_flag, decl_help = ''display this help and exit''\<rparr>,
      \<lparr>decl_names = ''version,v'', decl_type = T_flag, decl_help = ''displays version of the client''\<rparr>,
      \<lparr>decl_names = ''config,c'', decl_type = T_string, decl_help = ''path to the configuration file''\<rparr>,
      \<lparr>decl_names = ''concurrency,y'', decl_type = T_unsigned, decl_help = ''concurrency level when uploading''\<rparr>,
      \<lparr>decl_names = ''master,m'', decl_type = T_host_port, decl_help = ''the hostname and port of the master''\<rparr>,
      \<lparr>decl_names = ''upload,u'', decl_type = T_string, decl_help = ''upload the input file''\<rparr>,
      \<lparr>decl_names = ''download,d'', decl_type = T_string, decl_help = ''download the input file''\<rparr>,
      \<lparr>decl_names = ''redundancy,r'', decl_type = T_char, decl_help = ''redundancy level when uploading''\<rparr>]"

definition client_parse_options_file :: "opt_lib \<Rightarrow> string \<Rightarrow> (client_Conf opt_state, unit) act" where
  "client_parse_options_file L config_path =
     bnd (lift_res (read_config L config_path)) (\<lambda>pt.
       (let B = opl_boost L in
        seqA
         [assign (pt_get_word B pt ''concurrency'') (\<lambda>x c. c\<lparr>cc_concurrency := x\<rparr>),
          assign (pt_get_string B pt ''master.hostname'') (\<lambda>x c. c\<lparr>cc_master_hostname := x\<rparr>),
          assign (pt_get_word B pt ''master.port'') (\<lambda>x c. c\<lparr>cc_master_port := x\<rparr>)]))"

definition client_defaults :: "opt_lib \<Rightarrow> client_Conf \<Rightarrow> client_Conf" where
  "client_defaults L c = c\<lparr>
     cc_config_path := ''../config/client.conf'',
     cc_concurrency := opl_threads L,
     cc_action := Act_none,
     cc_file_path := [],
     cc_redundancy := 0,
     cc_master_hostname := ''localhost'',
     cc_master_port := 3727\<rparr>"

text \<open>
  The messages go through the \<^verbatim>\<open>string_from\<close> of \<^verbatim>\<open>misc.cc\<close>, which prints a \<^verbatim>\<open>uint8_t\<close> as a
  number.
\<close>

definition choose_action :: "variables_map \<Rightarrow> (client_Conf opt_state, unit) act" where
  "choose_action vm =
     (if vm_count vm ''upload'' then
        (if \<not> vm_count vm ''redundancy'' then raise (Throw (Runtime_error ''Please provide a redundancy with -r.''))
         else seqA
          [set_conf (\<lambda>c. c\<lparr>cc_action := Act_upload\<rparr>),
           bnd (lift_res (as_string vm ''upload'')) (\<lambda>path.
           bnd (lift_res (as_char vm ''redundancy'')) (\<lambda>redundancy.
             print_cout (''Trying to upload file: '' @ path @ '' (redundancy='' @ string_from_uint8 redundancy @ '').''))),
           assign (as_string vm ''upload'') (\<lambda>x c. c\<lparr>cc_file_path := x\<rparr>),
           assign (as_char vm ''redundancy'') (\<lambda>x c. c\<lparr>cc_redundancy := x\<rparr>)])
      else if vm_count vm ''download'' then
        seqA
          [set_conf (\<lambda>c. c\<lparr>cc_action := Act_download\<rparr>),
           bnd (lift_res (as_string vm ''download'')) (\<lambda>path. print_cout (''Trying to download file: '' @ path @ ''.'')),
           assign (as_string vm ''download'') (\<lambda>x c. c\<lparr>cc_file_path := x\<rparr>)]
      else ret ())"

definition client_checks :: "opt_lib \<Rightarrow> (client_Conf opt_state, unit) act" where
  "client_checks L = seqA
     [set_conf (\<lambda>c. if cc_master_hostname c = [] then c\<lparr>cc_master_hostname := ''localhost''\<rparr> else c),
      set_conf (\<lambda>c. if cc_master_port c = 0 then c\<lparr>cc_master_port := 3727\<rparr> else c),
      set_conf (\<lambda>c. if cc_concurrency c = 0 then c\<lparr>cc_concurrency := 4\<rparr> else c),
      bnd (gets ops_conf) (\<lambda>c.
        if cc_action c = Act_upload then
          (if cc_redundancy c = 0 then raise (Throw (Logic_error ''Redundancy must be 1 or more.'')) else ret ())
        else ret ()),
      bnd (gets ops_conf) (\<lambda>c.
        if cc_action c = Act_upload then
          (if \<not> opl_exists L (cc_file_path c) then raise (Throw (Logic_error (''File does not exists '' @ cc_file_path c))) else ret ())
        else ret ())]"

definition client_body :: "opt_lib \<Rightarrow> variables_map \<Rightarrow> (client_Conf opt_state, unit) act" where
  "client_body L vm =
     (if \<not> vm_count vm ''upload'' \<and> \<not> vm_count vm ''download'' then raise (Throw (Int_thrown 0))
      else
       seqA
        [set_conf (client_defaults L),
         override vm ''config'' as_string (\<lambda>x c. c\<lparr>cc_config_path := x\<rparr>),
         bnd (gets (\<lambda>w. cc_config_path (ops_conf w))) (client_parse_options_file L),
         override_host vm ''master'' (\<lambda>x c. c\<lparr>cc_master_hostname := x\<rparr>) (\<lambda>x c. c\<lparr>cc_master_port := x\<rparr>),
         choose_action vm,
         client_checks L,
         bnd (gets (\<lambda>w. cc_master_hostname (ops_conf w))) (try_resolve L)])"

definition client_parse_options :: "opt_lib \<Rightarrow> string list \<Rightarrow> (client_Conf opt_state, unit) act" where
  "client_parse_options L argv =
     catch_options L
       (bnd (lift_res (parse_cli L client_desc argv)) (\<lambda>vm.
          help_version L client_desc ''Client'' vm (client_body L vm)))"

section \<open>What it promises\<close>

lemma fair_choose_action: "fair True (choose_action vm)"
  by (auto simp: choose_action_def intro!: fair_intros)

lemma fair_client_checks: "fair True (client_checks L)"
  by (auto simp: client_checks_def intro!: fair_intros)

lemma fair_client_body: "fair True (client_body L vm)"
  by (auto simp: client_body_def client_parse_options_file_def Let_def
      intro!: fair_intros fair_choose_action fair_client_checks)

interpretation client_parser: option_parser client_parse_options client_desc "''Client''" client_body True
  by unfold_locales (rule client_parse_options_def, rule fair_client_body)

text \<open>The contents of the file, all of which it has to give.\<close>

definition client_file :: "opt_lib \<Rightarrow> string \<Rightarrow> (32 word \<times> string \<times> port_type) res" where
  "client_file L path =
     rbind (read_config L path) (\<lambda>pt. (let B = opl_boost L in
     rbind (pt_get_word B pt ''concurrency'') (\<lambda>y.
     rbind (pt_get_string B pt ''master.hostname'') (\<lambda>mh.
     rbind (pt_get_word B pt ''master.port'') (\<lambda>mp.
       Inr (y, mh, mp))))))"

lemma client_file_runs:
  "client_parse_options_file L path w = (Inr (), w') \<longleftrightarrow>
   (\<exists>y mh mp. client_file L path = Inr (y, mh, mp)
      \<and> w' = w\<lparr>ops_conf := (ops_conf w)\<lparr>cc_concurrency := y, cc_master_hostname := mh, cc_master_port := mp\<rparr>\<rparr>)"
  unfolding client_parse_options_file_def bnd_returns lift_res_run Let_def seqA_returns assign_returns
    client_file_def rbind_Inr_iff
  by (cases "ops_conf w") auto

text \<open>What the two options ask for: an action, a file, a redundancy and a message.\<close>

definition chosen :: "variables_map \<Rightarrow> (Conf.action \<times> string \<times> rdcy_type \<times> string) option" where
  "chosen vm =
     (case (string_of vm ''upload'', char_of_opt vm ''redundancy'', string_of vm ''download'') of
        (Some path, Some r, _) \<Rightarrow>
          Some (Act_upload, path, r, ''Trying to upload file: '' @ path @ '' (redundancy='' @ string_from_uint8 r @ '').'')
      | (Some path, None, _) \<Rightarrow> None
      | (None, _, Some path) \<Rightarrow> Some (Act_download, path, 0, ''Trying to download file: '' @ path @ ''.'')
      | _ \<Rightarrow> None)"

definition client_conf_of :: "variables_map \<Rightarrow> string \<Rightarrow> 32 word \<Rightarrow> string \<Rightarrow> port_type \<Rightarrow> Conf.action \<Rightarrow> string \<Rightarrow> rdcy_type \<Rightarrow> client_Conf" where
  "client_conf_of vm config y mh mp act path r =
     \<lparr>cc_config_path = config, cc_concurrency = nonzero_or y 4,
      cc_master_hostname = nonempty_or (given_or (map_option fst (host_port_of vm ''master'')) mh) ''localhost'',
      cc_master_port = nonzero_or (nonzero_or (given_or (map_option snd (host_port_of vm ''master'')) 0) mp) 3727,
      cc_action = act, cc_file_path = path, cc_redundancy = r\<rparr>"

lemma client_typed:
  assumes "parse_cli L client_desc argv = Inr vm"
  shows "typed_as vm ''config'' T_string" "typed_as vm ''master'' T_host_port" "typed_as vm ''upload'' T_string"
    "typed_as vm ''download'' T_string" "typed_as vm ''redundancy'' T_char"
  by (rule parsed_typed [OF assms]; simp add: client_desc_def long_name_def)+

lemma typed_as_cases:
  "typed_as vm k T_string \<Longrightarrow> as_string vm k = (case string_of vm k of None \<Rightarrow> Inl (Throw Bad_any_cast) | Some s \<Rightarrow> Inr s)"
  "typed_as vm k T_string \<Longrightarrow> vm_count vm k \<longleftrightarrow> string_of vm k \<noteq> None"
  "typed_as vm k T_char \<Longrightarrow> as_char vm k = (case char_of_opt vm k of None \<Rightarrow> Inl (Throw Bad_any_cast) | Some s \<Rightarrow> Inr s)"
  "typed_as vm k T_char \<Longrightarrow> vm_count vm k \<longleftrightarrow> char_of_opt vm k \<noteq> None"
  by (cases "vm k"; auto simp: typed_as_def as_defs of_defs vm_count_def split: opt_value.splits)+

lemma choose_action_returns:
  assumes "parse_cli L client_desc argv = Inr vm" "vm_count vm ''upload'' \<or> vm_count vm ''download''"
    and "cc_redundancy (ops_conf w) = 0"
  shows "choose_action vm w = (Inr (), w') \<longleftrightarrow>
    (\<exists>act path r msg. chosen vm = Some (act, path, r, msg)
       \<and> w' = w\<lparr>ops_conf := (ops_conf w)\<lparr>cc_action := act, cc_file_path := path, cc_redundancy := r\<rparr>, ops_out := ops_out w @ [msg]\<rparr>)"
proof -
  note t = client_typed [OF assms(1)]
  note cs = typed_as_cases(1,2) [OF t(3)] typed_as_cases(1,2) [OF t(4)] typed_as_cases(3,4) [OF t(5)]
  have red: "(ops_conf w)\<lparr>cc_action := a, cc_file_path := p, cc_redundancy := 0\<rparr> = (ops_conf w)\<lparr>cc_action := a, cc_file_path := p\<rparr>" for a p
    using assms(3) by (cases "ops_conf w") simp
  show ?thesis
    using assms(2) unfolding choose_action_def chosen_def cs
    by (cases "string_of vm ''upload''"; cases "char_of_opt vm ''redundancy''"; cases "string_of vm ''download''")
      (auto simp: act_simps assign_def set_conf_run print_cout_def red)
qed

lemma client_checks_returns:
  "client_checks L w = (Inr (), w') \<longleftrightarrow>
   (cc_action (ops_conf w) = Act_upload \<longrightarrow> cc_redundancy (ops_conf w) \<noteq> 0 \<and> opl_exists L (cc_file_path (ops_conf w)))
   \<and> w' = w\<lparr>ops_conf := (ops_conf w)\<lparr>
       cc_master_hostname := nonempty_or (cc_master_hostname (ops_conf w)) ''localhost'',
       cc_master_port := nonzero_or (cc_master_port (ops_conf w)) 3727,
       cc_concurrency := nonzero_or (cc_concurrency (ops_conf w)) 4\<rparr>\<rparr>"
proof -
  have fills: "(if cc_master_hostname c = [] then c\<lparr>cc_master_hostname := h\<rparr> else c) = c\<lparr>cc_master_hostname := nonempty_or (cc_master_hostname c) h\<rparr>"
    "(if cc_master_port c = 0 then c\<lparr>cc_master_port := p\<rparr> else c) = c\<lparr>cc_master_port := nonzero_or (cc_master_port c) p\<rparr>"
    "(if cc_concurrency c = 0 then c\<lparr>cc_concurrency := n\<rparr> else c) = c\<lparr>cc_concurrency := nonzero_or (cc_concurrency c) n\<rparr>" for c h p n
    by (simp_all add: nonempty_or_def nonzero_or_def)
  show ?thesis
    unfolding client_checks_def fills seqA_returns set_conf_run bnd_returns gets_run
    by (auto simp: ret_run raise_run)
qed

lemma client_host_update:
  "(case hp of None \<Rightarrow> c
    | Some (host, port) \<Rightarrow> if port \<noteq> 0 then c\<lparr>cc_master_hostname := host, cc_master_port := port\<rparr> else c\<lparr>cc_master_hostname := host\<rparr>)
   = c\<lparr>cc_master_hostname := given_or (map_option fst hp) (cc_master_hostname c),
       cc_master_port := nonzero_or (given_or (map_option snd hp) 0) (cc_master_port c)\<rparr>"
  by (cases c) (auto simp: given_or_def nonzero_or_def split: option.splits)

definition client_settles :: "opt_lib \<Rightarrow> variables_map \<Rightarrow> client_Conf opt_state \<Rightarrow> client_Conf opt_state \<Rightarrow> bool" where
  "client_settles L vm w w' \<longleftrightarrow>
    (\<exists>y mh mp act path r msg.
       client_file L (given_or (string_of vm ''config'') ''../config/client.conf'') = Inr (y, mh, mp)
       \<and> chosen vm = Some (act, path, r, msg)
       \<and> (act = Act_upload \<longrightarrow> r \<noteq> 0 \<and> opl_exists L path)
       \<and> (let conf = client_conf_of vm (given_or (string_of vm ''config'') ''../config/client.conf'') y mh mp act path r in
          resolves L (cc_master_hostname conf) \<and> w' = w\<lparr>ops_conf := conf, ops_out := ops_out w @ [msg]\<rparr>))"

lemma client_body_runs:
  assumes "parse_cli L client_desc argv = Inr vm"
  shows "client_body L vm w = (Inr (), w') \<longleftrightarrow> client_settles L vm w w'"
proof (cases "vm_count vm ''upload'' \<or> vm_count vm ''download''")
  case False
  then have "chosen vm = None"
    using typed_as_cases(2) client_typed(3,4) [OF assms] by (simp add: chosen_def)
  with False show ?thesis by (simp add: client_body_def client_settles_def raise_run)
next
  case True
  note t = client_typed [OF assms]
  let ?path = "given_or (string_of vm ''config'') ''../config/client.conf''"
  define c1 where "c1 = (case string_of vm ''config'' of None \<Rightarrow> id | Some x \<Rightarrow> (\<lambda>c. c\<lparr>cc_config_path := x\<rparr>)) (client_defaults L (ops_conf w))"
  have c1: "cc_config_path c1 = ?path" "cc_redundancy c1 = 0"
    by (simp_all add: c1_def given_or_def client_defaults_def split: option.splits)
  have conf: "c1\<lparr>cc_action := act, cc_file_path := path, cc_redundancy := r,
      cc_master_hostname := nonempty_or (given_or (map_option fst (host_port_of vm ''master'')) mh) ''localhost'',
      cc_master_port := nonzero_or (nonzero_or (given_or (map_option snd (host_port_of vm ''master'')) 0) mp) 3727,
      cc_concurrency := nonzero_or y 4\<rparr> = client_conf_of vm ?path y mh mp act path r"
    "cc_master_hostname (client_conf_of vm ?path y mh mp act path r) =
      nonempty_or (given_or (map_option fst (host_port_of vm ''master'')) mh) ''localhost''" for y mh mp act path r
    using c1(1) by (cases c1; simp add: client_conf_of_def)+
  have given: "\<not> (\<not> vm_count vm ''upload'' \<and> \<not> vm_count vm ''download'')" using True by blast
  show ?thesis
    unfolding client_settles_def client_body_def if_not_P [OF given] seqA_returns override_typed(1) [OF t(1)] override_host_conf [OF t(2)]
      set_conf_run bnd_returns gets_run client_file_runs try_resolve_returns client_checks_returns client_host_update
    by (auto simp: c1 c1_def [symmetric] conf Let_def choose_action_returns [OF assms True])
qed

lemma client_returns:
  "client_parse_options L argv w = (Inr (), w') \<longleftrightarrow>
   (\<exists>vm. parse_cli L client_desc argv = Inr vm \<and> \<not> vm_count vm ''help'' \<and> \<not> vm_count vm ''version''
      \<and> client_settles L vm w w')"
  unfolding client_parser.returns_iff using client_body_runs by blast

lemma chosen_acts: "chosen vm = Some (act, path, r, msg) \<Longrightarrow> act \<noteq> Act_none"
  by (auto simp: chosen_def split: option.splits)

text \<open>
  C35: A client that has read its options has something to do and can try to do it: it uploads or
  downloads, an upload has a file that exists and a redundancy that is not zero, and the
  master's name resolves. Its level of concurrency is the one of the configuration file
  whatever the arguments: the option \<^verbatim>\<open>concurrency\<close> is declared and never read.
\<close>

theorem client_options_valid:
  assumes "client_parse_options L argv w = (Inr (), w')"
  shows "cc_action (ops_conf w') \<noteq> Act_none
    \<and> (cc_action (ops_conf w') = Act_upload \<longrightarrow>
         cc_redundancy (ops_conf w') \<noteq> 0 \<and> opl_exists L (cc_file_path (ops_conf w')))
    \<and> cc_master_port (ops_conf w') \<noteq> 0 \<and> cc_master_hostname (ops_conf w') \<noteq> []
    \<and> resolves L (cc_master_hostname (ops_conf w'))
    \<and> (\<exists>y mh mp. client_file L (cc_config_path (ops_conf w')) = Inr (y, mh, mp) \<and> cc_concurrency (ops_conf w') = nonzero_or y 4)"
  using assms unfolding client_returns client_settles_def Let_def
  by (auto simp: client_conf_of_def dest: chosen_acts)

text \<open>
  The redundancy is a character, so the zero that is typed is not the zero that is refused: it
  is 48, and the main program takes 48 away again.
\<close>

lemma upload_zero_redundancy:
  assumes "casts_ok L"
  shows "validate L T_char ''0'' = Inr (V_char 48) \<and> (48 :: rdcy_type) \<noteq> 0 \<and> (48 :: rdcy_type) - 48 = 0"
  using assms by (simp add: casts_ok_def validate_def)

text \<open>A redundancy of two digits is an error.\<close>

lemma upload_long_redundancy:
  assumes "casts_ok L"
  shows "validate L T_char (c # d # t) = Inl (Throw (Logic_error (opl_invalid L (c # d # t))))"
  using assms by (simp add: casts_ok_def validate_def Let_def)

definition client_config_text :: "32 word \<Rightarrow> string \<Rightarrow> port_type \<Rightarrow> string" where
  "client_config_text y mh mp = json_object
     [(''concurrency'', [], string_from y),
      (''master'', [], json_object [(''hostname'', [], quoted mh), (''port'', [], string_from mp)])]"

lemma client_file_read:
  assumes "boost_ok (opl_boost L)" "paths_ok (opl_boost L)"
    and "opl_read_file L path = Some (client_config_text y mh mp)" "plain mh"
  shows "client_file L path = Inr (y, mh, mp)"
proof -
  let ?t = "PTree [] [(''concurrency'', word_tree y),
      (''master'', PTree [] [(''hostname'', PTree mh []), (''port'', word_tree mp)])]"
  have "json_text (client_config_text y mh mp) ?t"
    unfolding client_config_text_def using assms(4)
    by (intro json_object) (simp_all add: plain_char_def member_okI json_intros json_object)
  then have "read_config L path = Inr ?t"
    by (simp add: read_config_def assms(3) boost_read [OF assms(1)])
  moreover have "pt_get_string (opl_boost L) ?t ''master.hostname'' = Inr mh"
    "pt_get_word (opl_boost L) ?t ''master.port'' = Inr mp"
    using pt_get_string_path [OF assms(1,2), of "''master''" "''hostname''"]
      pt_get_word_path [OF assms(1,2), of "''master''" "''port''", where 'a = 16]
    by simp_all
  moreover have "pt_get_word (opl_boost L) ?t ''concurrency'' = Inr y"
    using assms(1) by (simp add: pt_simps)
  ultimately show ?thesis by (simp add: client_file_def)
qed

lemma client_options_valid_witness:
  "\<exists>w'. client_parse_options (sample_options ''c.conf'' (client_config_text 0 ''localhost'' 3727))
       [''config'', ''c.conf'', ''download'', ''f'', ''concurrency'', ''8'']
       \<lparr>ops_conf = client_conf_of Map.empty [] 0 [] 0 Act_none [] 0, ops_out = [], ops_err = [], ops_dirs = []\<rparr> = (Inr (), w')
     \<and> cc_action (ops_conf w') \<noteq> Act_none \<and> (\<exists>y. cc_concurrency (ops_conf w') = nonzero_or y 4)"
proof -
  let ?L = "sample_options ''c.conf'' (client_config_text 0 ''localhost'' 3727)"
  let ?argv = "[''config'', ''c.conf'', ''download'', ''f'', ''concurrency'', ''8'']"
  let ?w = "\<lparr>ops_conf = client_conf_of Map.empty [] 0 [] 0 Act_none [] 0, ops_out = [], ops_err = [], ops_dirs = []\<rparr>"
  have f: "client_file ?L ''c.conf'' = Inr (0, ''localhost'', 3727)"
    by (rule client_file_read) (simp_all add: sample_options_def path_boost_ok plain_char_def)
  let ?vm = "[''config'' \<mapsto> V_string ''c.conf'', ''download'' \<mapsto> V_string ''f'', ''concurrency'' \<mapsto> V_unsigned 8]"
  have "cast_unsigned path_boost 32 ''8'' = Some 8"
    by (simp add: path_boost_def sample_boost_def read_number_text_def is_digit_def num_value_def digit_val_def)
  then have vm: "parse_cli ?L client_desc ?argv = Inr ?vm"
    by (simp add: parse_cli_def sample_options_def client_desc_def long_name_def store_option_def validate_def fun_eq_iff)
  have r: "resolves ?L h" for h
    by (simp add: resolves_def sample_options_def get_ipv6_def one_ip_from_host_def endpoint_from_host_def sample_net_def)
  have ch: "chosen ?vm = Some (Act_download, ''f'', 0, ''Trying to download file: '' @ ''f'' @ ''.'')"
    by (simp add: chosen_def of_defs)
  have path: "given_or (string_of ?vm ''config'') ''../config/client.conf'' = ''c.conf''"
    by (simp add: given_or_def string_of_def)
  have "\<exists>w'. client_settles ?L ?vm ?w w'"
    unfolding client_settles_def Let_def path f ch by (simp add: r)
  then have "\<exists>w'. client_parse_options ?L ?argv ?w = (Inr (), w')"
    unfolding client_returns using vm by (fastforce simp: vm_count_def)
  then obtain w' where w': "client_parse_options ?L ?argv ?w = (Inr (), w')" by blast
  from client_options_valid [OF w'] w' show ?thesis by blast
qed

section \<open>Exit codes\<close>

definition only_exits :: "('c opt_state, unit) act \<Rightarrow> bool" where
  "only_exits m \<longleftrightarrow> (\<forall>w f w'. m w = (Inl f, w') \<longrightarrow>
     f = Throw (Int_thrown 0)
     \<or> f = Throw (Int_thrown 1) \<and> (\<exists>e. ops_err w' \<noteq> [] \<and> last (ops_err w') = e @ '' Try --help.''))"

text \<open>
  Whatever the arguments, the configuration file, the resolver and the file system do, a
  parser of options returns or throws an exit code: 0, or 1 after a line on the error stream
  that points to the help. No other exception leaves it, so each main program ends with
  that code.
\<close>

lemma option_failures_are_exit_codes:
  "only_exits (master_parse_options L argv) \<and> only_exits (storage_parse_options L argv) \<and> only_exits (client_parse_options L argv)"
  unfolding only_exits_def
  using master_parser.exit_code storage_parser.exit_code client_parser.exit_code by blast

end
