(* ===== verification/Items.thy ===== *)
theory Items
  imports Utils Net_Misc
begin

text \<open>
  The documents the master keeps in its database (\<^verbatim>\<open>master/database.hh\<close>, \<^verbatim>\<open>database.hxx\<close>,
  \<^verbatim>\<open>database_items.hxx\<close>): one record per item class, its constructor, accessors, serializer
  and deserializer. The locale \<open>json_item\<close> is what a client of an item relies on, that the
  document reads back as the item; it is interpreted for each of them.
\<close>

section \<open>Hashes\<close>

text \<open>
  The constructors copy \<^verbatim>\<open>hash.c_str()[j]\<close> for twenty indices; one past the end of the text
  is its terminating zero, further is undefined.
\<close>

definition hash_from_string :: "string \<Rightarrow> string res" where
  "hash_from_string hash =
     (if sha1_type_size \<le> length hash + 1 then Inr (take sha1_type_size (hash @ [CHR 0x00]))
      else Inl Undefined)"

definition blank_hash :: string where
  "blank_hash = replicate 20 (CHR '' '')"

definition hash_ok :: "string \<Rightarrow> bool" where
  "hash_ok h \<longleftrightarrow> length h = sha1_type_size \<and> plain h"

lemma hash_from_string_id: "hash_ok h \<Longrightarrow> hash_from_string h = Inr h"
  by (simp add: hash_ok_def hash_from_string_def)

lemma blank_hash_ok: "hash_ok blank_hash"
  by (simp add: hash_ok_def blank_hash_def sha1_type_size_def plain_def list_all_iff plain_char_def)

lemma hash_text: "hash_ok h \<Longrightarrow> string_from_bytes h sha1_type_size = Inr (quoted h)"
  by (simp add: hash_ok_def string_from_bytes_def quoted_def)

section \<open>The contract of an item\<close>

text \<open>
  \<open>ser\<close> writes an item, \<open>des\<close> reads one from the text of a document and \<open>destree\<close> from a
  tree; \<open>tree\<close> is the tree of an item that is \<open>ok\<close>.
\<close>

locale json_item =
  fixes ser :: "'a \<Rightarrow> string res"
    and des :: "boost \<Rightarrow> string \<Rightarrow> 'a res"
    and destree :: "boost \<Rightarrow> ptree \<Rightarrow> 'a res"
    and tree :: "'a \<Rightarrow> ptree"
    and ok :: "'a \<Rightarrow> bool"
  assumes written: "ok x \<Longrightarrow> \<exists>s. ser x = Inr s \<and> json_text s (tree x)"
    and read_tree: "boost_ok B \<Longrightarrow> ok x \<Longrightarrow> destree B (tree x) = Inr x"
    and des_def: "des B s = rbind (of_option Ptree_error (read_json B s)) (destree B)"
begin

lemma roundtrip: "boost_ok B \<Longrightarrow> ok x \<Longrightarrow> ser x = Inr s \<Longrightarrow> des B s = Inr x"
  using written [of x] boost_read [of B s "tree x"] by (auto simp: des_def read_tree)

lemma serializes: "ok x \<Longrightarrow> \<exists>s. ser x = Inr s"
  using written by blast

lemma ser_inj:
  assumes "ok x" "ok y" "ser x = ser y"
  shows "x = y"
proof -
  obtain s where s: "ser x = Inr s" using serializes [OF assms(1)] by blast
  then have "des sample_boost s = Inr x" by (rule roundtrip [OF sample_boost_ok assms(1)])
  moreover from s have "des sample_boost s = Inr y"
    by (intro roundtrip [OF sample_boost_ok assms(2)]) (simp add: assms(3) [symmetric])
  ultimately show ?thesis by simp
qed

text \<open>A list of items inside a JSON array.\<close>

lemma array:
  assumes "list_all ok xs"
  shows "\<exists>ss. mapM ser xs = Inr ss \<and> json_text (json_array ss) (PTree [] (map (\<lambda>x. ([], tree x)) xs))"
proof -
  have "\<exists>ss. mapM ser xs = Inr ss \<and> list_all2 json_text ss (map tree xs)"
    using assms
  proof (induction xs)
    case Nil
    then show ?case by simp
  next
    case (Cons x xs)
    then obtain ss s where "mapM ser xs = Inr ss" "list_all2 json_text ss (map tree xs)"
      "ser x = Inr s" "json_text s (tree x)"
      using written [of x] by auto
    then show ?case by (intro exI [of _ "s # ss"]) simp
  qed
  then obtain ss where "mapM ser xs = Inr ss" "list_all2 json_text ss (map tree xs)" by blast
  with json_array [of ss "map tree xs"] show ?thesis by (auto simp: comp_def)
qed

lemma read_array:
  "boost_ok B \<Longrightarrow> list_all ok xs \<Longrightarrow>
   mapM (\<lambda>c. destree B (snd c)) (map (\<lambda>x. ([], tree x)) xs) = Inr xs"
  by (induction xs) (simp_all add: read_tree)

end

section \<open>PartItem\<close>

record PartItem =
  pi_partid :: PARTID
  pi_hash :: string
  pi_locations :: "stid_type list"

definition PartItem_make :: "PARTID \<Rightarrow> string \<Rightarrow> stid_type list \<Rightarrow> PartItem res" where
  "PartItem_make partid hash locations =
     rbind (hash_from_string hash) (\<lambda>h.
       Inr \<lparr>pi_partid = \<lparr>partid_fid = partid_fid partid, partid_partnum = partid_partnum partid\<rparr>,
            pi_hash = h, pi_locations = locations\<rparr>)"

definition PartItem_fid_get :: "PartItem \<Rightarrow> fid_type" where
  "PartItem_fid_get i = partid_fid (pi_partid i)"

definition num_get :: "PartItem \<Rightarrow> partnum_type" where
  "num_get i = partid_partnum (pi_partid i)"

definition PartItem_hash_get :: "PartItem \<Rightarrow> string" where
  "PartItem_hash_get i = pi_hash i"

definition locations_get :: "PartItem \<Rightarrow> stid_type list" where
  "locations_get i = pi_locations i"

definition add_stid :: "stid_type \<Rightarrow> PartItem \<Rightarrow> PartItem" where
  "add_stid stid i = i\<lparr>pi_locations := pi_locations i @ [stid]\<rparr>"

definition PartItem_serialize :: "PartItem \<Rightarrow> string res" where
  "PartItem_serialize i =
     rbind (string_from_bytes (pi_hash i) sha1_type_size) (\<lambda>h.
       Inr (json_object
         [(''partid_fid'', [], string_from (partid_fid (pi_partid i))),
          (''partid_partnum'', [], string_from (partid_partnum (pi_partid i))),
          (''hash'', [], h),
          (''locations'', [], ''['' @ separate string_from (pi_locations i) '','' @ '']'')]))"

definition PartItem_deserialize_tree :: "boost \<Rightarrow> ptree \<Rightarrow> PartItem res" where
  "PartItem_deserialize_tree B pt =
     rbind (pt_get_word B pt ''partid_fid'') (\<lambda>fid.
     rbind (pt_get_word B pt ''partid_partnum'') (\<lambda>partnum.
     rbind (pt_get_string B pt ''hash'') (\<lambda>hash.
     rbind (of_option Ptree_error (get_child B pt ''locations'')) (\<lambda>locs_pt.
     rbind (mapM (\<lambda>c. lexical_word B (ptree_data (snd c))) (ptree_children locs_pt)) (\<lambda>locations.
       PartItem_make \<lparr>partid_fid = fid, partid_partnum = partnum\<rparr> hash locations)))))"

definition PartItem_deserialize :: "boost \<Rightarrow> string \<Rightarrow> PartItem res" where
  "PartItem_deserialize B json =
     rbind (of_option Ptree_error (read_json B json)) (PartItem_deserialize_tree B)"

definition PartItem_ok :: "PartItem \<Rightarrow> bool" where
  "PartItem_ok i \<longleftrightarrow> hash_ok (pi_hash i)"

definition locations_tree :: "stid_type list \<Rightarrow> ptree" where
  "locations_tree locs = PTree [] (map (\<lambda>l. ([], word_tree l)) locs)"

definition PartItem_tree :: "PartItem \<Rightarrow> ptree" where
  "PartItem_tree i = PTree []
     [(''partid_fid'', word_tree (partid_fid (pi_partid i))),
      (''partid_partnum'', word_tree (partid_partnum (pi_partid i))),
      (''hash'', PTree (pi_hash i) []),
      (''locations'', locations_tree (pi_locations i))]"

lemma json_locations [json_intros]:
  "json_text (CHR ''['' # separate string_from locs '','' @ '']'') (locations_tree locs)"
proof -
  have "list_all2 json_text (map string_from locs) (map word_tree locs)"
    by (induction locs) (simp_all add: json_intros)
  from json_array [OF this] show ?thesis
    by (simp add: json_array_def separate_comma locations_tree_def comp_def)
qed

lemma mapM_locations:
  "boost_ok B \<Longrightarrow> mapM (\<lambda>c. lexical_word B (ptree_data (snd c))) (map (\<lambda>l. ([], word_tree l)) locs) = Inr locs"
  by (induction locs) (simp_all add: pt_simps)

interpretation part_item: json_item PartItem_serialize PartItem_deserialize PartItem_deserialize_tree
  PartItem_tree PartItem_ok
proof
  fix x :: PartItem assume "PartItem_ok x"
  then show "\<exists>s. PartItem_serialize x = Inr s \<and> json_text s (PartItem_tree x)"
    by (auto simp: PartItem_serialize_def PartItem_tree_def PartItem_ok_def hash_text hash_ok_def plain_char_def
        intro!: json_object member_okI json_intros)
next
  fix B x assume "boost_ok B" "PartItem_ok x"
  then show "PartItem_deserialize_tree B (PartItem_tree x) = Inr x"
    by (simp add: PartItem_deserialize_tree_def PartItem_tree_def PartItem_ok_def PartItem_make_def
        hash_from_string_id pt_simps boost_child locations_tree_def mapM_locations)
next
  show "PartItem_deserialize B s = rbind (of_option Ptree_error (read_json B s)) (PartItem_deserialize_tree B)" for B s
    by (rule PartItem_deserialize_def)
qed

section \<open>FileItem\<close>

record FileItem =
  fi_id :: fid_type
  fi_name :: string
  fi_file_size :: fsize_type
  fi_redundancy :: rdcy_type
  fi_current_redundancy :: rdcy_type
  fi_hash :: string
  fi_uploaded :: bool
  fi_parts :: "PartItem list"

definition FileItem_make :: "fid_type \<Rightarrow> string \<Rightarrow> fsize_type \<Rightarrow> rdcy_type \<Rightarrow> rdcy_type \<Rightarrow> string \<Rightarrow> bool \<Rightarrow>
    PartItem list \<Rightarrow> FileItem res" where
  "FileItem_make i name fsize rdcy current_rdcy hash uploaded parts =
     rbind (hash_from_string hash) (\<lambda>h.
       Inr \<lparr>fi_id = i, fi_name = name, fi_file_size = fsize, fi_redundancy = rdcy,
            fi_current_redundancy = current_rdcy, fi_hash = h, fi_uploaded = uploaded, fi_parts = parts\<rparr>)"

definition file_size_get :: "FileItem \<Rightarrow> fsize_type" where "file_size_get i = fi_file_size i"
definition redundancy_get :: "FileItem \<Rightarrow> rdcy_type" where "redundancy_get i = fi_redundancy i"
definition current_redundancy_get :: "FileItem \<Rightarrow> rdcy_type" where "current_redundancy_get i = fi_current_redundancy i"
definition FileItem_id_get :: "FileItem \<Rightarrow> fid_type" where "FileItem_id_get i = fi_id i"
definition FileItem_id_set :: "fid_type \<Rightarrow> FileItem \<Rightarrow> FileItem" where "FileItem_id_set v i = i\<lparr>fi_id := v\<rparr>"
definition name_get :: "FileItem \<Rightarrow> string" where "name_get i = fi_name i"
definition name_set :: "string \<Rightarrow> FileItem \<Rightarrow> FileItem" where "name_set v i = i\<lparr>fi_name := v\<rparr>"
definition FileItem_hash_get :: "FileItem \<Rightarrow> string" where "FileItem_hash_get i = fi_hash i"
definition is_replicated :: "FileItem \<Rightarrow> bool" where "is_replicated i \<longleftrightarrow> fi_current_redundancy i = fi_redundancy i"
definition is_uploaded :: "FileItem \<Rightarrow> bool" where "is_uploaded i \<longleftrightarrow> fi_uploaded i"
definition parts_get :: "FileItem \<Rightarrow> PartItem list" where "parts_get i = fi_parts i"

text \<open>The parts: the first, and then each after a comma.\<close>

fun serialize_rest :: "('a \<Rightarrow> string res) \<Rightarrow> 'a list \<Rightarrow> string res" where
  "serialize_rest ser [] = Inr []"
| "serialize_rest ser (x # xs) =
     rbind (ser x) (\<lambda>s. rbind (serialize_rest ser xs) (\<lambda>r. Inr ('','' @ s @ r)))"

definition serialize_parts :: "PartItem list \<Rightarrow> string res" where
  "serialize_parts ps =
     (case ps of
        [] \<Rightarrow> Inr []
      | it # rest \<Rightarrow>
          rbind (PartItem_serialize it) (\<lambda>s.
          rbind (serialize_rest PartItem_serialize rest) (\<lambda>r. Inr (s @ r))))"

definition FileItem_serialize :: "FileItem \<Rightarrow> string res" where
  "FileItem_serialize i =
     rbind (string_from_bytes (fi_hash i) sha1_type_size) (\<lambda>h.
     rbind (serialize_parts (fi_parts i)) (\<lambda>ps.
       Inr (json_object
         [(''id'', [], string_from (fi_id i)),
          (''name'', '' '', string_from_string (fi_name i)),
          (''file_size'', [], string_from (fi_file_size i)),
          (''redundancy'', [], string_from_uint8 (fi_redundancy i)),
          (''current_redundancy'', [], string_from_uint8 (fi_current_redundancy i)),
          (''hash'', [], h),
          (''uploaded'', [], string_from_bool (fi_uploaded i)),
          (''parts'', [], ''['' @ ps @ '']'')])))"

definition FileItem_deserialize_tree :: "boost \<Rightarrow> ptree \<Rightarrow> FileItem res" where
  "FileItem_deserialize_tree B pt =
     rbind (pt_get_word B pt ''id'') (\<lambda>i.
     rbind (pt_get_string B pt ''name'') (\<lambda>name.
     rbind (pt_get_word B pt ''file_size'') (\<lambda>file_size.
     rbind (pt_get_word B pt ''redundancy'') (\<lambda>redundancy.
     rbind (pt_get_word B pt ''current_redundancy'') (\<lambda>current_redundancy.
     rbind (pt_get_string B pt ''hash'') (\<lambda>hash.
     rbind (pt_get_bool B pt ''uploaded'') (\<lambda>uploaded.
     rbind (of_option Ptree_error (get_child B pt ''parts'')) (\<lambda>locs_pt.
     rbind (mapM (\<lambda>v. PartItem_deserialize_tree B (snd v)) (ptree_children locs_pt)) (\<lambda>parts.
       FileItem_make i name file_size redundancy current_redundancy hash uploaded parts)))))))))"

definition FileItem_deserialize :: "boost \<Rightarrow> string \<Rightarrow> FileItem res" where
  "FileItem_deserialize B json =
     rbind (of_option Ptree_error (read_json B json)) (FileItem_deserialize_tree B)"

definition FileItem_ok :: "FileItem \<Rightarrow> bool" where
  "FileItem_ok i \<longleftrightarrow> plain (fi_name i) \<and> hash_ok (fi_hash i) \<and> list_all PartItem_ok (fi_parts i)"

definition FileItem_tree :: "FileItem \<Rightarrow> ptree" where
  "FileItem_tree i = PTree []
     [(''id'', word_tree (fi_id i)),
      (''name'', PTree (fi_name i) []),
      (''file_size'', word_tree (fi_file_size i)),
      (''redundancy'', word_tree (fi_redundancy i)),
      (''current_redundancy'', word_tree (fi_current_redundancy i)),
      (''hash'', PTree (fi_hash i) []),
      (''uploaded'', bool_tree (fi_uploaded i)),
      (''parts'', PTree [] (map (\<lambda>p. ([], PartItem_tree p)) (fi_parts i)))]"

lemma serialize_rest_comma:
  "serialize_rest ser xs = rbind (mapM ser xs) (\<lambda>ss. Inr (concat (map (\<lambda>s. '','' @ s) ss)))"
proof (induction xs)
  case (Cons x xs)
  then show ?case by (cases "ser x"; cases "mapM ser xs") simp_all
qed simp

lemma comma_separated_Cons: "comma_separated (s # ss) = s @ concat (map (\<lambda>s. '','' @ s) ss)"
  by (induction ss arbitrary: s) simp_all

lemma serialize_parts_comma:
  "mapM PartItem_serialize ps = Inr ss \<Longrightarrow> serialize_parts ps = Inr (comma_separated ss)"
  by (cases ps) (auto simp: serialize_parts_def serialize_rest_comma result_simps comma_separated_Cons)

interpretation file_item: json_item FileItem_serialize FileItem_deserialize FileItem_deserialize_tree
  FileItem_tree FileItem_ok
proof
  fix x :: FileItem assume ok: "FileItem_ok x"
  then obtain ss where "mapM PartItem_serialize (fi_parts x) = Inr ss"
    and arr: "json_text (json_array ss) (PTree [] (map (\<lambda>p. ([], PartItem_tree p)) (fi_parts x)))"
    using part_item.array [of "fi_parts x"] by (auto simp: FileItem_ok_def)
  then have parts: "serialize_parts (fi_parts x) = Inr (comma_separated ss)"
    by (intro serialize_parts_comma)
  from arr have arr': "json_text (CHR ''['' # comma_separated ss @ '']'')
      (PTree [] (map (\<lambda>p. ([], PartItem_tree p)) (fi_parts x)))"
    by (simp add: json_array_def)
  from ok show "\<exists>s. FileItem_serialize x = Inr s \<and> json_text s (FileItem_tree x)"
    by (auto simp: FileItem_serialize_def FileItem_tree_def FileItem_ok_def hash_text hash_ok_def plain_char_def parts
        intro!: json_object member_okI json_intros arr')
next
  fix B x assume "boost_ok B" "FileItem_ok x"
  then show "FileItem_deserialize_tree B (FileItem_tree x) = Inr x"
    by (simp add: FileItem_deserialize_tree_def FileItem_tree_def FileItem_ok_def FileItem_make_def
        hash_from_string_id pt_simps boost_child part_item.read_array)
next
  show "FileItem_deserialize B s = rbind (of_option Ptree_error (read_json B s)) (FileItem_deserialize_tree B)" for B s
    by (rule FileItem_deserialize_def)
qed

section \<open>MasterItem and StorageItem\<close>

record MasterItem =
  mi_id :: mtid_type
  mi_host_addr :: string

definition MasterItem_make :: "mtid_type \<Rightarrow> string \<Rightarrow> MasterItem" where
  "MasterItem_make i host_addr = \<lparr>mi_id = i, mi_host_addr = host_addr\<rparr>"

definition MasterItem_id_get :: "MasterItem \<Rightarrow> mtid_type" where "MasterItem_id_get i = mi_id i"
definition MasterItem_host_addr_get :: "MasterItem \<Rightarrow> string" where "MasterItem_host_addr_get i = mi_host_addr i"

definition MasterItem_serialize :: "MasterItem \<Rightarrow> string" where
  "MasterItem_serialize i = json_object
     [(''id'', [], string_from (mi_id i)), (''host_addr'', [], string_from_string (mi_host_addr i))]"

definition MasterItem_deserialize_tree :: "boost \<Rightarrow> ptree \<Rightarrow> MasterItem res" where
  "MasterItem_deserialize_tree B pt =
     rbind (pt_get_word B pt ''id'') (\<lambda>i.
     rbind (pt_get_string B pt ''host_addr'') (\<lambda>host_addr.
       Inr (MasterItem_make i host_addr)))"

definition MasterItem_deserialize :: "boost \<Rightarrow> string \<Rightarrow> MasterItem res" where
  "MasterItem_deserialize B json =
     rbind (of_option Ptree_error (read_json B json)) (MasterItem_deserialize_tree B)"

definition MasterItem_tree :: "MasterItem \<Rightarrow> ptree" where
  "MasterItem_tree i = PTree [] [(''id'', word_tree (mi_id i)), (''host_addr'', PTree (mi_host_addr i) [])]"

interpretation master_item: json_item "\<lambda>i. Inr (MasterItem_serialize i)" MasterItem_deserialize
  MasterItem_deserialize_tree MasterItem_tree "\<lambda>i. plain (mi_host_addr i)"
  by unfold_locales
    (auto simp: MasterItem_serialize_def MasterItem_tree_def MasterItem_deserialize_tree_def MasterItem_make_def
      MasterItem_deserialize_def plain_char_def pt_simps intro!: json_object member_okI json_intros)

record StorageItem =
  si_id :: stid_type
  si_host_addr :: string
  si_port :: port_type
  si_available_space :: avspace_type

definition StorageItem_make :: "stid_type \<Rightarrow> string \<Rightarrow> port_type \<Rightarrow> avspace_type \<Rightarrow> StorageItem" where
  "StorageItem_make i host_addr port available_space =
     \<lparr>si_id = i, si_host_addr = host_addr, si_port = port, si_available_space = available_space\<rparr>"

definition StorageItem_id_get :: "StorageItem \<Rightarrow> stid_type" where "StorageItem_id_get i = si_id i"
definition host_addr_get :: "StorageItem \<Rightarrow> string" where "host_addr_get i = si_host_addr i"
definition port_get :: "StorageItem \<Rightarrow> port_type" where "port_get i = si_port i"
definition addr_get :: "net_lib \<Rightarrow> StorageItem \<Rightarrow> ADDR res" where
  "addr_get N i = get_addr N (si_host_addr i) (si_port i)"
definition available_space_get :: "StorageItem \<Rightarrow> avspace_type" where "available_space_get i = si_available_space i"

definition StorageItem_serialize :: "StorageItem \<Rightarrow> string" where
  "StorageItem_serialize i = json_object
     [(''id'', [], string_from (si_id i)),
      (''host_addr'', [], string_from_string (si_host_addr i)),
      (''port'', [], string_from (si_port i)),
      (''available_space'', [], string_from (si_available_space i))]"

definition StorageItem_deserialize_tree :: "boost \<Rightarrow> ptree \<Rightarrow> StorageItem res" where
  "StorageItem_deserialize_tree B pt =
     rbind (pt_get_word B pt ''id'') (\<lambda>i.
     rbind (pt_get_string B pt ''host_addr'') (\<lambda>host_addr.
     rbind (pt_get_word B pt ''port'') (\<lambda>port.
     rbind (pt_get_word B pt ''available_space'') (\<lambda>available_space.
       Inr (StorageItem_make i host_addr port available_space)))))"

definition StorageItem_deserialize :: "boost \<Rightarrow> string \<Rightarrow> StorageItem res" where
  "StorageItem_deserialize B json =
     rbind (of_option Ptree_error (read_json B json)) (StorageItem_deserialize_tree B)"

definition StorageItem_tree :: "StorageItem \<Rightarrow> ptree" where
  "StorageItem_tree i = PTree []
     [(''id'', word_tree (si_id i)), (''host_addr'', PTree (si_host_addr i) []),
      (''port'', word_tree (si_port i)), (''available_space'', word_tree (si_available_space i))]"

interpretation storage_item: json_item "\<lambda>i. Inr (StorageItem_serialize i)" StorageItem_deserialize
  StorageItem_deserialize_tree StorageItem_tree "\<lambda>i. plain (si_host_addr i)"
  by unfold_locales
    (auto simp: StorageItem_serialize_def StorageItem_tree_def StorageItem_deserialize_tree_def StorageItem_make_def
      StorageItem_deserialize_def plain_char_def pt_simps intro!: json_object member_okI json_intros)

section \<open>MetaOnFilesItem and MetaOnStoragesItem\<close>

text \<open>
  \<^verbatim>\<open>name_by_id_\<close> is a hash table; it is the list of its entries in iteration order, which
  is the order of insertion here. No statement below depends on the order.
\<close>

record MetaOnFilesItem =
  mof_count :: "64 word"
  mof_total_size :: "128 word"
  mof_name_by_id :: "(fid_type \<times> string) list"

definition MetaOnFilesItem_make :: "64 word \<Rightarrow> 128 word \<Rightarrow> (fid_type \<times> string) list \<Rightarrow> MetaOnFilesItem" where
  "MetaOnFilesItem_make cnt total_size name_by_id =
     \<lparr>mof_count = cnt, mof_total_size = total_size, mof_name_by_id = name_by_id\<rparr>"

definition MetaOnFilesItem_count_get :: "MetaOnFilesItem \<Rightarrow> 64 word" where "MetaOnFilesItem_count_get m = mof_count m"
definition MetaOnFilesItem_count_set :: "64 word \<Rightarrow> MetaOnFilesItem \<Rightarrow> MetaOnFilesItem" where
  "MetaOnFilesItem_count_set v m = m\<lparr>mof_count := v\<rparr>"
definition total_size_get :: "MetaOnFilesItem \<Rightarrow> 128 word" where "total_size_get m = mof_total_size m"
definition total_size_set :: "128 word \<Rightarrow> MetaOnFilesItem \<Rightarrow> MetaOnFilesItem" where
  "total_size_set v m = m\<lparr>mof_total_size := v\<rparr>"
definition name_by_id_get :: "MetaOnFilesItem \<Rightarrow> (fid_type \<times> string) list" where "name_by_id_get m = mof_name_by_id m"

text \<open>\<^verbatim>\<open>unordered_map::emplace\<close> leaves an entry that is there, \<^verbatim>\<open>at\<close> throws when there is none.\<close>

definition emplace :: "fid_type \<Rightarrow> string \<Rightarrow> (fid_type \<times> string) list \<Rightarrow> (fid_type \<times> string) list" where
  "emplace k v m = (if map_of m k = None then m @ [(k, v)] else m)"

definition file_name_by_id :: "MetaOnFilesItem \<Rightarrow> fid_type \<Rightarrow> string res" where
  "file_name_by_id m i = of_option Out_of_range (map_of (mof_name_by_id m) i)"

definition name_entry :: "fid_type \<times> string \<Rightarrow> string" where
  "name_entry e = json_object [(''id'', [], string_from (fst e)), (''name'', [], string_from_string (snd e))]"

text \<open>
  The iterator is incremented after the first entry whether or not there is one: past the
  end of an empty table that is undefined.
\<close>

definition MetaOnFilesItem_serialize :: "MetaOnFilesItem \<Rightarrow> string res" where
  "MetaOnFilesItem_serialize m =
     (case mof_name_by_id m of
        [] \<Rightarrow> Inl Undefined
      | it # rest \<Rightarrow>
          Inr (json_object
            [(''count'', [], string_from (mof_count m)),
             (''total_size'', [], string_from (mof_total_size m)),
             (''name_by_id'', [], ''['' @ name_entry it @ concat (map (\<lambda>e. '','' @ name_entry e) rest) @ '']'')]))"

definition MetaOnFilesItem_deserialize_tree :: "boost \<Rightarrow> ptree \<Rightarrow> MetaOnFilesItem res" where
  "MetaOnFilesItem_deserialize_tree B pt =
     rbind (pt_get_word B pt ''count'') (\<lambda>cnt.
     rbind (pt_get_word B pt ''total_size'') (\<lambda>total_size.
     rbind (of_option Ptree_error (get_child B pt ''name_by_id'')) (\<lambda>locs_pt.
     rbind (mapM (\<lambda>v. rbind (pt_get_word B (snd v) ''id'') (\<lambda>i.
                      rbind (pt_get_string B (snd v) ''name'') (\<lambda>n. Inr (i, n)))) (ptree_children locs_pt)) (\<lambda>es.
       Inr (MetaOnFilesItem_make cnt total_size (fold (\<lambda>(k, v). emplace k v) es []))))))"

definition MetaOnFilesItem_deserialize :: "boost \<Rightarrow> string \<Rightarrow> MetaOnFilesItem res" where
  "MetaOnFilesItem_deserialize B json =
     rbind (of_option Ptree_error (read_json B json)) (MetaOnFilesItem_deserialize_tree B)"

text \<open>A table with entries, one per id.\<close>

definition names_ok :: "(fid_type \<times> string) list \<Rightarrow> bool" where
  "names_ok es \<longleftrightarrow> distinct (map fst es) \<and> list_all (\<lambda>e. plain (snd e)) es"

definition MetaOnFilesItem_ok :: "MetaOnFilesItem \<Rightarrow> bool" where
  "MetaOnFilesItem_ok m \<longleftrightarrow> mof_name_by_id m \<noteq> [] \<and> names_ok (mof_name_by_id m)"

definition name_entry_tree :: "fid_type \<times> string \<Rightarrow> ptree" where
  "name_entry_tree e = PTree [] [(''id'', word_tree (fst e)), (''name'', PTree (snd e) [])]"

definition MetaOnFilesItem_tree :: "MetaOnFilesItem \<Rightarrow> ptree" where
  "MetaOnFilesItem_tree m = PTree []
     [(''count'', word_tree (mof_count m)), (''total_size'', word_tree (mof_total_size m)),
      (''name_by_id'', PTree [] (map (\<lambda>e. ([], name_entry_tree e)) (mof_name_by_id m)))]"

lemma map_of_emplace: "map_of (emplace k v m) = (if map_of m k = None then (map_of m)(k \<mapsto> v) else map_of m)"
  by (rule ext) (auto simp: emplace_def map_add_def split: option.splits)

lemma emplace_names_ok: "names_ok m \<Longrightarrow> plain v \<Longrightarrow> names_ok (emplace k v m)"
  by (auto simp: names_ok_def emplace_def map_of_eq_None_iff)

lemma emplace_not_Nil: "emplace k v m \<noteq> []"
  by (auto simp: emplace_def)

lemma fold_emplace:
  "distinct (map fst (acc @ es)) \<Longrightarrow> fold (\<lambda>(k, v). emplace k v) es acc = acc @ es"
proof (induction es arbitrary: acc)
  case (Cons e es)
  obtain k v where e: "e = (k, v)" by (cases e)
  with Cons.prems have "emplace k v acc = acc @ [(k, v)]"
    by (auto simp: emplace_def map_of_eq_None_iff)
  with Cons.IH [of "acc @ [(k, v)]"] Cons.prems e show ?case by simp
qed simp

lemma json_name_entry: "plain (snd e) \<Longrightarrow> json_text (name_entry e) (name_entry_tree e)"
  by (auto simp: name_entry_def name_entry_tree_def plain_char_def intro!: json_object member_okI json_intros)

lemma read_name_entries:
  "boost_ok B \<Longrightarrow>
   mapM (\<lambda>v. rbind (pt_get_word B (snd v) ''id'') (\<lambda>i. rbind (pt_get_string B (snd v) ''name'') (\<lambda>n. Inr (i, n))))
     (map (\<lambda>e. ([], name_entry_tree e)) es) = Inr es"
  by (induction es) (simp_all add: name_entry_tree_def pt_simps)

lemma json_names:
  assumes "list_all (\<lambda>e. plain (snd e)) (e # es)"
  shows "json_text (CHR ''['' # name_entry e @ concat (map (\<lambda>e. '','' @ name_entry e) es) @ '']'')
    (PTree [] (map (\<lambda>e. ([], name_entry_tree e)) (e # es)))"
proof -
  have "list_all2 json_text (map name_entry (e # es)) (map name_entry_tree (e # es))"
    using assms by (induction es) (auto simp: json_name_entry)
  from json_array [OF this] show ?thesis
    by (simp add: json_array_def comma_separated_Cons comp_def)
qed

lemma MetaOnFilesItem_read_tree:
  assumes "boost_ok B" "names_ok (mof_name_by_id x)"
  shows "MetaOnFilesItem_deserialize_tree B (MetaOnFilesItem_tree x) = Inr x"
  using assms fold_emplace [of "[]" "mof_name_by_id x"]
  by (simp add: MetaOnFilesItem_deserialize_tree_def MetaOnFilesItem_tree_def names_ok_def
      MetaOnFilesItem_make_def pt_simps boost_child read_name_entries)

interpretation meta_on_files: json_item MetaOnFilesItem_serialize MetaOnFilesItem_deserialize
  MetaOnFilesItem_deserialize_tree MetaOnFilesItem_tree MetaOnFilesItem_ok
proof
  fix x :: MetaOnFilesItem assume ok: "MetaOnFilesItem_ok x"
  then obtain e es where e: "mof_name_by_id x = e # es" "list_all (\<lambda>e. plain (snd e)) (e # es)"
    by (cases "mof_name_by_id x") (auto simp: MetaOnFilesItem_ok_def names_ok_def)
  from json_names [OF e(2)] show "\<exists>s. MetaOnFilesItem_serialize x = Inr s \<and> json_text s (MetaOnFilesItem_tree x)"
    by (auto simp: MetaOnFilesItem_serialize_def MetaOnFilesItem_tree_def e(1) plain_char_def
        intro!: json_object member_okI json_intros)
next
  show "boost_ok B \<Longrightarrow> MetaOnFilesItem_ok x \<Longrightarrow> MetaOnFilesItem_deserialize_tree B (MetaOnFilesItem_tree x) = Inr x" for B x
    by (simp add: MetaOnFilesItem_ok_def MetaOnFilesItem_read_tree)
next
  show "MetaOnFilesItem_deserialize B s = rbind (of_option Ptree_error (read_json B s)) (MetaOnFilesItem_deserialize_tree B)" for B s
    by (rule MetaOnFilesItem_deserialize_def)
qed

record MetaOnStoragesItem =
  mos_count :: stid_type
  mos_available_space :: "128 word"

definition MetaOnStoragesItem_make :: "stid_type \<Rightarrow> 128 word \<Rightarrow> MetaOnStoragesItem" where
  "MetaOnStoragesItem_make cnt available_space = \<lparr>mos_count = cnt, mos_available_space = available_space\<rparr>"

definition MetaOnStoragesItem_count_get :: "MetaOnStoragesItem \<Rightarrow> stid_type" where
  "MetaOnStoragesItem_count_get m = mos_count m"
definition MetaOnStoragesItem_count_set :: "stid_type \<Rightarrow> MetaOnStoragesItem \<Rightarrow> MetaOnStoragesItem" where
  "MetaOnStoragesItem_count_set v m = m\<lparr>mos_count := v\<rparr>"
definition MetaOnStoragesItem_available_space_get :: "MetaOnStoragesItem \<Rightarrow> 128 word" where
  "MetaOnStoragesItem_available_space_get m = mos_available_space m"
definition available_space_set :: "128 word \<Rightarrow> MetaOnStoragesItem \<Rightarrow> MetaOnStoragesItem" where
  "available_space_set v m = m\<lparr>mos_available_space := v\<rparr>"

definition MetaOnStoragesItem_serialize :: "MetaOnStoragesItem \<Rightarrow> string" where
  "MetaOnStoragesItem_serialize m = json_object
     [(''count'', [], string_from (mos_count m)), (''available_space'', [], string_from (mos_available_space m))]"

definition MetaOnStoragesItem_deserialize_tree :: "boost \<Rightarrow> ptree \<Rightarrow> MetaOnStoragesItem res" where
  "MetaOnStoragesItem_deserialize_tree B pt =
     rbind (pt_get_word B pt ''count'') (\<lambda>cnt.
     rbind (pt_get_word B pt ''available_space'') (\<lambda>available_space.
       Inr (MetaOnStoragesItem_make cnt available_space)))"

definition MetaOnStoragesItem_deserialize :: "boost \<Rightarrow> string \<Rightarrow> MetaOnStoragesItem res" where
  "MetaOnStoragesItem_deserialize B json =
     rbind (of_option Ptree_error (read_json B json)) (MetaOnStoragesItem_deserialize_tree B)"

definition MetaOnStoragesItem_tree :: "MetaOnStoragesItem \<Rightarrow> ptree" where
  "MetaOnStoragesItem_tree m = PTree []
     [(''count'', word_tree (mos_count m)), (''available_space'', word_tree (mos_available_space m))]"

interpretation meta_on_storages: json_item "\<lambda>i. Inr (MetaOnStoragesItem_serialize i)" MetaOnStoragesItem_deserialize
  MetaOnStoragesItem_deserialize_tree MetaOnStoragesItem_tree "\<lambda>_. True"
  by unfold_locales
    (auto simp: MetaOnStoragesItem_serialize_def MetaOnStoragesItem_tree_def MetaOnStoragesItem_deserialize_tree_def
      MetaOnStoragesItem_make_def MetaOnStoragesItem_deserialize_def plain_char_def pt_simps
      intro!: json_object member_okI json_intros)

section \<open>What the documents promise\<close>

text \<open>
  C26: A file document written by \<^verbatim>\<open>FileItem::serialize\<close> reads back as the same item, parts and
  locations included, when its name and the hashes are text that stands for itself in JSON
  and the hashes have twenty characters; two such items have the same document only if they
  are equal.
\<close>

theorem file_item_roundtrip:
  assumes "boost_ok B" "FileItem_ok x" "FileItem_ok y"
  shows "\<exists>s. FileItem_serialize x = Inr s \<and> FileItem_deserialize B s = Inr x
    \<and> (FileItem_serialize y = Inr s \<longrightarrow> y = x)"
  using file_item.serializes [OF assms(2)] file_item.roundtrip [OF assms(1,2)]
    file_item.roundtrip [OF assms(1,3)] by fastforce

definition sample_file :: FileItem where
  "sample_file = \<lparr>fi_id = 3, fi_name = ''a.__0'', fi_file_size = 10, fi_redundancy = 2, fi_current_redundancy = 0,
     fi_hash = blank_hash, fi_uploaded = False,
     fi_parts = [\<lparr>pi_partid = \<lparr>partid_fid = 3, partid_partnum = 0\<rparr>, pi_hash = blank_hash, pi_locations = [1, 2]\<rparr>]\<rparr>"

lemma sample_file_ok: "FileItem_ok sample_file"
  using blank_hash_ok
  by (simp add: FileItem_ok_def PartItem_ok_def sample_file_def plain_char_def)

lemma file_item_roundtrip_witness:
  "\<exists>s. FileItem_serialize sample_file = Inr s \<and> FileItem_deserialize sample_boost s = Inr sample_file"
  using file_item_roundtrip [OF sample_boost_ok sample_file_ok sample_file_ok] by blast

text \<open>
  The metadata on files read back, with the id table, as long as one file is known; for
  an empty table, which is how the database starts, the serializer runs past the end.
\<close>

lemma meta_on_files_roundtrip:
  assumes "boost_ok B" "names_ok (mof_name_by_id m)"
  shows "if mof_name_by_id m = [] then MetaOnFilesItem_serialize m = Inl Undefined
    else \<exists>s. MetaOnFilesItem_serialize m = Inr s \<and> MetaOnFilesItem_deserialize B s = Inr m"
proof (cases "mof_name_by_id m = []")
  case True
  then show ?thesis by (simp add: MetaOnFilesItem_serialize_def)
next
  case False
  then have "MetaOnFilesItem_ok m" using assms(2) by (simp add: MetaOnFilesItem_ok_def)
  with meta_on_files.serializes [of m] meta_on_files.roundtrip [OF assms(1), of m] False show ?thesis by auto
qed

lemma meta_on_files_roundtrip_witness:
  "\<exists>s. MetaOnFilesItem_serialize (MetaOnFilesItem_make 1 5 [(0, ''a'')]) = Inr s
     \<and> MetaOnFilesItem_deserialize sample_boost s = Inr (MetaOnFilesItem_make 1 5 [(0, ''a'')])"
  using meta_on_files_roundtrip [OF sample_boost_ok, of "MetaOnFilesItem_make 1 5 [(0, ''a'')]"]
  by (simp add: MetaOnFilesItem_make_def names_ok_def plain_char_def)

end
