(* ===== verification/Part_Size.thy ===== *)
theory Part_Size
  imports Messages
begin

text \<open>
  How a file is cut: \<^verbatim>\<open>network::get_part_size\<close> (\<^verbatim>\<open>libtools/network/misc.hxx\<close>) and the two
  functions that cut a buffer for hashing (\<^verbatim>\<open>libtools/files/file.cc\<close>). Both divide in
  \<^verbatim>\<open>float\<close>, so the theory begins with the single-precision operations they use: the
  conversion from an integer, the division and \<^verbatim>\<open>std::ceil\<close>, on non-negative values.
\<close>

section \<open>Single-precision arithmetic\<close>

text \<open>
  A non-negative finite \<^verbatim>\<open>float\<close> is \<open>m * 2 ^ e\<close> with a significand of at most 24 bits.
  Conversion and division give the float nearest to the exact value, ties to the even
  significand (IEEE 754, the default rounding). The quotients taken here lie between
  \<open>2\<^sup>-\<^sup>3\<^sup>3\<close> and \<open>2\<^sup>6\<^sup>4\<close>, far inside the range of normal floats.
\<close>

datatype float32 = Float nat int

text \<open>The integer nearest to \<open>n / d\<close>.\<close>

definition round_half_even :: "nat \<Rightarrow> nat \<Rightarrow> nat" where
  "round_half_even n d =
     (let q = n div d; r = n mod d
      in if 2 * r < d \<or> (2 * r = d \<and> even q) then q else Suc q)"

text \<open>Doublings of the numerator until the quotient has 24 bits before the point.\<close>

function scale_up :: "nat \<Rightarrow> nat \<Rightarrow> nat \<Rightarrow> nat \<times> nat" where
  "scale_up a b s = (if a = 0 \<or> 2 ^ 23 * b \<le> a then (a, s) else scale_up (2 * a) b (Suc s))"
  by pat_completeness auto
termination
  by (relation "measure (\<lambda>(a, b, s). 2 ^ 23 * b - a)") auto

text \<open>Doublings of the denominator until the quotient has no more than 24 bits.\<close>

function scale_down :: "nat \<Rightarrow> nat \<Rightarrow> nat \<Rightarrow> nat \<times> nat" where
  "scale_down a b t = (if b = 0 \<or> a < 2 ^ 24 * b then (b, t) else scale_down a (2 * b) (Suc t))"
  by pat_completeness auto
termination
  by (relation "measure (\<lambda>(a, b, t). a - b)") auto

declare scale_up.simps [simp del] scale_down.simps [simp del]

definition round_ratio :: "nat \<Rightarrow> nat \<Rightarrow> float32" where
  "round_ratio a b =
     (if a < 2 ^ 23 * b
      then (let (a', s) = scale_up a b 0 in Float (round_half_even a' b) (- int s))
      else (let (b', t) = scale_down a b 0 in Float (round_half_even a b') (int t)))"

definition float_of_nat :: "nat \<Rightarrow> float32" where
  "float_of_nat n = round_ratio n 1"

fun float_div :: "float32 \<Rightarrow> float32 \<Rightarrow> float32" where
  "float_div (Float m e) (Float m' e') =
     (if e' \<le> e then round_ratio (m * 2 ^ nat (e - e')) m' else round_ratio m (m' * 2 ^ nat (e' - e)))"

fun float_ceil :: "float32 \<Rightarrow> nat" where
  "float_ceil (Float m e) =
     (if 0 \<le> e then m * 2 ^ nat e else (m + (2 ^ nat (- e) - 1)) div 2 ^ nat (- e))"

text \<open>\<^verbatim>\<open>std::ceil((float)n / d)\<close>, for a divisor that is not zero.\<close>

definition ceil_ratio :: "nat \<Rightarrow> nat \<Rightarrow> nat" where
  "ceil_ratio n d = float_ceil (float_div (float_of_nat n) (float_of_nat d))"

section \<open>The code\<close>

text \<open>
  \<^verbatim>\<open>get_part_size\<close>. Division by zero parts gives an infinity or a NaN, and its conversion to
  an integer is undefined, as is that of a value of \<open>2\<^sup>6\<^sup>4\<close> or more. The products and the
  differences are those of \<^verbatim>\<open>uint64_t\<close>.
\<close>

definition get_part_size :: "fsize_type \<Rightarrow> partnum_type \<Rightarrow> partnum_type \<Rightarrow> 64 word res" where
  "get_part_size fsize partnum parts =
     (if parts = 0 then Inl Undefined
      else let c = ceil_ratio (unat fsize) (unat parts) in
        if 2 ^ 64 \<le> c then Inl Undefined
        else let part_size = word_of_nat c in
          if partnum = parts - 1
          then let offset = ucast partnum * part_size in
            if fsize < offset + part_size then Inr (part_size - (offset + part_size - fsize))
            else Inr part_size
          else Inr part_size)"

definition parts_for_hashing_size :: "64 word \<Rightarrow> 64 word" where
  "parts_for_hashing_size sz = (let mb = 1000000 in if sz < mb then 1 else sz div mb)"

definition part_size_for_hashing_size :: "64 word \<Rightarrow> 64 word \<Rightarrow> 64 word res" where
  "part_size_for_hashing_size sz part_id =
     (let parts = parts_for_hashing_size sz in
      if \<not> part_id < parts then Inl Undefined
      else let c = ceil_ratio (unat sz) (unat parts) in
        if 2 ^ 64 \<le> c then Inl Undefined
        else let part_size = word_of_nat c in
          if part_id = parts - 1
          then let offset = part_id * part_size in
            if sz < offset + part_size then Inr (part_size - (offset + part_size - sz))
            else Inr part_size
          else Inr part_size)"

section \<open>Where the float division is the exact one\<close>

lemma round_half_even_multiple: "0 < d \<Longrightarrow> round_half_even (k * d) d = k"
  by (simp add: round_half_even_def)

lemma round_half_even_le:
  assumes "0 < d" "n \<le> k * d"
  shows "round_half_even n d \<le> k"
proof -
  have "n div d \<le> k"
    using assms by (metis div_le_mono nonzero_mult_div_cancel_right not_gr_zero)
  moreover have "n mod d = 0" if "n div d = k"
  proof -
    have "k * d + n mod d = n"
      using that by (metis div_mult_mod_eq)
    with assms(2) show ?thesis by linarith
  qed
  ultimately show ?thesis
    using assms(1) by (cases "n div d = k") (auto simp: round_half_even_def Let_def)
qed

lemma round_half_even_gt:
  assumes "0 < d" "(2 * k + 1) * d < 2 * n"
  shows "k < round_half_even n d"
proof -
  have n: "n = n div d * d + n mod d"
    by simp
  have "k \<le> n div d"
  proof (rule ccontr)
    assume "\<not> k \<le> n div d"
    then have "Suc (n div d) * d \<le> k * d"
      by (intro mult_le_mono1) simp
    moreover have "n < Suc (n div d) * d"
      using assms(1) by (simp add: dividend_less_div_times)
    ultimately show False
      using assms(2) by (simp add: algebra_simps)
  qed
  moreover have "d < 2 * (n mod d)" if "n div d = k"
    using assms(2) n that by (simp add: algebra_simps)
  ultimately show ?thesis
    by (cases "n div d = k") (auto simp: round_half_even_def Let_def)
qed

lemma scale_up_spec:
  assumes "0 < a" "a < 2 ^ 23 * b" "scale_up a b s = (a', s')"
  shows "s < s' \<and> a' = a * 2 ^ (s' - s) \<and> 2 ^ 23 * b \<le> a' \<and> a' < 2 ^ 24 * b"
  using assms
proof (induction a b s rule: scale_up.induct)
  case (1 a b s)
  have rec: "scale_up (2 * a) b (Suc s) = (a', s')"
    using "1.prems" by (simp add: scale_up.simps [of a])
  show ?case
  proof (cases "2 * a < 2 ^ 23 * b")
    case True
    then have "Suc s < s'" "a' = 2 * a * 2 ^ (s' - Suc s)" "2 ^ 23 * b \<le> a'" "a' < 2 ^ 24 * b"
      using "1.IH" "1.prems" rec by auto
    moreover have "2 * 2 ^ (s' - Suc s) = (2 :: nat) ^ (s' - s)"
      using \<open>Suc s < s'\<close> by (simp add: power_Suc [symmetric] Suc_diff_Suc del: power_Suc)
    ultimately show ?thesis by (simp add: mult.assoc mult.left_commute)
  next
    case False
    then have "scale_up (2 * a) b (Suc s) = (2 * a, Suc s)"
      by (simp add: scale_up.simps [of "2 * a"])
    with rec "1.prems" False show ?thesis by auto
  qed
qed

definition ceil_div :: "nat \<Rightarrow> nat \<Rightarrow> nat" where
  "ceil_div a b = (a + (b - 1)) div b"

lemma ceil_divI: "0 < b \<Longrightarrow> (c - 1) * b < a \<Longrightarrow> 0 < c \<Longrightarrow> a \<le> c * b \<Longrightarrow> ceil_div a b = c"
proof -
  assume b: "0 < b" and lo: "(c - 1) * b < a" and c: "0 < c" and hi: "a \<le> c * b"
  have "c * b \<le> a + (b - 1)"
    using lo c b by (cases c) (simp_all add: algebra_simps)
  moreover have "a + (b - 1) < Suc c * b"
    using hi b by simp
  ultimately have "(a + (b - 1)) div b = c"
    using b by (intro div_nat_eqI) (simp_all add: mult.commute)
  then show ?thesis by (simp add: ceil_div_def)
qed

lemma ceil_div_bounds:
  assumes "0 < b" "0 < a"
  shows "(ceil_div a b - 1) * b < a" "a \<le> ceil_div a b * b" "0 < ceil_div a b"
proof -
  let ?n = "a + (b - 1)"
  have n: "?n = ceil_div a b * b + ?n mod b"
    by (simp add: ceil_div_def)
  have "?n mod b < b" using assms by simp
  show lo: "a \<le> ceil_div a b * b"
    using n \<open>?n mod b < b\<close> by linarith
  then show pos: "0 < ceil_div a b"
    using assms(2) by (cases "ceil_div a b") auto
  show "(ceil_div a b - 1) * b < a"
    using n assms pos by (cases "ceil_div a b") (simp_all add: algebra_simps)
qed


text \<open>
  The key step: the ceiling survives the rounding of the quotient when the ratio is one of
  integers with a numerator below \<open>2\<^sup>2\<^sup>4\<close>, since a quotient that is no integer then lies
  further above the integer below it than half a unit in the last place.
\<close>

lemma float_ceil_round_ratio:
  assumes "0 < x" "0 < y" "0 < a" "0 < b" "x * b = a * y" "a < 2 ^ 24"
  shows "float_ceil (round_ratio x y) = ceil_div a b"
proof -
  let ?c = "ceil_div a b"
  have c: "(?c - 1) * b < a" "a \<le> ?c * b" "0 < ?c"
    using ceil_div_bounds [OF assms(4,3)] by auto
  have "x * b \<le> ?c * y * b"
    using mult_le_mono1 [OF c(2), of y] assms(5) by (simp add: ac_simps)
  then have x_le: "x \<le> ?c * y"
    using assms(4) by simp
  show ?thesis
  proof (cases "x < 2 ^ 23 * y")
    case True
    obtain x' s where up: "scale_up x y 0 = (x', s)"
      by (cases "scale_up x y 0") auto
    then have s: "0 < s" and x': "x' = x * 2 ^ s" and lo: "2 ^ 23 * y \<le> x'"
      using scale_up_spec [OF assms(1) True up] by auto
    let ?m = "round_half_even x' y"
    have m_le: "?m \<le> ?c * 2 ^ s"
      using x_le by (intro round_half_even_le assms(2)) (simp add: x' ac_simps)
    have "y * (2 ^ 23 * b) = 2 ^ 23 * y * b"
      by simp
    also have "\<dots> \<le> x' * b"
      by (rule mult_le_mono1 [OF lo])
    also have "\<dots> = 2 ^ s * (x * b)"
      by (simp add: x')
    also have "\<dots> = y * (2 ^ s * a)"
      by (simp add: assms(5))
    finally have "2 ^ 23 * b \<le> 2 ^ s * a"
      using assms(2) mult_le_cancel1 by blast
    then have "2 ^ 24 * b \<le> 2 ^ Suc s * a"
      by (simp add: mult.commute)
    also have "\<dots> < 2 ^ Suc s * 2 ^ 24"
      using assms(6) by (intro mult_strict_left_mono) simp_all
    finally have b_less: "b < 2 ^ Suc s"
      by simp
    have "(2 * ((?c - 1) * 2 ^ s) + 1) * b = 2 ^ Suc s * ((?c - 1) * b) + b"
      by (simp add: algebra_simps)
    also have "\<dots> < 2 ^ Suc s * ((?c - 1) * b) + 2 ^ Suc s"
      using b_less by simp
    also have "\<dots> = 2 ^ Suc s * Suc ((?c - 1) * b)"
      by simp
    also have "\<dots> \<le> 2 ^ Suc s * a"
      using c(1) by (intro mult_le_mono2) simp
    finally have less: "(2 * ((?c - 1) * 2 ^ s) + 1) * b * y < 2 ^ Suc s * a * y"
      using assms(2) by simp
    have "(2 * ((?c - 1) * 2 ^ s) + 1) * y * b = (2 * ((?c - 1) * 2 ^ s) + 1) * b * y"
      by (simp only: mult.assoc mult.commute [of y])
    also have "\<dots> < 2 ^ Suc s * a * y"
      by (rule less)
    also have "\<dots> = 2 ^ Suc s * (x * b)"
      by (simp add: assms(5))
    also have "\<dots> = 2 * x' * b"
      by (simp add: x')
    finally have "(2 * ((?c - 1) * 2 ^ s) + 1) * y * b < 2 * x' * b" .
    then have "(2 * ((?c - 1) * 2 ^ s) + 1) * y < 2 * x'"
      using assms(4) mult_less_cancel2 by blast
    then have m_gt: "(?c - 1) * 2 ^ s < ?m"
      by (rule round_half_even_gt [OF assms(2)])
    have "ceil_div ?m (2 ^ s) = ?c"
      using m_gt m_le c(3) by (intro ceil_divI) simp_all
    then show ?thesis
      using True s by (simp add: round_ratio_def up ceil_div_def)
  next
    case False
    then have "2 ^ 23 * y * b \<le> x * b"
      by (intro mult_le_mono1) simp
    also have "\<dots> = y * a"
      by (simp add: assms(5))
    finally have "y * (2 ^ 23 * b) \<le> y * a"
      by (simp only: mult.assoc mult.left_commute [of y])
    then have "2 ^ 23 * b \<le> a"
      using assms(2) mult_le_cancel1 by blast
    with assms(6) have "b < 2" by simp
    with assms(4) have b: "b = 1" by simp
    then have x: "x = a * y" using assms(5) by simp
    have "x < 2 ^ 24 * y"
      using assms(2,6) x by simp
    then have "scale_down x y 0 = (y, 0)"
      by (simp add: scale_down.simps)
    then show ?thesis
      using False by (simp add: round_ratio_def x round_half_even_multiple assms(2) b ceil_div_def)
  qed
qed

text \<open>A value \<open>m * 2 ^ e\<close>, as the ratio of two integers.\<close>

fun float_ratio :: "float32 \<Rightarrow> nat \<times> nat" where
  "float_ratio (Float m e) = (m * 2 ^ nat e, 2 ^ nat (- e))"

lemma float_of_nat_exact:
  assumes "n < 2 ^ 24"
  shows "\<exists>m s. float_of_nat n = Float m (- int s) \<and> m = n * 2 ^ s"
proof (cases "n < 2 ^ 23")
  case True
  show ?thesis
  proof (cases "n = 0")
    case True
    then show ?thesis
      by (simp add: float_of_nat_def round_ratio_def scale_up.simps round_half_even_def)
  next
    case False
    obtain a' s where up: "scale_up n 1 0 = (a', s)"
      by (cases "scale_up n 1 0") auto
    then have "a' = n * 2 ^ s"
      using scale_up_spec [OF _ _ up] True False by auto
    then show ?thesis
      using True up round_half_even_multiple [of 1 a']
      by (auto simp: float_of_nat_def round_ratio_def)
  qed
next
  case False
  then have "scale_down n 1 0 = (1, 0)"
    using assms by (simp add: scale_down.simps)
  then show ?thesis
    using False round_half_even_multiple [of 1 n]
    by (auto simp: float_of_nat_def round_ratio_def intro: exI [of _ 0])
qed

lemma float_div_ratio:
  assumes "0 < a" "0 < b"
  shows "\<exists>x y. float_div (Float (a * 2 ^ s) (- int s)) (Float (b * 2 ^ t) (- int t)) = round_ratio x y
    \<and> 0 < x \<and> 0 < y \<and> x * b = a * y"
proof (cases "s \<le> t")
  case True
  have "(2 :: nat) ^ s * 2 ^ (t - s) = 2 ^ t"
    using True by (simp flip: power_add)
  then have "a * 2 ^ s * 2 ^ (t - s) * b = a * (b * 2 ^ t)"
    by (metis mult.assoc mult.commute)
  moreover have "nat (- int s - - int t) = t - s"
    using True by simp
  ultimately show ?thesis
    using True assms by (intro exI [of _ "a * 2 ^ s * 2 ^ (t - s)"] exI [of _ "b * 2 ^ t"]) simp
next
  case False
  have "(2 :: nat) ^ t * 2 ^ (s - t) = 2 ^ s"
    using False by (simp flip: power_add)
  then have "a * 2 ^ s * b = a * (b * 2 ^ t * 2 ^ (s - t))"
    by (metis mult.assoc mult.commute)
  moreover have "nat (- int t - - int s) = s - t"
    using False by simp
  ultimately show ?thesis
    using False assms by (intro exI [of _ "a * 2 ^ s"] exI [of _ "b * 2 ^ t * 2 ^ (s - t)"]) simp
qed

lemma ceil_ratio_exact:
  assumes "a < 2 ^ 24" "0 < b" "b < 2 ^ 24"
  shows "ceil_ratio a b = ceil_div a b"
proof (cases "a = 0")
  case True
  have "round_ratio 0 y = Float 0 0 \<or> y = 0" for y
    by (simp add: round_ratio_def scale_up.simps round_half_even_def)
  moreover obtain t where "float_of_nat b = Float (b * 2 ^ t) (- int t)"
    using float_of_nat_exact [OF assms(3)] by blast
  moreover obtain s where "float_of_nat 0 = Float 0 (- int s)"
    using float_of_nat_exact [of 0] by auto
  ultimately show ?thesis
    using True assms(2) by (auto simp: ceil_ratio_def ceil_div_def round_ratio_def scale_up.simps round_half_even_def)
next
  case False
  obtain s t where "float_of_nat a = Float (a * 2 ^ s) (- int s)"
    and "float_of_nat b = Float (b * 2 ^ t) (- int t)"
    using float_of_nat_exact [OF assms(1)] float_of_nat_exact [OF assms(3)] by blast
  with float_div_ratio [of a b s t] False assms(2) obtain x y
    where "float_div (float_of_nat a) (float_of_nat b) = round_ratio x y"
      and "0 < x" "0 < y" "x * b = a * y" by auto
  then show ?thesis
    using float_ceil_round_ratio [of x y a b] False assms by (simp add: ceil_ratio_def)
qed


section \<open>The sizes of the parts\<close>

text \<open>
  Both functions end in the same way on the last part. Whether or not the branch that
  shortens it is taken, the result is the size minus the offset of the last part, modulo
  \<open>2\<^sup>6\<^sup>4\<close>: it is the remainder of the file only when the offset does not pass the end.
\<close>

lemma last_part_tail:
  fixes f :: "64 word"
  assumes "i * c + c < 2 ^ 64" "unat f \<le> i * c + c"
  shows "(let offset = word_of_nat i * word_of_nat c in
      if f < offset + word_of_nat c then Inr (word_of_nat c - (offset + word_of_nat c - f))
      else Inr (word_of_nat c)) = (Inr (f - word_of_nat (i * c)) :: 64 word res)"
proof -
  have off: "word_of_nat i * word_of_nat c + word_of_nat c = (word_of_nat (i * c + c) :: 64 word)"
    by simp
  have "unat (word_of_nat (i * c + c) :: 64 word) = i * c + c"
    using assms(1) by (intro unat_word_of_nat) simp
  then have lt: "f < word_of_nat (i * c + c) \<longleftrightarrow> unat f \<noteq> i * c + c"
    using assms(2) by (auto simp: word_less_nat_alt)
  show ?thesis
  proof (cases "unat f = i * c + c")
    case True
    then have "f = word_of_nat (i * c + c)"
      by (metis of_nat_unat ucast_id)
    then have "f - word_of_nat (i * c) = word_of_nat c"
      by simp
    with True lt show ?thesis
      by (simp only: Let_def off simp_thms if_False)
  next
    case False
    with lt show ?thesis
      by (simp only: Let_def off if_True) simp
  qed
qed

lemma unat_diff_word_of_nat:
  fixes f :: "64 word"
  assumes "n \<le> unat f"
  shows "unat (f - word_of_nat n) = unat f - n"
proof -
  have "n < 2 ^ LENGTH(64)"
    using assms unsigned_less [of f] by (rule le_less_trans)
  then have n: "unat (word_of_nat n :: 64 word) = n"
    by (rule unat_word_of_nat)
  with assms have "word_of_nat n \<le> f"
    by (simp add: word_le_nat_alt)
  with n show ?thesis
    by (simp add: unat_sub)
qed

text \<open>The sizes \<open>p\<close> parts should have: the ceiling of the quotient, and what is left last.\<close>

definition part_len :: "nat \<Rightarrow> nat \<Rightarrow> nat \<Rightarrow> nat" where
  "part_len f p i = (if i = p - 1 then f - (p - 1) * ceil_div f p else ceil_div f p)"

lemma ceil_div_cover: "0 < p \<Longrightarrow> f \<le> ceil_div f p * p"
  using ceil_div_bounds(2) [of p f] by (cases "f = 0") auto

lemma ceil_div_le:
  assumes "0 < p"
  shows "ceil_div f p \<le> f"
proof (cases "f = 0")
  case True
  then show ?thesis using assms by (simp add: ceil_div_def div_eq_0_iff)
next
  case False
  then have less: "(ceil_div f p - 1) * p < f" and pos: "0 < ceil_div f p"
    using ceil_div_bounds [OF assms] by auto
  have "(ceil_div f p - 1) * 1 \<le> (ceil_div f p - 1) * p"
    using assms by (intro mult_le_mono2) simp
  with less have "ceil_div f p - 1 < f"
    by linarith
  with pos show ?thesis by linarith
qed

lemma sum_part_len:
  assumes "0 < p" "(p - 1) * ceil_div f p \<le> f"
  shows "sum_list (map (part_len f p) [0..<p]) = f"
proof -
  have "[0..<p] = [0..<p - 1] @ [p - 1]"
    using assms(1) by (metis Suc_diff_1 upt_Suc_append zero_le)
  then have "sum_list (map (part_len f p) [0..<p])
      = sum_list (map (part_len f p) [0..<p - 1]) + part_len f p (p - 1)"
    by simp
  also have "map (part_len f p) [0..<p - 1] = map (\<lambda>_. ceil_div f p) [0..<p - 1]"
    by (simp add: part_len_def)
  also have "sum_list (map (\<lambda>_. ceil_div f p) [0..<p - 1]) + part_len f p (p - 1) = f"
    using assms(2) by (simp add: part_len_def sum_list_triv)
  finally show ?thesis .
qed

lemma last_offset_fits:
  assumes "0 < p" "(p - 1) * (p - 1) \<le> f"
  shows "(p - 1) * ceil_div f p \<le> f"
proof (cases "f = 0")
  case True
  then show ?thesis using assms(1) by (simp add: ceil_div_def div_eq_0_iff)
next
  case False
  obtain q where q: "p = Suc q"
    using assms(1) by (cases p) auto
  let ?c = "ceil_div f p"
  have "(?c - 1) * p < f" "0 < ?c"
    using ceil_div_bounds [OF assms(1)] False by auto
  then obtain d where d: "?c = Suc d" and less: "d * p < f"
    by (cases ?c) auto
  show ?thesis
  proof (cases "q \<le> d")
    case True
    then have "q * Suc d \<le> d * p"
      by (simp add: q)
    with d q less show ?thesis by (simp add: mult.commute)
  next
    case False
    then have "q * Suc d \<le> q * q"
      by (intro mult_le_mono2) simp
    with d q assms(2) show ?thesis by simp
  qed
qed

lemma get_part_size_exact:
  assumes "unat fsize < 2 ^ 24" "i < p" "p < 2 ^ 24"
  shows "get_part_size fsize (word_of_nat i) (word_of_nat p) =
    Inr (if i = p - 1 then fsize - word_of_nat ((p - 1) * ceil_div (unat fsize) p)
         else word_of_nat (ceil_div (unat fsize) p))"
proof -
  let ?c = "ceil_div (unat fsize) p"
  have c: "?c \<le> unat fsize" "unat fsize \<le> ?c * p"
    using assms(2) ceil_div_le ceil_div_cover by auto
  have p: "unat (word_of_nat p :: 32 word) = p"
    using assms(3) by (intro unat_word_of_nat) simp
  have i: "unat (word_of_nat i :: 32 word) = i"
    using assms(2,3) by (intro unat_word_of_nat) simp
  have p0: "(word_of_nat p :: 32 word) \<noteq> 0"
    using p assms(2) by auto
  have ratio: "ceil_ratio (unat fsize) p = ?c"
    using assms by (intro ceil_ratio_exact) auto
  have small: "\<not> 2 ^ 64 \<le> ?c"
    using c(1) assms(1) by simp
  have "p - 1 < 2 ^ LENGTH(32)"
    using assms(3) by simp
  then have p1: "unat (word_of_nat (p - 1) :: 32 word) = p - 1"
    by (rule unat_word_of_nat)
  have "(word_of_nat p :: 32 word) - 1 = word_of_nat (p - 1)"
    using assms(2) by (cases p) simp_all
  then have last: "word_of_nat i = (word_of_nat p :: 32 word) - 1 \<longleftrightarrow> i = p - 1"
    by (metis i p1)
  have uc: "ucast (word_of_nat i :: 32 word) = (word_of_nat i :: 64 word)"
    by (metis i of_nat_unat)
  have "i * ?c + ?c \<le> p * ?c"
    using assms(2) mult_le_mono1 [of "Suc i" p ?c] by simp
  also have "p * ?c < 2 ^ 24 * 2 ^ 24"
    using assms(1,3) c(1) by (intro mult_strict_mono) simp_all
  finally have bound: "i * ?c + ?c < 2 ^ 64" by simp
  show ?thesis
  proof (cases "i = p - 1")
    case True
    then have "unat fsize \<le> i * ?c + ?c"
      using c(2) assms(2) by (cases p) (simp_all add: ac_simps)
    note tail = last_part_tail [OF bound this]
    have "(word_of_nat i = (word_of_nat p :: 32 word) - 1) = True"
      using last True by simp
    then have "get_part_size fsize (word_of_nat i) (word_of_nat p) = Inr (fsize - word_of_nat (i * ?c))"
      using tail by (simp only: get_part_size_def p p0 ratio uc small Let_def if_True if_False)
    with True show ?thesis by (simp only: if_True refl)
  next
    case False
    then show ?thesis
      using small by (simp add: get_part_size_def p p0 ratio last Let_def)
  qed
qed


text \<open>The sizes the code computes, as numbers.\<close>

lemma get_part_size_len:
  assumes "unat fsize < 2 ^ 24" "i < p" "(p - 1) * (p - 1) \<le> unat fsize"
  shows "\<exists>s. get_part_size fsize (word_of_nat i) (word_of_nat p) = Inr s \<and> unat s = part_len (unat fsize) p i"
proof -
  let ?c = "ceil_div (unat fsize) p"
  have "p < 2 ^ 24"
  proof (rule ccontr)
    assume "\<not> p < 2 ^ 24"
    then have "2 ^ 13 * 2 ^ 13 \<le> (p - 1) * (p - 1)"
      by (intro mult_le_mono) simp_all
    with assms(1,3) show False by simp
  qed
  note eq = get_part_size_exact [OF assms(1,2) this]
  have "?c \<le> unat fsize"
    using assms(2) by (intro ceil_div_le) simp
  then have c: "unat (word_of_nat ?c :: 64 word) = ?c"
    using assms(1) by (intro unat_word_of_nat) simp
  have "(p - 1) * ?c \<le> unat fsize"
    using assms by (intro last_offset_fits) simp_all
  then show ?thesis
    using eq c by (simp add: part_len_def unat_diff_word_of_nat del: of_nat_mult)
qed

lemma mapM_part_sizes:
  assumes "\<And>i. i < p \<Longrightarrow> \<exists>s. f i = Inr (s :: 'a::len word) \<and> unat s = g i"
  shows "\<exists>sizes. mapM f [0..<p] = Inr sizes \<and> map unat sizes = map g [0..<p]"
proof -
  obtain h where h: "\<And>i. i < p \<Longrightarrow> f i = Inr (h i) \<and> unat (h i) = g i"
    using assms by metis
  then have "mapM f [0..<p] = Inr (map h [0..<p])"
    by (intro mapM_Inr) simp
  moreover have "map unat (map h [0..<p]) = map g [0..<p]"
    using h by simp
  ultimately show ?thesis by blast
qed

text \<open>
  C7: For a file below 16 MiB that is cut into so few parts that the square of their number
  does not exceed the size, \<^verbatim>\<open>get_part_size\<close> is the intended division: every part but the
  last has the ceiling of the quotient, the last has the rest, and together the parts have
  the size of the file. The \<^verbatim>\<open>float\<close> arithmetic loses nothing there.
\<close>

theorem part_sizes_add_up:
  assumes "unat fsize < 2 ^ 24" "0 < p" "(p - 1) * (p - 1) \<le> unat fsize"
  shows "\<exists>sizes. mapM (\<lambda>i. get_part_size fsize (word_of_nat i) (word_of_nat p)) [0..<p] = Inr sizes
    \<and> map unat sizes = map (part_len (unat fsize) p) [0..<p]
    \<and> sum_list (map unat sizes) = unat fsize"
proof -
  obtain sizes where "mapM (\<lambda>i. get_part_size fsize (word_of_nat i) (word_of_nat p)) [0..<p] = Inr sizes"
    and "map unat sizes = map (part_len (unat fsize) p) [0..<p]"
    using mapM_part_sizes [of p "\<lambda>i. get_part_size fsize (word_of_nat i) (word_of_nat p)"
        "part_len (unat fsize) p"] get_part_size_len [OF assms(1) _ assms(3)] by blast
  moreover have "sum_list (map (part_len (unat fsize) p) [0..<p]) = unat fsize"
    using assms by (intro sum_part_len last_offset_fits) simp_all
  ultimately show ?thesis by auto
qed

lemma part_sizes_add_up_witness:
  "\<exists>sizes. mapM (\<lambda>i. get_part_size 10 (word_of_nat i) (word_of_nat 4)) [0..<4] = Inr sizes
    \<and> sum_list (map unat sizes) = 10"
  using part_sizes_add_up [of 10 4] by auto

text \<open>
  One byte above 16 MiB the division is no longer exact. With the eight parts the
  shipped table gives such a file, every part gets \<open>2\<^sup>2\<^sup>1\<close> bytes, the last one too, and the
  last byte of the file belongs to no part.
\<close>

lemma part_sizes_lose_last_byte:
  "\<exists>sizes. mapM (\<lambda>i. get_part_size 16777217 (word_of_nat i) 8) [0..<8] = Inr sizes
    \<and> sizes = replicate 8 2097152
    \<and> sum_list (map unat sizes) + 1 = unat (16777217 :: fsize_type)"
proof -
  have ratio: "ceil_ratio 16777217 8 = 2097152"
    by (simp add: ceil_ratio_def float_of_nat_def round_ratio_def scale_up.simps scale_down.simps
        round_half_even_def)
  have upt: "[0..<8] = [0, 1, 2, 3, 4, 5, 6, 7]"
    by code_simp
  have rep: "replicate 8 x = [x, x, x, x, x, x, x, x]" for x :: "64 word"
    by (simp add: numeral_eq_Suc)
  have "mapM (\<lambda>i. get_part_size 16777217 (word_of_nat i) 8) [0..<8] = Inr (replicate 8 2097152)"
    by (simp add: upt rep get_part_size_def ratio word_less_nat_alt)
  then show ?thesis by (simp add: rep)
qed

text \<open>
  When there are so many parts that the last one would begin after the end of the file,
  the correction of its size wraps around: the last part is announced with at least
  \<open>2\<^sup>6\<^sup>3\<close> bytes.
\<close>

lemma last_part_size_wraps:
  assumes "unat fsize < 2 ^ 24" "p < 2 ^ 24" "unat fsize < (p - 1) * ceil_div (unat fsize) p"
  shows "\<exists>s. get_part_size fsize (word_of_nat (p - 1)) (word_of_nat p) = Inr s \<and> 2 ^ 63 \<le> unat s"
proof -
  let ?o = "(p - 1) * ceil_div (unat fsize) p"
  have p: "0 < p"
    using assms(3) by (cases p) auto
  have eq: "get_part_size fsize (word_of_nat (p - 1)) (word_of_nat p) = Inr (fsize - word_of_nat ?o)"
    using get_part_size_exact [OF assms(1) _ assms(2), of "p - 1"] p by simp
  have "ceil_div (unat fsize) p \<le> unat fsize"
    using p by (rule ceil_div_le)
  then have "?o \<le> 2 ^ 24 * 2 ^ 24"
    using assms(1,2) by (intro mult_le_mono) simp_all
  then have o: "unat (word_of_nat ?o :: 64 word) = ?o"
    by (intro unat_word_of_nat) simp
  have "unat (fsize - word_of_nat ?o) = 2 ^ 64 + unat fsize - ?o"
    using assms(3) o by (simp add: unat_sub_if_size word_size)
  with \<open>?o \<le> 2 ^ 24 * 2 ^ 24\<close> have "2 ^ 63 \<le> unat (fsize - word_of_nat ?o)"
    by simp
  with eq show ?thesis by blast
qed

lemma last_part_size_wraps_witness:
  "\<exists>s. get_part_size 5 (word_of_nat 3) (word_of_nat 4) = Inr s \<and> 2 ^ 63 \<le> unat s"
  using last_part_size_wraps [of 5 4] by (simp add: ceil_div_def)

section \<open>Cutting a buffer for hashing\<close>

lemma unat_parts_for_hashing_size:
  "unat (parts_for_hashing_size sz) = (if unat sz < 1000000 then 1 else unat sz div 1000000)"
  by (simp add: parts_for_hashing_size_def Let_def word_less_nat_alt unat_div)

lemma hashing_parts_bounds:
  assumes "unat sz < 2 ^ 24" "p = unat (parts_for_hashing_size sz)"
  shows "0 < p" "p \<le> 16" "(p - 1) * (p - 1) \<le> unat sz"
proof -
  show "0 < p" and p: "p \<le> 16"
    using assms by (auto simp: unat_parts_for_hashing_size div_greater_zero_iff)
  show "(p - 1) * (p - 1) \<le> unat sz"
  proof (cases "unat sz < 1000000")
    case True
    then show ?thesis by (simp add: assms(2) unat_parts_for_hashing_size)
  next
    case False
    have "(p - 1) * (p - 1) \<le> 15 * 15"
      using p by (intro mult_le_mono) simp_all
    with False show ?thesis by simp
  qed
qed

lemma part_size_for_hashing_len:
  assumes "unat sz < 2 ^ 24" "p = unat (parts_for_hashing_size sz)" "i < p"
  shows "\<exists>s. part_size_for_hashing_size sz (word_of_nat i) = Inr s \<and> unat s = part_len (unat sz) p i"
proof -
  let ?c = "ceil_div (unat sz) p"
  note p = hashing_parts_bounds [OF assms(1,2)]
  have i: "unat (word_of_nat i :: 64 word) = i"
    using assms(3) p(2) by (intro unat_word_of_nat) simp
  have c: "?c \<le> unat sz" "unat sz \<le> ?c * p"
    using p(1) ceil_div_le ceil_div_cover by auto
  have cw: "unat (word_of_nat ?c :: 64 word) = ?c"
    using c(1) assms(1) by (intro unat_word_of_nat) simp
  have less: "word_of_nat i < parts_for_hashing_size sz"
    using assms(2,3) i by (simp add: word_less_nat_alt)
  have ratio: "ceil_ratio (unat sz) p = ?c"
    using assms(1) p by (intro ceil_ratio_exact) simp_all
  have small: "\<not> 2 ^ 64 \<le> ?c"
    using c(1) assms(1) by simp
  have "unat (parts_for_hashing_size sz - 1) = p - 1"
    using p(1) assms(2) by (simp add: unat_minus_one word_neq_0_conv word_less_nat_alt)
  then have last: "word_of_nat i = parts_for_hashing_size sz - 1 \<longleftrightarrow> i = p - 1"
    using i by (auto simp: word_unat_eq_iff)
  have "i * ?c + ?c \<le> p * ?c"
    using assms(3) mult_le_mono1 [of "Suc i" p ?c] by simp
  also have "p * ?c < 2 ^ 24 * 2 ^ 24"
    using assms(1) p(2) c(1) by (intro mult_strict_mono) simp_all
  finally have bound: "i * ?c + ?c < 2 ^ 64" by simp
  show ?thesis
  proof (cases "i = p - 1")
    case True
    then have "unat sz \<le> i * ?c + ?c"
      using c(2) assms(3) by (cases p) (simp_all add: ac_simps)
    note tail = last_part_tail [OF bound this]
    have "(word_of_nat i = parts_for_hashing_size sz - 1) = True"
      using last True by simp
    then have eq: "part_size_for_hashing_size sz (word_of_nat i) = Inr (sz - word_of_nat (i * ?c))"
      using tail ratio less small
      by (simp only: part_size_for_hashing_size_def assms(2) [symmetric] Let_def if_True if_False not_True_eq_False)
    have "i * ?c \<le> unat sz"
      using last_offset_fits [OF p(1,3)] True by simp
    with eq True show ?thesis
      by (simp add: part_len_def unat_diff_word_of_nat del: of_nat_mult)
  next
    case False
    with ratio less small last cw show ?thesis
      by (simp add: part_size_for_hashing_size_def assms(2) [symmetric] Let_def part_len_def)
  qed
qed

end
