(* ===== verification/Files.thy ===== *)
theory Files
  imports Part_Size
begin

text \<open>
  \<^verbatim>\<open>libtools/files\<close>: mapped files and the SHA-1 of a buffer computed piece by piece.
  OpenSSL's SHA-1 and Boost's mapped files are parameters of the model.
\<close>

section \<open>The libraries\<close>

text \<open>
  \<open>sha1_init\<close>, \<open>sha1_update\<close>, \<open>sha1_final\<close> are the three calls on a \<^verbatim>\<open>SHA_CTX\<close>.
  \<open>mapped_size file_size length\<close> is the size of the region \<^verbatim>\<open>boost::iostreams::mapped_file\<close>
  maps when it is asked for \<open>length\<close> bytes of a file, \<open>None\<close> when it throws;
  \<open>creates_size\<close> tells for which sizes it can create a new file. \<open>path_filename\<close> is
  \<^verbatim>\<open>boost::filesystem::path::filename\<close>.
\<close>

record 'ctx files_lib =
  sha1_init :: 'ctx
  sha1_update :: "'ctx \<Rightarrow> string \<Rightarrow> 'ctx"
  sha1_final :: "'ctx \<Rightarrow> string"
  mapped_size :: "nat \<Rightarrow> nat \<Rightarrow> nat option"
  creates_size :: "nat \<Rightarrow> bool"
  path_filename :: "string \<Rightarrow> string"

text \<open>
  What OpenSSL documents of incremental hashing: feeding two pieces is feeding their
  concatenation, and a digest has 20 bytes.
\<close>

definition sha1_ok :: "('ctx, 'e) files_lib_scheme \<Rightarrow> bool" where
  "sha1_ok L \<longleftrightarrow>
     (\<forall>c a b. sha1_update L (sha1_update L c a) b = sha1_update L c (a @ b))
     \<and> (\<forall>c. sha1_update L c [] = c)
     \<and> (\<forall>c. length (sha1_final L c) = sha1_type_size)"

definition sha1 :: "('ctx, 'e) files_lib_scheme \<Rightarrow> string \<Rightarrow> string" where
  "sha1 L bs = sha1_final L (sha1_update L (sha1_init L) bs)"

text \<open>A mapping of \<open>n\<close> bytes of a file that has them has that size, for \<open>n > 0\<close>.\<close>

definition mapping_ok :: "('ctx, 'e) files_lib_scheme \<Rightarrow> bool" where
  "mapping_ok L \<longleftrightarrow> (\<forall>f n. 0 < n \<longrightarrow> n \<le> f \<longrightarrow> mapped_size L f n = Some n)
     \<and> (\<forall>n. 0 < n \<longrightarrow> creates_size L n)"

text \<open>A concrete instance: the context keeps the bytes, the digest is a checksum of them.\<close>

definition sample_lib :: "string files_lib" where
  "sample_lib =
     \<lparr>sha1_init = [], sha1_update = (@), sha1_final = (\<lambda>c. enc_nat 20 (dec_nat c)),
      mapped_size = (\<lambda>f n. if n = 0 \<or> f < n then None else Some n),
      creates_size = (\<lambda>n. 0 < n), path_filename = (\<lambda>p. p)\<rparr>"

lemma sample_lib_ok: "sha1_ok sample_lib" "mapping_ok sample_lib"
  by (simp_all add: sha1_ok_def mapping_ok_def sample_lib_def sha1_type_size_def)

section \<open>Hashing a buffer\<close>

text \<open>
  \<^verbatim>\<open>SHA1_Update(&context, buff + offset, hash_size)\<close>: the buffer is what is readable from
  the pointer on; a read past its end is undefined.
\<close>

definition update_piece :: "('ctx, 'e) files_lib_scheme \<Rightarrow> string \<Rightarrow> 64 word \<Rightarrow> 64 word \<Rightarrow> 'ctx \<Rightarrow> 'ctx res" where
  "update_piece L buff offset hash_size ctx =
     (if unat offset + unat hash_size \<le> length buff
      then Inr (sha1_update L ctx (slice (unat offset) (unat hash_size) buff))
      else Inl Undefined)"

fun hash_parts :: "('ctx, 'e) files_lib_scheme \<Rightarrow> string \<Rightarrow> 64 word \<Rightarrow> 64 word \<Rightarrow> nat list \<Rightarrow> 'ctx \<Rightarrow> 'ctx res" where
  "hash_parts L buff sz part_size [] ctx = Inr ctx"
| "hash_parts L buff sz part_size (i # js) ctx =
     rbind (part_size_for_hashing_size sz (word_of_nat i)) (\<lambda>hash_size.
     rbind (update_piece L buff (word_of_nat i * part_size) hash_size ctx) (\<lambda>ctx'.
       hash_parts L buff sz part_size js ctx'))"

definition hash_buffer_hex :: "('ctx, 'e) files_lib_scheme \<Rightarrow> string \<Rightarrow> 64 word \<Rightarrow> string res" where
  "hash_buffer_hex L buff sz =
     (let parts = parts_for_hashing_size sz;
          c = ceil_ratio (unat sz) (unat parts)
      in if 2 ^ 64 \<le> c then Inl Undefined
         else rbind (hash_parts L buff sz (word_of_nat c) [0..<unat parts] (sha1_init L)) (\<lambda>ctx.
           Inr (sha1_final L ctx)))"

text \<open>
  \<^verbatim>\<open>hash_buffer\<close>: two lower-case hexadecimal digits for each of the 20 bytes.
\<close>

definition hex_digit :: "nat \<Rightarrow> char" where
  "hex_digit d = (if d < 10 then char_of (48 + d) else char_of (87 + d))"

definition hex_byte :: "char \<Rightarrow> string" where
  "hex_byte c = [hex_digit (of_char c div 16), hex_digit (of_char c mod 16)]"

definition hash_buffer :: "('ctx, 'e) files_lib_scheme \<Rightarrow> string \<Rightarrow> 64 word \<Rightarrow> string res" where
  "hash_buffer L sbuff sz =
     rbind (hash_buffer_hex L sbuff sz) (\<lambda>hash. Inr (concat (map hex_byte hash)))"

section \<open>Files\<close>

text \<open>
  The file system maps a path to the contents of the file. An open \<^verbatim>\<open>File\<close> is its path and
  the size of the region that is mapped; the mapping is shared, so its bytes are those of
  the file.
\<close>

type_synonym fs = "string \<rightharpoonup> string"

record File =
  filepath_get :: string
  file_size :: nat

text \<open>
  \<^verbatim>\<open>File(filepath)\<close>: \<^verbatim>\<open>file_size\<close> throws for a file that does not exist; the size is cast to
  \<^verbatim>\<open>unsigned int\<close> before it is given to the mapping.
\<close>

definition File_open :: "('ctx, 'e) files_lib_scheme \<Rightarrow> fs \<Rightarrow> string \<Rightarrow> File res" where
  "File_open L d filepath =
     rbind (of_option System_error (d filepath)) (\<lambda>content.
     rbind (of_option System_error (mapped_size L (length content) (length content mod 2 ^ 32))) (\<lambda>n.
       Inr \<lparr>filepath_get = filepath, file_size = n\<rparr>))"

definition create_empty_file :: "('ctx, 'e) files_lib_scheme \<Rightarrow> fs \<Rightarrow> string \<Rightarrow> nat \<Rightarrow> (File \<times> fs) res" where
  "create_empty_file L d filename sz =
     (if creates_size L sz
      then Inr (\<lparr>filepath_get = filename, file_size = sz\<rparr>, d(filename \<mapsto> replicate sz (CHR 0x00)))
      else Inl (Throw System_error))"

definition filename_get :: "('ctx, 'e) files_lib_scheme \<Rightarrow> File \<Rightarrow> string" where
  "filename_get L f = path_filename L (filepath_get f)"

text \<open>The mapped bytes, \<^verbatim>\<open>data()\<close> with \<^verbatim>\<open>size()\<close>.\<close>

definition file_data :: "fs \<Rightarrow> File \<Rightarrow> string" where
  "file_data d f = (case d (filepath_get f) of None \<Rightarrow> [] | Some content \<Rightarrow> take (file_size f) content)"

text \<open>
  \<^verbatim>\<open>hash_file_hex\<close> hashes as many bytes as the file system says the file has, from the
  mapped region.
\<close>

definition hash_file_hex :: "('ctx, 'e) files_lib_scheme \<Rightarrow> fs \<Rightarrow> File \<Rightarrow> string res" where
  "hash_file_hex L d f =
     rbind (of_option System_error (d (filepath_get f))) (\<lambda>content.
       hash_buffer_hex L (file_data d f) (word_of_nat (length content)))"

definition hash_file :: "('ctx, 'e) files_lib_scheme \<Rightarrow> fs \<Rightarrow> File \<Rightarrow> string res" where
  "hash_file L d f =
     rbind (of_option System_error (d (filepath_get f))) (\<lambda>content.
       hash_buffer L (file_data d f) (word_of_nat (length content)))"

section \<open>The hash of a buffer is its SHA-1\<close>

lemma hash_parts_run:
  assumes "sha1_ok L"
    and "\<And>i. i \<in> set js \<Longrightarrow> \<exists>s. part_size_for_hashing_size sz (word_of_nat i) = Inr s \<and> unat s = g i"
    and "\<And>i. i \<in> set js \<Longrightarrow> i * c + g i \<le> length buff \<and> i * c < 2 ^ 64"
  shows "hash_parts L buff sz (word_of_nat c) js ctx =
    Inr (sha1_update L ctx (concat (map (\<lambda>i. slice (i * c) (g i) buff) js)))"
  using assms(2,3)
proof (induction js arbitrary: ctx)
  case Nil
  then show ?case using assms(1) by (simp add: sha1_ok_def)
next
  case (Cons i js)
  obtain s where s: "part_size_for_hashing_size sz (word_of_nat i) = Inr s" "unat s = g i"
    using Cons.prems(1) [of i] by auto
  have "i * c < 2 ^ LENGTH(64)"
    using Cons.prems(2) [of i] by simp
  then have o: "unat (word_of_nat (i * c) :: 64 word) = i * c"
    by (rule unat_word_of_nat)
  have "update_piece L buff (word_of_nat i * word_of_nat c) s ctx =
      Inr (sha1_update L ctx (slice (i * c) (g i) buff))"
    using Cons.prems(2) [of i] o s(2) by (simp add: update_piece_def)
  then show ?case
    using Cons.IH [of "sha1_update L ctx (slice (i * c) (g i) buff)"] Cons.prems assms(1) s(1)
    by (simp add: sha1_ok_def)
qed

lemma concat_part_slices:
  assumes "0 < p" "(p - 1) * ceil_div f p \<le> f"
  shows "concat (map (\<lambda>i. slice (i * ceil_div f p) (part_len f p i) xs) [0..<p]) = take f xs"
proof -
  let ?c = "ceil_div f p"
  have "[0..<p] = [0..<p - 1] @ [p - 1]"
    using assms(1) by (metis Suc_diff_1 upt_Suc_append zero_le)
  then have "concat (map (\<lambda>i. slice (i * ?c) (part_len f p i) xs) [0..<p])
      = concat (map (\<lambda>i. slice (i * ?c) (part_len f p i) xs) [0..<p - 1])
        @ slice ((p - 1) * ?c) (part_len f p (p - 1)) xs"
    by simp
  also have "map (\<lambda>i. slice (i * ?c) (part_len f p i) xs) [0..<p - 1] = map (\<lambda>i. slice (i * ?c) ?c xs) [0..<p - 1]"
    by (simp add: part_len_def)
  finally show ?thesis
    using assms(2) by (simp add: concat_slices part_len_def take_slice_join)
qed

lemma hash_buffer_hex_small:
  assumes "sha1_ok L" "unat sz < 2 ^ 24" "unat sz \<le> length buff"
  shows "hash_buffer_hex L buff sz = Inr (sha1 L (take (unat sz) buff))"
proof -
  let ?p = "unat (parts_for_hashing_size sz)"
  let ?c = "ceil_div (unat sz) ?p"
  note p = hashing_parts_bounds [OF assms(2) refl]
  have ratio: "ceil_ratio (unat sz) ?p = ?c"
    using assms(2) p by (intro ceil_ratio_exact) simp_all
  have c_le: "?c \<le> unat sz"
    using p(1) by (rule ceil_div_le)
  have off: "(?p - 1) * ?c \<le> unat sz"
    by (rule last_offset_fits [OF p(1,3)])
  have fits: "i * ?c + part_len (unat sz) ?p i \<le> length buff \<and> i * ?c < 2 ^ 64" if "i < ?p" for i
  proof (cases "i = ?p - 1")
    case True
    then show ?thesis using off assms(2,3) by (simp add: part_len_def)
  next
    case False
    then have "Suc i * ?c \<le> (?p - 1) * ?c"
      using that by (intro mult_le_mono1) simp
    with False off assms(2,3) show ?thesis by (simp add: part_len_def)
  qed
  have "hash_parts L buff sz (word_of_nat ?c) [0..<?p] (sha1_init L) =
    Inr (sha1_update L (sha1_init L)
        (concat (map (\<lambda>i. slice (i * ?c) (part_len (unat sz) ?p i) buff) [0..<?p])))"
    using part_size_for_hashing_len [OF assms(2) refl] fits
    by (intro hash_parts_run assms(1)) auto
  then have "hash_parts L buff sz (word_of_nat ?c) [0..<?p] (sha1_init L) =
    Inr (sha1_update L (sha1_init L) (take (unat sz) buff))"
    by (simp only: concat_part_slices [OF p(1) off])
  then show ?thesis
    using c_le assms(2) ratio by (simp add: hash_buffer_hex_def Let_def sha1_def)
qed

text \<open>
  C28: The hash of a buffer below 16 MiB, computed over about one piece for each megabyte, is
  the SHA-1 of the whole buffer.
\<close>

theorem hash_buffer_hex_is_sha1:
  assumes "sha1_ok L" "length buff < 2 ^ 24"
  shows "hash_buffer_hex L buff (word_of_nat (length buff)) = Inr (sha1 L buff)"
proof -
  have "length buff < 2 ^ LENGTH(64)"
    using assms(2) by simp
  then have "unat (word_of_nat (length buff) :: 64 word) = length buff"
    by (rule unat_word_of_nat)
  with hash_buffer_hex_small [OF assms(1), of "word_of_nat (length buff)" buff] assms(2)
  show ?thesis by simp
qed

lemma hash_buffer_hex_is_sha1_witness:
  "hash_buffer_hex sample_lib ''abc'' 3 = Inr (sha1 sample_lib ''abc'')"
  using hash_buffer_hex_is_sha1 [OF sample_lib_ok(1), of "''abc''"] by simp

text \<open>
  A buffer of 16 MiB and one byte is cut into sixteen pieces of \<open>2\<^sup>2\<^sup>0\<close> bytes: its last
  byte is never fed to SHA-1, so the hash is that of the buffer without it and two buffers
  that differ in their last byte have the same hash.
\<close>

lemma hash_ignores_last_byte:
  assumes "sha1_ok L" "length buff = 16777217"
  shows "hash_buffer_hex L buff 16777217 = Inr (sha1 L (take 16777216 buff))"
proof -
  have parts: "parts_for_hashing_size 16777217 = 16"
    by (simp add: parts_for_hashing_size_def Let_def word_less_nat_alt word_unat_eq_iff unat_div)
  have ratio: "ceil_ratio 16777217 16 = 1048576"
    by (simp add: ceil_ratio_def float_of_nat_def round_ratio_def scale_up.simps scale_down.simps
        round_half_even_def)
  have size: "part_size_for_hashing_size 16777217 (word_of_nat i) = Inr 1048576" if "i < 16" for i
  proof -
    have i: "unat (word_of_nat i :: 64 word) = i"
      using that by (intro unat_word_of_nat) simp
    have "i = 15" if "(word_of_nat i :: 64 word) = 15"
      using i that by simp
    moreover have "(word_of_nat i :: 64 word) < 16"
      using i that by (simp add: word_less_nat_alt)
    ultimately show ?thesis
      by (auto simp: part_size_for_hashing_size_def parts ratio Let_def word_less_nat_alt)
  qed
  have "hash_parts L buff 16777217 (word_of_nat 1048576) [0..<16] (sha1_init L) =
      Inr (sha1_update L (sha1_init L) (concat (map (\<lambda>i. slice (i * 1048576) 1048576 buff) [0..<16])))"
  proof (intro hash_parts_run assms(1))
    fix i :: nat
    assume i: "i \<in> set [0..<16]"
    then show "\<exists>s. part_size_for_hashing_size 16777217 (word_of_nat i) = Inr s \<and> unat s = 1048576"
      using size by simp
    have "i * 1048576 \<le> 15 * 1048576"
      using i by (intro mult_le_mono1) simp
    then show "i * 1048576 + 1048576 \<le> length buff \<and> i * 1048576 < 2 ^ 64"
      using assms(2) by simp
  qed
  then show ?thesis
    by (simp only: concat_slices) (simp add: hash_buffer_hex_def Let_def sha1_def parts ratio)
qed

lemma hash_ignores_last_byte_witness:
  "hash_buffer_hex sample_lib (replicate 16777217 CHR ''x'') 16777217
   = Inr (sha1 sample_lib (take 16777216 (replicate 16777217 CHR ''x'')))"
  by (rule hash_ignores_last_byte [OF sample_lib_ok(1)]) (simp only: length_replicate)

section \<open>The text of a hash\<close>

lemma hex_digit_inj: "a < 16 \<Longrightarrow> b < 16 \<Longrightarrow> hex_digit a = hex_digit b \<Longrightarrow> a = b"
proof -
  have val: "(of_char (hex_digit d) :: nat) = (if d < 10 then 48 + d else 87 + d)" if "d < 16" for d
    using that by (simp add: hex_digit_def take_bit_nat_eq_self)
  assume "a < 16" "b < 16" "hex_digit a = hex_digit b"
  then have "(if a < 10 then 48 + a else 87 + a) = (if b < 10 then 48 + b else 87 + b)"
    using val by metis
  with \<open>a < 16\<close> \<open>b < 16\<close> show "a = b"
    by (simp split: if_splits)
qed

lemma length_hex_byte [simp]: "length (hex_byte c) = 2"
  by (simp add: hex_byte_def)

lemma hex_byte_inj:
  assumes "hex_byte a = hex_byte b"
  shows "a = b"
proof -
  have "of_char c div 16 < (16 :: nat)" for c
    by (rule less_mult_imp_div_less) simp
  then have "of_char a div 16 = (of_char b div 16 :: nat)"
    using assms hex_digit_inj by (simp add: hex_byte_def)
  moreover have "of_char a mod 16 = (of_char b mod 16 :: nat)"
    using assms hex_digit_inj by (simp add: hex_byte_def)
  ultimately have "of_char a = (of_char b :: nat)"
    by (metis div_mult_mod_eq)
  then show ?thesis by simp
qed

lemma hex_text_inj: "concat (map hex_byte xs) = concat (map hex_byte ys) \<Longrightarrow> xs = ys"
proof (induction xs arbitrary: ys)
  case Nil
  then show ?case by (cases ys) (auto simp: hex_byte_def)
next
  case (Cons x xs)
  then obtain y ys' where ys: "ys = y # ys'"
    by (cases ys) (auto simp: hex_byte_def)
  with Cons.prems have "hex_byte x = hex_byte y" "concat (map hex_byte xs) = concat (map hex_byte ys')"
    by simp_all
  with Cons.IH ys show ?case by (auto dest: hex_byte_inj)
qed

text \<open>
  The text form of a hash has 40 characters, and two buffers have the same text exactly
  when they have the same 20-byte hash.
\<close>

lemma hash_text_faithful:
  assumes "sha1_ok L" "hash_buffer_hex L a m = Inr h" "hash_buffer_hex L b n = Inr k"
  shows "\<exists>s t. hash_buffer L a m = Inr s \<and> hash_buffer L b n = Inr t
    \<and> length s = 40 \<and> (s = t \<longleftrightarrow> h = k)"
proof -
  have "length h = 20"
    using assms(1,2) by (auto simp: hash_buffer_hex_def Let_def sha1_ok_def sha1_type_size_def
        result_simps split: if_splits)
  then have "length (concat (map hex_byte h)) = 40"
    by (simp add: length_concat hex_byte_def sum_list_triv comp_def)
  then show ?thesis
    using assms(2,3) by (auto simp: hash_buffer_def dest: hex_text_inj)
qed

lemma hash_text_faithful_witness:
  "\<exists>s t. hash_buffer sample_lib ''a'' 1 = Inr s \<and> hash_buffer sample_lib ''b'' 1 = Inr t
    \<and> length s = 40 \<and> s \<noteq> t"
proof -
  have h: "hash_buffer_hex sample_lib [c] 1 = Inr (sha1 sample_lib [c])" for c
    using hash_buffer_hex_small [OF sample_lib_ok(1), of 1 "[c]"] by simp
  have "sha1 sample_lib ''a'' \<noteq> sha1 sample_lib ''b''"
    by (auto simp: sha1_def sample_lib_def dec_enc_nat dest: arg_cong [where f = dec_nat])
  with hash_text_faithful [OF sample_lib_ok(1) h h] show ?thesis by blast
qed

end
