(* ===== verification/Database.thy ===== *)
theory Database
  imports Items Files "HOL-Library.Multiset"
begin

text \<open>
  The master's database (\<^verbatim>\<open>master/database.hh\<close>, \<^verbatim>\<open>database.hxx\<close>): the commands, the connector
  singleton and the documents it makes sure are there. The Couchbase client is a parameter;
  what it promises is the locale \<open>key_value\<close>, and what the master keeps in it is tied to an
  abstract catalogue of storages and files by \<open>represents\<close>.
\<close>

section \<open>The store\<close>

text \<open>
  \<open>cb_open\<close> builds a client for a connection string and a password and connects it: the
  constructor may throw a \<^verbatim>\<open>Couchbase::Status\<close>, \<^verbatim>\<open>connect()\<close> may return a failed status.
  \<open>cb_get\<close> is a \<^verbatim>\<open>get\<close> with a successful status, \<open>cb_upsert\<close> and \<open>cb_remove\<close> change the
  contents; a failed upsert yields its \<^verbatim>\<open>cas()\<close>.
\<close>

datatype 'db connection = Status_thrown | Not_connected string | Connected 'db

record 'db couchbase =
  cb_open :: "string \<Rightarrow> string \<Rightarrow> 'db connection"
  cb_get :: "'db \<Rightarrow> string \<Rightarrow> string option"
  cb_upsert :: "'db \<Rightarrow> string \<Rightarrow> string \<Rightarrow> nat + 'db"
  cb_remove :: "'db \<Rightarrow> string \<Rightarrow> 'db"

text \<open>A store that works: what was put last under a key is what is got.\<close>

definition cb_ok :: "'db couchbase \<Rightarrow> bool" where
  "cb_ok C \<longleftrightarrow>
     (\<forall>db k v. \<exists>db'. cb_upsert C db k v = Inr db' \<and> (\<forall>k'. cb_get C db' k' = (if k' = k then Some v else cb_get C db k')))
     \<and> (\<forall>db k k'. cb_get C (cb_remove C db k) k' = (if k' = k then None else cb_get C db k'))"

definition sample_couchbase :: "(string \<rightharpoonup> string) couchbase" where
  "sample_couchbase =
     \<lparr> cb_open = (\<lambda>conn pass. Connected Map.empty),
       cb_get = (\<lambda>db k. db k),
       cb_upsert = (\<lambda>db k v. Inr (db(k \<mapsto> v))),
       cb_remove = (\<lambda>db k. db(k := None)) \<rparr>"

lemma sample_couchbase_ok: "cb_ok sample_couchbase"
  by (simp add: cb_ok_def sample_couchbase_def)

section \<open>The commands\<close>

definition CouchbaseDb_cmd_get :: "'db couchbase \<Rightarrow> 'db \<Rightarrow> string \<Rightarrow> string res" where
  "CouchbaseDb_cmd_get C db key =
     of_option (Logic_error (''Key '' @ key @ '' does not exists.'')) (cb_get C db key)"

definition CouchbaseDb_cmd_remove :: "'db couchbase \<Rightarrow> 'db \<Rightarrow> string \<Rightarrow> 'db" where
  "CouchbaseDb_cmd_remove C db key = cb_remove C db key"

definition CouchbaseDb_cmd_put :: "'db couchbase \<Rightarrow> 'db \<Rightarrow> string \<Rightarrow> string \<Rightarrow> 'db res" where
  "CouchbaseDb_cmd_put C db key val =
     (case cb_upsert C db key val of
        Inl cas \<Rightarrow> Inl (Throw (Logic_error (''Can't put '' @ key @ '', error: '' @ decimal cas)))
      | Inr db' \<Rightarrow> Inr db')"

definition cmd_put_file :: "'db couchbase \<Rightarrow> fs \<Rightarrow> 'db \<Rightarrow> string \<Rightarrow> string \<Rightarrow> 'db res" where
  "cmd_put_file C files db key filename =
     (case files filename of
        None \<Rightarrow> Inl (Throw (Logic_error (''Could not find '' @ filename @ '' file.'')))
      | Some contents \<Rightarrow> CouchbaseDb_cmd_put C db key contents)"

definition CouchbaseDb_make :: "'db couchbase \<Rightarrow> string \<Rightarrow> string \<Rightarrow> string \<Rightarrow> ('db option) res" where
  "CouchbaseDb_make C host pass bucket =
     (let conn = ''couchbase://'' @ host @ ''/'' @ bucket
      in case cb_open C conn pass of
           Status_thrown \<Rightarrow> Inr None
         | Not_connected status \<Rightarrow> Inl (Throw (Logic_error
             (''Could not connect to '' @ [CHR 0x27] @ conn @ [CHR 0x27] @ '' ('' @ status @ '').'')))
         | Connected db \<Rightarrow> Inr (Some db))"

text \<open>
  The contract: put, remove and get are those of a map. It is what the proofs about the
  master use.
\<close>

locale key_value =
  fixes get :: "'db \<Rightarrow> string \<Rightarrow> string res"
    and put :: "'db \<Rightarrow> string \<Rightarrow> string \<Rightarrow> 'db res"
    and remove :: "'db \<Rightarrow> string \<Rightarrow> 'db"
  assumes put_get: "\<exists>db'. put db k v = Inr db' \<and> (\<forall>k'. get db' k' = (if k' = k then Inr v else get db k'))"
    and remove_get: "get (remove db k) k = Inl (Throw (Logic_error (''Key '' @ k @ '' does not exists.'')))"
    and remove_other: "k' \<noteq> k \<Longrightarrow> get (remove db k) k' = get db k'"
begin

lemma put_run: "put db k v = Inr db' \<Longrightarrow> get db' k' = (if k' = k then Inr v else get db k')"
  using put_get [of db k v] by auto

lemma put_works: "\<exists>db'. put db k v = Inr db'"
  using put_get by blast

lemma put_twice:
  assumes "put db k v = Inr db1" "put db1 k' v' = Inr db2"
  shows "get db2 x = (if x = k' then Inr v' else if x = k then Inr v else get db x)"
  using put_run [OF assms(1)] put_run [OF assms(2)] by simp

end

lemma key_value_of_cb:
  assumes "cb_ok C"
  shows "key_value (CouchbaseDb_cmd_get C) (CouchbaseDb_cmd_put C) (CouchbaseDb_cmd_remove C)"
proof
  show "\<exists>db'. CouchbaseDb_cmd_put C db k v = Inr db' \<and>
      (\<forall>k'. CouchbaseDb_cmd_get C db' k' = (if k' = k then Inr v else CouchbaseDb_cmd_get C db k'))" for db k v
  proof -
    obtain db' where "cb_upsert C db k v = Inr db'"
      "\<forall>k'. cb_get C db' k' = (if k' = k then Some v else cb_get C db k')"
      using assms unfolding cb_ok_def by blast
    then show ?thesis by (intro exI [of _ db']) (simp add: CouchbaseDb_cmd_put_def CouchbaseDb_cmd_get_def)
  qed
  show "CouchbaseDb_cmd_get C (CouchbaseDb_cmd_remove C db k) k =
      Inl (Throw (Logic_error (''Key '' @ k @ '' does not exists.'')))" for db k
    using assms by (simp add: cb_ok_def CouchbaseDb_cmd_get_def CouchbaseDb_cmd_remove_def)
  show "k' \<noteq> k \<Longrightarrow> CouchbaseDb_cmd_get C (CouchbaseDb_cmd_remove C db k) k' = CouchbaseDb_cmd_get C db k'" for db k k'
    using assms by (simp add: cb_ok_def CouchbaseDb_cmd_get_def CouchbaseDb_cmd_remove_def)
qed

interpretation sample_store: key_value "CouchbaseDb_cmd_get sample_couchbase"
  "CouchbaseDb_cmd_put sample_couchbase" "CouchbaseDb_cmd_remove sample_couchbase"
  by (rule key_value_of_cb [OF sample_couchbase_ok])

lemmas cmd_put_get = key_value.put_get [OF key_value_of_cb]
  and cmd_put_run = key_value.put_run [OF key_value_of_cb]
  and cmd_put_works = key_value.put_works [OF key_value_of_cb]

section \<open>The environment and the state of the master\<close>

text \<open>
  The libraries, the files on the master's disk, \<^verbatim>\<open>std::random_shuffle\<close> and what a stack
  variable holds before it is assigned.
\<close>

record 'db master_env =
  env_boost :: boost
  env_net :: net_lib
  env_couchbase :: "'db couchbase"
  env_files :: fs
  env_shuffle :: "StorageItem list \<Rightarrow> StorageItem list"
  env_uninit :: string

text \<open>
  \<open>mst_database\<close> is \<^verbatim>\<open>Connector::database_\<close> with what is behind it. The three statics of
  \<^verbatim>\<open>get_stpfields_for_upload\<close> follow, the iterator as a position in the vector, and the
  numbers \<^verbatim>\<open>std::rand\<close> is still to return.
\<close>

record 'db master_state =
  mst_database :: "'db option"
  iterator_initialized :: bool
  static_storages :: "StorageItem list"
  current_round_robin :: nat
  mst_rand :: "nat \<Rightarrow> nat"

definition env_ok :: "('db, 'e) master_env_scheme \<Rightarrow> bool" where
  "env_ok E \<longleftrightarrow> boost_ok (env_boost E) \<and> net_ok (env_net E) \<and> cb_ok (env_couchbase E)
     \<and> (\<forall>xs. mset (env_shuffle E xs) = mset xs) \<and> length (env_uninit E) = ipv6_type_size"

definition get_instance :: "('db master_state, 'db) act" where
  "get_instance =
     bnd (gets mst_database) (\<lambda>d. case d of
       None \<Rightarrow> raise (Throw (Runtime_error ''Database is not initialized.''))
     | Some db \<Rightarrow> ret db)"

definition set_db :: "'db \<Rightarrow> ('db master_state, unit) act" where
  "set_db db = modify (\<lambda>w. w\<lparr>mst_database := Some db\<rparr>)"

text \<open>\<^verbatim>\<open>Connector::get_instance().cmd_get(key)\<close>, and \<^verbatim>\<open>cmd_put\<close>.\<close>

definition db_get :: "('db, 'e) master_env_scheme \<Rightarrow> string \<Rightarrow> ('db master_state, string) act" where
  "db_get E key = bnd get_instance (\<lambda>db. lift_res (CouchbaseDb_cmd_get (env_couchbase E) db key))"

definition db_put :: "('db, 'e) master_env_scheme \<Rightarrow> string \<Rightarrow> string \<Rightarrow> ('db master_state, unit) act" where
  "db_put E key val =
     bnd get_instance (\<lambda>db. bnd (lift_res (CouchbaseDb_cmd_put (env_couchbase E) db key val)) set_db)"

definition db_put_file :: "('db, 'e) master_env_scheme \<Rightarrow> string \<Rightarrow> string \<Rightarrow> ('db master_state, unit) act" where
  "db_put_file E key filename =
     bnd get_instance (\<lambda>db. bnd (lift_res (cmd_put_file (env_couchbase E) (env_files E) db key filename)) set_db)"

definition initial_storages :: string where
  "initial_storages = ''{'' @ quoted ''count'' @ '':0, '' @ quoted ''available_space'' @ '':0}''"

definition initial_files :: string where
  "initial_files = ''{'' @ quoted ''count'' @ '':0, '' @ quoted ''total_size'' @ '':0, '' @ quoted ''name_by_id'' @ '':[]}''"

text \<open>
  \<^verbatim>\<open>Connector::get_instance(host, pass, bucket)\<close>: connects once, then adds each of the three
  documents that is missing. Only a thrown \<^verbatim>\<open>Couchbase::Status\<close> is turned into a
  \<^verbatim>\<open>runtime_error\<close>.
\<close>

definition ensure_connected :: "('db, 'e) master_env_scheme \<Rightarrow> string \<Rightarrow> string \<Rightarrow> string \<Rightarrow> ('db master_state, unit) act" where
  "ensure_connected E host pass bucket =
     bnd (gets mst_database) (\<lambda>d. case d of
       Some _ \<Rightarrow> ret ()
     | None \<Rightarrow>
         bnd (lift_res (CouchbaseDb_make (env_couchbase E) host pass bucket)) (\<lambda>r. case r of
           Some db \<Rightarrow> set_db db
         | None \<Rightarrow> raise (Throw (Runtime_error
             (''Master exception: Invalid database configuration (couchbase://'' @ host @ ''/'' @ bucket @ '').'')))))"

definition ensure_key :: "('db, 'e) master_env_scheme \<Rightarrow> string \<Rightarrow> ('db master_state, unit) act \<Rightarrow> ('db master_state, unit) act" where
  "ensure_key E key create =
     catching is_logic_error (bnd (db_get E key) (\<lambda>_. ret ())) (\<lambda>_. create)"

definition Connector_get_instance ::
  "('db, 'e) master_env_scheme \<Rightarrow> string \<Rightarrow> string \<Rightarrow> string \<Rightarrow> ('db master_state, unit) act" where
  "Connector_get_instance E host pass bucket =
     bnd (ensure_connected E host pass bucket) (\<lambda>_.
     bnd (ensure_key E ''storage_sizes''
           (db_put_file E ''storage_sizes'' ''../ressources/data/storage_sizes.json'')) (\<lambda>_.
     bnd (ensure_key E ''storages'' (db_put E ''storages'' initial_storages)) (\<lambda>_.
     ensure_key E ''files'' (db_put E ''files'' initial_files))))"

section \<open>The connector\<close>

definition store_of :: "('db, 'e) master_env_scheme \<Rightarrow> 'db \<Rightarrow> string \<rightharpoonup> string" where
  "store_of E db k = cb_get (env_couchbase E) db k"

lemma env_okD:
  "env_ok E \<Longrightarrow> boost_ok (env_boost E)" "env_ok E \<Longrightarrow> net_ok (env_net E)" "env_ok E \<Longrightarrow> cb_ok (env_couchbase E)"
  "env_ok E \<Longrightarrow> mset (env_shuffle E xs) = mset xs" "env_ok E \<Longrightarrow> length (env_uninit E) = ipv6_type_size"
  by (simp_all add: env_ok_def)

lemma cmd_get_store:
  "CouchbaseDb_cmd_get (env_couchbase E) db k =
     of_option (Logic_error (''Key '' @ k @ '' does not exists.'')) (store_of E db k)"
  by (simp add: CouchbaseDb_cmd_get_def store_of_def)

lemma get_instance_run [act_simps]:
  "get_instance w = (case mst_database w of
     None \<Rightarrow> (Inl (Throw (Runtime_error ''Database is not initialized.'')), w) | Some db \<Rightarrow> (Inr db, w))"
  by (simp add: get_instance_def act_simps split: option.splits)

lemma set_db_run [act_simps]: "set_db db w = (Inr (), w\<lparr>mst_database := Some db\<rparr>)"
  by (simp add: set_db_def act_simps)

lemma db_get_run:
  "mst_database w = Some db \<Longrightarrow>
   db_get E k w = (of_option (Logic_error (''Key '' @ k @ '' does not exists.'')) (store_of E db k), w)"
  by (simp add: db_get_def act_simps cmd_get_store)

text \<open>A put on a store that works: the new contents are an update of the old.\<close>

lemma db_put_run:
  assumes "env_ok E" "mst_database w = Some db"
  obtains db' where "db_put E k v w = (Inr (), w\<lparr>mst_database := Some db'\<rparr>)"
    "store_of E db' = (store_of E db)(k \<mapsto> v)"
proof -
  obtain db' where "cb_upsert (env_couchbase E) db k v = Inr db'"
    "\<forall>k'. cb_get (env_couchbase E) db' k' = (if k' = k then Some v else cb_get (env_couchbase E) db k')"
    using env_okD(3) [OF assms(1)] unfolding cb_ok_def by blast
  then show ?thesis
    by (intro that [of db']) (auto simp: db_put_def act_simps assms(2) CouchbaseDb_cmd_put_def store_of_def)
qed

text \<open>The contents after making sure of a key, when its default is \<open>v\<close>.\<close>

definition with_default :: "string \<Rightarrow> string \<Rightarrow> (string \<rightharpoonup> string) \<Rightarrow> (string \<rightharpoonup> string)" where
  "with_default k v st = (if st k = None then st(k \<mapsto> v) else st)"

lemma with_default_id: "m k \<noteq> None \<Longrightarrow> with_default k v m = m"
  by (auto simp: with_default_def)

lemma with_default_there: "with_default k v m k \<noteq> None" "m k' \<noteq> None \<Longrightarrow> with_default k v m k' \<noteq> None"
  by (auto simp: with_default_def)

lemma ensure_key_put:
  assumes "env_ok E" "mst_database w = Some db"
  obtains db' where "ensure_key E k (db_put E k v) w = (Inr (), w\<lparr>mst_database := Some db'\<rparr>)"
    "store_of E db' = with_default k v (store_of E db)"
proof (cases "store_of E db k")
  case None
  obtain db' where "db_put E k v w = (Inr (), w\<lparr>mst_database := Some db'\<rparr>)"
    "store_of E db' = (store_of E db)(k \<mapsto> v)"
    using db_put_run [OF assms] .
  with None that [of db'] show ?thesis
    by (simp add: ensure_key_def act_simps db_get_run [OF assms(2)] with_default_def)
next
  case (Some x)
  with that [of db] assms(2) show ?thesis
    by (simp add: ensure_key_def act_simps db_get_run [OF assms(2)] with_default_def)
qed

lemma ensure_key_put_file:
  assumes "env_files E f = Some v"
  shows "ensure_key E k (db_put_file E k f) = ensure_key E k (db_put E k v)"
  by (rule ext) (simp add: ensure_key_def db_put_file_def db_put_def cmd_put_file_def assms)

definition sizes_file :: string where
  "sizes_file = ''../ressources/data/storage_sizes.json''"

text \<open>The documents of a database that is connected to, whether by the first call or a later one.\<close>

lemma connector_documents:
  assumes "env_ok E" "env_files E sizes_file = Some sizes"
  shows "\<exists>db'. Connector_get_instance E h p b (w\<lparr>mst_database := Some db\<rparr>) = (Inr (), w\<lparr>mst_database := Some db'\<rparr>)
    \<and> store_of E db' = with_default ''files'' initial_files
        (with_default ''storages'' initial_storages (with_default ''storage_sizes'' sizes (store_of E db)))"
proof -
  have sizes_put: "ensure_key E ''storage_sizes'' (db_put_file E ''storage_sizes'' ''../ressources/data/storage_sizes.json'')
      = ensure_key E ''storage_sizes'' (db_put E ''storage_sizes'' sizes)"
    using ensure_key_put_file [OF assms(2)] by (simp add: sizes_file_def)
  let ?w = "w\<lparr>mst_database := Some db\<rparr>"
  obtain db1 where 1: "ensure_key E ''storage_sizes'' (db_put E ''storage_sizes'' sizes) ?w = (Inr (), ?w\<lparr>mst_database := Some db1\<rparr>)"
    "store_of E db1 = with_default ''storage_sizes'' sizes (store_of E db)"
    by (rule ensure_key_put [OF assms(1), of ?w db]) simp
  obtain db2 where 2: "ensure_key E ''storages'' (db_put E ''storages'' initial_storages) (w\<lparr>mst_database := Some db1\<rparr>)
      = (Inr (), w\<lparr>mst_database := Some db1\<rparr>\<lparr>mst_database := Some db2\<rparr>)"
    "store_of E db2 = with_default ''storages'' initial_storages (store_of E db1)"
    by (rule ensure_key_put [OF assms(1), of "w\<lparr>mst_database := Some db1\<rparr>" db1]) simp
  obtain db3 where 3: "ensure_key E ''files'' (db_put E ''files'' initial_files) (w\<lparr>mst_database := Some db2\<rparr>)
      = (Inr (), w\<lparr>mst_database := Some db2\<rparr>\<lparr>mst_database := Some db3\<rparr>)"
    "store_of E db3 = with_default ''files'' initial_files (store_of E db2)"
    by (rule ensure_key_put [OF assms(1), of "w\<lparr>mst_database := Some db2\<rparr>" db2]) simp
  show ?thesis
    by (rule exI [of _ db3]) (use 1 2 3 in \<open>simp add: Connector_get_instance_def ensure_connected_def act_simps sizes_put\<close>)
qed

lemma connector_first:
  assumes "mst_database w = None" "cb_open (env_couchbase E) (''couchbase://'' @ host @ ''/'' @ bucket) pass = Connected db"
  shows "Connector_get_instance E host pass bucket w = Connector_get_instance E host pass bucket (w\<lparr>mst_database := Some db\<rparr>)"
  using assms by (simp add: Connector_get_instance_def ensure_connected_def act_simps CouchbaseDb_make_def)

text \<open>
  C27: Connecting leaves a database with the three documents the master needs and nothing else
  changed: each document that was there is kept as it was, each that was missing gets its
  initial text, no other key is touched. So connecting again changes nothing.
\<close>

theorem connector_initialises:
  assumes "env_ok E" "env_files E sizes_file = Some sizes"
    and "mst_database w = None"
    and "cb_open (env_couchbase E) (''couchbase://'' @ host @ ''/'' @ bucket) pass = Connected db"
  shows "\<exists>db'. Connector_get_instance E host pass bucket w = (Inr (), w\<lparr>mst_database := Some db'\<rparr>)
    \<and> store_of E db' = with_default ''files'' initial_files
        (with_default ''storages'' initial_storages (with_default ''storage_sizes'' sizes (store_of E db)))
    \<and> (\<forall>host' pass' bucket'. \<exists>db''.
         Connector_get_instance E host' pass' bucket' (w\<lparr>mst_database := Some db'\<rparr>)
           = (Inr (), w\<lparr>mst_database := Some db''\<rparr>) \<and> store_of E db'' = store_of E db')"
proof -
  note docs = connector_documents [OF assms(1,2)] and first = connector_first [OF assms(3,4)]
  have idem: "with_default ''files'' initial_files (with_default ''storages'' initial_storages
      (with_default ''storage_sizes'' sizes m)) = m"
    if "m = with_default ''files'' initial_files (with_default ''storages'' initial_storages
      (with_default ''storage_sizes'' sizes m0))" for m m0
    using that by (simp add: with_default_id with_default_there del: not_None_eq)
  obtain db' where db': "Connector_get_instance E host pass bucket w = (Inr (), w\<lparr>mst_database := Some db'\<rparr>)"
    "store_of E db' = with_default ''files'' initial_files
        (with_default ''storages'' initial_storages (with_default ''storage_sizes'' sizes (store_of E db)))"
    using docs [of host pass bucket db] unfolding first by blast
  have "\<exists>db''. Connector_get_instance E h p b (w\<lparr>mst_database := Some db'\<rparr>) = (Inr (), w\<lparr>mst_database := Some db''\<rparr>)
      \<and> store_of E db'' = store_of E db'" for h p b
    using docs [of h p b db'] unfolding idem [OF db'(2)] .
  with db' show ?thesis by blast
qed

definition sample_env :: "(string \<rightharpoonup> string) master_env" where
  "sample_env = \<lparr> env_boost = sample_boost, env_net = sample_net, env_couchbase = sample_couchbase,
     env_files = [sizes_file \<mapsto> ''{}''], env_shuffle = rev, env_uninit = replicate 16 (CHR 0x00) \<rparr>"

lemma sample_env_ok: "env_ok sample_env"
  by (simp add: env_ok_def sample_env_def sample_boost_ok sample_net_ok sample_couchbase_ok ipv6_type_size_def)

definition fresh_state :: "'db option \<Rightarrow> 'db master_state" where
  "fresh_state db = \<lparr>mst_database = db, iterator_initialized = False, static_storages = [],
     current_round_robin = 0, mst_rand = (\<lambda>_. 0)\<rparr>"

lemma connector_initialises_witness:
  "\<exists>db. Connector_get_instance sample_env ''h'' ''p'' ''b'' (fresh_state None) = (Inr (), fresh_state (Some db))
     \<and> store_of sample_env db ''files'' = Some initial_files"
proof -
  have "env_files sample_env sizes_file = Some ''{}''" by (simp add: sample_env_def)
  moreover have "mst_database (fresh_state None) = None" by (simp add: fresh_state_def)
  moreover have "cb_open (env_couchbase sample_env) (''couchbase://'' @ ''h'' @ ''/'' @ ''b'') ''p'' = Connected Map.empty"
    by (simp add: sample_env_def sample_couchbase_def)
  ultimately have "\<exists>db'. Connector_get_instance sample_env ''h'' ''p'' ''b'' (fresh_state None)
        = (Inr (), (fresh_state None)\<lparr>mst_database := Some db'\<rparr>)
      \<and> store_of sample_env db' = with_default ''files'' initial_files (with_default ''storages'' initial_storages
          (with_default ''storage_sizes'' ''{}'' (store_of sample_env Map.empty)))"
    using connector_initialises [OF sample_env_ok] by blast
  moreover have "store_of sample_env Map.empty = Map.empty"
    by (rule ext) (simp add: store_of_def sample_env_def sample_couchbase_def)
  ultimately show ?thesis
    by (auto simp: fresh_state_def with_default_def)
qed

end
