(* ===== verification/Sizes.thy ===== *)
theory Sizes
  imports Database
begin

text \<open>
  \<^verbatim>\<open>number_of_parts\<close> (\<^verbatim>\<open>master/database_procedures.hxx\<close>) and the table it looks a file size
  up in, which is shipped as \<^verbatim>\<open>ressources/data/storage_sizes.json\<close>.
\<close>

section \<open>The lookup\<close>

definition catch_ptree_error :: "string \<Rightarrow> 'a res \<Rightarrow> 'a res" where
  "catch_ptree_error msg r = (case r of Inl (Throw Ptree_error) \<Rightarrow> Inl (Throw (Runtime_error msg)) | _ \<Rightarrow> r)"

definition read_sizes :: "boost \<Rightarrow> string \<Rightarrow> (fsize_type \<times> partnum_type) list res" where
  "read_sizes B json =
     rbind (of_option Ptree_error (read_json B json)) (\<lambda>pt.
       catch_ptree_error ''Error: Database returned results with bad type, or with overfloaded values.''
         (rbind (of_option Ptree_error (get_child B pt ''values'')) (\<lambda>values_pt.
            mapM (\<lambda>it. rbind (pt_get_word B (snd it) ''file_size'') (\<lambda>fs.
                       rbind (pt_get_word B (snd it) ''nb_part'') (\<lambda>nb. Inr (fs, nb))))
              (ptree_children values_pt))))"

fun first_size :: "(fsize_type \<times> partnum_type) list \<Rightarrow> fsize_type \<Rightarrow> partnum_type" where
  "first_size [] fsize = 0"
| "first_size ((fs, nb) # values) fsize = (if fsize \<le> fs then nb else first_size values fsize)"

definition number_of_parts :: "('db, 'e) master_env_scheme \<Rightarrow> fsize_type \<Rightarrow> ('db master_state, partnum_type) act" where
  "number_of_parts E fsize =
     bnd (db_get E ''storage_sizes'') (\<lambda>json.
     bnd (lift_res (read_sizes (env_boost E) json)) (\<lambda>values.
       ret (first_size values fsize)))"

section \<open>The shipped table\<close>

definition size_table :: "(nat \<times> nat) list" where
  "size_table =
    [(2097151, 1), (4194303, 2), (8388607, 4), (16777215, 4), (33554431, 8), (67108863, 16),
     (134217727, 16), (268435455, 32), (536870911, 64), (1073741823, 64), (2147483647, 128),
     (4294967295, 256), (8589934591, 256), (17179869183, 512), (34359738367, 1024),
     (68719476735, 1024), (137438953471, 2048), (274877906943, 4096), (549755813887, 4096),
     (1099511627775, 8192), (2199023255551, 16384), (4398046511103, 16384), (8796093022207, 32768),
     (17592186044415, 65535), (35184372088831, 65535), (70368744177663, 131072),
     (140737488355327, 262144), (281474976710655, 262144), (562949953421311, 524288),
     (1125899906842623, 1048576), (2251799813685247, 1048576), (4503599627370495, 2097152),
     (9007199254740991, 4194304), (18014398509481983, 4194304), (36028797018963967, 8388608),
     (72057594037927935, 16777216), (144115188075855871, 16777216), (288230376151711743, 33554432),
     (576460752303423487, 67108864), (1152921504606846975, 67108864), (2305843009213693951, 134217728),
     (4611686018427387903, 268435456), (9223372036854775807, 268435456),
     (18446744073709551615, 536870912)]"

text \<open>The text of the file, with its spaces and line ends.\<close>

definition row_text :: "nat \<times> nat \<Rightarrow> string" where
  "row_text r = (case r of (fs, nb) \<Rightarrow>
     ''{'' @ quoted ''file_size'' @ '': '' @ decimal fs @ '', '' @ quoted ''nb_part'' @ '': '' @ decimal nb @ '' }'')"

fun rows_text :: "(nat \<times> nat) list \<Rightarrow> string" where
  "rows_text [] = []"
| "rows_text [r] = [CHR 0x0A] @ ''  '' @ row_text r @ [CHR 0x0A]"
| "rows_text (r # rs) = [CHR 0x0A] @ ''  '' @ row_text r @ '','' @ rows_text rs"

definition sizes_json :: string where
  "sizes_json = ''{ '' @ quoted ''values'' @ '': ['' @ rows_text size_table @ '']}'' @ [CHR 0x0A]"

definition row_tree :: "nat \<times> nat \<Rightarrow> ptree" where
  "row_tree r = PTree [] [(''file_size'', PTree (decimal (fst r)) []), (''nb_part'', PTree (decimal (snd r)) [])]"

lemmas json_rules = json_text_json_members_json_elements.intros

lemma json_row: "json_text (row_text r) (row_tree r)"
proof -
  obtain fs nb where r: "r = (fs, nb)" by (cases r)
  have sp: "spaces '' ''" "spaces []" by (simp_all add: spaces_def is_space_def)
  have k: "plain ''file_size''" "plain ''nb_part''" by (simp_all add: plain_char_def)
  have num: "json_text (decimal n) (PTree (decimal n) [])" for n by (rule json_rules(1))
  have "json_members ('' '' @ quoted ''nb_part'' @ [] @ '':'' @ '' '' @ decimal nb @ '' '') [(''nb_part'', PTree (decimal nb) [])]"
    by (rule json_rules(7) [OF sp(1,2,1,1) k(2) num])
  from json_rules(8) [OF sp(2,2,1,2) k(1) num this, of fs]
  have "json_members (quoted ''file_size'' @ '': '' @ decimal fs @ '', '' @ quoted ''nb_part'' @ '': '' @ decimal nb @ '' '')
      [(''file_size'', PTree (decimal fs) []), (''nb_part'', PTree (decimal nb) [])]"
    by simp
  from json_rules(4) [OF this] show ?thesis by (simp add: row_text_def row_tree_def r)
qed

lemma json_rows: "rs \<noteq> [] \<Longrightarrow> json_elements (rows_text rs) (map row_tree rs)"
proof (induction rs rule: rows_text.induct)
  case 1
  then show ?case by simp
next
  case (2 r)
  have "spaces ([CHR 0x0A] @ ''  '')" "spaces [CHR 0x0A]" by (simp_all add: spaces_def is_space_def)
  from json_rules(9) [OF this json_row] show ?case by simp
next
  case (3 r r' rs)
  have "spaces ([CHR 0x0A] @ ''  '')" "spaces []" by (simp_all add: spaces_def is_space_def)
  from json_rules(10) [OF this json_row 3(1)] show ?case by simp
qed

definition sizes_tree :: ptree where
  "sizes_tree = PTree [] [(''values'', PTree [] (map (\<lambda>r. ([], row_tree r)) size_table))]"

lemma read_sizes_json:
  assumes "boost_ok B"
  shows "read_json B sizes_json = Some sizes_tree"
proof -
  have sp: "spaces '' ''" "spaces []" "spaces [CHR 0x0A]" by (simp_all add: spaces_def is_space_def)
  have k: "plain ''values''" by (simp add: plain_char_def)
  have "size_table \<noteq> []" by (simp add: size_table_def)
  from json_rules(6) [OF json_rows [OF this]]
  have "json_text (''['' @ rows_text size_table @ '']'') (PTree [] (map (\<lambda>r. ([], row_tree r)) size_table))"
    by (simp add: comp_def)
  from json_rules(4) [OF json_rules(7) [OF sp(1,2,1,2) k this]]
  have t: "json_text (''{ '' @ quoted ''values'' @ '': ['' @ rows_text size_table @ '']}'') sizes_tree"
    by (simp add: sizes_tree_def)
  have "read_json B ([] @ (''{ '' @ quoted ''values'' @ '': ['' @ rows_text size_table @ '']}'') @ [CHR 0x0A]) = Some sizes_tree"
    using assms t sp(2,3) unfolding boost_ok_def by blast
  then show ?thesis by (simp add: sizes_json_def)
qed

definition size_values :: "(fsize_type \<times> partnum_type) list" where
  "size_values = map (\<lambda>r. (word_of_nat (fst r), word_of_nat (snd r))) size_table"

lemma size_table_fits: "list_all (\<lambda>r. fst r < 2 ^ 64 \<and> snd r < 2 ^ 32) size_table"
  by (simp add: size_table_def)

lemma read_sizes_table:
  assumes "boost_ok B"
  shows "read_sizes B sizes_json = Inr size_values"
proof -
  have "list_all (\<lambda>r. fst r < 2 ^ 64 \<and> snd r < 2 ^ 32) rs \<Longrightarrow>
    mapM (\<lambda>it. rbind (pt_get_word B (snd it) ''file_size'') (\<lambda>fs.
               rbind (pt_get_word B (snd it) ''nb_part'') (\<lambda>nb. Inr (fs, nb))))
      (map (\<lambda>r. ([], row_tree r)) rs) =
    Inr (map (\<lambda>r. (word_of_nat (fst r) :: 64 word, word_of_nat (snd r) :: 32 word)) rs)" for rs
    by (induction rs) (simp_all add: row_tree_def pt_get_word_def boost_child [OF assms] boost_number [OF assms])
  from this [OF size_table_fits]
  have rows: "mapM (\<lambda>it. rbind (pt_get_word B (snd it) ''file_size'') (\<lambda>fs.
               rbind (pt_get_word B (snd it) ''nb_part'') (\<lambda>nb. Inr (fs, nb))))
      (map (\<lambda>r. ([], row_tree r)) size_table) = Inr size_values"
    by (simp add: size_values_def)
  have child: "get_child B sizes_tree ''values'' = Some (PTree [] (map (\<lambda>r. ([], row_tree r)) size_table))"
    by (simp add: sizes_tree_def boost_child [OF assms])
  show ?thesis
    by (simp only: read_sizes_def read_sizes_json [OF assms] child of_option_simps rbind.simps ptree.sel rows)
      (simp add: catch_ptree_error_def)
qed

section \<open>Every size has its number of parts\<close>

text \<open>The shape of a table: intervals that cover every size, part numbers that grow with them.\<close>

fun table_ok :: "nat \<Rightarrow> nat \<Rightarrow> (nat \<times> nat) list \<Rightarrow> bool" where
  "table_ok lo least [] \<longleftrightarrow> lo = 2 ^ 64"
| "table_ok lo least ((fs, nb) # rs) \<longleftrightarrow>
     lo \<le> fs \<and> fs < 2 ^ 64 \<and> least \<le> nb \<and> nb \<le> max 1 lo \<and> nb < 2 ^ 32 \<and> table_ok (fs + 1) nb rs"

lemma table_ok_size_table: "table_ok 0 1 size_table"
  by (simp add: size_table_def)

abbreviation table_values :: "(nat \<times> nat) list \<Rightarrow> (fsize_type \<times> partnum_type) list" where
  "table_values rs \<equiv> map (\<lambda>r. (word_of_nat (fst r), word_of_nat (snd r))) rs"

lemma first_size_Cons_nat:
  assumes "fs < 2 ^ 64"
  shows "first_size (table_values ((fs, nb) # rs)) s =
    (if unat s \<le> fs then word_of_nat nb else first_size (table_values rs) s)"
  using assms unat_word_of_nat [of fs, where 'a = 64] by (simp add: word_le_nat_alt)

lemma first_size_bounds:
  "table_ok lo least rs \<Longrightarrow> lo \<le> unat s \<Longrightarrow>
   least \<le> unat (first_size (table_values rs) s) \<and> unat (first_size (table_values rs) s) \<le> max 1 (unat s)"
proof (induction lo least rs rule: table_ok.induct)
  case (1 lo least)
  then show ?case using unat_lt [of s] by simp
next
  case (2 lo least fs nb rs)
  then have ok: "fs < 2 ^ 64" "least \<le> nb" "nb \<le> max 1 lo" "nb < 2 ^ 32" "table_ok (fs + 1) nb rs" by auto
  have "unat (word_of_nat nb :: 32 word) = nb"
    using ok(4) unat_word_of_nat [of nb, where 'a = 32] by simp
  with 2(1) [OF ok(5)] 2(3) ok(2,3) show ?case
    unfolding first_size_Cons_nat [OF ok(1)] by (cases "unat s \<le> fs") auto
qed

lemma first_size_mono:
  "table_ok lo least rs \<Longrightarrow> lo \<le> unat s \<Longrightarrow> s \<le> t \<Longrightarrow>
   first_size (table_values rs) s \<le> first_size (table_values rs) t"
proof (induction lo least rs rule: table_ok.induct)
  case (1 lo least)
  then show ?case by simp
next
  case (2 lo least fs nb rs)
  then have ok: "fs < 2 ^ 64" "nb < 2 ^ 32" "table_ok (fs + 1) nb rs" by auto
  have nb: "unat (word_of_nat nb :: 32 word) = nb"
    using ok(2) unat_word_of_nat [of nb, where 'a = 32] by simp
  have st: "unat s \<le> unat t" using 2(4) by (simp add: word_le_nat_alt)
  show ?case
    using 2(1) [OF ok(3) _ 2(4)] first_size_bounds [OF ok(3), of t] st nb
    unfolding first_size_Cons_nat [OF ok(1)] by (auto simp: word_le_nat_alt)
qed

lemma number_of_parts_run:
  assumes "env_ok E" "mst_database w = Some db" "store_of E db ''storage_sizes'' = Some sizes_json"
  shows "number_of_parts E s w = (Inr (first_size size_values s), w)"
  using assms(3)
  by (simp add: number_of_parts_def act_simps db_get_run [OF assms(2)] read_sizes_table [OF env_okD(1) [OF assms(1)]])

lemma first_size_shipped:
  "0 < first_size size_values s" "unat (first_size size_values s) \<le> max 1 (unat s)"
  using first_size_bounds [OF table_ok_size_table, of s]
  by (simp_all add: size_values_def word_less_nat_alt)

text \<open>
  With the shipped table in the database every file size gets a number of parts that is
  at least one, so that \<^verbatim>\<open>missing_storage\<close> is never reported, and at most the number of bytes
  of the file; a larger file never gets fewer parts. The database is not changed.
\<close>

lemma number_of_parts_shipped:
  assumes "env_ok E" "mst_database w = Some db" "store_of E db ''storage_sizes'' = Some sizes_json"
  shows "\<exists>n. number_of_parts E s w = (Inr n, w) \<and> 1 \<le> unat n \<and> unat n \<le> max 1 (unat s)
    \<and> (\<forall>t m. s \<le> t \<longrightarrow> number_of_parts E t w = (Inr m, w) \<longrightarrow> n \<le> m)"
  using number_of_parts_run [OF assms] first_size_shipped [of s]
    first_size_mono [OF table_ok_size_table, of s]
  by (simp add: size_values_def word_less_nat_alt Suc_le_eq)

lemma number_of_parts_shipped_witness:
  "\<exists>n. number_of_parts sample_env 5000000 (fresh_state (Some [''storage_sizes'' \<mapsto> sizes_json]))
      = (Inr n, fresh_state (Some [''storage_sizes'' \<mapsto> sizes_json])) \<and> 1 \<le> unat n"
proof -
  let ?db = "[''storage_sizes'' \<mapsto> sizes_json]"
  have "mst_database (fresh_state (Some ?db)) = Some ?db" by (simp add: fresh_state_def)
  moreover have "store_of sample_env ?db ''storage_sizes'' = Some sizes_json"
    by (simp add: store_of_def sample_env_def sample_couchbase_def)
  ultimately show ?thesis
    using number_of_parts_shipped [OF sample_env_ok, of "fresh_state (Some ?db)" ?db 5000000] by blast
qed

end
