(* ===== verification/Catalogue.thy ===== *)
theory Catalogue
  imports Sizes
begin

text \<open>
  What the documents in the database stand for: the storages and the files the master knows.
  \<^verbatim>\<open>get_all_storages\<close> and \<^verbatim>\<open>create_new_file\<close> (\<^verbatim>\<open>master/database_procedures.hxx\<close>) are shown to
  read and to extend this catalogue.
\<close>

section \<open>The procedures\<close>

definition storage_key :: "nat \<Rightarrow> string" where
  "storage_key i = ''st.'' @ decimal i"

definition file_key :: "string \<Rightarrow> string" where
  "file_key name = ''file.'' @ name"

text \<open>\<^verbatim>\<open>get_all_storages\<close> also resets the round-robin of the uploads.\<close>

definition get_all_storages :: "('db, 'e) master_env_scheme \<Rightarrow> ('db master_state, StorageItem list) act" where
  "get_all_storages E =
     bnd (db_get E ''storages'') (\<lambda>json.
     bnd (lift_res (MetaOnStoragesItem_deserialize (env_boost E) json)) (\<lambda>mos.
     bnd (mapA (\<lambda>i. bnd (db_get E (storage_key i)) (\<lambda>json. lift_res (StorageItem_deserialize (env_boost E) json)))
               [0..<unat (MetaOnStoragesItem_count_get mos)]) (\<lambda>storages.
     bnd (modify (\<lambda>w. w\<lparr>iterator_initialized := False\<rparr>)) (\<lambda>_. ret storages))))"

lemma unat_Suc_64: "i \<noteq> - 1 \<Longrightarrow> unat (i + 1 :: 64 word) = Suc (unat i)"
  by (metis add.commute unatSuc add_eq_0_iff)

text \<open>
  The search for a free name counts in \<^verbatim>\<open>uint64_t\<close>. Any exception of the lookup ends it; once
  all \<open>2\<^sup>6\<^sup>4\<close> names were found taken it starts over, forever (\<open>None\<close>).
\<close>

function first_free :: "(64 word \<Rightarrow> bool) \<Rightarrow> 64 word \<Rightarrow> 64 word option" where
  "first_free taken i = (if taken i then (if i = - 1 then None else first_free taken (i + 1)) else Some i)"
  by pat_completeness auto

termination
proof (relation "measure (\<lambda>(taken, i). 2 ^ 64 - unat i)")
  fix taken :: "64 word \<Rightarrow> bool" and i :: "64 word"
  assume "i \<noteq> - 1"
  with unat_Suc_64 [of i] unat_lt [of "i + 1"]
  show "((taken, i + 1), taken, i) \<in> measure (\<lambda>(taken, i). 2 ^ 64 - unat i)" by simp
qed simp

declare first_free.simps [simp del]

definition numbered_name :: "string \<Rightarrow> 64 word \<Rightarrow> string" where
  "numbered_name name i = name @ ''.__'' @ decimal (unat i)"

definition name_taken :: "('db, 'e) master_env_scheme \<Rightarrow> 'db master_state \<Rightarrow> string \<Rightarrow> bool" where
  "name_taken E w name = (case fst (db_get E (file_key name) w) of Inl _ \<Rightarrow> False | Inr _ \<Rightarrow> True)"

text \<open>\<^verbatim>\<open>create_new_file\<close>; the changed item is returned. What it does with the metadata it read:\<close>

definition enter_file :: "('db, 'e) master_env_scheme \<Rightarrow> FileItem \<Rightarrow> string \<Rightarrow> ('db master_state, FileItem) act" where
  "enter_file E fi json =
     bnd (lift_res (MetaOnFilesItem_deserialize (env_boost E) json)) (\<lambda>mof.
     (let fi = FileItem_id_set (MetaOnFilesItem_count_get mof) fi;
          mof = MetaOnFilesItem_count_set (MetaOnFilesItem_count_get mof + 1) mof;
          mof = total_size_set (total_size_get mof + ucast (file_size_get fi)) mof;
          mof = mof\<lparr>mof_name_by_id := emplace (FileItem_id_get fi) (name_get fi) (name_by_id_get mof)\<rparr>
      in bnd (lift_res (MetaOnFilesItem_serialize mof)) (\<lambda>s.
         bnd (db_put E ''files'' s) (\<lambda>_.
         bnd (lift_res (FileItem_serialize fi)) (\<lambda>s'.
         bnd (db_put E (file_key (name_get fi)) s') (\<lambda>_.
           ret fi))))))"

definition create_new_file :: "('db, 'e) master_env_scheme \<Rightarrow> FileItem \<Rightarrow> ('db master_state, FileItem) act" where
  "create_new_file E fi =
     bnd (gets (\<lambda>w. first_free (\<lambda>i. name_taken E w (numbered_name (name_get fi) i)) 0)) (\<lambda>r. case r of
       None \<Rightarrow> raise Looping
     | Some i \<Rightarrow> bnd (db_get E ''files'') (enter_file E (name_set (numbered_name (name_get fi) i) fi)))"

section \<open>The catalogue\<close>

record catalogue =
  cat_storages :: "StorageItem list"
  cat_files :: "FileItem list"

definition storages_doc :: "catalogue \<Rightarrow> MetaOnStoragesItem" where
  "storages_doc cat = MetaOnStoragesItem_make (word_of_nat (length (cat_storages cat)))
     (sum_list (map (\<lambda>s. ucast (si_available_space s)) (cat_storages cat)))"

definition files_doc :: "catalogue \<Rightarrow> MetaOnFilesItem" where
  "files_doc cat = MetaOnFilesItem_make (word_of_nat (length (cat_files cat)))
     (sum_list (map (\<lambda>f. ucast (fi_file_size f)) (cat_files cat)))
     (map (\<lambda>f. (fi_id f, fi_name f)) (cat_files cat))"

text \<open>Storages and files are numbered from zero; names are distinct and can be written.\<close>

definition cat_ok :: "catalogue \<Rightarrow> bool" where
  "cat_ok cat \<longleftrightarrow>
     length (cat_storages cat) < 2 ^ 32 \<and> length (cat_files cat) < 2 ^ 64
     \<and> map si_id (cat_storages cat) = map word_of_nat [0..<length (cat_storages cat)]
     \<and> map fi_id (cat_files cat) = map word_of_nat [0..<length (cat_files cat)]
     \<and> list_all (\<lambda>s. plain (si_host_addr s)) (cat_storages cat)
     \<and> distinct (map fi_name (cat_files cat))
     \<and> list_all FileItem_ok (cat_files cat)"

definition reads :: "(string \<rightharpoonup> string) \<Rightarrow> (string \<Rightarrow> 'a res) \<Rightarrow> string \<Rightarrow> 'a \<Rightarrow> bool" where
  "reads st des k x \<longleftrightarrow> (\<exists>json. st k = Some json \<and> des json = Inr x)"

definition represents :: "boost \<Rightarrow> (string \<rightharpoonup> string) \<Rightarrow> catalogue \<Rightarrow> bool" where
  "represents B st cat \<longleftrightarrow>
     reads st (MetaOnStoragesItem_deserialize B) ''storages'' (storages_doc cat)
     \<and> (\<forall>i < length (cat_storages cat). reads st (StorageItem_deserialize B) (storage_key i) (cat_storages cat ! i))
     \<and> reads st (MetaOnFilesItem_deserialize B) ''files'' (files_doc cat)
     \<and> (\<forall>f \<in> set (cat_files cat). reads st (FileItem_deserialize B) (file_key (fi_name f)) f)
     \<and> (\<forall>name. st (file_key name) \<noteq> None \<longrightarrow> name \<in> set (map fi_name (cat_files cat)))"

text \<open>The keys of the four kinds of documents do not meet.\<close>

lemma keys_distinct [simp]:
  "file_key n \<noteq> ''files''" "file_key n \<noteq> ''storages''" "file_key n \<noteq> storage_key i"
  "storage_key i \<noteq> ''files''" "storage_key i \<noteq> ''storages''"
  "file_key n \<noteq> ''storage_sizes''" "storage_key i \<noteq> ''storage_sizes''"
  "file_key n = file_key m \<longleftrightarrow> n = m" "storage_key i = storage_key j \<longleftrightarrow> i = j"
  "''files'' \<noteq> file_key n" "''storages'' \<noteq> file_key n" "storage_key i \<noteq> file_key n"
  "''files'' \<noteq> storage_key i" "''storages'' \<noteq> storage_key i"
  "''storage_sizes'' \<noteq> file_key n" "''storage_sizes'' \<noteq> storage_key i"
  by (auto simp: file_key_def storage_key_def)

lemma reads_upd [simp]:
  "reads (st(k \<mapsto> v)) des k' x = (if k' = k then des v = Inr x else reads st des k' x)"
  by (simp add: reads_def)

lemma numbered_name_inj: "numbered_name n i = numbered_name n j \<longleftrightarrow> i = j"
  by (auto simp: numbered_name_def dest: unsigned_word_eqI)

text \<open>Reading a document through the master.\<close>

lemma db_reads:
  assumes "mst_database w = Some db" "reads (store_of E db) des k x"
  shows "\<exists>json. db_get E k w = (Inr json, w) \<and> des json = Inr x"
  using assms by (auto simp: reads_def db_get_run)

section \<open>Free names\<close>

lemma first_free_Some:
  "first_free taken i = Some j \<Longrightarrow> i \<le> j \<and> \<not> taken j \<and> (\<forall>k. i \<le> k \<and> k < j \<longrightarrow> taken k)"
proof (induction taken i rule: first_free.induct)
  case (1 taken i)
  show ?case
  proof (cases "taken i")
    case False
    with 1(2) show ?thesis by (subst (asm) first_free.simps) auto
  next
    case True
    with 1(2) have ne: "i \<noteq> - 1" and step: "first_free taken (i + 1) = Some j"
      unfolding first_free.simps [of taken i] by (simp_all split: if_splits)
    have le: "i \<le> k \<longleftrightarrow> i = k \<or> i + 1 \<le> k" for k
    proof (cases "i = k")
      case False
      then have "unat i \<noteq> unat k" using unsigned_word_eqI by blast
      with False show ?thesis by (auto simp: word_le_nat_alt unat_Suc_64 [OF ne])
    qed simp
    from 1(1) [OF True ne step] True le show ?thesis by auto
  qed
qed

lemma first_free_None: "first_free taken i = None \<Longrightarrow> i \<le> k \<Longrightarrow> taken k"
proof (induction taken i rule: first_free.induct)
  case (1 taken i)
  then have "taken i" unfolding first_free.simps [of taken i] by (simp split: if_splits)
  show ?case
  proof (cases "i = k")
    case False
    then have "unat i < unat k" using 1(3) unsigned_word_eqI [of i k]
      by (auto simp: word_le_nat_alt le_less)
    then have ne: "i \<noteq> - 1"
      using unat_lt [of k] by (auto simp: unsigned_minus_1_eq_mask mask_eq_exp_minus_1)
    then have "i + 1 \<le> k" using \<open>unat i < unat k\<close> by (simp add: word_le_nat_alt unat_Suc_64)
    moreover have "first_free taken (i + 1) = None"
      using 1(2) \<open>taken i\<close> ne unfolding first_free.simps [of taken i] by simp
    ultimately show ?thesis using 1(1) [OF \<open>taken i\<close> ne] by simp
  qed (use \<open>taken i\<close> in simp)
qed

text \<open>Fewer than \<open>2\<^sup>6\<^sup>4\<close> names are taken, so one of the numbered ones is free.\<close>

lemma first_free_exists:
  assumes "length names < 2 ^ 64" "\<And>i. taken i \<Longrightarrow> numbered_name n i \<in> set names"
  shows "first_free taken 0 \<noteq> None"
proof
  assume "first_free taken 0 = None"
  then have "numbered_name n i \<in> set names" for i
    using first_free_None [of taken 0 i] assms(2) by simp
  then have "(\<lambda>k. numbered_name n (word_of_nat k)) ` {..<2 ^ 64} \<subseteq> set names" by blast
  then have "card ((\<lambda>k. numbered_name n (word_of_nat k)) ` {..<2 ^ 64}) \<le> card (set names)"
    by (rule card_mono [OF List.finite_set])
  moreover have "inj_on (\<lambda>k. numbered_name n (word_of_nat k)) {..<2 ^ 64}"
  proof (rule inj_onI)
    fix a b :: nat
    assume "a \<in> {..<2 ^ 64}" "b \<in> {..<2 ^ 64}"
      and eq: "numbered_name n (word_of_nat a) = numbered_name n (word_of_nat b)"
    then have "a < 2 ^ 64" "b < 2 ^ 64" by (simp_all only: lessThan_iff)
    then have "unat (word_of_nat a :: 64 word) = a" "unat (word_of_nat b :: 64 word) = b"
      by (simp_all only: unat_word_of_nat_64)
    with eq show "a = b" unfolding numbered_name_inj by metis
  qed
  ultimately have "2 ^ 64 \<le> card (set names)"
    by (simp only: card_image card_lessThan)
  also have "\<dots> \<le> length names" by (rule card_length)
  finally show False using assms(1) by simp
qed

section \<open>Reading the catalogue\<close>

lemma name_taken_iff:
  "mst_database w = Some db \<Longrightarrow> name_taken E w name \<longleftrightarrow> store_of E db (file_key name) \<noteq> None"
  by (cases "store_of E db (file_key name)") (simp_all add: name_taken_def db_get_run)

lemma name_taken_names:
  assumes "mst_database w = Some db" "represents B (store_of E db) cat"
  shows "name_taken E w name \<longleftrightarrow> name \<in> set (map fi_name (cat_files cat))"
proof
  assume "name_taken E w name"
  with assms show "name \<in> set (map fi_name (cat_files cat))"
    by (simp add: name_taken_iff represents_def)
next
  assume "name \<in> set (map fi_name (cat_files cat))"
  then obtain f where "f \<in> set (cat_files cat)" "fi_name f = name" by auto
  with assms show "name_taken E w name"
    unfolding name_taken_iff [OF assms(1)] represents_def reads_def by blast
qed

lemma get_all_storages_run:
  assumes "mst_database w = Some db" "represents (env_boost E) (store_of E db) cat" "cat_ok cat"
  shows "get_all_storages E w = (Inr (cat_storages cat), w\<lparr>iterator_initialized := False\<rparr>)"
proof -
  let ?f = "\<lambda>i. bnd (db_get E (storage_key i)) (\<lambda>json. lift_res (StorageItem_deserialize (env_boost E) json))"
  obtain json where j: "db_get E ''storages'' w = (Inr json, w)"
    "MetaOnStoragesItem_deserialize (env_boost E) json = Inr (storages_doc cat)"
    using db_reads [OF assms(1), of E "MetaOnStoragesItem_deserialize (env_boost E)"] assms(2)
    unfolding represents_def by blast
  have len: "unat (MetaOnStoragesItem_count_get (storages_doc cat)) = length (cat_storages cat)"
    using assms(3) unat_word_of_nat [of "length (cat_storages cat)", where 'a = 32]
    by (simp add: storages_doc_def MetaOnStoragesItem_make_def MetaOnStoragesItem_count_get_def cat_ok_def)
  have "?f i w = (Inr (cat_storages cat ! i), w)" if i: "i \<in> set [0..<length (cat_storages cat)]" for i
  proof -
    obtain json where "db_get E (storage_key i) w = (Inr json, w)"
      "StorageItem_deserialize (env_boost E) json = Inr (cat_storages cat ! i)"
      using db_reads [OF assms(1), of E "StorageItem_deserialize (env_boost E)" "storage_key i" "cat_storages cat ! i"]
        assms(2) i
      by (auto simp: represents_def)
    then show ?thesis by (simp add: act_simps)
  qed
  then have "mapA ?f [0..<length (cat_storages cat)] w = (Inr (map ((!) (cat_storages cat)) [0..<length (cat_storages cat)]), w)"
    by (rule mapA_reads)
  then have "mapA ?f [0..<length (cat_storages cat)] w = (Inr (cat_storages cat), w)"
    by (simp only: map_nth)
  then show ?thesis
    by (simp add: get_all_storages_def act_simps j len)
qed

section \<open>Adding a file\<close>

text \<open>The specification: the least number whose name is not in use, and the next id.\<close>

definition fresh_number :: "catalogue \<Rightarrow> string \<Rightarrow> 64 word" where
  "fresh_number cat name =
     the (first_free (\<lambda>i. numbered_name name i \<in> set (map fi_name (cat_files cat))) 0)"

definition file_entry :: "catalogue \<Rightarrow> FileItem \<Rightarrow> FileItem" where
  "file_entry cat fi = fi\<lparr>fi_id := word_of_nat (length (cat_files cat)),
     fi_name := numbered_name (fi_name fi) (fresh_number cat (fi_name fi))\<rparr>"

definition cat_add_file :: "FileItem \<Rightarrow> catalogue \<Rightarrow> catalogue" where
  "cat_add_file fi cat = cat\<lparr>cat_files := cat_files cat @ [file_entry cat fi]\<rparr>"

lemma plain_append [simp]: "plain (a @ b) \<longleftrightarrow> plain a \<and> plain b"
  by (simp add: plain_def)

lemma plain_decimal [simp]: "plain (decimal n)"
proof -
  have "plain_char c" if "is_digit c" for c
    using that by (auto simp: is_digit_def plain_char_def)
  then show ?thesis by (auto simp: plain_def list_all_iff dest: decimal_digits)
qed

lemma plain_numbered_name [simp]: "plain (numbered_name n i) \<longleftrightarrow> plain n"
  by (simp add: numbered_name_def plain_char_def)

lemma word_of_nat_inj_64: "a < 2 ^ 64 \<Longrightarrow> b < 2 ^ 64 \<Longrightarrow> (word_of_nat a :: 64 word) = word_of_nat b \<Longrightarrow> a = b"
  by (metis unat_word_of_nat_64)

lemma distinct_numbers: "n \<le> 2 ^ 64 \<Longrightarrow> distinct (map (word_of_nat :: nat \<Rightarrow> 64 word) [0..<n])"
  by (auto simp: distinct_map intro!: inj_onI word_of_nat_inj_64)

lemma fresh_number_spec:
  fixes name :: string
  assumes "cat_ok cat"
  defines "taken i \<equiv> numbered_name name i \<in> set (map fi_name (cat_files cat))"
  shows "first_free taken 0 = Some (fresh_number cat name)" "\<not> taken (fresh_number cat name)"
    "i < fresh_number cat name \<Longrightarrow> taken i"
proof -
  have "length (map fi_name (cat_files cat)) < 2 ^ 64"
    using assms(1) by (simp add: cat_ok_def)
  then have "first_free taken 0 \<noteq> None"
    by (rule first_free_exists) (simp add: taken_def)
  moreover have "taken = (\<lambda>i. numbered_name name i \<in> set (map fi_name (cat_files cat)))"
    by (rule ext) (simp only: taken_def)
  ultimately show *: "first_free taken 0 = Some (fresh_number cat name)"
    unfolding fresh_number_def by simp
  from first_free_Some [OF this]
  show "\<not> taken (fresh_number cat name)" "i < fresh_number cat name \<Longrightarrow> taken i"
    by simp_all
qed

lemma cat_add_file_ok:
  assumes "cat_ok cat" "FileItem_ok fi" "length (cat_files cat) + 1 < 2 ^ 64"
  shows "cat_ok (cat_add_file fi cat)"
  using assms fresh_number_spec(2) [OF assms(1), of "fi_name fi"]
  by (simp add: cat_ok_def cat_add_file_def file_entry_def FileItem_ok_def)

lemma cat_names_ok: "cat_ok cat \<Longrightarrow> names_ok (mof_name_by_id (files_doc cat))"
  using distinct_numbers [of "length (cat_files cat)"]
  by (simp add: names_ok_def files_doc_def MetaOnFilesItem_make_def comp_def cat_ok_def FileItem_ok_def list_all_iff)

lemma files_doc_add:
  fixes fi :: FileItem
  assumes "cat_ok cat"
  defines "e \<equiv> file_entry cat fi"
  shows "files_doc (cat_add_file fi cat) =
    \<lparr>mof_count = mof_count (files_doc cat) + 1,
     mof_total_size = mof_total_size (files_doc cat) + ucast (fi_file_size e),
     mof_name_by_id = emplace (fi_id e) (fi_name e) (mof_name_by_id (files_doc cat))\<rparr>"
proof -
  have "word_of_nat (length (cat_files cat)) \<notin> set (map fi_id (cat_files cat))"
    using assms(1) by (auto simp: cat_ok_def dest!: word_of_nat_inj_64 [rotated 2])
  then have "map_of (map (\<lambda>f. (fi_id f, fi_name f)) (cat_files cat)) (fi_id e) = None"
    by (auto simp: e_def file_entry_def map_of_eq_None_iff)
  then show ?thesis
    by (simp add: files_doc_def MetaOnFilesItem_make_def cat_add_file_def e_def emplace_def)
qed

text \<open>The item and the metadata that are written.\<close>

lemma entered_item:
  "FileItem_id_set (mof_count (files_doc cat)) (name_set (numbered_name (fi_name fi) (fresh_number cat (fi_name fi))) fi) = file_entry cat fi"
  by (simp add: FileItem_id_set_def name_set_def file_entry_def files_doc_def MetaOnFilesItem_make_def)

lemma entered_metadata:
  assumes "cat_ok cat"
  shows "(files_doc cat)\<lparr>mof_count := mof_count (files_doc cat) + 1,
      mof_total_size := mof_total_size (files_doc cat) + ucast (fi_file_size (file_entry cat fi)),
      mof_name_by_id := emplace (fi_id (file_entry cat fi)) (fi_name (file_entry cat fi)) (mof_name_by_id (files_doc cat))\<rparr>
    = files_doc (cat_add_file fi cat)"
  unfolding files_doc_add [OF assms] by (rule MetaOnFilesItem.equality) simp_all

lemmas entering = name_get_def MetaOnFilesItem_count_get_def MetaOnFilesItem_count_set_def
  total_size_set_def total_size_get_def file_size_get_def FileItem_id_get_def name_by_id_get_def

lemma entered_documents:
  assumes "boost_ok B" "cat_ok cat" "FileItem_ok fi" "length (cat_files cat) + 1 < 2 ^ 64"
  obtains s s' where "MetaOnFilesItem_serialize (files_doc (cat_add_file fi cat)) = Inr s"
    "MetaOnFilesItem_deserialize B s = Inr (files_doc (cat_add_file fi cat))"
    "FileItem_serialize (file_entry cat fi) = Inr s'" "FileItem_deserialize B s' = Inr (file_entry cat fi)"
proof -
  have "MetaOnFilesItem_ok (files_doc (cat_add_file fi cat))"
    using cat_names_ok [OF cat_add_file_ok [OF assms(2-4)]]
    by (simp add: MetaOnFilesItem_ok_def files_doc_def cat_add_file_def MetaOnFilesItem_make_def)
  moreover have "FileItem_ok (file_entry cat fi)" using assms(3) by (simp add: FileItem_ok_def file_entry_def)
  ultimately show ?thesis
    using that meta_on_files.serializes meta_on_files.roundtrip [OF assms(1)] file_item.serializes file_item.roundtrip [OF assms(1)]
    by metis
qed

text \<open>
  What is written, whatever else the database holds by then: the metadata of \<open>cat\<close> with the file
  added, and the document of the file.
\<close>

lemma enter_file_run:
  fixes fi :: FileItem
  assumes "env_ok E" "mst_database w = Some db" "cat_ok cat" "FileItem_ok fi" "length (cat_files cat) + 1 < 2 ^ 64"
    and "MetaOnFilesItem_deserialize (env_boost E) json = Inr (files_doc cat)"
  obtains s s' db' where
    "enter_file E (name_set (numbered_name (fi_name fi) (fresh_number cat (fi_name fi))) fi) json w
      = (Inr (file_entry cat fi), w\<lparr>mst_database := Some db'\<rparr>)"
    "store_of E db' = (store_of E db)(''files'' \<mapsto> s, file_key (fi_name (file_entry cat fi)) \<mapsto> s')"
    "MetaOnFilesItem_deserialize (env_boost E) s = Inr (files_doc (cat_add_file fi cat))"
    "FileItem_deserialize (env_boost E) s' = Inr (file_entry cat fi)"
proof -
  let ?e = "file_entry cat fi"
  obtain s s' where s: "MetaOnFilesItem_serialize (files_doc (cat_add_file fi cat)) = Inr s"
    "MetaOnFilesItem_deserialize (env_boost E) s = Inr (files_doc (cat_add_file fi cat))"
    "FileItem_serialize ?e = Inr s'" "FileItem_deserialize (env_boost E) s' = Inr ?e"
    using entered_documents [OF env_okD(1) [OF assms(1)] assms(3-5)] .
  obtain db1 where db1: "db_put E ''files'' s w = (Inr (), w\<lparr>mst_database := Some db1\<rparr>)"
    "store_of E db1 = (store_of E db)(''files'' \<mapsto> s)"
    using db_put_run [OF assms(1,2)] .
  obtain db2 where db2: "db_put E (file_key (fi_name ?e)) s' (w\<lparr>mst_database := Some db1\<rparr>)
      = (Inr (), w\<lparr>mst_database := Some db1\<rparr>\<lparr>mst_database := Some db2\<rparr>)"
    "store_of E db2 = (store_of E db1)(file_key (fi_name ?e) \<mapsto> s')"
    by (rule db_put_run [OF assms(1), of "w\<lparr>mst_database := Some db1\<rparr>" db1]) simp
  have run: "enter_file E (name_set (numbered_name (fi_name fi) (fresh_number cat (fi_name fi))) fi) json w
      = (Inr ?e, w\<lparr>mst_database := Some db2\<rparr>)"
    using s(1,3) db1(1) db2(1) by (simp add: enter_file_def act_simps assms(6) entering entered_item entered_metadata [OF assms(3)] Let_def)
  show ?thesis using that [OF run _ s(2,4)] unfolding db2(2) db1(2) by blast
qed

text \<open>The search finds the number that the catalogue leaves free.\<close>

lemma first_free_run:
  assumes "mst_database w = Some db" "represents (env_boost E) (store_of E db) cat" "cat_ok cat"
  shows "first_free (\<lambda>i. name_taken E w (numbered_name name i)) 0 = Some (fresh_number cat name)"
  unfolding name_taken_names [OF assms(1,2)] by (rule fresh_number_spec(1) [OF assms(3)])

lemma represents_add_file:
  assumes "represents B st cat" "cat_ok cat" "MetaOnFilesItem_deserialize B s = Inr (files_doc (cat_add_file fi cat))"
    and "FileItem_deserialize B s' = Inr (file_entry cat fi)"
  shows "represents B (st(''files'' \<mapsto> s, file_key (fi_name (file_entry cat fi)) \<mapsto> s')) (cat_add_file fi cat)"
    and "st (file_key (fi_name (file_entry cat fi))) = None"
proof -
  have new: "\<forall>f \<in> set (cat_files cat). fi_name f \<noteq> fi_name (file_entry cat fi)"
    using fresh_number_spec(2) [OF assms(2), of "fi_name fi"] by (simp add: file_entry_def image_iff) metis
  show "represents B (st(''files'' \<mapsto> s, file_key (fi_name (file_entry cat fi)) \<mapsto> s')) (cat_add_file fi cat)"
    using assms(1,3,4) new unfolding represents_def by (auto simp: cat_add_file_def storages_doc_def)
  show "st (file_key (fi_name (file_entry cat fi))) = None"
    using assms(1) new unfolding represents_def by (metis image_iff list.set_map)
qed

lemma create_new_file_run:
  assumes "env_ok E" "mst_database w = Some db"
    and "represents (env_boost E) (store_of E db) cat" "cat_ok cat"
    and "FileItem_ok fi" "length (cat_files cat) + 1 < 2 ^ 64"
  shows "\<exists>db'. create_new_file E fi w = (Inr (file_entry cat fi), w\<lparr>mst_database := Some db'\<rparr>)
    \<and> represents (env_boost E) (store_of E db') (cat_add_file fi cat) \<and> cat_ok (cat_add_file fi cat)
    \<and> (\<forall>k v. k \<noteq> ''files'' \<longrightarrow> store_of E db k = Some v \<longrightarrow> store_of E db' k = Some v)"
proof -
  obtain json where json: "db_get E ''files'' w = (Inr json, w)"
    "MetaOnFilesItem_deserialize (env_boost E) json = Inr (files_doc cat)"
    using db_reads [OF assms(2), of E "MetaOnFilesItem_deserialize (env_boost E)"] assms(3)
    unfolding represents_def by blast
  obtain s s' db' where db': "enter_file E (name_set (numbered_name (fi_name fi) (fresh_number cat (fi_name fi))) fi) json w
      = (Inr (file_entry cat fi), w\<lparr>mst_database := Some db'\<rparr>)"
    "store_of E db' = (store_of E db)(''files'' \<mapsto> s, file_key (fi_name (file_entry cat fi)) \<mapsto> s')"
    "MetaOnFilesItem_deserialize (env_boost E) s = Inr (files_doc (cat_add_file fi cat))"
    "FileItem_deserialize (env_boost E) s' = Inr (file_entry cat fi)"
    using enter_file_run [OF assms(1,2,4-6) json(2)] .
  have run: "create_new_file E fi w = (Inr (file_entry cat fi), w\<lparr>mst_database := Some db'\<rparr>)"
    using db'(1) by (simp add: create_new_file_def act_simps name_get_def first_free_run [OF assms(2-4)] json(1))
  note add = represents_add_file [OF assms(3,4) db'(3,4)]
  show ?thesis
    using run add cat_add_file_ok [OF assms(4-6)] by (intro exI [of _ db']) (auto simp: db'(2))
qed

text \<open>
  C9: Creating a file with a plain name (one that JSON writes without escapes), while nothing else
  uses the database, never overwrites a document: it takes the least number whose name is
  free and the next file id, and the database then represents the catalogue with that one
  file added; apart from the metadata every document is as it was.
\<close>

theorem create_new_file_refines:
  assumes "env_ok E" "mst_database w = Some db"
    and "represents (env_boost E) (store_of E db) cat" "cat_ok cat"
    and "FileItem_ok fi" "length (cat_files cat) + 1 < 2 ^ 64"
  shows "\<exists>db'. create_new_file E fi w = (Inr (file_entry cat fi), w\<lparr>mst_database := Some db'\<rparr>)
    \<and> represents (env_boost E) (store_of E db') (cat_add_file fi cat) \<and> cat_ok (cat_add_file fi cat)
    \<and> (\<forall>k v. k \<noteq> ''files'' \<longrightarrow> store_of E db k = Some v \<longrightarrow> store_of E db' k = Some v)"
  using create_new_file_run [OF assms] .

section \<open>The database at the start\<close>

lemma json_zero: "json_text ''0'' (PTree ''0'' [])"
proof -
  have "decimal 0 = ''0''" by code_simp
  with json_rules(1) [of 0] show ?thesis by simp
qed

lemma json_initial_storages:
  "json_text initial_storages (PTree [] [(''count'', PTree ''0'' []), (''available_space'', PTree ''0'' [])])"
proof -
  have e: "spaces []" by simp
  have sp: "spaces '' ''" by simp
  have k: "plain ''count''" "plain ''available_space''" by (simp_all add: plain_char_def)
  have "json_members ('' '' @ quoted ''available_space'' @ [] @ '':'' @ [] @ ''0'' @ []) [(''available_space'', PTree ''0'' [])]"
    by (rule json_rules(7) [OF sp e e e k(2) json_zero])
  from json_rules(4) [OF json_rules(8) [OF e e e e k(1) json_zero this]]
  show ?thesis by (simp add: initial_storages_def)
qed

lemma json_initial_files:
  "json_text initial_files (PTree [] [(''count'', PTree ''0'' []), (''total_size'', PTree ''0'' []), (''name_by_id'', PTree [] [])])"
proof -
  have e: "spaces []" by simp
  have sp: "spaces '' ''" by simp
  have k: "plain ''count''" "plain ''total_size''" "plain ''name_by_id''" by (simp_all add: plain_char_def)
  have "json_members ('' '' @ quoted ''name_by_id'' @ [] @ '':'' @ [] @ (''['' @ [] @ '']'') @ []) [(''name_by_id'', PTree [] [])]"
    by (rule json_rules(7) [OF sp e e e k(3) json_rules(5) [OF e]])
  from json_rules(8) [OF sp e e e k(2) json_zero this]
  have "json_members ('' '' @ quoted ''total_size'' @ '':0, '' @ quoted ''name_by_id'' @ '':[]'')
      [(''total_size'', PTree ''0'' []), (''name_by_id'', PTree [] [])]" by simp
  from json_rules(4) [OF json_rules(8) [OF e e e e k(1) json_zero this]]
  show ?thesis by (simp add: initial_files_def)
qed

lemma zero_tree: "PTree ''0'' [] = word_tree (0 :: 'a::len word)"
proof -
  have "decimal 0 = ''0''" by code_simp
  then show ?thesis by (simp add: word_tree_def)
qed

text \<open>The documents the connector adds are those of a catalogue with nothing in it.\<close>

lemma initial_represents:
  assumes "boost_ok B" "st ''storages'' = Some initial_storages" "st ''files'' = Some initial_files"
    and "\<And>name. st (file_key name) = None"
  shows "represents B st \<lparr>cat_storages = [], cat_files = []\<rparr>"
proof -
  have "MetaOnStoragesItem_deserialize B initial_storages = Inr (MetaOnStoragesItem_make 0 0)"
    by (simp add: MetaOnStoragesItem_deserialize_def boost_read [OF assms(1) json_initial_storages]
        MetaOnStoragesItem_deserialize_tree_def
        pt_get_word [OF assms(1) _ _ , where x = "0 :: 32 word"] pt_get_word [OF assms(1), where x = "0 :: 128 word"] zero_tree)
  moreover have "MetaOnFilesItem_deserialize B initial_files = Inr (MetaOnFilesItem_make 0 0 [])"
    by (simp add: MetaOnFilesItem_deserialize_def boost_read [OF assms(1) json_initial_files]
        MetaOnFilesItem_deserialize_tree_def boost_child [OF assms(1)]
        pt_get_word [OF assms(1), where x = "0 :: 64 word"] pt_get_word [OF assms(1), where x = "0 :: 128 word"] zero_tree)
  ultimately show ?thesis
    using assms(2-4) by (simp add: represents_def reads_def storages_doc_def files_doc_def)
qed

definition start_db :: "string \<rightharpoonup> string" where
  "start_db = [''storage_sizes'' \<mapsto> sizes_json, ''storages'' \<mapsto> initial_storages, ''files'' \<mapsto> initial_files]"

abbreviation no_catalogue :: catalogue where
  "no_catalogue \<equiv> \<lparr>cat_storages = [], cat_files = []\<rparr>"

lemma start_state:
  "mst_database (fresh_state (Some start_db)) = Some start_db"
  "store_of sample_env start_db = start_db"
  "represents (env_boost sample_env) start_db no_catalogue" "cat_ok no_catalogue"
proof -
  show "mst_database (fresh_state (Some start_db)) = Some start_db" by (simp add: fresh_state_def)
  show "store_of sample_env start_db = start_db"
    by (rule ext) (simp add: store_of_def sample_env_def sample_couchbase_def)
  show "represents (env_boost sample_env) start_db no_catalogue"
    by (rule initial_represents [OF env_okD(1) [OF sample_env_ok]]) (simp_all add: start_db_def)
  show "cat_ok no_catalogue" by (simp add: cat_ok_def)
qed

lemma sample_entry:
  "plain n \<Longrightarrow> FileItem_ok (sample_file\<lparr>fi_name := n\<rparr>)"
  "file_entry no_catalogue (sample_file\<lparr>fi_name := n\<rparr>) = sample_file\<lparr>fi_id := 0, fi_name := n @ ''.__0''\<rparr>"
proof -
  show "plain n \<Longrightarrow> FileItem_ok (sample_file\<lparr>fi_name := n\<rparr>)"
    using sample_file_ok by (simp add: FileItem_ok_def)
  have "first_free (\<lambda>i. False) 0 = Some 0" by (subst first_free.simps) simp
  moreover have "decimal 0 = ''0''" by code_simp
  ultimately show "file_entry no_catalogue (sample_file\<lparr>fi_name := n\<rparr>) = sample_file\<lparr>fi_id := 0, fi_name := n @ ''.__0''\<rparr>"
    by (simp add: file_entry_def fresh_number_def numbered_name_def)
qed

lemma create_new_file_refines_witness:
  "\<exists>db'. create_new_file sample_env (sample_file\<lparr>fi_name := ''a''\<rparr>) (fresh_state (Some start_db))
      = (Inr (sample_file\<lparr>fi_id := 0, fi_name := ''a.__0''\<rparr>), (fresh_state (Some start_db))\<lparr>mst_database := Some db'\<rparr>)"
proof -
  have "plain ''a''" by (simp add: plain_char_def)
  note ok = sample_entry(1) [OF this]
  have rep: "represents (env_boost sample_env) (store_of sample_env start_db) no_catalogue"
    unfolding start_state(2) by (rule start_state(3))
  show ?thesis
    using create_new_file_refines [OF sample_env_ok start_state(1) rep start_state(4) ok] sample_entry(2) [of "''a''"] by simp blast
qed

text \<open>A database with one storage and no file.\<close>

definition sample_storage :: StorageItem where
  "sample_storage = \<lparr>si_id = 0, si_host_addr = ''abcdefghijklmnop'', si_port = 7, si_available_space = 1000\<rparr>"

definition one_storage :: catalogue where
  "one_storage = \<lparr>cat_storages = [sample_storage], cat_files = []\<rparr>"

definition one_storage_db :: "string \<rightharpoonup> string" where
  "one_storage_db = start_db(''storages'' \<mapsto> MetaOnStoragesItem_serialize (storages_doc one_storage),
     storage_key 0 \<mapsto> StorageItem_serialize sample_storage)"

lemma one_storage_state:
  "mst_database (fresh_state (Some one_storage_db)) = Some one_storage_db"
  "represents (env_boost sample_env) (store_of sample_env one_storage_db) one_storage" "cat_ok one_storage"
  "store_of sample_env one_storage_db ''storage_sizes'' = Some sizes_json"
proof -
  have st: "store_of sample_env db = db" for db
    by (rule ext) (simp add: store_of_def sample_env_def sample_couchbase_def)
  show "mst_database (fresh_state (Some one_storage_db)) = Some one_storage_db" by (simp add: fresh_state_def)
  have plain: "plain (si_host_addr sample_storage)" by (simp add: sample_storage_def plain_char_def)
  note B = env_okD(1) [OF sample_env_ok]
  have "MetaOnStoragesItem_deserialize (env_boost sample_env) (MetaOnStoragesItem_serialize (storages_doc one_storage))
      = Inr (storages_doc one_storage)"
    by (rule meta_on_storages.roundtrip [OF B]) simp_all
  moreover have "StorageItem_deserialize (env_boost sample_env) (StorageItem_serialize sample_storage) = Inr sample_storage"
    by (rule storage_item.roundtrip [OF B plain]) simp
  ultimately show "represents (env_boost sample_env) (store_of sample_env one_storage_db) one_storage"
    using start_state(3) unfolding st
    by (simp add: represents_def one_storage_db_def one_storage_def files_doc_def)
  show "cat_ok one_storage"
    using plain by (simp add: cat_ok_def one_storage_def) (simp add: sample_storage_def)
  show "store_of sample_env one_storage_db ''storage_sizes'' = Some sizes_json"
    unfolding st by (simp add: one_storage_db_def start_db_def)
qed

end
