(* ===== verification/Upload.thy ===== *)
theory Upload
  imports Catalogue Part_Size
begin

text \<open>
  \<^verbatim>\<open>get_stpfields_for_upload\<close> (\<^verbatim>\<open>master/database_procedures.hxx\<close>): the parts of a new file are
  dealt to the storages in turn. The loop has no bound of its own, since a storage without
  room is skipped by decrementing the loop variable; it is modelled with fuel, shown to end
  within it when some storage can take a part, and shown to spin for any fuel when none can.
\<close>

section \<open>The code\<close>

type_synonym dealt = "(StorageItem \<times> partnum_type) list"

text \<open>One more part for a storage that is in the list already, compared by address and port.\<close>

fun bump :: "StorageItem \<Rightarrow> dealt \<Rightarrow> dealt option" where
  "bump st [] = None"
| "bump st ((f, n) # fs) =
     (if host_addr_get f = host_addr_get st \<and> port_get f = port_get st then Some ((f, n + 1) # fs)
      else map_option (Cons (f, n)) (bump st fs))"

text \<open>
  The body of the loop on the counter \<open>i\<close>, the iterator \<open>rr\<close> and the list so far, with the
  increment of the loop. Dereferencing the end of an empty vector is undefined.
\<close>

fun stp_step :: "net_lib \<Rightarrow> fsize_type \<Rightarrow> partnum_type \<Rightarrow> StorageItem list \<Rightarrow>
    partnum_type \<times> nat \<times> dealt \<Rightarrow> (partnum_type \<times> nat \<times> dealt) res" where
  "stp_step N fsize nb_parts storages (i, rr, tmp) =
     (let rr = (if rr = length storages then 0 else rr) in
      rbind (get_part_size fsize (i - 1) nb_parts) (\<lambda>part_size.
      if length storages \<le> rr then Inl Undefined
      else let st = storages ! rr in
        if available_space_get st < part_size then Inr (i - 1 + 1, Suc rr, tmp)
        else case bump st tmp of
               Some tmp' \<Rightarrow> Inr (i + 1, Suc rr, tmp')
             | None \<Rightarrow>
                 (case addr_get N st of
                    Inr _ \<Rightarrow> Inr (i + 1, Suc rr, tmp @ [(st, 1)])
                  | Inl (Throw _) \<Rightarrow> Inr (i - 1 + 1, Suc rr, tmp)
                  | Inl f \<Rightarrow> Inl f)))"

fun stp_loop :: "nat \<Rightarrow> net_lib \<Rightarrow> fsize_type \<Rightarrow> partnum_type \<Rightarrow> StorageItem list \<Rightarrow>
    partnum_type \<times> nat \<times> dealt \<Rightarrow> (nat \<times> dealt) res" where
  "stp_loop 0 N fsize nb_parts storages s = Inl Looping"
| "stp_loop (Suc n) N fsize nb_parts storages s =
     (if fst s \<le> nb_parts
      then rbind (stp_step N fsize nb_parts storages s) (stp_loop n N fsize nb_parts storages)
      else Inr (snd s))"

definition stp_fuel :: "partnum_type \<Rightarrow> nat \<Rightarrow> nat" where
  "stp_fuel nb_parts l = Suc ((unat nb_parts + 1) * l)"

definition next_rand :: "('db master_state, nat) act" where
  "next_rand = bnd (gets (\<lambda>w. mst_rand w 0)) (\<lambda>x.
     bnd (modify (\<lambda>w. w\<lparr>mst_rand := \<lambda>k. mst_rand w (Suc k)\<rparr>)) (\<lambda>_. ret x))"

definition init_round_robin :: "('db, 'e) master_env_scheme \<Rightarrow> ('db master_state, bool) act" where
  "init_round_robin E =
     bnd (gets iterator_initialized) (\<lambda>initialized.
     if initialized then ret True
     else bnd (get_all_storages E) (\<lambda>tmp.
          if tmp = [] then ret False
          else bnd next_rand (\<lambda>r.
               bnd (modify (\<lambda>w. w\<lparr>static_storages := tmp, current_round_robin := r mod (length tmp + 1),
                                   iterator_initialized := True\<rparr>)) (\<lambda>_. ret True))))"

definition stpfield_of :: "net_lib \<Rightarrow> StorageItem \<times> partnum_type \<Rightarrow> STPFIELD res" where
  "stpfield_of N p = rbind (addr_get N (fst p)) (\<lambda>a. Inr \<lparr>stp_addr = a, stp_nb = snd p\<rparr>)"

definition get_stpfields_for_upload ::
  "('db, 'e) master_env_scheme \<Rightarrow> fsize_type \<Rightarrow> ('db master_state, STPFIELD list) act" where
  "get_stpfields_for_upload E fsize =
     bnd (init_round_robin E) (\<lambda>go.
     if \<not> go then ret []
     else bnd (number_of_parts E fsize) (\<lambda>nb_parts.
          bnd (gets (\<lambda>w. (static_storages w, current_round_robin w))) (\<lambda>(storages, rr).
          bnd (lift_res (stp_loop (stp_fuel nb_parts (length storages)) (env_net E) fsize nb_parts storages (1, rr, []))) (\<lambda>(rr', tmp).
          bnd (modify (\<lambda>w. w\<lparr>current_round_robin := rr'\<rparr>)) (\<lambda>_.
          lift_res (mapM (stpfield_of (env_net E)) tmp))))))"

section \<open>The loop ends when a storage has room\<close>

definition storage_key_of :: "StorageItem \<times> partnum_type \<Rightarrow> string \<times> port_type" where
  "storage_key_of p = (host_addr_get (fst p), port_get (fst p))"

definition dealt_ok :: "net_lib \<Rightarrow> StorageItem list \<Rightarrow> dealt \<Rightarrow> bool" where
  "dealt_ok N storages tmp \<longleftrightarrow>
     list_all (\<lambda>p. fst p \<in> set storages \<and> (\<exists>a. addr_get N (fst p) = Inr a) \<and> 0 < unat (snd p)) tmp
     \<and> distinct (map storage_key_of tmp)"

definition parts_dealt :: "dealt \<Rightarrow> nat" where
  "parts_dealt tmp = sum_list (map (\<lambda>p. unat (snd p)) tmp)"

lemma bump_None: "bump st tmp = None \<longleftrightarrow> (host_addr_get st, port_get st) \<notin> storage_key_of ` set tmp"
  by (induction st tmp rule: bump.induct) (auto simp: storage_key_of_def)

lemma bump_Some:
  "bump st tmp = Some tmp' \<Longrightarrow> parts_dealt tmp < 2 ^ 32 - 1 \<Longrightarrow> dealt_ok N storages tmp \<Longrightarrow>
   dealt_ok N storages tmp' \<and> parts_dealt tmp' = Suc (parts_dealt tmp)
   \<and> map storage_key_of tmp' = map storage_key_of tmp"
proof (induction st tmp arbitrary: tmp' rule: bump.induct)
  case (1 st)
  then show ?case by simp
next
  case (2 st f n fs)
  show ?case
  proof (cases "host_addr_get f = host_addr_get st \<and> port_get f = port_get st")
    case True
    have "unat n < 2 ^ 32 - 1" using 2(3) by (simp add: parts_dealt_def)
    then have "unat (n + 1) = Suc (unat n)" by (simp add: unat_word_ariths)
    with True 2(2,4) show ?thesis
      by (auto simp: dealt_ok_def parts_dealt_def storage_key_of_def)
  next
    case False
    with 2(2) obtain fs' where fs': "bump st fs = Some fs'" "tmp' = (f, n) # fs'" by auto
    have "parts_dealt fs < 2 ^ 32 - 1" "dealt_ok N storages fs"
      using 2(3,4) by (auto simp: parts_dealt_def dealt_ok_def)
    from 2(1) [OF False fs'(1) this] fs'(2) 2(4) show ?thesis
      by (auto simp: dealt_ok_def parts_dealt_def)
  qed
qed

text \<open>A storage that can take any part.\<close>

definition roomy :: "net_lib \<Rightarrow> fsize_type \<Rightarrow> partnum_type \<Rightarrow> StorageItem \<Rightarrow> bool" where
  "roomy N fsize nb_parts st \<longleftrightarrow> (\<exists>a. addr_get N st = Inr a) \<and>
     (\<forall>i < nb_parts. case get_part_size fsize i nb_parts of Inl _ \<Rightarrow> False | Inr s \<Rightarrow> s \<le> available_space_get st)"

definition stp_inv :: "net_lib \<Rightarrow> partnum_type \<Rightarrow> StorageItem list \<Rightarrow> partnum_type \<times> nat \<times> dealt \<Rightarrow> bool" where
  "stp_inv N nb_parts storages s = (case s of (i, rr, tmp) \<Rightarrow>
     0 < unat i \<and> unat i \<le> unat nb_parts + 1 \<and> rr \<le> length storages \<and> parts_dealt tmp = unat i - 1
     \<and> dealt_ok N storages tmp)"

definition distance :: "nat \<Rightarrow> nat \<Rightarrow> nat \<Rightarrow> nat" where
  "distance l j rr = (let r = (if rr = l then 0 else rr) in if r \<le> j then j - r else j + l - r)"

definition stp_measure :: "partnum_type \<Rightarrow> nat \<Rightarrow> nat \<Rightarrow> partnum_type \<times> nat \<times> dealt \<Rightarrow> nat" where
  "stp_measure nb_parts l j s = (case s of (i, rr, tmp) \<Rightarrow> (unat nb_parts + 1 - unat i) * l + distance l j rr)"

lemma distance_less: "j < l \<Longrightarrow> rr \<le> l \<Longrightarrow> distance l j rr < l"
  by (auto simp: distance_def Let_def)

lemma distance_Suc: "j < l \<Longrightarrow> r < l \<Longrightarrow> r \<noteq> j \<Longrightarrow> distance l j (Suc r) < distance l j r"
  by (auto simp: distance_def Let_def)

lemma unat_succ_32: "unat i < 2 ^ 32 - 1 \<Longrightarrow> unat (i + 1 :: 32 word) = Suc (unat i)"
  by (simp add: unat_word_ariths)

lemma dealt_ok_snoc:
  assumes "dealt_ok N storages tmp" "st \<in> set storages" "addr_get N st = Inr a" "bump st tmp = None"
  shows "dealt_ok N storages (tmp @ [(st, 1)]) \<and> parts_dealt (tmp @ [(st, 1)]) = Suc (parts_dealt tmp)"
  using assms by (auto simp: dealt_ok_def parts_dealt_def bump_None storage_key_of_def)

text \<open>One round keeps the invariant and comes nearer to the end.\<close>

lemma stp_step_progress:
  assumes inv: "stp_inv N nb_parts storages (i, rr, tmp)" and le: "i \<le> nb_parts"
    and nb: "unat nb_parts < 2 ^ 32 - 1" and j: "j < length storages" "roomy N fsize nb_parts (storages ! j)"
  shows "\<exists>s. stp_step N fsize nb_parts storages (i, rr, tmp) = Inr s \<and> stp_inv N nb_parts storages s
    \<and> stp_measure nb_parts (length storages) j s < stp_measure nb_parts (length storages) j (i, rr, tmp)"
proof -
  let ?l = "length storages" and ?r = "if rr = length storages then 0 else rr"
  let ?st = "storages ! ?r"
  from inv have i: "0 < unat i" "unat i \<le> unat nb_parts + 1" "rr \<le> ?l" "parts_dealt tmp = unat i - 1"
    "dealt_ok N storages tmp" by (simp_all add: stp_inv_def)
  have r: "?r < ?l" using i(3) j(1) by (cases "rr = ?l") auto
  have i32: "unat i < 2 ^ 32 - 1" using le nb by (simp add: word_le_nat_alt)
  have pred: "unat (i - 1) = unat i - 1" using i(1) by (simp add: unat_sub_if_size)
  have "i - 1 < nb_parts" using le i(1) pred by (simp add: word_less_nat_alt word_le_nat_alt)
  then obtain sz where sz: "get_part_size fsize (i - 1) nb_parts = Inr sz" "sz \<le> available_space_get (storages ! j)"
    using j(2) by (cases "get_part_size fsize (i - 1) nb_parts") (auto simp: roomy_def dest!: spec [of _ "i - 1"])
  have st: "?st \<in> set storages" using r by simp
  have near: "distance ?l j (Suc ?r) < distance ?l j rr" if "?r \<noteq> j"
  proof -
    have "distance ?l j ?r = distance ?l j rr" using r unfolding distance_def by (simp split: if_splits)
    with distance_Suc [OF j(1) r that] show ?thesis by simp
  qed
  have dist: "distance ?l j (Suc ?r) < ?l" using distance_less [OF j(1)] r by simp
  have placed: "\<exists>s. Inr (i + 1, Suc ?r, tmp') = Inr s \<and> stp_inv N nb_parts storages s
      \<and> stp_measure nb_parts ?l j s < stp_measure nb_parts ?l j (i, rr, tmp)"
    if "dealt_ok N storages tmp'" "parts_dealt tmp' = Suc (parts_dealt tmp)" for tmp'
  proof -
    have "unat nb_parts + 1 - unat i = Suc (unat nb_parts + 1 - unat (i + 1))"
      using le by (simp add: unat_succ_32 [OF i32] word_le_nat_alt)
    then have "stp_measure nb_parts ?l j (i + 1, Suc ?r, tmp') < stp_measure nb_parts ?l j (i, rr, tmp)"
      using dist by (simp add: stp_measure_def)
    moreover have "stp_inv N nb_parts storages (i + 1, Suc ?r, tmp')"
      using that i le r by (simp add: stp_inv_def unat_succ_32 [OF i32] word_le_nat_alt)
    ultimately show ?thesis by blast
  qed
  have skipped: "\<exists>s. Inr (i - 1 + 1, Suc ?r, tmp) = Inr s \<and> stp_inv N nb_parts storages s
      \<and> stp_measure nb_parts ?l j s < stp_measure nb_parts ?l j (i, rr, tmp)"
    if "?r \<noteq> j"
    using near [OF that] i r by (simp add: stp_measure_def stp_inv_def)
  have step: "stp_step N fsize nb_parts storages (i, rr, tmp) =
      (if available_space_get ?st < sz then Inr (i - 1 + 1, Suc ?r, tmp)
       else case bump ?st tmp of
              Some tmp' \<Rightarrow> Inr (i + 1, Suc ?r, tmp')
            | None \<Rightarrow> (case addr_get N ?st of
                  Inr _ \<Rightarrow> Inr (i + 1, Suc ?r, tmp @ [(?st, 1)])
                | Inl (Throw _) \<Rightarrow> Inr (i - 1 + 1, Suc ?r, tmp)
                | Inl f \<Rightarrow> Inl f))"
    using r sz(1) by (simp add: Let_def)
  show ?thesis
  proof (cases "available_space_get ?st < sz")
    case True
    have "?r \<noteq> j"
    proof
      assume "?r = j"
      with True have "available_space_get (storages ! j) < sz" by (simp only:)
      with sz(2) show False by (simp add: not_le [symmetric])
    qed
    from skipped [OF this] True show ?thesis unfolding step by simp
  next
    case room: False
    show ?thesis
    proof (cases "bump ?st tmp")
      case (Some tmp')
      have "parts_dealt tmp < 2 ^ 32 - 1" using i(4) i32 by simp
      from placed bump_Some [OF Some this i(5)] Some room show ?thesis unfolding step by simp
    next
      case None
      show ?thesis
      proof (cases "addr_get N ?st")
        case (Inr a)
        from placed dealt_ok_snoc [OF i(5) st Inr None] Inr None room show ?thesis unfolding step by simp
      next
        case (Inl f)
        then obtain e where e: "f = Throw e" using get_addr_throws unfolding addr_get_def by blast
        have "?r \<noteq> j"
        proof
          assume "?r = j"
          with Inl have "addr_get N (storages ! j) = Inl f" by (simp only:)
          with j(2) show False by (simp add: roomy_def)
        qed
        from skipped [OF this] Inl e None room show ?thesis unfolding step by simp
      qed
    qed
  qed
qed

lemma stp_loop_returns:
  assumes "stp_inv N nb_parts storages s" "stp_measure nb_parts (length storages) j s < n"
    and "unat nb_parts < 2 ^ 32 - 1" "j < length storages" "roomy N fsize nb_parts (storages ! j)"
  shows "\<exists>rr tmp. stp_loop n N fsize nb_parts storages s = Inr (rr, tmp)
    \<and> rr \<le> length storages \<and> dealt_ok N storages tmp \<and> parts_dealt tmp = unat nb_parts"
  using assms(1,2)
proof (induction n arbitrary: s)
  case 0
  then show ?case by simp
next
  case (Suc n)
  obtain i rr tmp where s: "s = (i, rr, tmp)" by (cases s)
  show ?case
  proof (cases "i \<le> nb_parts")
    case True
    obtain s' where "stp_step N fsize nb_parts storages s = Inr s'" "stp_inv N nb_parts storages s'"
      "stp_measure nb_parts (length storages) j s' < stp_measure nb_parts (length storages) j s"
      using stp_step_progress [OF Suc.prems(1) [unfolded s] True assms(3-5)] s by blast
    with Suc.IH [of s'] Suc.prems(2) True s show ?thesis by (simp del: stp_step.simps)
  next
    case False
    with Suc.prems(1) have "unat i = unat nb_parts + 1"
      by (simp add: s stp_inv_def word_le_nat_alt)
    with False Suc.prems(1) show ?thesis by (simp add: s stp_inv_def)
  qed
qed

lemma parts_are_dealt:
  assumes "roomy N fsize nb_parts st" "st \<in> set storages" "rr \<le> length storages"
    and "unat nb_parts < 2 ^ 32 - 1"
  shows "\<exists>rr' tmp. stp_loop (stp_fuel nb_parts (length storages)) N fsize nb_parts storages (1, rr, []) = Inr (rr', tmp)
    \<and> rr' \<le> length storages \<and> parts_dealt tmp = unat nb_parts \<and> distinct (map storage_key_of tmp)
    \<and> list_all (\<lambda>p. fst p \<in> set storages \<and> (\<exists>a. addr_get N (fst p) = Inr a) \<and> 0 < unat (snd p)) tmp"
proof -
  obtain j where j: "j < length storages" "storages ! j = st"
    using assms(2) by (auto simp: in_set_conv_nth)
  have inv: "stp_inv N nb_parts storages (1, rr, [])"
    using assms(3) by (simp add: stp_inv_def parts_dealt_def dealt_ok_def)
  have "stp_measure nb_parts (length storages) j (1, rr, []) < stp_fuel nb_parts (length storages)"
    using distance_less [OF j(1) assms(3)] by (simp add: stp_measure_def stp_fuel_def)
  from stp_loop_returns [OF inv this assms(4) j(1), of fsize] assms(1) j(2) show ?thesis
    by (auto simp: dealt_ok_def)
qed


lemma part_of_file_exists:
  assumes "roomy N fsize nb_parts st" "0 < nb_parts"
  shows "\<exists>sz. get_part_size fsize 0 nb_parts = Inr sz \<and> sz \<le> available_space_get st"
  using assms by (cases "get_part_size fsize 0 nb_parts") (auto simp: roomy_def dest!: spec [of _ 0])

lemma mapM_stpfields:
  "list_all (\<lambda>p. \<exists>a. addr_get N (fst p) = Inr a) tmp \<Longrightarrow> net_ok N \<Longrightarrow>
   \<exists>flds. mapM (stpfield_of N) tmp = Inr flds \<and> map stp_nb flds = map snd tmp \<and> list_all wf_STPFIELD flds
     \<and> list_all2 (\<lambda>f p. addr_get N (fst p) = Inr (stp_addr f)) flds tmp"
proof (induction tmp)
  case Nil
  then show ?case by simp
next
  case (Cons p tmp)
  then obtain flds a where "mapM (stpfield_of N) tmp = Inr flds" "map stp_nb flds = map snd tmp"
    "list_all wf_STPFIELD flds" "list_all2 (\<lambda>f p. addr_get N (fst p) = Inr (stp_addr f)) flds tmp"
    and a: "addr_get N (fst p) = Inr a" by auto
  moreover from a have "wf_ADDR a" using get_addr_wf [OF Cons.prems(2)] unfolding addr_get_def by blast
  then have "wf_STPFIELD \<lparr>stp_addr = a, stp_nb = snd p\<rparr>" by (simp add: wf_STPFIELD_def)
  moreover have "stpfield_of N p = Inr \<lparr>stp_addr = a, stp_nb = snd p\<rparr>"
    using a by (simp add: stpfield_of_def)
  ultimately show ?case
    using a by (intro exI [of _ "\<lparr>stp_addr = a, stp_nb = snd p\<rparr> # flds"]) simp
qed

lemma number_of_parts_same: "mst_database w' = mst_database w \<Longrightarrow>
  fst (number_of_parts E s w') = fst (number_of_parts E s w) \<and> snd (number_of_parts E s w') = w'"
  by (cases "mst_database w") (auto simp: number_of_parts_def db_get_def act_simps split: sum.splits)

section \<open>The whole procedure\<close>

text \<open>A state the procedure can start from, as it is and after reading the storages.\<close>

definition deals :: "net_lib \<Rightarrow> StorageItem list \<Rightarrow> partnum_type \<Rightarrow> STPFIELD list \<Rightarrow> bool" where
  "deals N storages nb_parts flds \<longleftrightarrow>
     sum_list (map (\<lambda>f. unat (stp_nb f)) flds) = unat nb_parts
     \<and> list_all (\<lambda>f. wf_STPFIELD f \<and> 0 < unat (stp_nb f) \<and> (\<exists>st \<in> set storages. addr_get N st = Inr (stp_addr f))) flds"

text \<open>
  The storages the parts of a request are dealt to: those kept in the static list by an earlier
  request, or those of the database when the list has to be made. The static iterator
  points into its list or at its end.
\<close>

definition dealt_over :: "'db master_state \<Rightarrow> catalogue \<Rightarrow> StorageItem list" where
  "dealt_over w cat = (if iterator_initialized w then static_storages w else cat_storages cat)"

definition turn_ok :: "'db master_state \<Rightarrow> bool" where
  "turn_ok w \<longleftrightarrow> (iterator_initialized w \<longrightarrow> current_round_robin w \<le> length (static_storages w))"

lemma turn_ok_fresh [simp]: "turn_ok (fresh_state db)" "dealt_over (fresh_state db) cat = cat_storages cat"
  by (simp_all add: turn_ok_def dealt_over_def fresh_state_def)

lemma init_round_robin_run:
  assumes "mst_database w = Some db" "represents (env_boost E) (store_of E db) cat" "cat_ok cat"
    and "turn_ok w" "dealt_over w cat \<noteq> []"
  obtains w1 where "init_round_robin E w = (Inr True, w1)" "mst_database w1 = Some db" "iterator_initialized w1"
    "static_storages w1 = dealt_over w cat" "current_round_robin w1 \<le> length (dealt_over w cat)"
proof (cases "iterator_initialized w")
  case True
  then show ?thesis
    using that [of w] assms by (simp add: init_round_robin_def act_simps dealt_over_def turn_ok_def)
next
  case False
  let ?sts = "cat_storages cat"
  let ?w = "w\<lparr>iterator_initialized := True, mst_rand := \<lambda>k. mst_rand w (Suc k), static_storages := ?sts,
    current_round_robin := mst_rand w 0 mod Suc (length ?sts)\<rparr>"
  have "init_round_robin E w = (Inr True, ?w)"
    using False assms(5) get_all_storages_run [OF assms(1-3)]
    by (simp add: init_round_robin_def next_rand_def act_simps dealt_over_def)
  moreover have "mst_rand w 0 mod Suc (length ?sts) \<le> length ?sts" by (simp flip: less_Suc_eq_le)
  ultimately show ?thesis using that [of ?w] False assms(1) by (simp add: dealt_over_def)
qed

lemma upload_fields_run:
  assumes "env_ok E" "mst_database w = Some db"
    and "represents (env_boost E) (store_of E db) cat" "cat_ok cat"
    and "store_of E db ''storage_sizes'' = Some sizes_json"
    and "turn_ok w"
    and "st \<in> set (dealt_over w cat)" "roomy (env_net E) fsize (first_size size_values fsize) st"
    and "unat (first_size size_values fsize) < 2 ^ 32 - 1"
  shows "\<exists>flds w'. get_stpfields_for_upload E fsize w = (Inr flds, w')
    \<and> mst_database w' = Some db \<and> deals (env_net E) (dealt_over w cat) (first_size size_values fsize) flds
    \<and> iterator_initialized w' \<and> static_storages w' = dealt_over w cat \<and> turn_ok w'"
proof -
  let ?sts = "dealt_over w cat" and ?nb = "first_size size_values fsize" and ?N = "env_net E"
  have ne: "?sts \<noteq> []" using assms(7) by auto
  obtain w1 where init: "init_round_robin E w = (Inr True, w1)"
    and w1: "mst_database w1 = Some db" "iterator_initialized w1" "static_storages w1 = ?sts"
      "current_round_robin w1 \<le> length ?sts"
    by (rule init_round_robin_run [OF assms(2-4,6) ne])
  have nb: "number_of_parts E fsize w1 = (Inr ?nb, w1)"
    by (rule number_of_parts_run [OF assms(1) w1(1) assms(5)])
  obtain rr' tmp where loop: "stp_loop (stp_fuel ?nb (length ?sts)) ?N fsize ?nb ?sts
      (1, current_round_robin w1, []) = Inr (rr', tmp)" "rr' \<le> length ?sts"
    and tmp: "parts_dealt tmp = unat ?nb"
      "list_all (\<lambda>p. fst p \<in> set ?sts \<and> (\<exists>a. addr_get ?N (fst p) = Inr a) \<and> 0 < unat (snd p)) tmp"
    using parts_are_dealt [OF assms(8,7) w1(4) assms(9)] by blast
  obtain flds where flds: "mapM (stpfield_of ?N) tmp = Inr flds" "map stp_nb flds = map snd tmp"
    "list_all wf_STPFIELD flds" "list_all2 (\<lambda>f p. addr_get ?N (fst p) = Inr (stp_addr f)) flds tmp"
    using mapM_stpfields [OF _ env_okD(2) [OF assms(1)], of tmp] tmp(2) by (auto simp: list_all_iff)
  have "map (\<lambda>f. unat (stp_nb f)) flds = map (\<lambda>p. unat (snd p)) tmp"
    using arg_cong [OF flds(2), of "map unat"] by (simp add: comp_def)
  then have sum: "sum_list (map (\<lambda>f. unat (stp_nb f)) flds) = unat ?nb"
    using tmp(1) by (simp add: parts_dealt_def)
  have "wf_STPFIELD f \<and> 0 < unat (stp_nb f) \<and> (\<exists>st \<in> set ?sts. addr_get ?N st = Inr (stp_addr f))"
    if f: "f \<in> set flds" for f
  proof -
    obtain k where k: "k < length flds" "flds ! k = f" using f by (auto simp: in_set_conv_nth)
    have len: "length tmp = length flds" using flds(4) by (simp add: list_all2_lengthD)
    have "stp_nb f = snd (tmp ! k)"
      using arg_cong [OF flds(2), of "\<lambda>xs. xs ! k"] k len by simp
    moreover have "addr_get ?N (fst (tmp ! k)) = Inr (stp_addr f)"
      using list_all2_nthD [OF flds(4) k(1)] k(2) by simp
    moreover have "tmp ! k \<in> set tmp" using k(1) len by simp
    ultimately show ?thesis using tmp(2) flds(3) f by (auto simp: list_all_iff)
  qed
  then have "deals ?N ?sts ?nb flds" by (simp add: deals_def sum list_all_iff)
  moreover have "get_stpfields_for_upload E fsize w = (Inr flds, w1\<lparr>current_round_robin := rr'\<rparr>)"
    by (simp add: get_stpfields_for_upload_def act_simps init nb w1(3) loop(1) flds(1))
  ultimately show ?thesis using w1 loop(2) by (auto simp: turn_ok_def)
qed

text \<open>
  C16: Dealing the parts of a new file below 16 MiB to the storages ends when one of the storages
  it deals over has a known address and room for every part. These are the storages of the
  database, taken from a random start, when the static list has to be made, and otherwise the
  static list of an earlier request, taken from where that one stopped. With the table of
  sizes the repository ships, every part is dealt, to storages of that list with a known
  address; each storage listed has at least one part; and the static list and its iterator
  are left such that the next request can start from them.
\<close>

theorem upload_deals_every_part:
  assumes "env_ok E" "mst_database w = Some db"
    and "represents (env_boost E) (store_of E db) cat" "cat_ok cat"
    and "store_of E db ''storage_sizes'' = Some sizes_json" "turn_ok w"
    and "st \<in> set (dealt_over w cat)" "roomy (env_net E) fsize (first_size size_values fsize) st"
    and "unat fsize < 2 ^ 24"
  shows "\<exists>flds w'. get_stpfields_for_upload E fsize w = (Inr flds, w') \<and> mst_database w' = Some db
    \<and> deals (env_net E) (dealt_over w cat) (first_size size_values fsize) flds
    \<and> iterator_initialized w' \<and> static_storages w' = dealt_over w cat \<and> turn_ok w'"
proof -
  have "unat (first_size size_values fsize) < 2 ^ 32 - 1"
    by (rule le_less_trans [OF first_size_shipped(2)]) (use assms(9) in simp)
  from upload_fields_run [OF assms(1-8) this] show ?thesis .
qed

lemma sample_first_size: "first_size size_values 10 = 1"
  by (simp add: size_values_def size_table_def)

lemma sample_part_size: "get_part_size 10 0 1 = Inr 10"
proof -
  obtain s where "get_part_size 10 (word_of_nat 0) (word_of_nat 1) = Inr s" "unat s = part_len 10 1 0"
    using get_part_size_len [of 10 0 1] by auto
  then have "get_part_size 10 0 1 = Inr s" "unat s = unat (10 :: 64 word)" by (simp_all add: part_len_def)
  then show ?thesis using unsigned_word_eqI by metis
qed

lemma sample_roomy: "roomy sample_net 10 1 sample_storage"
proof -
  have "i = 0" if "i < 1" for i :: "32 word" using that by (simp add: word_less_nat_alt unat_eq_0)
  then show ?thesis
    using sample_part_size
    by (auto simp: roomy_def addr_get_def get_addr_def get_ipv6_def sample_net_def sample_storage_def
        available_space_get_def split: sum.splits)
qed

text \<open>A fresh master, and one whose static list is used up: its iterator is at the end.\<close>

definition turned_state :: "(string \<rightharpoonup> string) master_state" where
  "turned_state = (fresh_state (Some one_storage_db))\<lparr>iterator_initialized := True,
     static_storages := [sample_storage], current_round_robin := 1\<rparr>"

lemma upload_deals_every_part_witness:
  "(\<exists>flds w'. get_stpfields_for_upload sample_env 10 (fresh_state (Some one_storage_db)) = (Inr flds, w')
      \<and> deals sample_net [sample_storage] 1 flds)
   \<and> (\<exists>flds w'. get_stpfields_for_upload sample_env 10 turned_state = (Inr flds, w')
      \<and> deals sample_net [sample_storage] 1 flds)"
proof -
  have 1: "turn_ok turned_state" "mst_database turned_state = Some one_storage_db"
    "sample_storage \<in> set (dealt_over turned_state one_storage)" "dealt_over turned_state one_storage = [sample_storage]"
    by (simp_all add: turned_state_def turn_ok_def dealt_over_def fresh_state_def)
  have 2: "sample_storage \<in> set (dealt_over (fresh_state (Some one_storage_db)) one_storage)" by (simp add: one_storage_def)
  have 3: "roomy (env_net sample_env) 10 (first_size size_values 10) sample_storage"
    using sample_roomy by (simp add: sample_first_size) (simp add: sample_env_def)
  have 4: "unat (10 :: fsize_type) < 2 ^ 24" by simp
  have 5: "cat_storages one_storage = [sample_storage]" "env_net sample_env = sample_net"
    by (simp_all add: one_storage_def sample_env_def)
  from upload_deals_every_part [OF sample_env_ok one_storage_state turn_ok_fresh(1) 2 3 4]
    upload_deals_every_part [OF sample_env_ok 1(2) one_storage_state(2-4) 1(1,3) 3 4]
  show ?thesis unfolding turn_ok_fresh(2) sample_first_size 1(4) 5 by blast
qed

text \<open>
  C17: When no storage has room for the first part the loop never ends: it uses up any amount
  of fuel, so the thread of the master that handles the request spins.
\<close>

theorem full_storages_spin:
  assumes "storages \<noteq> []" "1 \<le> nb_parts" "get_part_size fsize 0 nb_parts = Inr sz"
    and "list_all (\<lambda>st. available_space_get st < sz) storages" "rr \<le> length storages"
  shows "stp_loop n N fsize nb_parts storages (1, rr, []) = Inl Looping"
  using assms(5)
proof (induction n arbitrary: rr)
  case 0
  show ?case by simp
next
  case (Suc n)
  let ?r = "if rr = length storages then 0 else rr"
  have r: "?r < length storages" using Suc.prems assms(1) by (cases "rr = length storages") auto
  then have "available_space_get (storages ! ?r) < sz" using assms(4) by (simp add: list_all_length)
  with r assms(3) have "stp_step N fsize nb_parts storages (1, rr, []) = Inr (1, Suc ?r, [])"
    by (simp add: Let_def)
  with Suc.IH [of "Suc ?r"] r assms(2) show ?case by (simp del: stp_step.simps)
qed

lemma full_storages_spin_witness:
  "\<forall>n. stp_loop n sample_net 10 1 [sample_storage\<lparr>si_available_space := 9\<rparr>] (1, 0, []) = Inl Looping"
proof
  show "stp_loop n sample_net 10 1 [sample_storage\<lparr>si_available_space := 9\<rparr>] (1, 0, []) = Inl Looping" for n
    using full_storages_spin [OF _ _ sample_part_size, of "[sample_storage\<lparr>si_available_space := 9\<rparr>]" 0 n sample_net]
    by (simp add: available_space_get_def del: stp_loop.simps)
qed

end
