(* ===== verification/Master.thy ===== *)
theory Master
  imports Upload Session
begin

text \<open>
  The master's request handlers (\<^verbatim>\<open>master/master_callbacks.hxx\<close>) and its dispatcher
  (\<^verbatim>\<open>master/master.hxx\<close>). A handler is a computation on the session it answers on and the
  state of the master.
\<close>

section \<open>Helpers of the handlers\<close>

text \<open>\<^verbatim>\<open>std::string(p + off, n)\<close> on a message.\<close>

definition string_at :: "nat \<Rightarrow> nat \<Rightarrow> string \<Rightarrow> string res" where
  "string_at off n buf = view (off + n) (slice off n) buf"

text \<open>\<^verbatim>\<open>try { m } catch (std::logic_error)\<close> around a lookup; \<open>None\<close> is the handler's branch.\<close>

definition try_logic :: "('w, 'a) act \<Rightarrow> ('w, 'a option) act" where
  "try_logic m = catching is_logic_error (bnd m (\<lambda>x. ret (Some x))) (\<lambda>_. ret None)"

definition send_error :: "Packet \<Rightarrow> error_code \<Rightarrow> string \<Rightarrow> ('w conn, keep_alive) act" where
  "send_error p err msg = bnd (send_ack p err) (\<lambda>_. ret KA_No)"

section \<open>Uploads\<close>

text \<open>
  The length of the file name is computed in \<^verbatim>\<open>size_t\<close>: for a packet shorter than the fixed
  part it wraps to a number no string can have, and the constructor throws.

  Here and for a download the code takes the address of the first field, \<^verbatim>\<open>&*fields.begin()\<close>, even
  when there is none (a redundancy of 0 without a storage, a file without a part), which the
  language leaves undefined; modelled is the message of no bytes that comes of it where the
  iterator of an empty vector is a null pointer.
\<close>

definition cm_up_req :: "('db, 'e) master_env_scheme \<Rightarrow> ('db master_state) dispatcher" where
  "cm_up_req E packet =
     bnd (lift_res (front_data packet)) (\<lambda>data.
     if unat (size_get packet) < sizeof_up_req then raise (Throw Length_error)
     else
       bnd (lift_res (string_at sizeof_up_req (unat (size_get packet) - sizeof_up_req) data)) (\<lambda>fname.
       bnd (lift_res (view sizeof_up_req dec_up_req data)) (\<lambda>req.
       bnd (lift_res (FileItem_make 0 fname (up_req_fsize req) (up_req_rdcy req) 0 blank_hash False [])) (\<lambda>fi.
       bnd (on_world (number_of_parts E (file_size_get fi))) (\<lambda>nb_parts.
       if nb_parts = 0
       then send_error packet missing_storage ''Add some storages so that clients can upload!''
       else
         bnd (on_world (get_stpfields_for_upload E (file_size_get fi))) (\<lambda>flds.
         if length flds < unat (redundancy_get fi)
         then send_error packet redundancy
                (''Client is asking for a redundancy of '' @ decimal (unat (redundancy_get fi))
                 @ '' but there is only '' @ decimal (length flds) @ '' storages available.'')
         else
           bnd (on_world (create_new_file E fi)) (\<lambda>fi.
           bnd (lift_res (mapM (\<lambda>it. binary_to_string_ipv6 (env_net E) (addr_ipv6 (stp_addr it)) 16) flds)) (\<lambda>_.
           (let file_id = FileItem_id_get fi;
                response = packet_empty m_c_fromto up_pieces_loc_w;
                response = add_message (enc_word file_id) response;
                response = add_message (concat (map enc_STPFIELD flds)) response
            in bnd (blocking_send response) (\<lambda>_. ret KA_No))))))))))"

section \<open>Downloads\<close>

text \<open>
  The address of a part: the first storage among its locations that resolves to an address
  with a port. \<^verbatim>\<open>addr\<close> keeps what it holds when nothing is found.
\<close>

fun try_storages :: "net_lib \<Rightarrow> stid_type \<Rightarrow> StorageItem list \<Rightarrow> ADDR \<Rightarrow> ADDR" where
  "try_storages N stid [] addr = addr"
| "try_storages N stid (st # sts) addr =
     (if StorageItem_id_get st = stid
      then case addr_get N st of Inr a \<Rightarrow> a | Inl _ \<Rightarrow> try_storages N stid sts addr
      else try_storages N stid sts addr)"

fun part_address :: "net_lib \<Rightarrow> StorageItem list \<Rightarrow> stid_type list \<Rightarrow> ADDR \<Rightarrow> ADDR" where
  "part_address N storages [] addr = addr"
| "part_address N storages (stid # stids) addr =
     (let addr = try_storages N stid storages addr
      in if addr_port addr \<noteq> 0 then addr else part_address N storages stids addr)"

definition unset_addr :: "('db, 'e) master_env_scheme \<Rightarrow> ADDR" where
  "unset_addr E = \<lparr>addr_ipv6 = env_uninit E, addr_port = 0\<rparr>"

text \<open>\<open>None\<close>: a part with no location, for which the handler answers with an error.\<close>

fun down_fields :: "('db, 'e) master_env_scheme \<Rightarrow> StorageItem list \<Rightarrow> PartItem list \<Rightarrow> STPFIELD list option" where
  "down_fields E storages [] = Some []"
| "down_fields E storages (part # parts) =
     (if locations_get part = [] then None
      else map_option (Cons \<lparr>stp_addr = part_address (env_net E) storages (locations_get part) (unset_addr E),
                             stp_nb = num_get part\<rparr>)
             (down_fields E storages parts))"

definition cm_down_req :: "('db, 'e) master_env_scheme \<Rightarrow> ('db master_state) dispatcher" where
  "cm_down_req E packet =
     bnd (lift_res (front_data packet)) (\<lambda>data.
     bnd (lift_res (string_at 0 (unat (size_get packet)) data)) (\<lambda>fname.
     bnd (on_world (try_logic (db_get E (file_key fname)))) (\<lambda>r. case r of
       None \<Rightarrow> send_error packet file_not_found (''File '' @ fname @ '' does not exist.'')
     | Some json \<Rightarrow>
         bnd (lift_res (FileItem_deserialize (env_boost E) json)) (\<lambda>fi.
         bnd (on_world (get_all_storages E)) (\<lambda>storages.
         case down_fields E storages (parts_get fi) of
           None \<Rightarrow> send_error packet incomplete_file ''File is not complete on ourservers (wait for full upload).''
         | Some flds \<Rightarrow>
             (let response = packet_empty m_c_fromto down_pieces_loc_w;
                  response = add_message (enc_word (file_size_get fi)) response;
                  response = add_message (enc_word (FileItem_id_get fi)) response;
                  response = add_message (concat (map enc_STPFIELD flds)) response
              in bnd (blocking_send response) (\<lambda>_. ret KA_No)))))))"

section \<open>Deletions\<close>

text \<open>
  The key looked up is the bare file name. Each part with a location sends one empty
  \<^verbatim>\<open>del_act\<close> packet, on the session of the request.
\<close>

fun del_parts :: "Packet \<Rightarrow> PartItem list \<Rightarrow> ('w conn, keep_alive) act" where
  "del_parts packet [] = ret KA_No"
| "del_parts packet (part # parts) =
     (if locations_get part = []
      then send_error packet incomplete_file ''File is not complete on ourservers (wait for full upload).''
      else bnd (blocking_send (packet_empty m_s_fromto del_act_w)) (\<lambda>_. del_parts packet parts))"

definition cm_del_req :: "('db, 'e) master_env_scheme \<Rightarrow> ('db master_state) dispatcher" where
  "cm_del_req E packet =
     bnd (lift_res (front_data packet)) (\<lambda>data.
     bnd (lift_res (string_at 0 (unat (size_get packet)) data)) (\<lambda>fname.
     bnd (on_world (try_logic (db_get E fname))) (\<lambda>r. case r of
       None \<Rightarrow> send_error packet file_not_found (''File '' @ fname @ '' does not exist.'')
     | Some json \<Rightarrow>
         bnd (lift_res (FileItem_deserialize (env_boost E) json)) (\<lambda>fi.
         bnd (on_world (get_all_storages E)) (\<lambda>storages.
           del_parts packet (parts_get fi))))))"

section \<open>Acknowledged parts\<close>

text \<open>
  The loop over the parts adds the storage to each part with the number and runs to the end,
  so that the iterator it leaves is the end; the position of the iterator is returned.
\<close>

fun mark_parts :: "partnum_type \<Rightarrow> stid_type \<Rightarrow> nat \<Rightarrow> PartItem list \<Rightarrow> PartItem list \<times> nat" where
  "mark_parts partnum stid it [] = ([], it)"
| "mark_parts partnum stid it (p # ps) =
     (let p = (if num_get p = partnum then add_stid stid p else p);
          (ps, it) = mark_parts partnum stid (Suc it) ps
      in (p # ps, it))"

definition record_part :: "part_ack \<Rightarrow> FileItem \<Rightarrow> (FileItem \<times> nat) res" where
  "record_part req fi =
     (let (parts, it) = mark_parts (partid_partnum (part_ack_partid req)) (part_ack_stid req) 0 (parts_get fi)
      in if it = length parts
         then rbind (PartItem_make (part_ack_partid req) blank_hash [part_ack_stid req]) (\<lambda>p.
                Inr (fi\<lparr>fi_parts := parts @ [p]\<rparr>, length parts))
         else Inr (fi\<lparr>fi_parts := parts\<rparr>, it))"

fun replicate_to :: "net_lib \<Rightarrow> part_ack \<Rightarrow> stid_type list \<Rightarrow> StorageItem list \<Rightarrow> ('w conn, unit) act" where
  "replicate_to N req locations [] = ret ()"
| "replicate_to N req locations (st # sts) =
     (if StorageItem_id_get st \<in> set locations then replicate_to N req locations sts
      else bnd (lift_res (addr_get N st)) (\<lambda>a.
             blocking_send (add_message (enc_part_loc \<lparr>part_loc_partid = part_ack_partid req, part_loc_addr = a\<rparr>)
                             (packet_empty m_s_fromto part_loc_w))))"

definition sm_part_ack :: "('db, 'e) master_env_scheme \<Rightarrow> ('db master_state) dispatcher" where
  "sm_part_ack E packet =
     bnd (lift_res (rbind (front_data packet) (view sizeof_part_ack dec_part_ack))) (\<lambda>req.
     bnd (on_world (db_get E ''files'')) (\<lambda>json.
     bnd (lift_res (MetaOnFilesItem_deserialize (env_boost E) json)) (\<lambda>mof.
     bnd (lift_res (file_name_by_id mof (partid_fid (part_ack_partid req)))) (\<lambda>fname.
     bnd (on_world (db_get E (file_key fname))) (\<lambda>json.
     bnd (lift_res (FileItem_deserialize (env_boost E) json)) (\<lambda>fi.
     bnd (lift_res (record_part req fi)) (\<lambda>(fi, it).
     bnd (lift_res (FileItem_serialize fi)) (\<lambda>s.
     bnd (on_world (db_put E (file_key fname) s)) (\<lambda>_.
     if unat (redundancy_get fi) \<le> length (locations_get (parts_get fi ! it))
     then bnd (send_ack packet success) (\<lambda>_. ret KA_No)
     else
       bnd (on_world (get_all_storages E)) (\<lambda>storages.
       bnd (replicate_to (env_net E) req (locations_get (parts_get fi ! it)) (env_shuffle E storages)) (\<lambda>_.
         ret KA_No)))))))))))"

section \<open>New storages\<close>

definition sm_id_req :: "('db, 'e) master_env_scheme \<Rightarrow> ('db master_state) dispatcher" where
  "sm_id_req E packet =
     bnd (lift_res (rbind (front_data packet) (view sizeof_id_req dec_id_req))) (\<lambda>req.
     bnd (on_world (db_get E ''storages'')) (\<lambda>json.
     bnd (lift_res (MetaOnStoragesItem_deserialize (env_boost E) json)) (\<lambda>mos.
     bnd (gets (\<lambda>(s, w). ses_remote s)) (\<lambda>remote.
     (let si = StorageItem_make (MetaOnStoragesItem_count_get mos) remote (id_req_port req) (id_req_avspace req) in
      bnd (on_world (db_put E (storage_key (unat (StorageItem_id_get si))) (StorageItem_serialize si))) (\<lambda>_.
      (let mos = MetaOnStoragesItem_count_set (MetaOnStoragesItem_count_get mos + 1) mos;
           mos = available_space_set (MetaOnStoragesItem_available_space_get mos + ucast (id_req_avspace req)) mos
       in bnd (on_world (db_put E ''storages'' (MetaOnStoragesItem_serialize mos))) (\<lambda>_.
          bnd (blocking_send (add_message (enc_fid_info \<lparr>fid_info_stid = StorageItem_id_get si\<rparr>)
                (packet_empty m_s_fromto fid_info_w))) (\<lambda>_.
            ret KA_No)))))))))"

section \<open>The dispatcher\<close>

text \<open>
  The inner switches break out of themselves only, so an unknown request falls through to
  the cases below.
\<close>

definition master_m_m :: "('db, 'e) master_env_scheme \<Rightarrow> ('db master_state) dispatcher" where
  "master_m_m E packet = ret KA_No"

definition master_s_m :: "('db, 'e) master_env_scheme \<Rightarrow> ('db master_state) dispatcher" where
  "master_s_m E packet =
     (if what_get packet = sm_part_ack_w then sm_part_ack E packet
      else if what_get packet = id_req_w then sm_id_req E packet
      else master_m_m E packet)"

definition master_c_m :: "('db, 'e) master_env_scheme \<Rightarrow> ('db master_state) dispatcher" where
  "master_c_m E packet =
     (if what_get packet = up_req_w then cm_up_req E packet
      else if what_get packet = down_req_w then cm_down_req E packet
      else if what_get packet = del_req_w then cm_del_req E packet
      else master_s_m E packet)"

definition master_dispatcher :: "('db, 'e) master_env_scheme \<Rightarrow> ('db master_state) dispatcher" where
  "master_dispatcher E packet =
     (if size_get packet < 1 then send_error packet invalid_packet ''Recieved an invalid packet''
      else if what_get packet = ack_w then ret KA_No
      else if fromto_get packet = c_m_fromto then master_c_m E packet
      else if fromto_get packet = s_m_fromto then master_s_m E packet
      else if fromto_get packet = m_m_fromto then master_m_m E packet
      else ret KA_No)"

section \<open>What the dispatcher does\<close>

definition master_table :: "('db, 'e) master_env_scheme \<Rightarrow> ('db master_state) dispatcher" where
  "master_table E packet =
     (let request = (fromto_get packet, what_get packet) in
      if size_get packet = 0 then send_error packet invalid_packet []
      else if request = (c_m_fromto, up_req_w) then cm_up_req E packet
      else if request = (c_m_fromto, down_req_w) then cm_down_req E packet
      else if request = (c_m_fromto, del_req_w) then cm_del_req E packet
      else if request = (s_m_fromto, sm_part_ack_w) then sm_part_ack E packet
      else if request = (s_m_fromto, id_req_w) then sm_id_req E packet
      else ret KA_No)"

lemma less_one_word [simp]: "(x :: 'a::len word) < 1 \<longleftrightarrow> x = 0"
  by (simp add: word_less_nat_alt unat_eq_0)

text \<open>
  The missing \<^verbatim>\<open>break\<close>s of the master's dispatcher have no effect: a client's request never
  reaches a handler of the storages, every unknown request is ignored and closes the
  connection, and only an empty packet is answered with \<^verbatim>\<open>invalid_packet\<close>.
\<close>

lemma master_dispatcher_is_table: "master_dispatcher E packet = master_table E packet"
  by (simp add: master_dispatcher_def master_table_def master_c_m_def master_s_m_def master_m_m_def
      fromto_defs what_defs Let_def send_error_def)

section \<open>New storages\<close>

definition cat_add_storage :: "string \<Rightarrow> id_req \<Rightarrow> catalogue \<Rightarrow> catalogue" where
  "cat_add_storage host req cat = cat\<lparr>cat_storages := cat_storages cat @
     [\<lparr>si_id = word_of_nat (length (cat_storages cat)), si_host_addr = host, si_port = id_req_port req,
       si_available_space = id_req_avspace req\<rparr>]\<rparr>"

lemma storages_doc_add:
  "storages_doc (cat_add_storage host req cat) =
     available_space_set (mos_available_space (storages_doc cat) + ucast (id_req_avspace req))
       (MetaOnStoragesItem_count_set (mos_count (storages_doc cat) + 1) (storages_doc cat))"
  by (simp add: storages_doc_def cat_add_storage_def MetaOnStoragesItem_make_def available_space_set_def
      MetaOnStoragesItem_count_set_def)

lemma cat_add_storage_ok:
  "cat_ok cat \<Longrightarrow> plain host \<Longrightarrow> length (cat_storages cat) + 1 < 2 ^ 32 \<Longrightarrow> cat_ok (cat_add_storage host req cat)"
  by (simp add: cat_ok_def cat_add_storage_def)

definition storage_entry :: "catalogue \<Rightarrow> string \<Rightarrow> id_req \<Rightarrow> StorageItem" where
  "storage_entry cat host req = \<lparr>si_id = word_of_nat (length (cat_storages cat)), si_host_addr = host, si_port = id_req_port req,
     si_available_space = id_req_avspace req\<rparr>"

lemma represents_add_storage:
  assumes "boost_ok B" "represents B store cat" "plain host"
  shows "represents B (store(storage_key (length (cat_storages cat)) \<mapsto> StorageItem_serialize (storage_entry cat host req),
      ''storages'' \<mapsto> MetaOnStoragesItem_serialize (storages_doc (cat_add_storage host req cat)))) (cat_add_storage host req cat)"
proof -
  have "StorageItem_deserialize B (StorageItem_serialize (storage_entry cat host req)) = Inr (storage_entry cat host req)"
    by (rule storage_item.roundtrip [OF assms(1)]) (simp_all add: assms(3) storage_entry_def)
  moreover have "MetaOnStoragesItem_deserialize B (MetaOnStoragesItem_serialize (storages_doc (cat_add_storage host req cat))) =
      Inr (storages_doc (cat_add_storage host req cat))"
    by (rule meta_on_storages.roundtrip [OF assms(1)]) simp_all
  ultimately show ?thesis
    using assms(2) unfolding represents_def
    by (auto simp: cat_add_storage_def storage_entry_def files_doc_def nth_append less_Suc_eq)
qed



section \<open>Answers\<close>

lemma send_error_run:
  "fromto_inverse (fromto_get p) = Inr ft \<Longrightarrow> send_error p code msg (s, w) = (Inr KA_No, (answered (ack_answer ft code) s, w))"
  by (simp add: send_error_def act_simps send_ack_run)

lemma to_master [simp]:
  "fromto_inverse c_m_fromto = Inr m_c_fromto" "fromto_inverse s_m_fromto = Inr m_s_fromto"
  by (simp_all add: fromto_inverse_def fromto_defs)

section \<open>Deletion changes nothing\<close>

text \<open>Computations that leave the database alone.\<close>

definition keeps_db :: "('db master_state conn, 'a) act \<Rightarrow> bool" where
  "keeps_db m \<longleftrightarrow> (\<forall>s w. mst_database (snd (snd (m (s, w)))) = mst_database w)"

named_theorems keeps_intros

lemma keeps_bnd [keeps_intros]: "keeps_db m \<Longrightarrow> (\<And>x. keeps_db (k x)) \<Longrightarrow> keeps_db (bnd m k)"
  unfolding keeps_db_def
proof (intro allI)
  fix s w
  assume m: "\<forall>s w. mst_database (snd (snd (m (s, w)))) = mst_database w"
    and k: "\<And>x. \<forall>s w. mst_database (snd (snd (k x (s, w)))) = mst_database w"
  obtain r s' w' where "m (s, w) = (r, (s', w'))" by (metis surj_pair)
  with m [rule_format, of s w] k show "mst_database (snd (snd (bnd m k (s, w)))) = mst_database w"
    by (cases r) (simp_all add: bnd_run)
qed

lemma keeps_basic [keeps_intros]:
  "keeps_db (ret x)" "keeps_db (raise f)" "keeps_db (lift_res r)" "keeps_db (blocking_send p)"
  by (simp_all add: keeps_db_def act_simps)

lemma keeps_send_ack [keeps_intros]: "keeps_db (send_ack p code)"
  unfolding send_ack_def by (intro keeps_intros)

lemma keeps_send_error [keeps_intros]: "keeps_db (send_error p code msg)"
  unfolding send_error_def by (intro keeps_intros)

lemma keeps_on_world:
  assumes "\<And>w. mst_database (snd (m w)) = mst_database w"
  shows "keeps_db (on_world m)"
  unfolding keeps_db_def
proof (intro allI)
  fix s w
  obtain r w' where "m w = (r, w')" by (cases "m w")
  with assms [of w] show "mst_database (snd (snd (on_world m (s, w)))) = mst_database w"
    by (simp add: on_world_run)
qed

lemma db_get_keeps: "snd (db_get E k w) = w"
  by (cases "mst_database w") (simp_all add: db_get_def act_simps)

lemma keeps_db_get [keeps_intros]: "keeps_db (on_world (db_get E k))"
  by (rule keeps_on_world) (simp add: db_get_keeps)

lemma try_db_get_keeps: "snd (try_logic (db_get E k) w) = w"
proof -
  obtain r where "db_get E k w = (r, w)" using db_get_keeps [of E k w] by (metis prod.collapse)
  then show ?thesis by (cases r) (auto simp: try_logic_def act_simps split: fault.splits)
qed

lemma keeps_try_db_get [keeps_intros]: "keeps_db (on_world (try_logic (db_get E k)))"
  by (rule keeps_on_world) (simp add: try_db_get_keeps)

lemma mapA_keeps:
  assumes "\<And>x w. snd (f x w) = w"
  shows "snd (mapA f xs w) = w"
proof (induction xs)
  case Nil
  then show ?case by (simp add: act_simps)
next
  case (Cons x xs)
  obtain r where 1: "f x w = (r, w)" using assms [of x w] by (metis prod.collapse)
  obtain r' where 2: "mapA f xs w = (r', w)" using Cons by (metis prod.collapse)
  from 1 2 show ?case by (cases r; cases r') (simp_all add: act_simps)
qed

lemma get_all_storages_keeps: "mst_database (snd (get_all_storages E w)) = mst_database w"
proof -
  obtain r where 1: "db_get E ''storages'' w = (r, w)"
    using db_get_keeps [of E _ w] by (metis prod.collapse)
  have "snd (bnd (db_get E k) (\<lambda>json. lift_res (StorageItem_deserialize (env_boost E) json)) w) = w" for k w
  proof -
    obtain r where "db_get E k w = (r, w)" using db_get_keeps [of E k w] by (metis prod.collapse)
    then show ?thesis by (cases r) (simp_all add: act_simps)
  qed
  from mapA_keeps [of "\<lambda>i. bnd (db_get E (storage_key i)) (\<lambda>json. lift_res (StorageItem_deserialize (env_boost E) json))", OF this]
  have 2: "\<exists>r. mapA (\<lambda>i. bnd (db_get E (storage_key i)) (\<lambda>json. lift_res (StorageItem_deserialize (env_boost E) json))) xs w = (r, w)" for xs
    by (metis prod.collapse)
  show ?thesis
  proof (cases r)
    case (Inr json)
    show ?thesis
    proof (cases "MetaOnStoragesItem_deserialize (env_boost E) json")
      case (Inr mos)
      obtain r' where "mapA (\<lambda>i. bnd (db_get E (storage_key i)) (\<lambda>json. lift_res (StorageItem_deserialize (env_boost E) json)))
          [0..<unat (MetaOnStoragesItem_count_get mos)] w = (r', w)" using 2 by blast
      with \<open>r = Inr json\<close> Inr 1 show ?thesis by (cases r') (simp_all add: get_all_storages_def act_simps)
    qed (simp add: get_all_storages_def act_simps 1 \<open>r = Inr json\<close>)
  qed (simp add: get_all_storages_def act_simps 1)
qed

lemma keeps_get_all_storages [keeps_intros]: "keeps_db (on_world (get_all_storages E))"
  by (rule keeps_on_world) (rule get_all_storages_keeps)

lemma keeps_del_parts [keeps_intros]: "keeps_db (del_parts packet parts)"
  by (induction parts) (simp_all add: keeps_intros)

lemma keeps_cm_del_req: "keeps_db (cm_del_req E packet)"
  unfolding cm_del_req_def
  by (intro keeps_intros, rename_tac r, case_tac r) (auto intro!: keeps_intros)

end
