(* ===== verification/Requests.thy ===== *)
theory Requests
  imports Master
begin

text \<open>
  What the handlers of the master do to the catalogue of files: the acknowledgement of a
  part, the upload request and the download request, each against its specification.
\<close>

section \<open>The catalogue at one file\<close>

lemma mark_parts_eq:
  "mark_parts n stid it ps = (map (\<lambda>p. if num_get p = n then add_stid stid p else p) ps, it + length ps)"
  by (induction ps arbitrary: it) (simp_all add: Let_def)

definition ack_part :: "part_ack \<Rightarrow> PartItem" where
  "ack_part req = \<lparr>pi_partid = part_ack_partid req, pi_hash = blank_hash, pi_locations = [part_ack_stid req]\<rparr>"

definition add_part :: "part_ack \<Rightarrow> FileItem \<Rightarrow> FileItem" where
  "add_part req f = f\<lparr>fi_parts :=
     map (\<lambda>p. if num_get p = partid_partnum (part_ack_partid req) then add_stid (part_ack_stid req) p else p) (fi_parts f)
     @ [ack_part req]\<rparr>"

lemma record_part_run:
  "record_part req fi = Inr (add_part req fi, length (fi_parts fi))"
  by (simp add: record_part_def mark_parts_eq parts_get_def PartItem_make_def hash_from_string_id [OF blank_hash_ok]
      add_part_def ack_part_def)

lemma add_part_ok: "FileItem_ok f \<Longrightarrow> FileItem_ok (add_part req f)"
  using blank_hash_ok
  by (auto simp: FileItem_ok_def add_part_def ack_part_def PartItem_ok_def list_all_iff add_stid_def)

definition cat_add_part :: "part_ack \<Rightarrow> catalogue \<Rightarrow> catalogue" where
  "cat_add_part req cat =
     (let i = unat (partid_fid (part_ack_partid req))
      in cat\<lparr>cat_files := (cat_files cat)[i := add_part req (cat_files cat ! i)]\<rparr>)"

lemma add_part_same [simp]:
  "fi_id (add_part req f) = fi_id f" "fi_name (add_part req f) = fi_name f"
  "fi_file_size (add_part req f) = fi_file_size f" "fi_redundancy (add_part req f) = fi_redundancy f"
  by (simp_all add: add_part_def)

lemma map_update_same: "i < length xs \<Longrightarrow> g y = g (xs ! i) \<Longrightarrow> map g (xs[i := y]) = map g xs"
  by (rule nth_equalityI) (auto simp: nth_list_update)

lemma cat_add_part_maps:
  assumes "unat (partid_fid (part_ack_partid req)) < length (cat_files cat)"
  shows "map fi_id (cat_files (cat_add_part req cat)) = map fi_id (cat_files cat)"
    "map fi_name (cat_files (cat_add_part req cat)) = map fi_name (cat_files cat)"
    "files_doc (cat_add_part req cat) = files_doc cat"
    "length (cat_files (cat_add_part req cat)) = length (cat_files cat)"
    "cat_storages (cat_add_part req cat) = cat_storages cat"
  using assms by (simp_all add: cat_add_part_def Let_def map_update_same files_doc_def)

lemma cat_add_part_ok:
  assumes "cat_ok cat" "unat (partid_fid (part_ack_partid req)) < length (cat_files cat)"
  shows "cat_ok (cat_add_part req cat)"
proof -
  have "list_all FileItem_ok (cat_files (cat_add_part req cat))"
    using assms by (auto simp: cat_ok_def cat_add_part_def Let_def list_all_length nth_list_update add_part_ok)
  then show ?thesis
    using assms cat_add_part_maps [OF assms(2)] by (simp add: cat_ok_def)
qed

lemma file_at:
  assumes "cat_ok cat" "unat fid < length (cat_files cat)"
  shows "fi_id (cat_files cat ! unat fid) = fid"
    "file_name_by_id (files_doc cat) fid = Inr (fi_name (cat_files cat ! unat fid))"
proof -
  let ?f = "cat_files cat ! unat fid"
  have "map fi_id (cat_files cat) ! unat fid = word_of_nat (unat fid)"
    using assms unfolding cat_ok_def by simp
  then show i: "fi_id ?f = fid" using assms(2) by simp
  have "distinct (map fst (mof_name_by_id (files_doc cat)))"
    using cat_names_ok [OF assms(1)] by (simp add: names_ok_def)
  moreover have "(fid, fi_name ?f) \<in> set (mof_name_by_id (files_doc cat))"
    using assms(2) i by (force simp: files_doc_def MetaOnFilesItem_make_def)
  ultimately show "file_name_by_id (files_doc cat) fid = Inr (fi_name ?f)"
    by (simp add: file_name_by_id_def)
qed

lemma file_at_distinct:
  assumes "cat_ok cat" "i < length (cat_files cat)" "j < length (cat_files cat)"
    "fi_name (cat_files cat ! i) = fi_name (cat_files cat ! j)"
  shows "i = j"
proof -
  have "distinct (map fi_name (cat_files cat))" using assms(1) by (simp add: cat_ok_def)
  with assms(2-4) show ?thesis by (simp add: distinct_conv_nth) metis
qed

text \<open>Replacing the document of one file replaces the file in the catalogue.\<close>

lemma represents_update_file:
  assumes "represents B st cat" "cat_ok cat" "i < length (cat_files cat)"
    and "fi_name f = fi_name (cat_files cat ! i)" "FileItem_deserialize B s = Inr f"
    and "files_doc (cat\<lparr>cat_files := (cat_files cat)[i := f]\<rparr>) = files_doc cat"
  shows "represents B (st(file_key (fi_name f) \<mapsto> s)) (cat\<lparr>cat_files := (cat_files cat)[i := f]\<rparr>)"
proof -
  let ?files = "(cat_files cat)[i := f]"
  have names: "map fi_name ?files = map fi_name (cat_files cat)"
    using assms(3,4) by (simp add: map_update_same)
  have "reads (st(file_key (fi_name f) \<mapsto> s)) (FileItem_deserialize B) (file_key (fi_name g)) g" if g: "g \<in> set ?files" for g
  proof -
    obtain j where j: "j < length (cat_files cat)" "g = ?files ! j" using g by (auto simp: in_set_conv_nth)
    show ?thesis
    proof (cases "i = j")
      case True
      then show ?thesis using j assms(3,5) by simp
    next
      case False
      then have "g = cat_files cat ! j" using j by simp
      moreover from this False have "fi_name g \<noteq> fi_name f"
        using file_at_distinct [OF assms(2,3) j(1)] assms(4) by metis
      ultimately show ?thesis using assms(1) j(1) by (simp add: represents_def)
    qed
  qed
  moreover have "fi_name f \<in> set (map fi_name (cat_files cat))"
    using assms(3,4) by (metis length_map nth_map nth_mem)
  ultimately show ?thesis
    using assms(1,6) names unfolding represents_def by (auto simp: storages_doc_def simp del: set_map)
qed

section \<open>An acknowledged part\<close>

lemma represents_add_part:
  assumes "represents B st cat" "cat_ok cat" "unat (partid_fid (part_ack_partid req)) < length (cat_files cat)"
  defines "f \<equiv> cat_files cat ! unat (partid_fid (part_ack_partid req))"
  assumes "FileItem_deserialize B s = Inr (add_part req f)"
  shows "represents B (st(file_key (fi_name f) \<mapsto> s)) (cat_add_part req cat)"
proof -
  have cat': "cat_add_part req cat = cat\<lparr>cat_files := (cat_files cat)[unat (partid_fid (part_ack_partid req)) := add_part req f]\<rparr>"
    by (simp add: cat_add_part_def Let_def f_def)
  show ?thesis
    using represents_update_file [OF assms(1-3), of "add_part req f" s] assms(5) cat_add_part_maps(3) [OF assms(3)]
    unfolding cat' by (simp add: f_def)
qed

lemma add_part_documents:
  assumes "boost_ok B" "cat_ok cat" "f \<in> set (cat_files cat)"
  obtains s where "FileItem_serialize (add_part req f) = Inr s" "FileItem_deserialize B s = Inr (add_part req f)"
proof -
  have "FileItem_ok (add_part req f)" using assms(2,3) by (auto simp: cat_ok_def list_all_iff intro: add_part_ok)
  then show ?thesis using that file_item.serializes file_item.roundtrip [OF assms(1)] by blast
qed

lemma replicate_to_state: "snd (snd (replicate_to N req locs sts (s, w))) = w"
proof (induction sts)
  case (Cons st sts)
  then show ?case by (cases "addr_get N st") (simp_all add: act_simps)
qed (simp add: act_simps)

lemma parts_get_last: "parts_get (add_part req f) ! length (fi_parts f) = ack_part req"
  by (simp add: parts_get_def add_part_def nth_append)

text \<open>The handler up to the test for enough copies: the file is written back with the part.\<close>

lemma part_ack_written:
  assumes "env_ok E" "mst_database w = Some db"
    and "represents (env_boost E) (store_of E db) cat" "cat_ok cat"
    and "unat (partid_fid (part_ack_partid req)) < length (cat_files cat)"
    and "front_data packet = Inr (enc_part_ack req @ rest)" "fromto_get packet = s_m_fromto"
  defines "f \<equiv> cat_files cat ! unat (partid_fid (part_ack_partid req))"
  obtains db' where "represents (env_boost E) (store_of E db') (cat_add_part req cat)"
    "sm_part_ack E packet (s, w) =
      (if unat (fi_redundancy f) \<le> 1
       then (Inr KA_No, (answered (ack_answer m_s_fromto success) s, w\<lparr>mst_database := Some db'\<rparr>))
       else bnd (replicate_to (env_net E) req [part_ack_stid req] (env_shuffle E (cat_storages cat))) (\<lambda>_. ret KA_No)
              (s, w\<lparr>mst_database := Some db', iterator_initialized := False\<rparr>))"
proof -
  let ?B = "env_boost E" and ?i = "unat (partid_fid (part_ack_partid req))"
  let ?cat' = "cat_add_part req cat" and ?f' = "add_part req f" and ?key = "file_key (fi_name f)"
  note B = env_okD(1) [OF assms(1)]
  have f: "f \<in> set (cat_files cat)" using assms(5) by (simp add: f_def)
  obtain json where json: "db_get E ''files'' w = (Inr json, w)"
    "MetaOnFilesItem_deserialize ?B json = Inr (files_doc cat)"
    using db_reads [OF assms(2), of E "MetaOnFilesItem_deserialize ?B"] assms(3)
    unfolding represents_def by blast
  obtain json' where json': "db_get E ?key w = (Inr json', w)" "FileItem_deserialize ?B json' = Inr f"
    using db_reads [OF assms(2), of E "FileItem_deserialize ?B" ?key f] assms(3) f
    unfolding represents_def by blast
  obtain s' where s': "FileItem_serialize ?f' = Inr s'" "FileItem_deserialize ?B s' = Inr ?f'"
    using add_part_documents [OF B assms(4) f] .
  obtain db' where db': "db_put E ?key s' w = (Inr (), w\<lparr>mst_database := Some db'\<rparr>)"
    "store_of E db' = (store_of E db)(?key \<mapsto> s')"
    using db_put_run [OF assms(1,2)] .
  have rep: "represents ?B (store_of E db') ?cat'"
    using represents_add_part [OF assms(3-5)] s'(2) unfolding db'(2) f_def by blast
  have view: "view sizeof_part_ack dec_part_ack (enc_part_ack req @ rest) = Inr req"
    by (rule part_ack.view_enc) simp
  have locs: "locations_get (parts_get ?f' ! length (fi_parts f)) = [part_ack_stid req]"
    by (simp add: parts_get_last ack_part_def locations_get_def)
  have sts: "get_all_storages E (w\<lparr>mst_database := Some db'\<rparr>) =
      (Inr (cat_storages cat), w\<lparr>mst_database := Some db', iterator_initialized := False\<rparr>)"
    using get_all_storages_run [OF _ rep cat_add_part_ok [OF assms(4,5)], of "w\<lparr>mst_database := Some db'\<rparr>"]
      cat_add_part_maps(5) [OF assms(5)] by simp
  show ?thesis
    by (rule that [OF rep]) (use db'(1) s'(1) assms(7) in
      \<open>simp add: sm_part_ack_def bnd_run on_world_run lift_res_run ret_run assms(6) view json json' record_part_run
        file_at(2) [OF assms(4,5), folded f_def] redundancy_get_def locs send_ack_run sts\<close>)
qed

lemma replicate_to_run:
  obtains r s' where "bnd (replicate_to N req locs sts) (\<lambda>_. ret KA_No) (s, w) = (r, (s', w))"
proof -
  obtain r s' where "replicate_to N req locs sts (s, w) = (r, (s', w))"
    using replicate_to_state [of N req locs sts s w] by (metis prod.collapse)
  then show ?thesis using that by (cases r) (simp_all add: bnd_run ret_run)
qed

text \<open>The message that sends a storage on to another one with its part.\<close>

definition part_loc_answer :: "part_ack \<Rightarrow> ADDR \<Rightarrow> Packet" where
  "part_loc_answer req a = add_message (enc_part_loc \<lparr>part_loc_partid = part_ack_partid req, part_loc_addr = a\<rparr>)
     (packet_empty m_s_fromto part_loc_w)"

lemma replicate_to_first:
  "bnd (replicate_to N req [stid] sts) (\<lambda>_. ret KA_No) (s, w) =
    (case find (\<lambda>st. StorageItem_id_get st \<noteq> stid) sts of
       None \<Rightarrow> (Inr KA_No, (s, w))
     | Some st \<Rightarrow> (case addr_get N st of
         Inl e \<Rightarrow> (Inl e, (s, w))
       | Inr a \<Rightarrow> (Inr KA_No, (answered (part_loc_answer req a) s, w))))"
proof (induction sts)
  case Nil
  show ?case by (simp add: bnd_run ret_run)
next
  case (Cons st sts)
  then show ?case
    by (cases "StorageItem_id_get st = stid"; cases "addr_get N st")
      (simp_all add: bnd_run ret_run lift_res_run blocking_send_answered part_loc_answer_def)
qed

lemma part_ack_run:
  assumes "env_ok E" "mst_database w = Some db"
    and "represents (env_boost E) (store_of E db) cat" "cat_ok cat"
    and "unat (partid_fid (part_ack_partid req)) < length (cat_files cat)"
    and "front_data packet = Inr (enc_part_ack req @ rest)" "fromto_get packet = s_m_fromto"
  shows "\<exists>r s' w' db'. sm_part_ack E packet (s, w) = (r, (s', w')) \<and> r \<noteq> Inr KA_Yes \<and> mst_database w' = Some db'
    \<and> represents (env_boost E) (store_of E db') (cat_add_part req cat) \<and> cat_ok (cat_add_part req cat)"
proof -
  obtain db' r s' w' where "represents (env_boost E) (store_of E db') (cat_add_part req cat)"
    "sm_part_ack E packet (s, w) = (r, (s', w'))" "r \<noteq> Inr KA_Yes" "mst_database w' = Some db'"
    by (rule part_ack_written [OF assms, of s]) (fastforce simp: replicate_to_first split: if_splits option.splits sum.splits)
  with cat_add_part_ok [OF assms(4,5)] show ?thesis by blast
qed

text \<open>
  C10: A part of a file of the catalogue that a storage acknowledges is entered in its file: every
  item of the file with that part number gets the storage as a further location, and one
  more item with the storage alone is appended, whether or not the part was known already.
  The test for enough copies looks at the item just appended, which has one location. So a
  file with a redundancy of at most one is acknowledged. One with a higher redundancy never is,
  however many copies there are: each time the storage is sent the part and the address of the first
  storage other than itself in a random order of the catalogue's, the handler throws when
  that storage has no address, and sends nothing at all when there is no other storage.
\<close>

theorem part_ack_refines:
  assumes "env_ok E" "mst_database w = Some db"
    and "represents (env_boost E) (store_of E db) cat" "cat_ok cat"
    and "unat (partid_fid (part_ack_partid req)) < length (cat_files cat)"
    and "front_data packet = Inr (enc_part_ack req @ rest)" "fromto_get packet = s_m_fromto"
  shows "\<exists>db'. represents (env_boost E) (store_of E db') (cat_add_part req cat) \<and> cat_ok (cat_add_part req cat)
    \<and> sm_part_ack E packet (s, w) =
      (if unat (fi_redundancy (cat_files cat ! unat (partid_fid (part_ack_partid req)))) \<le> 1
       then (Inr KA_No, (answered (ack_answer m_s_fromto success) s, w\<lparr>mst_database := Some db'\<rparr>))
       else (case find (\<lambda>st. StorageItem_id_get st \<noteq> part_ack_stid req) (env_shuffle E (cat_storages cat)) of
           None \<Rightarrow> (Inr KA_No, (s, w\<lparr>mst_database := Some db', iterator_initialized := False\<rparr>))
         | Some st \<Rightarrow> (case addr_get (env_net E) st of
             Inl e \<Rightarrow> (Inl e, (s, w\<lparr>mst_database := Some db', iterator_initialized := False\<rparr>))
           | Inr a \<Rightarrow> (Inr KA_No, (answered (part_loc_answer req a) s,
               w\<lparr>mst_database := Some db', iterator_initialized := False\<rparr>)))))"
  using part_ack_written [OF assms, of s] cat_add_part_ok [OF assms(4,5)] unfolding replicate_to_first by metis

text \<open>A database with one storage and one file of ten bytes in one part, not uploaded yet.\<close>

definition ten_bytes :: "rdcy_type \<Rightarrow> PartItem list \<Rightarrow> FileItem" where
  "ten_bytes rdcy parts = \<lparr>fi_id = 0, fi_name = ''a.__0'', fi_file_size = 10, fi_redundancy = rdcy,
     fi_current_redundancy = 0, fi_hash = blank_hash, fi_uploaded = False, fi_parts = parts\<rparr>"

definition one_file :: "rdcy_type \<Rightarrow> PartItem list \<Rightarrow> catalogue" where
  "one_file rdcy parts = one_storage\<lparr>cat_files := [ten_bytes rdcy parts]\<rparr>"

definition text_of :: "string res \<Rightarrow> string" where
  "text_of r = (case r of Inr s \<Rightarrow> s | Inl _ \<Rightarrow> [])"

definition file_db :: "rdcy_type \<Rightarrow> PartItem list \<Rightarrow> string \<rightharpoonup> string" where
  "file_db rdcy parts = one_storage_db
     (''files'' \<mapsto> text_of (MetaOnFilesItem_serialize (files_doc (one_file rdcy parts))),
      file_key ''a.__0'' \<mapsto> text_of (FileItem_serialize (ten_bytes rdcy parts)))"

lemma file_state:
  assumes "list_all PartItem_ok parts"
  shows "mst_database (fresh_state (Some (file_db rdcy parts))) = Some (file_db rdcy parts)"
    "represents (env_boost sample_env) (store_of sample_env (file_db rdcy parts)) (one_file rdcy parts)"
    "cat_ok (one_file rdcy parts)"
    "store_of sample_env (file_db rdcy parts) ''storage_sizes'' = Some sizes_json"
proof -
  have st: "store_of sample_env db = db" for db
    by (rule ext) (simp add: store_of_def sample_env_def sample_couchbase_def)
  note B = env_okD(1) [OF sample_env_ok]
  show "mst_database (fresh_state (Some (file_db rdcy parts))) = Some (file_db rdcy parts)"
    by (simp add: fresh_state_def)
  have ok: "FileItem_ok (ten_bytes rdcy parts)"
    using assms blank_hash_ok by (simp add: FileItem_ok_def ten_bytes_def plain_char_def)
  show cat_ok: "cat_ok (one_file rdcy parts)"
    using one_storage_state(3) ok by (simp add: cat_ok_def one_file_def one_storage_def) (simp add: ten_bytes_def)
  obtain s where s: "FileItem_serialize (ten_bytes rdcy parts) = Inr s"
    "FileItem_deserialize (env_boost sample_env) s = Inr (ten_bytes rdcy parts)"
    using file_item.serializes [OF ok] file_item.roundtrip [OF B ok] by blast
  have "MetaOnFilesItem_ok (files_doc (one_file rdcy parts))"
    using cat_names_ok [OF cat_ok] by (simp add: MetaOnFilesItem_ok_def files_doc_def MetaOnFilesItem_make_def one_file_def)
  then obtain s' where s': "MetaOnFilesItem_serialize (files_doc (one_file rdcy parts)) = Inr s'"
    "MetaOnFilesItem_deserialize (env_boost sample_env) s' = Inr (files_doc (one_file rdcy parts))"
    using meta_on_files.serializes meta_on_files.roundtrip [OF B] by blast
  have none: "one_storage_db (file_key name) = None" for name
    by (simp add: one_storage_db_def start_db_def)
  show "represents (env_boost sample_env) (store_of sample_env (file_db rdcy parts)) (one_file rdcy parts)"
    using one_storage_state(2) s s' none unfolding st represents_def file_db_def
    by (auto simp: text_of_def one_file_def storages_doc_def) (simp_all add: ten_bytes_def split: if_splits)
  show "store_of sample_env (file_db rdcy parts) ''storage_sizes'' = Some sizes_json"
    using one_storage_state(4) unfolding st by (simp add: file_db_def)
qed

definition sample_report :: "stid_type \<Rightarrow> part_ack" where
  "sample_report stid =
     \<lparr>part_ack_stid = stid, part_ack_partid = \<lparr>partid_fid = 0, partid_partnum = 0\<rparr>, part_ack_avspace = 0\<rparr>"

definition sample_ack :: "stid_type \<Rightarrow> Packet" where
  "sample_ack stid = packet_of_message s_m_fromto sm_part_ack_w (enc_part_ack (sample_report stid))"

definition sample_addr :: ADDR where
  "sample_addr = \<lparr>addr_ipv6 = si_host_addr sample_storage, addr_port = si_port sample_storage\<rparr>"

text \<open>
  Storage 5 reports the part of a file wanted once: it is acknowledged. Storage 5 reports the
  part of a file wanted twice: it is sent on to storage 0. Storage 0 reports it: there is no
  other storage in the catalogue, and it is sent nothing.
\<close>

lemma part_ack_refines_witness:
  "\<exists>db1 db2 db3 item5 item0. item5 = [\<lparr>pi_partid = \<lparr>partid_fid = 0, partid_partnum = 0\<rparr>, pi_hash = blank_hash, pi_locations = [5]\<rparr>]
    \<and> item0 = [\<lparr>pi_partid = \<lparr>partid_fid = 0, partid_partnum = 0\<rparr>, pi_hash = blank_hash, pi_locations = [0]\<rparr>]
    \<and> sm_part_ack sample_env (sample_ack 5) (session_create 1 [] [], fresh_state (Some (file_db 1 []))) =
        (Inr KA_No, (answered (ack_answer m_s_fromto success) (session_create 1 [] []), fresh_state (Some db1)))
    \<and> represents (env_boost sample_env) (store_of sample_env db1) (one_file 1 item5)
    \<and> sm_part_ack sample_env (sample_ack 5) (session_create 1 [] [], fresh_state (Some (file_db 2 []))) =
        (Inr KA_No, (answered (part_loc_answer (sample_report 5) sample_addr) (session_create 1 [] []), fresh_state (Some db2)))
    \<and> represents (env_boost sample_env) (store_of sample_env db2) (one_file 2 item5)
    \<and> sm_part_ack sample_env (sample_ack 0) (session_create 1 [] [], fresh_state (Some (file_db 2 []))) =
        (Inr KA_No, (session_create 1 [] [], fresh_state (Some db3)))
    \<and> represents (env_boost sample_env) (store_of sample_env db3) (one_file 2 item0)"
proof -
  let ?item = "\<lambda>st. [\<lparr>pi_partid = \<lparr>partid_fid = 0, partid_partnum = 0\<rparr>, pi_hash = blank_hash, pi_locations = [st]\<rparr>]"
  have ok: "list_all PartItem_ok []" by simp
  have 1: "unat (partid_fid (part_ack_partid (sample_report st))) < length (cat_files (one_file r []))" for st r
    by (simp add: one_file_def sample_report_def)
  have 2: "front_data (sample_ack st) = Inr (enc_part_ack (sample_report st) @ [])" "fromto_get (sample_ack st) = s_m_fromto" for st
    by (simp_all add: sample_ack_def packet_of_message_def mk_header_def fromto_get_def front_data_def message_seq_get_def)
  have 3: "cat_add_part (sample_report st) (one_file r []) = one_file r (?item st)" for st r
    by (simp add: cat_add_part_def one_file_def add_part_def ack_part_def ten_bytes_def sample_report_def)
  have 4: "fi_redundancy (cat_files (one_file r []) ! unat (partid_fid (part_ack_partid (sample_report st)))) = r" for r st
    by (simp add: one_file_def ten_bytes_def sample_report_def)
  have 5: "find (\<lambda>st. StorageItem_id_get st \<noteq> 5) (env_shuffle sample_env (cat_storages (one_file r []))) = Some sample_storage"
    "find (\<lambda>st. StorageItem_id_get st \<noteq> 0) (env_shuffle sample_env (cat_storages (one_file r []))) = None"
    "addr_get (env_net sample_env) sample_storage = Inr sample_addr" for r
    by (simp_all add: one_file_def one_storage_def sample_env_def sample_storage_def StorageItem_id_get_def
        addr_get_def get_addr_def get_ipv6_def sample_net_def sample_addr_def)
  have 6: "(fresh_state db)\<lparr>mst_database := db', iterator_initialized := False\<rparr> = fresh_state db'"
    "(fresh_state db)\<lparr>mst_database := db'\<rparr> = fresh_state db'" "(fresh_state db)\<lparr>iterator_initialized := False\<rparr> = fresh_state db"
    "part_ack_stid (sample_report st) = st" for db db' st
    by (simp_all add: fresh_state_def sample_report_def)
  note use = part_ack_refines [OF sample_env_ok file_state(1-3) [OF ok] 1 2, where s = "session_create 1 [] []", unfolded 3 4 6]
  from use [of 1 5] obtain db1 where "sm_part_ack sample_env (sample_ack 5) (session_create 1 [] [], fresh_state (Some (file_db 1 []))) =
        (Inr KA_No, (answered (ack_answer m_s_fromto success) (session_create 1 [] []), fresh_state (Some db1)))"
    "represents (env_boost sample_env) (store_of sample_env db1) (one_file 1 (?item 5))" by auto
  moreover from use [of 2 5] obtain db2 where "sm_part_ack sample_env (sample_ack 5) (session_create 1 [] [], fresh_state (Some (file_db 2 []))) =
        (Inr KA_No, (answered (part_loc_answer (sample_report 5) sample_addr) (session_create 1 [] []), fresh_state (Some db2)))"
    "represents (env_boost sample_env) (store_of sample_env db2) (one_file 2 (?item 5))" by (auto simp: 5 6)
  moreover from use [of 2 0] obtain db3 where "sm_part_ack sample_env (sample_ack 0) (session_create 1 [] [], fresh_state (Some (file_db 2 []))) =
        (Inr KA_No, (session_create 1 [] [], fresh_state (Some db3)))"
    "represents (env_boost sample_env) (store_of sample_env db3) (one_file 2 (?item 0))" by (auto simp: 5 6)
  ultimately show ?thesis by blast
qed

section \<open>An upload request\<close>

definition new_file :: "string \<Rightarrow> up_req \<Rightarrow> FileItem" where
  "new_file fname req = \<lparr>fi_id = 0, fi_name = fname, fi_file_size = up_req_fsize req, fi_redundancy = up_req_rdcy req,
     fi_current_redundancy = 0, fi_hash = blank_hash, fi_uploaded = False, fi_parts = []\<rparr>"

definition up_answer :: "fid_type \<Rightarrow> STPFIELD list \<Rightarrow> Packet" where
  "up_answer fid flds =
     add_message (concat (map enc_STPFIELD flds)) (add_message (enc_word fid) (packet_empty m_c_fromto up_pieces_loc_w))"

lemma FileItem_make_new:
  "FileItem_make 0 fname (up_req_fsize req) (up_req_rdcy req) 0 blank_hash False [] = Inr (new_file fname req)"
  by (simp add: FileItem_make_def hash_from_string_id [OF blank_hash_ok] new_file_def)

lemma new_file_ok: "plain fname \<Longrightarrow> FileItem_ok (new_file fname req)"
  using blank_hash_ok by (simp add: FileItem_ok_def new_file_def)

lemma addresses_print:
  assumes "net_ok N" "list_all wf_STPFIELD flds"
  shows "\<exists>xs. mapM (\<lambda>it. binary_to_string_ipv6 N (addr_ipv6 (stp_addr it)) 16) flds = Inr xs"
  using assms(2)
proof (induction flds)
  case (Cons f flds)
  moreover have "length (addr_ipv6 (stp_addr f)) = ipv6_type_size"
    using Cons.prems by (simp add: wf_STPFIELD_def wf_ADDR_def)
  ultimately show ?case using binary_to_string_text [OF assms(1)] by auto
qed simp

lemma string_at_tail:
  "length a = off \<Longrightarrow> string_at off (length b) (a @ b) = Inr b"
  by (simp add: string_at_def view_def slice_def)

lemma length_enc_up_req: "length (enc_up_req req) = 9"
  by (simp add: enc_up_req_def codec_simps)

lemma up_req_run:
  assumes "env_ok E" "mst_database w = Some db"
    and "represents (env_boost E) (store_of E db) cat" "cat_ok cat"
    and "store_of E db ''storage_sizes'' = Some sizes_json" "turn_ok w"
    and "st \<in> set (dealt_over w cat)"
      "roomy (env_net E) (up_req_fsize req) (first_size size_values (up_req_fsize req)) st"
      "unat (up_req_fsize req) < 2 ^ 24"
    and "plain fname" "length (cat_files cat) + 1 < 2 ^ 64" "length fname < 2 ^ 31"
    and "front_data packet = Inr (enc_up_req req @ fname)" "fromto_get packet = c_m_fromto"
      "size_get packet = word_of_nat (9 + length fname)"
  shows "\<exists>flds s' w' db'. cm_up_req E packet (s, w) = (Inr KA_No, (s', w')) \<and> mst_database w' = Some db'
    \<and> deals (env_net E) (dealt_over w cat) (first_size size_values (up_req_fsize req)) flds
    \<and> (if length flds < unat (up_req_rdcy req)
       then s' = answered (ack_answer m_c_fromto redundancy) s \<and> db' = db
       else s' = answered (up_answer (word_of_nat (length (cat_files cat))) flds) s
         \<and> represents (env_boost E) (store_of E db') (cat_add_file (new_file fname req) cat)
         \<and> cat_ok (cat_add_file (new_file fname req) cat))"
proof -
  let ?N = "env_net E" and ?fi = "new_file fname req" and ?nb = "first_size size_values (up_req_fsize req)"
  have small: "unat ?nb < 2 ^ 32 - 1"
    by (rule le_less_trans [OF first_size_shipped(2)]) (use assms(9) in simp)
  obtain flds w1 where flds: "get_stpfields_for_upload E (up_req_fsize req) w = (Inr flds, w1)"
    "mst_database w1 = Some db" "deals ?N (dealt_over w cat) ?nb flds"
    using upload_fields_run [OF assms(1-8) small] by blast
  obtain db' where new: "create_new_file E ?fi w1 = (Inr (file_entry cat ?fi), w1\<lparr>mst_database := Some db'\<rparr>)"
    "represents (env_boost E) (store_of E db') (cat_add_file ?fi cat)" "cat_ok (cat_add_file ?fi cat)"
    using create_new_file_run [OF assms(1) flds(2) assms(3,4) new_file_ok [OF assms(10)] assms(11)] by blast
  have "list_all wf_STPFIELD flds" using flds(3) by (simp add: deals_def list_all_iff)
  then obtain xs where xs: "mapM (\<lambda>it. binary_to_string_ipv6 ?N (addr_ipv6 (stp_addr it)) 16) flds = Inr xs"
    using addresses_print [OF env_okD(2) [OF assms(1)]] by blast
  have sz: "unat (size_get packet) = 9 + length fname"
    using assms(12) unat_word_of_nat_32 [of "9 + length fname"] unfolding assms(15) by simp
  have name: "string_at 9 (length fname) (enc_up_req req @ fname) = Inr fname"
    by (rule string_at_tail [OF length_enc_up_req])
  have req: "view 9 dec_up_req (enc_up_req req @ fname) = Inr req"
    using up_req.view_enc [of req fname] by (simp add: sizeof_up_req_def)
  have parts: "number_of_parts E (up_req_fsize req) w = (Inr ?nb, w)" "?nb \<noteq> 0"
    using number_of_parts_run [OF assms(1,2,5)] first_size_shipped(1) [of "up_req_fsize req"] by simp_all
  have fi: "file_size_get ?fi = up_req_fsize req" "redundancy_get ?fi = up_req_rdcy req"
    "FileItem_id_get (file_entry cat ?fi) = word_of_nat (length (cat_files cat))"
    by (simp_all add: file_size_get_def redundancy_get_def FileItem_id_get_def file_entry_def new_file_def)
  have run: "cm_up_req E packet (s, w) =
      (if length flds < unat (up_req_rdcy req) then (Inr KA_No, (answered (ack_answer m_c_fromto redundancy) s, w1))
       else (Inr KA_No, (answered (up_answer (word_of_nat (length (cat_files cat))) flds) s, w1\<lparr>mst_database := Some db'\<rparr>)))"
    by (simp add: cm_up_req_def bnd_run lift_res_run on_world_run ret_run assms(13,14) sz sizeof_up_req_def name req
        FileItem_make_new fi parts flds(1) new(1) xs send_error_run blocking_send_answered Let_def up_answer_def)
  show ?thesis
    using flds(2,3) new(2,3) unfolding run
    by (cases "length flds < unat (up_req_rdcy req)") auto
qed



section \<open>A download request\<close>

definition down_answer :: "fsize_type \<Rightarrow> fid_type \<Rightarrow> STPFIELD list \<Rightarrow> Packet" where
  "down_answer fsize fid flds =
     add_message (concat (map enc_STPFIELD flds))
       (add_message (enc_word fid) (add_message (enc_word fsize) (packet_empty m_c_fromto down_pieces_loc_w)))"

text \<open>The storage with an id, and the address of a part whose first location is up.\<close>

definition located :: "net_lib \<Rightarrow> StorageItem list \<Rightarrow> PartItem \<Rightarrow> ADDR \<Rightarrow> bool" where
  "located N storages p a \<longleftrightarrow>
     (\<exists>l ls. pi_locations p = l # ls \<and> unat l < length storages \<and> addr_get N (storages ! unat l) = Inr a)
     \<and> addr_port a \<noteq> 0"

lemma try_storages_skip: "stid \<notin> si_id ` set sts \<Longrightarrow> try_storages N stid sts addr = addr"
  by (induction sts) (auto simp: StorageItem_id_get_def)

lemma try_storages_found:
  "distinct (map si_id sts) \<Longrightarrow> st \<in> set sts \<Longrightarrow> si_id st = stid \<Longrightarrow> addr_get N st = Inr a \<Longrightarrow>
   try_storages N stid sts addr = a"
  by (induction sts) (auto simp: StorageItem_id_get_def)

lemma storage_ids:
  assumes "cat_ok cat"
  shows "distinct (map si_id (cat_storages cat))"
    "i < length (cat_storages cat) \<Longrightarrow> si_id (cat_storages cat ! i) = word_of_nat i"
proof -
  have ids: "map si_id (cat_storages cat) = map word_of_nat [0..<length (cat_storages cat)]"
    and len: "length (cat_storages cat) < 2 ^ 32" using assms by (simp_all add: cat_ok_def)
  have "inj_on (word_of_nat :: nat \<Rightarrow> 32 word) {0..<length (cat_storages cat)}"
  proof (rule inj_onI)
    fix a b
    assume ab: "a \<in> {0..<length (cat_storages cat)}" "b \<in> {0..<length (cat_storages cat)}"
      and eq: "(word_of_nat a :: 32 word) = word_of_nat b"
    have "unat (word_of_nat a :: 32 word) = a" "unat (word_of_nat b :: 32 word) = b"
      using ab len by (auto intro: unat_word_of_nat_32)
    with eq show "a = b" by metis
  qed
  then show "distinct (map si_id (cat_storages cat))" unfolding ids by (simp add: distinct_map)
  show "i < length (cat_storages cat) \<Longrightarrow> si_id (cat_storages cat ! i) = word_of_nat i"
    using arg_cong [OF ids, of "\<lambda>xs. xs ! i"] by simp
qed

lemma part_address_located:
  assumes "cat_ok cat" "located N (cat_storages cat) p a"
  shows "part_address N (cat_storages cat) (locations_get p) addr = a"
proof -
  obtain l ls where l: "pi_locations p = l # ls" "unat l < length (cat_storages cat)"
    "addr_get N (cat_storages cat ! unat l) = Inr a" "addr_port a \<noteq> 0"
    using assms(2) by (auto simp: located_def)
  have "try_storages N l (cat_storages cat) addr = a"
    by (rule try_storages_found [OF storage_ids(1) [OF assms(1)] _ _ l(3)])
      (use l(2) storage_ids(2) [OF assms(1) l(2)] in simp_all)
  with l(1,4) show ?thesis by (simp add: locations_get_def Let_def)
qed

lemma down_fields_located:
  assumes "cat_ok cat" "list_all2 (located (env_net E) (cat_storages cat)) parts addrs"
  shows "down_fields E (cat_storages cat) parts =
    Some (map2 (\<lambda>p a. \<lparr>stp_addr = a, stp_nb = num_get p\<rparr>) parts addrs)"
  using assms(2)
proof (induction parts addrs rule: list_all2_induct)
  case (Cons p ps a as)
  then have "locations_get p \<noteq> []" by (auto simp: located_def locations_get_def)
  with Cons part_address_located [OF assms(1) Cons(1)] show ?case by simp
qed simp

lemma down_req_run:
  assumes "env_ok E" "mst_database w = Some db"
    and "represents (env_boost E) (store_of E db) cat" "cat_ok cat"
    and "front_data packet = Inr (fname @ rest)" "fromto_get packet = c_m_fromto" "unat (size_get packet) = length fname"
  shows "if fname \<in> set (map fi_name (cat_files cat))
    then \<exists>f \<in> set (cat_files cat). fi_name f = fname \<and>
      (\<forall>addrs. list_all2 (located (env_net E) (cat_storages cat)) (fi_parts f) addrs \<longrightarrow>
         cm_down_req E packet (s, w) = (Inr KA_No,
           (answered (down_answer (fi_file_size f) (fi_id f)
              (map2 (\<lambda>p a. \<lparr>stp_addr = a, stp_nb = num_get p\<rparr>) (fi_parts f) addrs)) s,
            w\<lparr>iterator_initialized := False\<rparr>)))
    else cm_down_req E packet (s, w) = (Inr KA_No, (answered (ack_answer m_c_fromto file_not_found) s, w))"
proof -
  have name: "string_at 0 (length fname) (fname @ rest) = Inr fname"
    by (simp add: string_at_def view_def slice_def)
  show ?thesis
  proof (cases "fname \<in> set (map fi_name (cat_files cat))")
    case True
    then obtain f where f: "f \<in> set (cat_files cat)" "fi_name f = fname" by auto
    then obtain json where json: "db_get E (file_key fname) w = (Inr json, w)"
      "FileItem_deserialize (env_boost E) json = Inr f"
      using db_reads [OF assms(2), of E "FileItem_deserialize (env_boost E)" "file_key fname" f] assms(3)
      unfolding represents_def by blast
    note sts = get_all_storages_run [OF assms(2-4)]
    have "cm_down_req E packet (s, w) = (Inr KA_No,
           (answered (down_answer (fi_file_size f) (fi_id f)
              (map2 (\<lambda>p a. \<lparr>stp_addr = a, stp_nb = num_get p\<rparr>) (fi_parts f) addrs)) s,
            w\<lparr>iterator_initialized := False\<rparr>))"
      if "list_all2 (located (env_net E) (cat_storages cat)) (fi_parts f) addrs" for addrs
      by (simp add: cm_down_req_def bnd_run lift_res_run on_world_run ret_run catching_run try_logic_def assms(5,7) name
          json sts parts_get_def down_fields_located [OF assms(4) that] file_size_get_def FileItem_id_get_def
          Let_def down_answer_def blocking_send_answered)
    with f True show ?thesis by auto
  next
    case False
    then have "store_of E db (file_key fname) = None"
      using assms(3) unfolding represents_def by blast
    then have "cm_down_req E packet (s, w) = (Inr KA_No, (answered (ack_answer m_c_fromto file_not_found) s, w))"
      by (simp add: cm_down_req_def bnd_run lift_res_run on_world_run ret_run catching_run try_logic_def assms(5-7) name
          db_get_run [OF assms(2)] send_error_run)
    with False show ?thesis by simp
  qed
qed

text \<open>
  A download request for a file of the catalogue whose recorded parts all have a reachable
  first location is answered with the size and the id of the file and, in order, one
  location with its part number for each recorded item; a name that is not in the
  catalogue is answered with \<^verbatim>\<open>file_not_found\<close>. The database is not changed.
\<close>

lemma down_req_answers:
  assumes "env_ok E" "mst_database w = Some db"
    and "represents (env_boost E) (store_of E db) cat" "cat_ok cat"
    and "front_data packet = Inr (fname @ rest)" "fromto_get packet = c_m_fromto" "unat (size_get packet) = length fname"
  shows "if fname \<in> set (map fi_name (cat_files cat))
    then \<exists>f \<in> set (cat_files cat). fi_name f = fname \<and>
      (\<forall>addrs. list_all2 (located (env_net E) (cat_storages cat)) (fi_parts f) addrs \<longrightarrow>
         cm_down_req E packet (s, w) = (Inr KA_No,
           (answered (down_answer (fi_file_size f) (fi_id f)
              (map2 (\<lambda>p a. \<lparr>stp_addr = a, stp_nb = num_get p\<rparr>) (fi_parts f) addrs)) s,
            w\<lparr>iterator_initialized := False\<rparr>)))
    else cm_down_req E packet (s, w) = (Inr KA_No, (answered (ack_answer m_c_fromto file_not_found) s, w))"
  by (rule down_req_run [OF assms])

lemma down_req_answers_witness:
  "cm_down_req sample_env (packet_of_message c_m_fromto down_req_w ''a.__0'')
      (session_create 1 [] [], fresh_state (Some (file_db 1 [\<lparr>pi_partid = \<lparr>partid_fid = 0, partid_partnum = 0\<rparr>,
         pi_hash = blank_hash, pi_locations = [0]\<rparr>])))
    = (Inr KA_No, (answered (down_answer 10 0 [\<lparr>stp_addr = \<lparr>addr_ipv6 = ''abcdefghijklmnop'', addr_port = 7\<rparr>, stp_nb = 0\<rparr>])
         (session_create 1 [] []), fresh_state (Some (file_db 1 [\<lparr>pi_partid = \<lparr>partid_fid = 0, partid_partnum = 0\<rparr>,
         pi_hash = blank_hash, pi_locations = [0]\<rparr>]))))"
proof -
  let ?p = "\<lparr>pi_partid = \<lparr>partid_fid = 0, partid_partnum = 0\<rparr>, pi_hash = blank_hash, pi_locations = [0 :: stid_type]\<rparr>"
  let ?pkt = "packet_of_message c_m_fromto down_req_w ''a.__0''"
  let ?a = "\<lparr>addr_ipv6 = ''abcdefghijklmnop'', addr_port = 7 :: port_type\<rparr>"
  have ok: "list_all PartItem_ok [?p]" using blank_hash_ok by (simp add: PartItem_ok_def)
  have 1: "front_data ?pkt = Inr (''a.__0'' @ [])" "fromto_get ?pkt = c_m_fromto" "unat (size_get ?pkt) = length ''a.__0''"
    by (simp_all add: packet_of_message_def mk_header_def fromto_get_def size_get_def front_data_def message_seq_get_def)
  have loc: "list_all2 (located (env_net sample_env) (cat_storages (one_file 1 [?p]))) (fi_parts (ten_bytes 1 [?p])) [?a]"
    by (simp add: located_def one_file_def one_storage_def ten_bytes_def addr_get_def get_addr_def get_ipv6_def
        sample_storage_def sample_env_def sample_net_def)
  have files: "cat_files (one_file 1 [?p]) = [ten_bytes 1 [?p]]" "fi_name (ten_bytes 1 [?p]) = ''a.__0''"
    by (simp_all add: one_file_def ten_bytes_def)
  from down_req_answers [OF sample_env_ok file_state(1-3) [OF ok, of 1] 1, where s = "session_create 1 [] []"] loc
  have "cm_down_req sample_env ?pkt (session_create 1 [] [], fresh_state (Some (file_db 1 [?p]))) =
      (Inr KA_No, (answered (down_answer (fi_file_size (ten_bytes 1 [?p])) (fi_id (ten_bytes 1 [?p]))
              (map2 (\<lambda>p a. \<lparr>stp_addr = a, stp_nb = num_get p\<rparr>) (fi_parts (ten_bytes 1 [?p])) [?a])) (session_create 1 [] []),
            (fresh_state (Some (file_db 1 [?p])))\<lparr>iterator_initialized := False\<rparr>))"
    by (simp add: files)
  moreover have "(fresh_state (Some (file_db 1 [?p])))\<lparr>iterator_initialized := False\<rparr> = fresh_state (Some (file_db 1 [?p]))"
    by (simp add: fresh_state_def)
  ultimately show ?thesis by (simp add: ten_bytes_def num_get_def)
qed

end
