(* ===== verification/Storage.thy ===== *)
theory Storage
  imports Conf Files
begin

text \<open>
  The storage server (\<^verbatim>\<open>storage/storage.cc\<close>, \<^verbatim>\<open>storage_callbacks.cc\<close>): its identifier, the two
  handlers that take a part from a client and give it back, and the dispatcher.
\<close>

section \<open>Environment and state\<close>

text \<open>
  \<open>sto_writable\<close> tells which paths \<^verbatim>\<open>std::ofstream\<close> can open and \<open>sto_space\<close> is what the
  file system reports as available.
\<close>

record 'ctx storage_env =
  sto_files :: "'ctx files_lib"
  sto_net :: net_lib
  sto_connect :: tcp
  sto_conf :: storage_Conf
  sto_writable :: "string \<Rightarrow> bool"
  sto_space :: "64 word"

record storage_state =
  sst_fs :: fs
  sst_id :: "32 word"
  sst_opened :: opened

definition set_fs :: "fs \<Rightarrow> storage_state \<Rightarrow> storage_state" where
  "set_fs d w = w\<lparr>sst_fs := d\<rparr>"

text \<open>
  \<^verbatim>\<open>std::ofstream file(path); file.write(...)\<close>: a path that cannot be opened is not an error.
  The buffer reaches the disk at the latest when the handler returns or throws.
\<close>

definition ofstream_write :: "'ctx storage_env \<Rightarrow> string \<Rightarrow> string \<Rightarrow> fs \<Rightarrow> fs" where
  "ofstream_write E path bytes d = (if sto_writable E path then d(path \<mapsto> bytes) else d)"

definition part_path :: "storage_Conf \<Rightarrow> PARTID \<Rightarrow> string" where
  "part_path conf p =
     sc_storage_path conf @ ''/'' @ decimal (unat (partid_fid p)) @ ''.'' @ decimal (unat (partid_partnum p))"

definition storage_send_error :: "Packet \<Rightarrow> error_code \<Rightarrow> string \<Rightarrow> ('w conn, keep_alive) act" where
  "storage_send_error p err msg = bnd (send_ack p err) (\<lambda>_. ret KA_No)"

definition space_available :: "'ctx storage_env \<Rightarrow> 64 word" where
  "space_available E = sto_space E"

section \<open>Talking to the master\<close>

text \<open>\<^verbatim>\<open>Session::create(..., conf.master_hostname, conf.master_port)\<close> and one \<^verbatim>\<open>send\<close> on it.\<close>

definition master_session :: "'ctx storage_env \<Rightarrow> session res" where
  "master_session E =
     session_connect (sto_net E) (sto_connect E) 0 (sc_master_hostname (sto_conf E)) (sc_master_port (sto_conf E))"

definition record_opened :: "'ctx storage_env \<Rightarrow> session \<Rightarrow> storage_state \<Rightarrow> storage_state" where
  "record_opened E s w =
     w\<lparr>sst_opened := sst_opened w @ [(sc_master_hostname (sto_conf E), sc_master_port (sto_conf E), ses_outbox s)]\<rparr>"

definition tell_master :: "'ctx storage_env \<Rightarrow> Packet \<Rightarrow> (storage_state, unit) act" where
  "tell_master E p = (\<lambda>w.
     case master_session E of
       Inl f \<Rightarrow> (Inl f, w)
     | Inr m \<Rightarrow> (case send p (m, w) of (r, (m', w')) \<Rightarrow> (r, record_opened E m' w')))"

section \<open>Receiving a part\<close>

text \<open>
  The size of the data is computed in \<^verbatim>\<open>size_t\<close> and wraps for a packet shorter than the
  fixed part. The available space sent to the master is the constant ten.
\<close>

definition cs_up_act :: "'ctx storage_env \<Rightarrow> storage_state dispatcher" where
  "cs_up_act E packet =
     bnd (lift_res (front_data packet)) (\<lambda>data.
     bnd (lift_res (view sizeof_PARTID dec_PARTID data)) (\<lambda>partid.
     (let sz = ucast (size_get packet) - word_of_nat sizeof_up_act :: 64 word in
     bnd (lift_res (hash_buffer_hex (sto_files E) (drop sizeof_up_act data) sz)) (\<lambda>hash.
     bnd (lift_res (view sizeof_up_act dec_up_act data)) (\<lambda>part.
     if hash \<noteq> up_act_sha1 part then storage_send_error packet hash_failed ''Hash failed''
     else
       bnd (lift_res (view (sizeof_up_act + unat sz) (slice sizeof_up_act (unat sz)) data)) (\<lambda>bytes.
       bnd (on_world (modify (\<lambda>w. set_fs (ofstream_write E (part_path (sto_conf E) partid) bytes (sst_fs w)) w))) (\<lambda>_.
       bnd (on_world (gets sst_id)) (\<lambda>stid.
       bnd (on_world (tell_master E (add_message
              (enc_part_ack \<lparr>part_ack_stid = stid, part_ack_partid = partid, part_ack_avspace = 10\<rparr>)
              (packet_empty s_m_fromto sm_part_ack_w)))) (\<lambda>_.
       bnd (send_ack packet success) (\<lambda>_.
         ret KA_Yes))))))))))"

section \<open>Giving a part back\<close>

definition cs_down_act :: "'ctx storage_env \<Rightarrow> storage_state dispatcher" where
  "cs_down_act E packet =
     bnd (lift_res (front_data packet)) (\<lambda>data.
     bnd (lift_res (view sizeof_PARTID dec_PARTID data)) (\<lambda>partid.
     bnd (on_world (gets sst_fs)) (\<lambda>d.
     bnd (lift_res (File_open (sto_files E) d (part_path (sto_conf E) partid))) (\<lambda>part.
     bnd (lift_res (hash_file_hex (sto_files E) d part)) (\<lambda>hash.
     (let p = packet_empty s_c_fromto sc_up_act_w;
          p = add_message (enc_PARTID partid) p;
          p = add_message hash p;
          p = add_message (file_data d part) p
      in bnd (blocking_send p) (\<lambda>_.
         bnd recv_ack (\<lambda>_.
           ret KA_No))))))))"

section \<open>The identifier\<close>

text \<open>\<^verbatim>\<open>id_file >> id\<close>: blanks, a sign and digits, as \<^verbatim>\<open>std::num_get\<close> reads an unsigned integer.\<close>

definition read_uint32 :: "string \<Rightarrow> 32 word \<Rightarrow> 32 word" where
  "read_uint32 text old =
     (case dropWhile is_blank text of
        [] \<Rightarrow> old
      | c # r \<Rightarrow>
          let neg = (c = CHR ''-''); digits = takeWhile is_digit (if neg \<or> c = CHR ''+'' then r else c # r);
              v = num_value digits
          in if digits = [] then 0
             else if 2 ^ 32 \<le> v then - 1
             else if neg then - word_of_nat v else word_of_nat v)"

definition id_answer_handler :: "'ctx storage_env \<Rightarrow> storage_state dispatcher" where
  "id_answer_handler E p =
     bnd (lift_res (rbind (front_data p) (view sizeof_fid_info dec_fid_info))) (\<lambda>response.
     bnd (on_world (modify (\<lambda>w. w\<lparr>sst_id := fid_info_stid response,
            sst_fs := ofstream_write E (sc_id_path (sto_conf E)) (decimal (unat (fid_info_stid response))) (sst_fs w)\<rparr>))) (\<lambda>_.
       ret KA_No))"

text \<open>
  The request is sent asynchronously, before the \<^verbatim>\<open>io_service\<close> runs, and the answer is then waited
  for; the write is modelled as immediate, which leaves the same bytes on the connection.
\<close>

definition init_id :: "'ctx storage_env \<Rightarrow> (storage_state, unit) act" where
  "init_id E = (\<lambda>w.
     case sst_fs w (sc_id_path (sto_conf E)) of
       Some content \<Rightarrow> (Inr (), w\<lparr>sst_id := read_uint32 content (sst_id w)\<rparr>)
     | None \<Rightarrow>
         (case master_session E of
            Inl f \<Rightarrow> (Inl f, w)
          | Inr m \<Rightarrow>
              (case bnd (send (add_message
                           (enc_id_req \<lparr>id_req_port = sc_port (sto_conf E), id_req_avspace = space_available E\<rparr>)
                           (packet_empty s_m_fromto id_req_w)))
                      (\<lambda>_. blocking_receive (id_answer_handler E)) (m, w) of
                 (r, (m', w')) \<Rightarrow> (r, record_opened E m' w'))))"

section \<open>The dispatcher\<close>

definition storage_dispatcher :: "'ctx storage_env \<Rightarrow> storage_state dispatcher" where
  "storage_dispatcher E packet =
     (if size_get packet < 1 then storage_send_error packet invalid_packet ''Recieved an invalid packet''
      else if what_get packet = ack_w then ret KA_No
      else if fromto_get packet = c_s_fromto then
        (if what_get packet = cs_up_act_w then cs_up_act E packet
         else if what_get packet = cs_down_act_w then cs_down_act E packet
         else ret KA_No)
      else ret KA_No)"

section \<open>A part that is stored\<close>

text \<open>The packet a client sends for a part, and the one a storage answers a download with.\<close>

definition up_packet :: "PARTID \<Rightarrow> string \<Rightarrow> string \<Rightarrow> string" where
  "up_packet partid hash bytes = enc_up_act \<lparr>up_act_partid = partid, up_act_sha1 = hash\<rparr> @ bytes"

definition part_ack_packet :: "stid_type \<Rightarrow> PARTID \<Rightarrow> Packet" where
  "part_ack_packet stid partid = add_message
     (enc_part_ack \<lparr>part_ack_stid = stid, part_ack_partid = partid, part_ack_avspace = 10\<rparr>)
     (packet_empty s_m_fromto sm_part_ack_w)"

lemma up_packet_views:
  assumes "length hash = sha1_type_size"
  shows "view sizeof_PARTID dec_PARTID (up_packet partid hash bytes) = Inr partid"
    "view sizeof_up_act dec_up_act (up_packet partid hash bytes) = Inr \<lparr>up_act_partid = partid, up_act_sha1 = hash\<rparr>"
    "drop sizeof_up_act (up_packet partid hash bytes) = bytes"
    "length (up_packet partid hash bytes) = sizeof_up_act + length bytes"
    "view (sizeof_up_act + length bytes) (slice sizeof_up_act (length bytes)) (up_packet partid hash bytes) = Inr bytes"
proof -
  let ?a = "\<lparr>up_act_partid = partid, up_act_sha1 = hash\<rparr>"
  have wf: "wf_up_act ?a" using assms by (simp add: wf_up_act_def)
  have len: "length (enc_up_act ?a) = sizeof_up_act" by (rule up_act.enc_size [OF wf])
  show "view sizeof_up_act dec_up_act (up_packet partid hash bytes) = Inr ?a"
    unfolding up_packet_def by (rule up_act.view_enc [OF wf])
  show "view sizeof_PARTID dec_PARTID (up_packet partid hash bytes) = Inr partid"
    using partid.view_enc [of partid "hash @ bytes"] by (simp add: up_packet_def enc_up_act_def)
  show "drop sizeof_up_act (up_packet partid hash bytes) = bytes"
    "length (up_packet partid hash bytes) = sizeof_up_act + length bytes"
    "view (sizeof_up_act + length bytes) (slice sizeof_up_act (length bytes)) (up_packet partid hash bytes) = Inr bytes"
    using len by (simp_all add: up_packet_def view_def slice_def)
qed

lemma tell_master_run:
  assumes "master_session E = Inr m"
  shows "tell_master E p w =
    (Inr (), w\<lparr>sst_opened := sst_opened w @ [(sc_master_hostname (sto_conf E), sc_master_port (sto_conf E), packet_bytes p)]\<rparr>)"
  using session_connect_fresh [OF assms [unfolded master_session_def]] assms
  by (simp add: tell_master_def send_run record_opened_def)

text \<open>Every part below 16 MiB: the size the handler computes is the one of the data.\<close>

lemma up_size:
  assumes "length bytes < 2 ^ 24" "size_get packet = word_of_nat (sizeof_up_act + length bytes)"
  shows "unat (ucast (size_get packet) - word_of_nat sizeof_up_act :: 64 word) = length bytes"
proof -
  have "unat (size_get packet) = sizeof_up_act + length bytes"
    using assms unat_word_of_nat_32 [of "sizeof_up_act + length bytes"] by (simp add: sizeof_up_act_def)
  moreover have "(ucast (size_get packet) :: 64 word) = word_of_nat (unat (size_get packet))"
    by (rule of_nat_unat [symmetric])
  ultimately have "(ucast (size_get packet) :: 64 word) = word_of_nat (sizeof_up_act + length bytes)"
    by (simp only:)
  then have "ucast (size_get packet) - word_of_nat sizeof_up_act = (word_of_nat (length bytes) :: 64 word)"
    by simp
  then show ?thesis using assms(1) unat_word_of_nat_64 [of "length bytes"] by simp
qed

text \<open>The disk after a part was written: an output file that cannot be opened is not noticed.\<close>

definition disk_with_part :: "'ctx storage_env \<Rightarrow> PARTID \<Rightarrow> string \<Rightarrow> fs \<Rightarrow> fs" where
  "disk_with_part E partid bytes d =
     (if sto_writable E (part_path (sto_conf E) partid) then d(part_path (sto_conf E) partid \<mapsto> bytes) else d)"

lemma up_act_cases:
  assumes "sha1_ok (sto_files E)" "length bytes < 2 ^ 24" "length hash = sha1_type_size"
    and "front_data packet = Inr (up_packet partid hash bytes)" "fromto_get packet = c_s_fromto"
    and "size_get packet = word_of_nat (sizeof_up_act + length bytes)"
  shows "cs_up_act E packet (s, w) =
    (if hash \<noteq> sha1 (sto_files E) bytes then (Inr KA_No, (answered (ack_answer s_c_fromto hash_failed) s, w))
     else (case master_session E of
         Inl f \<Rightarrow> (Inl f, (s, w\<lparr>sst_fs := disk_with_part E partid bytes (sst_fs w)\<rparr>))
       | Inr m \<Rightarrow> (Inr KA_Yes, (answered (ack_answer s_c_fromto success) s,
          w\<lparr>sst_fs := disk_with_part E partid bytes (sst_fs w),
            sst_opened := sst_opened w @ [(sc_master_hostname (sto_conf E), sc_master_port (sto_conf E),
               packet_bytes (part_ack_packet (sst_id w) partid))]\<rparr>))))"
proof -
  let ?sz = "ucast (size_get packet) - word_of_nat sizeof_up_act :: 64 word"
  note sz = up_size [OF assms(2,6)] and v = up_packet_views [OF assms(3)]
  have hash: "hash_buffer_hex (sto_files E) bytes ?sz = Inr (sha1 (sto_files E) bytes)"
    using hash_buffer_hex_small [OF assms(1), of ?sz bytes] assms(2) by (simp add: sz)
  have inv: "fromto_inverse (fromto_get packet) = Inr s_c_fromto"
    by (simp add: fromto_inverse_def fromto_defs assms(5))
  note run = cs_up_act_def bnd_run lift_res_run on_world_run ret_run gets_run modify_run assms(4) v
    Let_def sz send_ack_run [OF inv] storage_send_error_def set_fs_def
    ofstream_write_def disk_with_part_def
  show ?thesis
  proof (cases "hash = sha1 (sto_files E) bytes")
    case True
    then have h: "hash_buffer_hex (sto_files E) bytes ?sz = Inr hash" using hash by simp
    have not: "\<not> hash \<noteq> sha1 (sto_files E) bytes" using True by blast
    show ?thesis
    proof (cases "master_session E")
      case (Inl f)
      then show ?thesis unfolding if_not_P [OF not] by (simp add: run h tell_master_def)
    next
      case (Inr m)
      then show ?thesis unfolding if_not_P [OF not] by (simp add: run h tell_master_run [OF Inr] part_ack_packet_def)
    qed
  next
    case False
    then show ?thesis by (simp add: run hash)
  qed
qed

lemma up_act_run:
  assumes "sha1_ok (sto_files E)" "length bytes < 2 ^ 24" "length hash = sha1_type_size"
    and "front_data packet = Inr (up_packet partid hash bytes)" "fromto_get packet = c_s_fromto"
    and "size_get packet = word_of_nat (sizeof_up_act + length bytes)"
    and "master_session E = Inr m"
  shows "cs_up_act E packet (s, w) =
    (if hash = sha1 (sto_files E) bytes
     then (Inr KA_Yes, (answered (ack_answer s_c_fromto success) s,
        w\<lparr>sst_fs := ofstream_write E (part_path (sto_conf E) partid) bytes (sst_fs w),
          sst_opened := sst_opened w @ [(sc_master_hostname (sto_conf E), sc_master_port (sto_conf E),
             packet_bytes (part_ack_packet (sst_id w) partid))]\<rparr>))
     else (Inr KA_No, (answered (ack_answer s_c_fromto hash_failed) s, w)))"
  using up_act_cases [OF assms(1-6)] assms(7) by (simp add: disk_with_part_def ofstream_write_def)

text \<open>
  C8: A part below 16 MiB that arrives with its SHA-1 is written to the file of its id and number when
  that file can be opened, the master, when it can be reached, is told under the storage's own
  id, and the client then gets a success on a connection that stays open for the next
  part. When the file cannot be opened nothing is written, and yet master and client are
  told the same; when the master cannot be reached the handler throws after writing and the
  client is told nothing. With any other hash the client gets \<^verbatim>\<open>hash_failed\<close>, nothing is
  written, the master hears nothing, and the connection is closed.
\<close>

theorem up_act_stores_part:
  assumes "sha1_ok (sto_files E)" "length bytes < 2 ^ 24" "length hash = sha1_type_size"
    and "front_data packet = Inr (up_packet partid hash bytes)" "fromto_get packet = c_s_fromto"
    and "size_get packet = word_of_nat (sizeof_up_act + length bytes)"
  shows "cs_up_act E packet (s, w) =
    (if hash \<noteq> sha1 (sto_files E) bytes then (Inr KA_No, (answered (ack_answer s_c_fromto hash_failed) s, w))
     else (case master_session E of
         Inl f \<Rightarrow> (Inl f, (s, w\<lparr>sst_fs := disk_with_part E partid bytes (sst_fs w)\<rparr>))
       | Inr m \<Rightarrow> (Inr KA_Yes, (answered (ack_answer s_c_fromto success) s,
          w\<lparr>sst_fs := disk_with_part E partid bytes (sst_fs w),
            sst_opened := sst_opened w @ [(sc_master_hostname (sto_conf E), sc_master_port (sto_conf E),
               packet_bytes (part_ack_packet (sst_id w) partid))]\<rparr>))))"
  using up_act_cases [OF assms] .

text \<open>A storage whose master is reachable at an address written as its bytes.\<close>

definition sample_storage_conf :: storage_Conf where
  "sample_storage_conf = \<lparr>sc_config_path = [], sc_hostname = ''abcdefghijklmnop'', sc_port = 7, sc_concurrency = 1,
     sc_timeout = 0, sc_master_hostname = ''master'', sc_master_port = 8, sc_storage_path = ''st'', sc_id_path = ''id''\<rparr>"

definition resolving_net :: net_lib where
  "resolving_net = sample_net\<lparr>resolve_host := (\<lambda>h p. Some [(V6 (replicate 16 (CHR 0x00)), 8)])\<rparr>"

definition sample_storage_env :: "string storage_env" where
  "sample_storage_env = \<lparr>sto_files = sample_lib, sto_net = resolving_net, sto_connect = (\<lambda>_. Inr []),
     sto_conf = sample_storage_conf, sto_writable = (\<lambda>_. True), sto_space = 100\<rparr>"

lemma sample_storage_env_ok:
  "sha1_ok (sto_files sample_storage_env)" "mapping_ok (sto_files sample_storage_env)"
  "master_session sample_storage_env = Inr (session_create 0 ''master'' [])"
  using sample_lib_ok
  by (simp_all add: sample_storage_env_def master_session_def session_connect_def endpoint_from_host_port_def
      endpoint_from_host_def resolving_net_def sample_storage_conf_def)

definition empty_storage :: storage_state where
  "empty_storage = \<lparr>sst_fs = Map.empty, sst_id = 4, sst_opened = []\<rparr>"

definition sample_up_packet :: Packet where
  "sample_up_packet = packet_of_message c_s_fromto cs_up_act_w
     (up_packet \<lparr>partid_fid = 1, partid_partnum = 2\<rparr> (sha1 sample_lib ''abc'') ''abc'')"

lemma sample_up_packet:
  "front_data sample_up_packet = Inr (up_packet \<lparr>partid_fid = 1, partid_partnum = 2\<rparr> (sha1 sample_lib ''abc'') ''abc'')"
  "fromto_get sample_up_packet = c_s_fromto" "size_get sample_up_packet = word_of_nat (sizeof_up_act + length ''abc'')"
  "length (sha1 sample_lib ''abc'') = sha1_type_size"
proof -
  show len: "length (sha1 sample_lib ''abc'') = sha1_type_size"
    using sample_lib_ok(1) by (simp add: sha1_ok_def sha1_def)
  show "front_data sample_up_packet = Inr (up_packet \<lparr>partid_fid = 1, partid_partnum = 2\<rparr> (sha1 sample_lib ''abc'') ''abc'')"
    "fromto_get sample_up_packet = c_s_fromto" "size_get sample_up_packet = word_of_nat (sizeof_up_act + length ''abc'')"
    using up_packet_views(4) [OF len]
    by (simp_all add: sample_up_packet_def packet_of_message_def mk_header_def fromto_get_def size_get_def
        front_data_def message_seq_get_def)
qed

text \<open>The same storage when its directory is not writable, and when its master is down.\<close>

definition read_only_storage :: "string storage_env" where
  "read_only_storage = sample_storage_env\<lparr>sto_writable := (\<lambda>_. False)\<rparr>"

definition lonely_storage :: "string storage_env" where
  "lonely_storage = sample_storage_env\<lparr>sto_net := sample_net\<rparr>"

lemma other_storages:
  "sto_files read_only_storage = sample_lib" "sto_files lonely_storage = sample_lib" "sto_files sample_storage_env = sample_lib"
  "sto_conf read_only_storage = sample_storage_conf" "sto_conf lonely_storage = sample_storage_conf"
  "sto_conf sample_storage_env = sample_storage_conf"
  "sto_writable read_only_storage p = False" "sto_writable lonely_storage p = True" "sto_writable sample_storage_env p = True"
  "\<exists>m. master_session read_only_storage = Inr m" "\<exists>m. master_session sample_storage_env = Inr m"
  "\<exists>f. master_session lonely_storage = Inl f"
  using sample_storage_env_ok(3)
  by (auto simp: read_only_storage_def lonely_storage_def sample_storage_env_def master_session_def session_connect_def
      endpoint_from_host_port_def endpoint_from_host_def sample_net_def sample_storage_conf_def)

lemma up_act_stores_part_witness:
  "\<exists>path. path = part_path sample_storage_conf \<lparr>partid_fid = 1, partid_partnum = 2\<rparr>
   \<and> (\<exists>s' w'. cs_up_act sample_storage_env sample_up_packet (session_create 1 [] [], empty_storage) = (Inr KA_Yes, (s', w'))
        \<and> sst_fs w' = [path \<mapsto> ''abc''])
   \<and> (\<exists>s' w'. cs_up_act read_only_storage sample_up_packet (session_create 1 [] [], empty_storage) = (Inr KA_Yes, (s', w'))
        \<and> sst_fs w' = Map.empty)
   \<and> (\<exists>f w'. cs_up_act lonely_storage sample_up_packet (session_create 1 [] [], empty_storage) = (Inl f, (session_create 1 [] [], w'))
        \<and> sst_fs w' = [path \<mapsto> ''abc''])"
proof -
  have lib: "sha1_ok (sto_files sample_storage_env)" "sha1_ok (sto_files read_only_storage)" "sha1_ok (sto_files lonely_storage)"
    using sample_lib_ok(1) by (simp_all only: other_storages)
  have len: "length ''abc'' < 2 ^ 24" by simp
  obtain m1 m2 f where m: "master_session sample_storage_env = Inr m1" "master_session read_only_storage = Inr m2"
    "master_session lonely_storage = Inl f" using other_storages(10-12) by blast
  note use = up_act_stores_part [OF _ len sample_up_packet(4,1-3), where s = "session_create 1 [] []" and w = empty_storage]
  show ?thesis
    using use [OF lib(1)] use [OF lib(2)] use [OF lib(3)]
    by (simp add: m other_storages disk_with_part_def empty_storage_def)
qed

section \<open>A part that is given back\<close>

definition part_packet :: "('ctx, 'e) files_lib_scheme \<Rightarrow> PARTID \<Rightarrow> string \<Rightarrow> Packet" where
  "part_packet L partid bytes =
     add_message bytes (add_message (sha1 L bytes) (add_message (enc_PARTID partid) (packet_empty s_c_fromto sc_up_act_w)))"

lemma payload_part_packet: "payload (part_packet L partid bytes) = up_packet partid (sha1 L bytes) bytes"
  by (simp add: part_packet_def payload_def packet_simps up_packet_def enc_up_act_def)

lemma File_open_run:
  assumes "mapping_ok L" "d path = Some bytes" "0 < length bytes" "length bytes < 2 ^ 24"
  shows "File_open L d path = Inr \<lparr>filepath_get = path, file_size = length bytes\<rparr>"
proof -
  have "length bytes mod 2 ^ 32 = length bytes" using assms(4) by simp
  with assms show ?thesis by (simp add: File_open_def mapping_ok_def)
qed

lemma down_act_run:
  assumes "sha1_ok (sto_files E)" "mapping_ok (sto_files E)" "0 < length bytes" "length bytes < 2 ^ 24"
    and "sst_fs w (part_path (sto_conf E) partid) = Some bytes" "front_data packet = Inr (enc_PARTID partid @ rest)"
  shows "cs_down_act E packet (s, w) =
    bnd recv_ack (\<lambda>_. ret KA_No) (answered (part_packet (sto_files E) partid bytes) s, w)"
proof -
  have sz: "unat (word_of_nat (length bytes) :: 64 word) = length bytes"
    using assms(4) by (intro unat_word_of_nat_64) simp
  have hash: "hash_buffer_hex (sto_files E) bytes (word_of_nat (length bytes)) = Inr (sha1 (sto_files E) bytes)"
    using hash_buffer_hex_small [OF assms(1), of "word_of_nat (length bytes)" bytes] assms(4) by (simp add: sz)
  have view: "view sizeof_PARTID dec_PARTID (enc_PARTID partid @ rest) = Inr partid"
    by (rule partid.view_enc) simp
  have opened: "File_open (sto_files E) (sst_fs w) (part_path (sto_conf E) partid) =
      Inr \<lparr>filepath_get = part_path (sto_conf E) partid, file_size = length bytes\<rparr>"
    using assms(2-5) by (intro File_open_run)
  show ?thesis
    by (simp add: cs_down_act_def bnd_run lift_res_run on_world_run gets_run assms(5,6) view hash_file_hex_def
        opened file_data_def hash Let_def part_packet_def blocking_send_answered)
qed

text \<open>
  A part that was stored is given back byte for byte, with its SHA-1, to whoever asks for its
  id and number: the packet sent holds exactly the bytes, the hash and the id that the
  upload held.
\<close>

lemma stored_part_comes_back:
  assumes "sha1_ok (sto_files E)" "mapping_ok (sto_files E)" "0 < length bytes" "length bytes < 2 ^ 24"
    and "sto_writable E (part_path (sto_conf E) partid)" "master_session E = Inr m"
    and "front_data packet = Inr (up_packet partid (sha1 (sto_files E) bytes) bytes)" "fromto_get packet = c_s_fromto"
    and "size_get packet = word_of_nat (sizeof_up_act + length bytes)"
    and "front_data request = Inr (enc_PARTID partid @ rest)"
    and "ses_inbox b = packet_bytes (ack_answer ft success) @ rest'"
  shows "\<exists>w'. cs_up_act E packet (a, w) = (Inr KA_Yes, (answered (ack_answer s_c_fromto success) a, w'))
    \<and> cs_down_act E request (b, w') =
        (Inr KA_No, ((answered (part_packet (sto_files E) partid bytes) b)\<lparr>ses_inbox := rest'\<rparr>, w'))
    \<and> payload (part_packet (sto_files E) partid bytes) = up_packet partid (sha1 (sto_files E) bytes) bytes"
proof -
  let ?w' = "w\<lparr>sst_fs := ofstream_write E (part_path (sto_conf E) partid) bytes (sst_fs w),
          sst_opened := sst_opened w @ [(sc_master_hostname (sto_conf E), sc_master_port (sto_conf E),
             packet_bytes (part_ack_packet (sst_id w) partid))]\<rparr>"
  have len: "length (sha1 (sto_files E) bytes) = sha1_type_size"
    using assms(1) by (simp add: sha1_ok_def sha1_def)
  have up: "cs_up_act E packet (a, w) = (Inr KA_Yes, (answered (ack_answer s_c_fromto success) a, ?w'))"
    using up_act_run [OF assms(1,4) len assms(7-9,6)] by simp
  have "sst_fs ?w' (part_path (sto_conf E) partid) = Some bytes"
    using assms(5) by (simp add: ofstream_write_def)
  note down = down_act_run [OF assms(1-4) this assms(10)]
  have inbox: "ses_inbox (answered (part_packet (sto_files E) partid bytes) b) =
      packet_bytes (add_message (enc_word (error_code_value success)) (packet_empty ft ack_w)) @ rest'"
    using assms(11) by (simp add: answered_def ack_answer_def)
  have "cs_down_act E request (b, ?w') =
      (Inr KA_No, ((answered (part_packet (sto_files E) partid bytes) b)\<lparr>ses_inbox := rest'\<rparr>, ?w'))"
    unfolding down bnd_run recv_ack_run [OF inbox] by (simp add: ret_run)
  with up payload_part_packet show ?thesis by blast
qed

lemma stored_part_comes_back_witness:
  "\<exists>w' s'. cs_up_act sample_storage_env sample_up_packet (session_create 1 [] [], empty_storage)
       = (Inr KA_Yes, (answered (ack_answer s_c_fromto success) (session_create 1 [] []), w'))
     \<and> cs_down_act sample_storage_env
         (packet_of_message c_s_fromto cs_down_act_w (enc_PARTID \<lparr>partid_fid = 1, partid_partnum = 2\<rparr>))
         (session_create 2 [] (packet_bytes (ack_answer c_s_fromto success)), w') = (Inr KA_No, (s', w'))"
proof -
  have lib: "sto_files sample_storage_env = sample_lib" by (simp add: sample_storage_env_def)
  let ?r = "packet_of_message c_s_fromto cs_down_act_w (enc_PARTID \<lparr>partid_fid = 1, partid_partnum = 2\<rparr>)"
  have 1: "0 < length ''abc''" "length ''abc'' < 2 ^ 24"
    "sto_writable sample_storage_env (part_path (sto_conf sample_storage_env) \<lparr>partid_fid = 1, partid_partnum = 2\<rparr>)"
    by (simp_all add: sample_storage_env_def)
  have 2: "front_data ?r = Inr (enc_PARTID \<lparr>partid_fid = 1, partid_partnum = 2\<rparr> @ [])"
    by (simp add: packet_of_message_def front_data_def message_seq_get_def)
  have 3: "ses_inbox (session_create 2 [] (packet_bytes (ack_answer c_s_fromto success))) = packet_bytes (ack_answer c_s_fromto success) @ []"
    by (simp add: session_create_def)
  from stored_part_comes_back [OF sample_storage_env_ok(1,2) 1 sample_storage_env_ok(3)
      sample_up_packet(1,2,3) [folded lib] 2 3, where a = "session_create 1 [] []" and w = empty_storage]
  show ?thesis by blast
qed

text \<open>
  A request for a part the storage does not have is not answered: opening the file throws,
  and the exception leaves the handler, with the connection and the storage as they were.
\<close>

lemma missing_part_throws:
  assumes "front_data packet = Inr (enc_PARTID partid @ rest)" "sst_fs w (part_path (sto_conf E) partid) = None"
  shows "cs_down_act E packet (s, w) = (Inl (Throw System_error), (s, w))"
proof -
  have "view sizeof_PARTID dec_PARTID (enc_PARTID partid @ rest) = Inr partid"
    by (rule partid.view_enc) simp
  with assms show ?thesis
    by (simp add: cs_down_act_def bnd_run lift_res_run on_world_run gets_run File_open_def)
qed

lemma missing_part_throws_witness:
  "cs_down_act sample_storage_env
     (packet_of_message c_s_fromto cs_down_act_w (enc_PARTID \<lparr>partid_fid = 1, partid_partnum = 2\<rparr>))
     (session_create 2 [] [], empty_storage) = (Inl (Throw System_error), (session_create 2 [] [], empty_storage))"
  by (rule missing_part_throws [where partid = "\<lparr>partid_fid = 1, partid_partnum = 2\<rparr>" and rest = "[]"])
    (simp_all add: packet_of_message_def front_data_def message_seq_get_def empty_storage_def)

section \<open>The identifier is kept\<close>

lemma read_uint32_decimal: "n < 2 ^ 32 \<Longrightarrow> read_uint32 (decimal n) old = word_of_nat n"
proof -
  assume n: "n < 2 ^ 32"
  obtain c cs where d: "decimal n = c # cs" by (cases "decimal n") auto
  have digs: "\<forall>x\<in>set (decimal n). is_digit x" by (simp add: decimal_digits)
  then have c: "is_digit c" using d by simp
  then have "\<not> is_blank c" "c \<noteq> CHR ''-''" "c \<noteq> CHR ''+''"
    by (auto simp: is_digit_def is_blank_def)
  moreover have "takeWhile is_digit (c # cs) = decimal n"
    using digs d by (simp add: takeWhile_eq_all_conv)
  moreover have "num_value (decimal n) = n" by simp
  moreover have "decimal n \<noteq> []" using d by simp
  ultimately show ?thesis using n unfolding d by (simp add: read_uint32_def Let_def)
qed

lemma read_uint32_string: "read_uint32 (decimal (unat (i :: 32 word))) old = i"
  using unat_lt [of i] by (simp add: read_uint32_decimal)

lemma id_answer_handler_run:
  "id_answer_handler E (delivered (id_answer i)) (s, w) =
     (Inr KA_No, (s, w\<lparr>sst_id := i, sst_fs := ofstream_write E (sc_id_path (sto_conf E)) (decimal (unat i)) (sst_fs w)\<rparr>))"
proof -
  have "front_data (delivered (id_answer i)) = Inr (enc_fid_info \<lparr>fid_info_stid = i\<rparr> @ [])"
    by (simp add: delivered_def id_answer_def front_data_def packet_simps)
  moreover have "view sizeof_fid_info dec_fid_info (enc_fid_info \<lparr>fid_info_stid = i\<rparr> @ []) = Inr \<lparr>fid_info_stid = i\<rparr>"
    by (rule fid_info.view_enc) simp
  ultimately show ?thesis
    by (simp add: id_answer_handler_def bnd_run lift_res_run on_world_run modify_run ret_run)
qed

text \<open>
  C25: A storage keeps its identity: the id the master hands it on its first start is written to
  the id file, and every later start takes the same id from there without asking again.
\<close>

theorem storage_id_persists:
  assumes "sst_fs w (sc_id_path (sto_conf E)) = None" "sto_writable E (sc_id_path (sto_conf E))"
    and "master_session E = Inr m" "ses_inbox m = packet_bytes (id_answer i)"
  shows "\<exists>w'. init_id E w = (Inr (), w') \<and> sst_id w' = i
    \<and> length (sst_opened w') = length (sst_opened w) + 1
    \<and> (\<forall>old. init_id E (w'\<lparr>sst_id := old\<rparr>) = (Inr (), w'))"
proof -
  let ?req = "add_message (enc_id_req \<lparr>id_req_port = sc_port (sto_conf E), id_req_avspace = space_available E\<rparr>)
    (packet_empty s_m_fromto id_req_w)"
  let ?m = "m\<lparr>ses_outbox := ses_outbox m @ packet_bytes ?req\<rparr>"
  let ?w1 = "w\<lparr>sst_id := i, sst_fs := ofstream_write E (sc_id_path (sto_conf E)) (decimal (unat i)) (sst_fs w)\<rparr>"
  let ?w' = "record_opened E (?m\<lparr>ses_inbox := []\<rparr>) ?w1"
  have opn: "ses_open m" using session_connect_fresh assms(3) unfolding master_session_def by blast
  have "blocking_receive (id_answer_handler E) (?m, w) = (Inr (), (?m\<lparr>ses_inbox := []\<rparr>, ?w1))"
    using blocking_receive_once [OF id_answer_sendable, of ?m i "[]" "id_answer_handler E" w]
      id_answer_handler_run [of E i] assms(4) by simp
  then have init: "init_id E w = (Inr (), ?w')"
    using assms(1,3) opn by (simp add: init_id_def bnd_run send_run record_opened_def)
  have "sst_fs ?w' (sc_id_path (sto_conf E)) = Some (decimal (unat i))"
    using assms(2) by (simp add: record_opened_def ofstream_write_def)
  then have "init_id E (?w'\<lparr>sst_id := old\<rparr>) = (Inr (), ?w')" for old
    by (simp add: init_id_def read_uint32_string record_opened_def)
  with init show ?thesis by (intro exI [of _ ?w']) (simp add: record_opened_def)
qed

lemma storage_id_persists_witness:
  "\<exists>w'. init_id (sample_storage_env\<lparr>sto_connect := \<lambda>_. Inr (packet_bytes (id_answer 4))\<rparr>) empty_storage = (Inr (), w')
     \<and> sst_id w' = 4"
proof -
  let ?E = "sample_storage_env\<lparr>sto_connect := \<lambda>_. Inr (packet_bytes (id_answer 4))\<rparr>"
  have 1: "sst_fs empty_storage (sc_id_path (sto_conf ?E)) = None" by (simp add: empty_storage_def)
  have 2: "sto_writable ?E (sc_id_path (sto_conf ?E))" by (simp add: sample_storage_env_def)
  have 3: "master_session ?E = Inr (session_create 0 ''master'' (packet_bytes (id_answer 4)))"
    by (simp add: sample_storage_env_def master_session_def session_connect_def endpoint_from_host_port_def
      endpoint_from_host_def resolving_net_def sample_storage_conf_def)
  have 4: "ses_inbox (session_create 0 ''master'' (packet_bytes (id_answer 4))) = packet_bytes (id_answer 4)"
    by (simp add: session_create_def)
  from storage_id_persists [OF 1 2 3 4] show ?thesis by blast
qed

end
