(* ===== verification/Client.thy ===== *)
theory Client
  imports Requests Storage
begin

text \<open>
  The client (\<^verbatim>\<open>client/client.cc\<close>, \<^verbatim>\<open>client/main.cc\<close>): uploading a file part by part to the
  storages the master names, and downloading the parts into a new file. Each storage of an
  upload and each part of a download is a \<^verbatim>\<open>std::async\<close> task with a connection of its own.
\<close>

section \<open>Environment and state\<close>

text \<open>
  \<open>cli_connect k\<close> is the network as the \<open>k\<close>-th connection of the client meets it: the one to
  the master is number 0, the one of the \<open>k\<close>-th task number \<open>k + 1\<close>. The tasks share the
  progress counter and the file only, each change to them is one atomic step or a write to
  the task's own bytes, and every task runs to its end; \<open>cli_order n\<close> is the order in which
  \<open>n\<close> tasks get there. \<open>cli_space\<close> is what the file system reports for the current directory
  and \<open>cli_elapsed\<close> the duration of the transfer in milliseconds.
\<close>

record 'ctx client_env =
  cli_files :: "'ctx files_lib"
  cli_net :: net_lib
  cli_connect :: "nat \<Rightarrow> tcp"
  cli_conf :: client_Conf
  cli_order :: "nat \<Rightarrow> nat list"
  cli_space :: "64 word"
  cli_elapsed :: "64 word"

text \<open>\<open>cst_tasks\<close>: what each future of \<^verbatim>\<open>tasks_\<close> holds, \<open>None\<close> or the exception of its task.\<close>

record client_state =
  cst_fs :: fs
  cst_progress :: "64 word"
  cst_tasks :: "exn option list"
  cst_opened :: opened
  cst_out :: "string list"

definition process_error :: "Packet \<Rightarrow> string \<Rightarrow> (client_state conn, 'a) act" where
  "process_error p from_whom =
     bnd (lift_res (rbind (front_data p) (view 1 (\<lambda>d. dec_word (slice 0 1 d) :: 8 word)))) (\<lambda>ack_code.
       raise (Throw (Logic_error (''Error received from '' @ from_whom @ '' : '' @ decimal (unat ack_code)))))"

definition master_session_create :: "'ctx client_env \<Rightarrow> session res" where
  "master_session_create E =
     session_connect (cli_net E) (cli_connect E 0) 0 (cc_master_hostname (cli_conf E)) (cc_master_port (cli_conf E))"

text \<open>
  A computation on a new connection, which is closed at its end; the bytes written on it are
  recorded.
\<close>

definition with_session :: "session res \<Rightarrow> string \<Rightarrow> port_type \<Rightarrow> (client_state conn, unit) act \<Rightarrow> (client_state, unit) act" where
  "with_session opening host port m = (\<lambda>w.
     case opening of
       Inl f \<Rightarrow> (Inl f, w)
     | Inr s \<Rightarrow> (case m (s, w) of (r, (s', w')) \<Rightarrow>
         (r, w'\<lparr>cst_opened := cst_opened w' @ [(host, port, ses_outbox s')]\<rparr>)))"

section \<open>Tasks\<close>

text \<open>\<^verbatim>\<open>std::async\<close>: what the task throws is kept in its future.\<close>

definition async :: "(client_state, unit) act \<Rightarrow> (client_state, unit) act" where
  "async task =
     bnd (catching (\<lambda>_. True) (bnd task (\<lambda>_. ret None)) (\<lambda>e. ret (Some e))) (\<lambda>outcome.
       modify (\<lambda>w. w\<lparr>cst_tasks := cst_tasks w @ [outcome]\<rparr>))"

definition run_tasks :: "'ctx client_env \<Rightarrow> (client_state, unit) act list \<Rightarrow> (client_state, unit) act" where
  "run_tasks E tasks = forA (\<lambda>k. async (tasks ! k)) (cli_order E (length tasks))"

text \<open>\<^verbatim>\<open>end_all_tasks\<close> destroys the futures; nothing ever calls \<^verbatim>\<open>get\<close> on one.\<close>

definition end_all_tasks :: "(client_state, unit) act" where
  "end_all_tasks = modify (\<lambda>w. w\<lparr>cst_tasks := []\<rparr>)"

text \<open>
  \<^verbatim>\<open>progress_while\<close> polls the counter until it reaches the limit. The counter never
  decreases, so the loop ends exactly when its last value, the one after every task has
  ended, reaches the limit; below it the loop spins forever. The bar it draws is not modelled.
\<close>

definition progress_while :: "32 word \<Rightarrow> (client_state, unit) act" where
  "progress_while limit = (\<lambda>w. if cst_progress w < ucast limit then (Inl Looping, w) else (Inr (), w))"

definition step_progress :: "(client_state, unit) act" where
  "step_progress = modify (\<lambda>w. w\<lparr>cst_progress := cst_progress w + 1\<rparr>)"

section \<open>Uploading\<close>

text \<open>
  One part: its offset is a multiple of the quotient of the division, its size the one of
  \<^verbatim>\<open>get_part_size\<close>. A read past the mapping is undefined, and \<^verbatim>\<open>add_message\<close> takes a
  32-bit size.
\<close>

definition send_part :: "'ctx client_env \<Rightarrow> fid_type \<Rightarrow> File \<Rightarrow> 64 word \<Rightarrow> 64 word \<Rightarrow> (client_state conn, unit) act" where
  "send_part E fid f total_parts i =
     bnd (on_world (gets cst_fs)) (\<lambda>d.
     bnd (lift_res (get_part_size (word_of_nat (file_size f)) (ucast i) (ucast total_parts))) (\<lambda>part_size.
     (let part_buffer = drop (unat (word_of_nat (file_size f) div total_parts * i)) (file_data d f);
          part_num = ucast i :: partnum_type;
          len = unat (ucast part_size :: size_type)
      in bnd (lift_res (hash_buffer_hex (cli_files E) part_buffer part_size)) (\<lambda>hash.
         bnd (lift_res (view len (take len) part_buffer)) (\<lambda>bytes.
         (let to_send = packet_empty c_s_fromto cs_up_act_w;
              to_send = add_message (enc_word fid) to_send;
              to_send = add_message (enc_word part_num) to_send;
              to_send = add_message hash to_send;
              to_send = add_message bytes to_send
          in bnd (blocking_send to_send) (\<lambda>_.
             bnd recv_ack (\<lambda>_.
               on_world step_progress))))))))"

text \<open>The task of one storage: \<open>k\<close> is its place in the list of the master.\<close>

definition send_parts :: "'ctx client_env \<Rightarrow> nat \<Rightarrow> fid_type \<Rightarrow> File \<Rightarrow> ADDR \<Rightarrow> 64 word \<Rightarrow> 64 word \<Rightarrow> 64 word \<Rightarrow> (client_state, unit) act" where
  "send_parts E k fid f addr total_parts begin_id end_id =
     bnd (lift_res (binary_to_string_ipv6 (cli_net E) (addr_ipv6 addr) ipv6_type_size)) (\<lambda>host.
       with_session (session_connect (cli_net E) (cli_connect E (Suc k)) (Suc k) host (addr_port addr)) host (addr_port addr)
         (forA (send_part E fid f total_parts) (map word_of_nat [unat begin_id..<unat end_id])))"

text \<open>The parts are dealt from the last one down: \<^verbatim>\<open>[parts - field.nb, parts)\<close>.\<close>

fun upload_tasks :: "'ctx client_env \<Rightarrow> fid_type \<Rightarrow> File \<Rightarrow> 64 word \<Rightarrow> nat \<Rightarrow> 64 word \<Rightarrow> STPFIELD list \<Rightarrow> (client_state, unit) act list" where
  "upload_tasks E fid f total_parts k parts [] = []"
| "upload_tasks E fid f total_parts k parts (field # rest) =
     send_parts E k fid f (stp_addr field) total_parts (parts - ucast (stp_nb field)) parts
     # upload_tasks E fid f total_parts (Suc k) (parts - ucast (stp_nb field)) rest"

definition took :: "string \<Rightarrow> 64 word \<Rightarrow> 64 word \<Rightarrow> string" where
  "took what duration rate =
     what @ '' took '' @ decimal (unat duration) @ '' milliseconds ('' @ decimal (unat rate) @ ''Kio/s).''"

definition print_out :: "string \<Rightarrow> (client_state, unit) act" where
  "print_out line = modify (\<lambda>w. w\<lparr>cst_out := cst_out w @ [line]\<rparr>)"

text \<open>
  The number of fields comes from the size of the packet, computed in \<^verbatim>\<open>size_t\<close>: a short
  packet wraps to a huge number and the reads leave the buffer.
\<close>

definition upload_answer :: "'ctx client_env \<Rightarrow> File \<Rightarrow> client_state dispatcher" where
  "upload_answer E f p =
     (if what_get p = 0 then process_error p ''master''
      else
        bnd (lift_res (front_data p)) (\<lambda>data.
        (let list_size = (ucast (size_get p) - 8) div word_of_nat sizeof_STPFIELD :: 64 word in
         bnd (lift_res (view (8 + sizeof_STPFIELD * unat list_size) (dec_fdetails (unat list_size)) data)) (\<lambda>pieces.
         bnd (lift_res (mapM (\<lambda>it. binary_to_string_ipv6 (cli_net E) (addr_ipv6 (stp_addr it)) 16) (fdetails_stplist pieces))) (\<lambda>_.
         (let total_parts = sum_list (map (\<lambda>it. ucast (stp_nb it)) (fdetails_stplist pieces)) :: 64 word in
          bnd (on_world (modify (\<lambda>w. w\<lparr>cst_progress := 1\<rparr>))) (\<lambda>_.
          bnd (on_world (run_tasks E (upload_tasks E (fdetails_fid pieces) f total_parts 0 total_parts (fdetails_stplist pieces)))) (\<lambda>_.
          bnd (on_world (progress_while (ucast total_parts))) (\<lambda>_.
          bnd (on_world end_all_tasks) (\<lambda>_.
          bnd (if cli_elapsed E \<noteq> 0
               then on_world (print_out (took ''Upload'' (cli_elapsed E) (word_of_nat (file_size f) div cli_elapsed E)))
               else ret ()) (\<lambda>_.
            ret KA_No)))))))))))"

definition up_req_packet :: "fsize_type \<Rightarrow> rdcy_type \<Rightarrow> string \<Rightarrow> Packet" where
  "up_req_packet fsize rdcy fname =
     add_message fname (add_message (enc_up_req \<lparr>up_req_fsize = fsize, up_req_rdcy = rdcy\<rparr>) (packet_empty 0 1))"

definition request_upload :: "'ctx client_env \<Rightarrow> File \<Rightarrow> rdcy_type \<Rightarrow> (client_state, unit) act" where
  "request_upload E f rdcy =
     (if rdcy = 0 then raise (Throw (Logic_error ''Redundancy must be >= 1.''))
      else
        with_session (master_session_create E) (cc_master_hostname (cli_conf E)) (cc_master_port (cli_conf E))
          (bnd (blocking_send (up_req_packet (word_of_nat (file_size f)) rdcy (filename_get (cli_files E) f))) (\<lambda>_.
             blocking_receive (upload_answer E f))))"

section \<open>Downloading\<close>

text \<open>
  The bytes of a part are copied into the mapping at \<^verbatim>\<open>partnum * part_size\<close>; their number
  comes from the size of the packet. A copy past the end of the mapping is undefined.
\<close>

definition recv_part_answer :: "File \<Rightarrow> 64 word \<Rightarrow> client_state dispatcher" where
  "recv_part_answer f part_size p =
     bnd (lift_res (front_data p)) (\<lambda>data.
     bnd (lift_res (view sizeof_up_act dec_up_act data)) (\<lambda>up.
     (let len = unat (ucast (size_get p) - word_of_nat sizeof_PARTID - word_of_nat sha1_type_size :: 64 word);
          off = unat (ucast (partid_partnum (up_act_partid up)) * part_size)
      in bnd (lift_res (view (sizeof_up_act + len) (slice sizeof_up_act len) data)) (\<lambda>bytes.
         bnd (on_world (gets cst_fs)) (\<lambda>d.
         bnd (lift_res (view (off + len) (splice off bytes) (file_data d f))) (\<lambda>mapped.
         bnd (on_world (modify (\<lambda>w. w\<lparr>cst_fs := d(filepath_get f \<mapsto> mapped)\<rparr>))) (\<lambda>_.
         bnd (send_ack p success) (\<lambda>_.
         bnd (on_world step_progress) (\<lambda>_.
           ret KA_No)))))))))"

definition recv_part :: "'ctx client_env \<Rightarrow> nat \<Rightarrow> File \<Rightarrow> ADDR \<Rightarrow> PARTID \<Rightarrow> 64 word \<Rightarrow> (client_state, unit) act" where
  "recv_part E k f addr partid part_size =
     bnd (lift_res (binary_to_string_ipv6 (cli_net E) (addr_ipv6 addr) ipv6_type_size)) (\<lambda>host.
       with_session (session_connect (cli_net E) (cli_connect E (Suc k)) (Suc k) host (addr_port addr)) host (addr_port addr)
         (bnd (blocking_send (add_message (enc_PARTID partid) (packet_empty c_s_fromto cs_down_act_w))) (\<lambda>_.
            blocking_receive (recv_part_answer f part_size))))"

fun download_tasks :: "'ctx client_env \<Rightarrow> fid_type \<Rightarrow> File \<Rightarrow> 64 word \<Rightarrow> nat \<Rightarrow> STPFIELD list \<Rightarrow> (client_state, unit) act list" where
  "download_tasks E fid f part_size k [] = []"
| "download_tasks E fid f part_size k (field # rest) =
     recv_part E k f (stp_addr field) \<lparr>partid_fid = fid, partid_partnum = stp_nb field\<rparr> part_size
     # download_tasks E fid f part_size (Suc k) rest"

text \<open>The rate is computed without a test of the duration: less than a millisecond divides by zero.\<close>

definition download_answer :: "'ctx client_env \<Rightarrow> string \<Rightarrow> client_state dispatcher" where
  "download_answer E filename p =
     (if what_get p = 0 then process_error p ''master''
      else
        bnd (lift_res (front_data p)) (\<lambda>data.
        (let list_size = (ucast (size_get p) - 8 - 8) div word_of_nat sizeof_STPFIELD :: 64 word in
         if list_size = 0 then raise (Throw (Logic_error ''Invalid packet from master''))
         else
         bnd (lift_res (view (16 + sizeof_STPFIELD * unat list_size)
                (\<lambda>d. (dec_word (slice 0 8 d) :: fsize_type, dec_fdetails (unat list_size) (drop 8 d))) data)) (\<lambda>(fsize, pieces).
         (let part_size = fsize div list_size in
          if cli_space E < fsize then raise (Throw (Logic_error ''Not enough space available on filepath.''))
          else
          bnd (on_world (gets cst_fs)) (\<lambda>d.
          bnd (lift_res (create_empty_file (cli_files E) d (filename @ ''-dl'') (unat fsize))) (\<lambda>(f, d').
          bnd (on_world (modify (\<lambda>w. w\<lparr>cst_fs := d', cst_progress := 1\<rparr>))) (\<lambda>_.
          bnd (on_world (run_tasks E (download_tasks E (fdetails_fid pieces) f part_size 0 (fdetails_stplist pieces)))) (\<lambda>_.
          bnd (on_world (progress_while (ucast list_size))) (\<lambda>_.
          bnd (on_world end_all_tasks) (\<lambda>_.
          if cli_elapsed E = 0 then raise Undefined
          else
          bnd (on_world (print_out (took ''Download'' (cli_elapsed E) (fsize div cli_elapsed E)))) (\<lambda>_.
            ret KA_No))))))))))))"

definition request_download :: "'ctx client_env \<Rightarrow> string \<Rightarrow> (client_state, unit) act" where
  "request_download E filename =
     with_session (master_session_create E) (cc_master_hostname (cli_conf E)) (cc_master_port (cli_conf E))
       (bnd (blocking_send (add_message filename (packet_empty c_m_fromto down_req_w))) (\<lambda>_.
          blocking_receive (download_answer E filename)))"

section \<open>The program\<close>

text \<open>
  The second half of \<^verbatim>\<open>main\<close>: the redundancy is the character of the command line, less 48 in
  eight bits. The result is the exit code.
\<close>

definition client_main :: "'ctx client_env \<Rightarrow> (client_state, int) act" where
  "client_main E =
     catching is_std_exception
       (bnd (case cc_action (cli_conf E) of
               Act_upload \<Rightarrow>
                 bnd (gets cst_fs) (\<lambda>d.
                 bnd (lift_res (File_open (cli_files E) d (cc_file_path (cli_conf E)))) (\<lambda>f.
                   request_upload E f (cc_redundancy (cli_conf E) - 48)))
             | Act_download \<Rightarrow> request_download E (cc_file_path (cli_conf E))
             | Act_none \<Rightarrow> ret ()) (\<lambda>_. ret 0))
       (\<lambda>e. ret 1)"

section \<open>Running the pieces\<close>

lemma with_session_run [act_simps]:
  "with_session opening host port m w =
    (case opening of
       Inl f \<Rightarrow> (Inl f, w)
     | Inr s \<Rightarrow> (case m (s, w) of (r, (s', w')) \<Rightarrow>
         (r, w'\<lparr>cst_opened := cst_opened w' @ [(host, port, ses_outbox s')]\<rparr>)))"
  by (simp add: with_session_def)

lemma step_progress_run [act_simps]:
  "step_progress w = (Inr (), w\<lparr>cst_progress := cst_progress w + 1\<rparr>)"
  by (simp add: step_progress_def act_simps)

lemma async_run:
  "async task w = (case task w of (r, w') \<Rightarrow> (case r of
     Inr _ \<Rightarrow> (Inr (), w'\<lparr>cst_tasks := cst_tasks w' @ [None]\<rparr>)
   | Inl (Throw e) \<Rightarrow> (Inr (), w'\<lparr>cst_tasks := cst_tasks w' @ [Some e]\<rparr>)
   | Inl f \<Rightarrow> (Inl f, w')))"
  by (simp add: async_def act_simps split: prod.splits sum.splits fault.splits)

section \<open>The parts of a file\<close>

text \<open>
  How the client cuts the bytes \<open>T\<close> into \<open>n\<close> parts: offsets are multiples of the rounded down
  quotient, sizes those of \<^verbatim>\<open>get_part_size\<close>, which round up.
\<close>

definition cut_ok :: "nat \<Rightarrow> nat \<Rightarrow> bool" where
  "cut_ok len n \<longleftrightarrow> 0 < len \<and> len < 2 ^ 24 \<and> 0 < n \<and> (n - 1) * (n - 1) \<le> len"

definition part_bytes :: "string \<Rightarrow> nat \<Rightarrow> nat \<Rightarrow> string" where
  "part_bytes T n i = slice (length T div n * i) (part_len (length T) n i) T"

definition upload_part :: "('ctx, 'e) files_lib_scheme \<Rightarrow> fid_type \<Rightarrow> string \<Rightarrow> nat \<Rightarrow> nat \<Rightarrow> Packet" where
  "upload_part L fid T n i =
     add_message (part_bytes T n i) (add_message (sha1 L (part_bytes T n i))
       (add_message (enc_word (word_of_nat i :: partnum_type)) (add_message (enc_word fid)
         (packet_empty c_s_fromto cs_up_act_w))))"

lemma cut_ok_small: "cut_ok len n \<Longrightarrow> n \<le> 4096"
proof (rule ccontr)
  assume "cut_ok len n" "\<not> n \<le> 4096"
  then have "4096 * 4096 \<le> (n - 1) * (n - 1)" by (intro mult_le_mono) simp_all
  with \<open>cut_ok len n\<close> show False by (simp add: cut_ok_def)
qed

lemma ceil_div_floor: "0 < n \<Longrightarrow> ceil_div len n = len div n + (if n dvd len then 0 else 1)"
proof -
  assume n: "0 < n"
  show ?thesis
  proof (cases "n dvd len")
    case True
    then obtain k where "len = n * k" by blast
    moreover have "(n * k + (n - 1)) div n = k" using n by (intro div_nat_eqI) simp_all
    ultimately show ?thesis using n by (simp add: ceil_div_def)
  next
    case False
    then have r: "0 < len mod n" by (simp add: dvd_eq_mod_eq_0)
    have len: "n * (len div n) + len mod n = len" by simp
    have "(len + (n - 1)) div n = Suc (len div n)"
    proof (rule div_nat_eqI)
      show "n * Suc (len div n) \<le> len + (n - 1)" "len + (n - 1) < n * Suc (Suc (len div n))"
        using len r n mod_less_divisor [OF n, of len] unfolding mult_Suc_right by linarith+
    qed
    then show ?thesis using n False by (simp add: ceil_div_def)
  qed
qed

lemma part_fits:
  assumes "cut_ok len n" "i < n"
  shows "len div n * i + part_len len n i \<le> len"
proof (cases "i = n - 1")
  case True
  have "(n - 1) * ceil_div len n \<le> len"
    using assms(1) by (intro last_offset_fits) (simp_all add: cut_ok_def)
  moreover have "len div n * (n - 1) \<le> (n - 1) * ceil_div len n"
    using assms(1) by (simp add: ceil_div_floor cut_ok_def mult.commute)
  ultimately have "len div n * (n - 1) + (len - (n - 1) * ceil_div len n) \<le> len" by linarith
  then show ?thesis by (simp only: part_len_def True simp_thms if_True)
next
  case False
  let ?q = "len div n"
  have n: "0 < n" using assms(1) by (simp add: cut_ok_def)
  have "?q * Suc i \<le> ?q * (n - 1)" using False assms(2) by (intro mult_le_mono2) simp
  then have less: "?q * i + ?q \<le> ?q * (n - 1)" by simp
  have step: "?q * (n - 1) + ?q = ?q * n" using n by (cases n) simp_all
  have len: "?q * n + len mod n = len" by simp
  have "?q * i + (?q + (if n dvd len then 0 else 1)) \<le> len"
  proof (cases "n dvd len")
    case True
    moreover have "?q * i + ?q \<le> len" using less step len by linarith
    ultimately show ?thesis by simp
  next
    case False
    then have "0 < len mod n" by (simp add: dvd_eq_mod_eq_0)
    then have "?q * i + (?q + 1) \<le> len" using less step len by linarith
    with False show ?thesis by simp
  qed
  then show ?thesis using False n by (simp add: part_len_def ceil_div_floor)
qed

lemma length_part_bytes:
  "cut_ok (length T) n \<Longrightarrow> i < n \<Longrightarrow> length (part_bytes T n i) = part_len (length T) n i"
  unfolding part_bytes_def by (rule length_slice_in) (rule part_fits)

lemma ucast_of_unat: "unat w = k \<Longrightarrow> (ucast w :: 'a::len word) = word_of_nat k"
  using of_nat_unat [of w, symmetric] by simp

lemma unat_part:
  assumes "cut_ok len n" "i < n"
  shows "unat (word_of_nat len :: 64 word) = len" "(ucast (word_of_nat i :: 64 word) :: 32 word) = word_of_nat i"
    "(ucast (word_of_nat n :: 64 word) :: 32 word) = word_of_nat n"
    "unat (word_of_nat len div word_of_nat n * word_of_nat i :: 64 word) = len div n * i"
proof -
  have n: "n \<le> 4096" using cut_ok_small [OF assms(1)] .
  show len: "unat (word_of_nat len :: 64 word) = len"
    using assms(1) by (intro unat_word_of_nat_64) (simp add: cut_ok_def)
  have un: "unat (word_of_nat n :: 64 word) = n" using n by (intro unat_word_of_nat_64) simp
  have ui: "unat (word_of_nat i :: 64 word) = i" using n assms(2) by (intro unat_word_of_nat_64) simp
  show "(ucast (word_of_nat i :: 64 word) :: 32 word) = word_of_nat i"
    by (rule ucast_of_unat [OF ui])
  show "(ucast (word_of_nat n :: 64 word) :: 32 word) = word_of_nat n"
    by (rule ucast_of_unat [OF un])
  have "len div n * i \<le> len"
    using part_fits [OF assms] by linarith
  then have less: "len div n * i < 2 ^ 64" using assms(1) by (simp add: cut_ok_def)
  have q: "word_of_nat len div word_of_nat n = (word_of_nat (len div n) :: 64 word)"
    by (simp only: word_arith_nat_defs(6) len un)
  show "unat (word_of_nat len div word_of_nat n * word_of_nat i :: 64 word) = len div n * i"
    unfolding q of_nat_mult [symmetric] by (rule unat_word_of_nat_64) (rule less)
qed

text \<open>One part sent to a storage that answers with an acknowledgement.\<close>

lemma send_part_run:
  assumes "sha1_ok (cli_files E)" "cut_ok (length T) n" "i < n"
    and "file_data (cst_fs w) f = T" "file_size f = length T"
    and "ses_open s" "ses_inbox s = packet_bytes (ack_answer ft code) @ rest"
  shows "send_part E fid f (word_of_nat n) (word_of_nat i) (s, w) =
    (let s' = (answered (upload_part (cli_files E) fid T n i) s)\<lparr>ses_inbox := rest\<rparr> in
     if code = success then (Inr (), (s', w\<lparr>cst_progress := cst_progress w + 1\<rparr>))
     else (Inl (Throw (Logic_error (''Error : '' @ decimal (unat (error_code_value code))))), (s', w)))"
proof -
  let ?len = "length T" and ?L = "cli_files E"
  note u = unat_part [OF assms(2,3)]
  have small: "?len < 2 ^ 24" "(n - 1) * (n - 1) \<le> ?len" using assms(2) by (simp_all add: cut_ok_def)
  obtain sz where sz: "get_part_size (word_of_nat ?len) (word_of_nat i) (word_of_nat n) = Inr sz"
    "unat sz = part_len ?len n i"
    using get_part_size_len [of "word_of_nat ?len" i n] small assms(3) by (auto simp: u(1))
  note fits = part_fits [OF assms(2,3)]
  have cut: "take (part_len ?len n i) (drop (?len div n * i) T) = part_bytes T n i"
    by (simp add: part_bytes_def slice_def)
  have szlen: "unat sz < 2 ^ 24" "unat sz \<le> length (drop (?len div n * i) T)"
    using fits small(1) by (simp_all add: sz(2))
  have hash: "hash_buffer_hex ?L (drop (?len div n * i) T) sz = Inr (sha1 ?L (part_bytes T n i))"
    using hash_buffer_hex_small [OF assms(1) szlen] by (simp add: sz(2) cut)
  have "part_len ?len n i < 2 ^ 32" using szlen(1) by (simp add: sz(2))
  then have sz32: "unat (ucast sz :: 32 word) = part_len ?len n i"
    unfolding ucast_of_unat [OF sz(2)] by (rule unat_word_of_nat_32)
  have bytes: "view (part_len ?len n i) (take (part_len ?len n i)) (drop (?len div n * i) T) = Inr (part_bytes T n i)"
    using szlen(2) by (simp add: view_def sz(2) cut)
  have inbox: "ses_inbox (answered (upload_part ?L fid T n i) s) =
      packet_bytes (add_message (enc_word (error_code_value code)) (packet_empty ft ack_w)) @ rest"
    using assms(7) by (simp add: answered_def ack_answer_def)
  show ?thesis
    by (simp add: send_part_def bnd_run gets_run lift_res_run on_world_run assms(4,5) u sz(1) hash sz32 bytes
        upload_part_def [symmetric] blocking_send_answered recv_ack_run [OF inbox] step_progress_run Let_def)
qed

section \<open>The task of one storage\<close>

definition acks :: "fromto_type \<Rightarrow> nat \<Rightarrow> string" where
  "acks ft k = concat (replicate k (packet_bytes (ack_answer ft success)))"

definition parts_wire :: "('ctx, 'e) files_lib_scheme \<Rightarrow> fid_type \<Rightarrow> string \<Rightarrow> nat \<Rightarrow> nat list \<Rightarrow> string" where
  "parts_wire L fid T n js = concat (map (\<lambda>i. packet_bytes (upload_part L fid T n i)) js)"

definition all_sent :: "('ctx, 'e) files_lib_scheme \<Rightarrow> fid_type \<Rightarrow> string \<Rightarrow> nat \<Rightarrow> nat list \<Rightarrow> string \<Rightarrow> session \<Rightarrow> session" where
  "all_sent L fid T n js rest s =
     s\<lparr>ses_outbox := ses_outbox s @ parts_wire L fid T n js, ses_inbox := rest\<rparr>"

lemma send_all_run:
  assumes "sha1_ok (cli_files E)" "cut_ok (length T) n" "list_all (\<lambda>i. i < n) js"
    and "file_data (cst_fs w) f = T" "file_size f = length T"
    and "ses_open s" "ses_inbox s = acks ft (length js) @ rest"
  shows "forA (send_part E fid f (word_of_nat n)) (map word_of_nat js) (s, w) =
    (Inr (), (all_sent (cli_files E) fid T n js rest s, w\<lparr>cst_progress := cst_progress w + word_of_nat (length js)\<rparr>))"
  using assms(3,4,6,7)
proof (induction js arbitrary: s w)
  case Nil
  then show ?case by (simp add: act_simps all_sent_def parts_wire_def acks_def)
next
  case (Cons i js)
  let ?s = "(answered (upload_part (cli_files E) fid T n i) s)\<lparr>ses_inbox := acks ft (length js) @ rest\<rparr>"
  have "ses_inbox s = packet_bytes (ack_answer ft success) @ acks ft (length js) @ rest"
    using Cons.prems(4) by (simp add: acks_def)
  then have one: "send_part E fid f (word_of_nat n) (word_of_nat i) (s, w) = (Inr (), (?s, w\<lparr>cst_progress := cst_progress w + 1\<rparr>))"
    using send_part_run [OF assms(1,2) _ Cons.prems(2) assms(5) Cons.prems(3)] Cons.prems(1) by simp
  have "forA (send_part E fid f (word_of_nat n)) (map word_of_nat js) (?s, w\<lparr>cst_progress := cst_progress w + 1\<rparr>) =
      (Inr (), (all_sent (cli_files E) fid T n js rest ?s,
         w\<lparr>cst_progress := cst_progress w + 1 + word_of_nat (length js)\<rparr>))"
    using Cons.IH [of "w\<lparr>cst_progress := cst_progress w + 1\<rparr>" ?s] Cons.prems by (simp add: answered_def)
  then show ?case
    using Cons.prems(3) by (simp add: bnd_run one all_sent_def answered_def parts_wire_def ac_simps)
qed

text \<open>\<open>serves E k addr inbox\<close>: the connection of task \<open>k\<close> opens, and its peer sends \<open>inbox\<close>.\<close>

definition serves :: "'ctx client_env \<Rightarrow> nat \<Rightarrow> ADDR \<Rightarrow> string \<Rightarrow> bool" where
  "serves E k addr inbox \<longleftrightarrow>
     session_connect (cli_net E) (cli_connect E (Suc k)) (Suc k) (ip6_to_string (cli_net E) (addr_ipv6 addr)) (addr_port addr)
     = Inr (session_create (Suc k) (ip6_to_string (cli_net E) (addr_ipv6 addr)) inbox)"

definition connection :: "'ctx client_env \<Rightarrow> ADDR \<Rightarrow> string \<Rightarrow> string \<times> port_type \<times> string" where
  "connection E addr written = (ip6_to_string (cli_net E) (addr_ipv6 addr), addr_port addr, written)"

lemma send_parts_run:
  assumes "sha1_ok (cli_files E)" "net_ok (cli_net E)" "cut_ok (length T) n" "a \<le> b" "b \<le> n"
    and "file_data (cst_fs w) f = T" "file_size f = length T"
    and "wf_ADDR addr" "serves E k addr (acks ft (b - a))"
  shows "send_parts E k fid f addr (word_of_nat n) (word_of_nat a) (word_of_nat b) w =
    (Inr (), w\<lparr>cst_progress := cst_progress w + word_of_nat (b - a),
       cst_opened := cst_opened w @ [connection E addr (parts_wire (cli_files E) fid T n [a..<b])]\<rparr>)"
proof -
  have n: "n \<le> 4096" using cut_ok_small [OF assms(3)] .
  have u: "unat (word_of_nat a :: 64 word) = a" "unat (word_of_nat b :: 64 word) = b"
    using n assms(4,5) by (intro unat_word_of_nat_64; simp)+
  have host: "binary_to_string_ipv6 (cli_net E) (addr_ipv6 addr) ipv6_type_size = Inr (ip6_to_string (cli_net E) (addr_ipv6 addr))"
    using binary_to_string_text [OF assms(2), of "addr_ipv6 addr"] assms(8) by (simp add: wf_ADDR_def ipv6_type_size_def)
  let ?s = "session_create (Suc k) (ip6_to_string (cli_net E) (addr_ipv6 addr)) (acks ft (b - a))"
  have "list_all (\<lambda>i. i < n) [a..<b]" using assms(5) by (simp add: list_all_iff)
  then have all: "forA (send_part E fid f (word_of_nat n)) (map word_of_nat [a..<b]) (?s, w) =
      (Inr (), (all_sent (cli_files E) fid T n [a..<b] [] ?s, w\<lparr>cst_progress := cst_progress w + word_of_nat (b - a)\<rparr>))"
    using send_all_run [OF assms(1,3) _ assms(6,7), of "[a..<b]" ?s ft "[]" fid] by (simp add: session_create_def)
  have out: "ses_outbox (all_sent (cli_files E) fid T n [a..<b] [] ?s) = parts_wire (cli_files E) fid T n [a..<b]"
    by (simp add: all_sent_def session_create_def)
  show ?thesis
    using assms(9) by (simp add: send_parts_def bnd_run lift_res_run host with_session_run serves_def u all
        out connection_def)
qed

text \<open>A task that fails at its first part that is refused: the parts before it count.\<close>

lemma send_parts_refused:
  assumes "sha1_ok (cli_files E)" "net_ok (cli_net E)" "cut_ok (length T) n" "a \<le> j" "j < b" "b \<le> n"
    and "file_data (cst_fs w) f = T" "file_size f = length T" "code \<noteq> success"
    and "wf_ADDR addr" "serves E k addr (acks ft (j - a) @ packet_bytes (ack_answer ft code) @ rest)"
  shows "send_parts E k fid f addr (word_of_nat n) (word_of_nat a) (word_of_nat b) w =
    (Inl (Throw (Logic_error (''Error : '' @ decimal (unat (error_code_value code))))),
     w\<lparr>cst_progress := cst_progress w + word_of_nat (j - a),
       cst_opened := cst_opened w @ [connection E addr (parts_wire (cli_files E) fid T n [a..<Suc j])]\<rparr>)"
proof -
  have n: "n \<le> 4096" using cut_ok_small [OF assms(3)] .
  have u: "unat (word_of_nat a :: 64 word) = a" "unat (word_of_nat b :: 64 word) = b"
    using n assms(4-6) by (intro unat_word_of_nat_64; simp)+
  have host: "binary_to_string_ipv6 (cli_net E) (addr_ipv6 addr) ipv6_type_size = Inr (ip6_to_string (cli_net E) (addr_ipv6 addr))"
    using binary_to_string_text [OF assms(2), of "addr_ipv6 addr"] assms(10) by (simp add: wf_ADDR_def ipv6_type_size_def)
  let ?in = "packet_bytes (ack_answer ft code) @ rest"
  let ?s = "session_create (Suc k) (ip6_to_string (cli_net E) (addr_ipv6 addr)) (acks ft (j - a) @ ?in)"
  let ?w = "w\<lparr>cst_progress := cst_progress w + word_of_nat (j - a)\<rparr>"
  have "list_all (\<lambda>i. i < n) [a..<j]" using assms(5,6) by (simp add: list_all_iff)
  then have first: "forA (send_part E fid f (word_of_nat n)) (map word_of_nat [a..<j]) (?s, w) =
      (Inr (), (all_sent (cli_files E) fid T n [a..<j] ?in ?s, ?w))"
    using send_all_run [OF assms(1,3) _ assms(7,8), of "[a..<j]" ?s ft ?in fid] by (simp add: session_create_def)
  let ?t = "all_sent (cli_files E) fid T n [a..<j] ?in ?s"
  have split: "[a..<b] = [a..<j] @ j # [Suc j..<b]"
    using upt_add_eq_append [of a j "b - j"] upt_conv_Cons [OF assms(5)] assms(4,5) by simp
  have "send_part E fid f (word_of_nat n) (word_of_nat j) (?t, ?w) =
     (Inl (Throw (Logic_error (''Error : '' @ decimal (unat (error_code_value code))))),
      ((answered (upload_part (cli_files E) fid T n j) ?t)\<lparr>ses_inbox := rest\<rparr>, ?w))"
    using send_part_run [OF assms(1,3), of j ?w f ?t ft code rest] assms(5-9)
    by (simp add: all_sent_def session_create_def Let_def)
  moreover have "ses_outbox ((answered (upload_part (cli_files E) fid T n j) ?t)\<lparr>ses_inbox := rest\<rparr>) =
      parts_wire (cli_files E) fid T n [a..<Suc j]"
    using assms(4) by (simp add: all_sent_def answered_def session_create_def parts_wire_def)
  ultimately show ?thesis
    using assms(4,11)
    by (simp add: send_parts_def bnd_run lift_res_run host with_session_run serves_def u split forA_append first
        connection_def del: upt_Suc)
qed

end
