(* ===== verification/Transfers.thy ===== *)
theory Transfers
  imports Client
begin

text \<open>
  What a transfer achieves: the parts an upload sends, whatever the order in which its tasks
  run, what happens when a storage refuses a part, and the file a download leaves.
\<close>

section \<open>Ranges of parts\<close>

definition nbs :: "STPFIELD list \<Rightarrow> nat" where
  "nbs flds = sum_list (map (\<lambda>it. unat (stp_nb it)) flds)"

lemma nbs_simps [simp]: "nbs [] = 0" "nbs (x # xs) = unat (stp_nb x) + nbs xs"
  by (simp_all add: nbs_def)

lemma nbs_append: "nbs (xs @ ys) = nbs xs + nbs ys"
  by (simp add: nbs_def)

lemma nbs_drop: "k < length flds \<Longrightarrow> nbs (drop k flds) = unat (stp_nb (flds ! k)) + nbs (drop (Suc k) flds)"
  by (simp add: Cons_nth_drop_Suc [symmetric])

text \<open>The parts of field \<open>k\<close>: the fields after it have the ones below.\<close>

definition range_of :: "STPFIELD list \<Rightarrow> nat \<Rightarrow> nat list" where
  "range_of flds k = [nbs (drop (Suc k) flds)..<nbs (drop k flds)]"

lemma ranges_partition:
  "mset (concat (map (range_of flds) [0..<length flds])) = mset [0..<nbs flds]"
proof (induction flds)
  case Nil
  then show ?case by simp
next
  case (Cons x flds)
  have "[0..<length (x # flds)] = 0 # map Suc [0..<length flds]"
    by (simp add: upt_conv_Cons map_Suc_upt del: upt_Suc)
  then have "concat (map (range_of (x # flds)) [0..<length (x # flds)]) =
      [nbs flds..<nbs (x # flds)] @ concat (map (range_of flds) [0..<length flds])"
    by (simp add: range_of_def [abs_def] comp_def del: upt_Suc)
  moreover have "[0..<nbs (x # flds)] = [0..<nbs flds] @ [nbs flds..<nbs (x # flds)]"
    using upt_add_eq_append [of 0 "nbs flds" "unat (stp_nb x)"] by (simp add: add.commute)
  ultimately show ?case using Cons by simp
qed

lemma range_below: "i \<in> set (range_of flds k) \<Longrightarrow> i < nbs flds"
proof -
  have "nbs flds = nbs (take k flds) + nbs (drop k flds)"
    by (metis append_take_drop_id nbs_append)
  then show "i \<in> set (range_of flds k) \<Longrightarrow> i < nbs flds" by (simp add: range_of_def)
qed

lemma length_range_of: "k < length flds \<Longrightarrow> length (range_of flds k) = unat (stp_nb (flds ! k))"
  by (simp add: range_of_def nbs_drop)

lemma length_upload_tasks [simp]: "length (upload_tasks E fid f t k parts flds) = length flds"
  by (induction flds arbitrary: k parts) simp_all

lemma word_nbs: "sum_list (map (\<lambda>it. ucast (stp_nb it)) flds) = (word_of_nat (nbs flds) :: 64 word)"
  by (induction flds) simp_all

lemma upload_tasks_nth:
  "j < length flds \<Longrightarrow>
   upload_tasks E fid f t k (word_of_nat (nbs flds)) flds ! j =
     send_parts E (k + j) fid f (stp_addr (flds ! j)) t
       (word_of_nat (nbs (drop (Suc j) flds))) (word_of_nat (nbs (drop j flds)))"
proof (induction flds arbitrary: k j)
  case Nil
  then show ?case by simp
next
  case (Cons x flds)
  have "word_of_nat (nbs (x # flds)) - ucast (stp_nb x) = (word_of_nat (nbs flds) :: 64 word)"
    by simp
  with Cons show ?case by (cases j) auto
qed

section \<open>Running the tasks\<close>

text \<open>
  Tasks that end: each adds to the counter and records its connection, so the order matters
  for the list of connections only. The future of task \<open>k\<close> holds what it threw, \<open>e k\<close>.
\<close>

lemma tasks_end:
  assumes "\<And>k w. k \<in> set ks \<Longrightarrow> cst_fs w = d \<Longrightarrow> (tasks ! k) w =
      (case e k of None \<Rightarrow> Inr () | Some x \<Rightarrow> Inl (Throw x),
       w\<lparr>cst_progress := cst_progress w + g k, cst_opened := cst_opened w @ [c k]\<rparr>)"
    and "cst_fs w = d"
  shows "forA (\<lambda>k. async (tasks ! k)) ks w =
    (Inr (), w\<lparr>cst_progress := cst_progress w + sum_list (map g ks), cst_opened := cst_opened w @ map c ks,
       cst_tasks := cst_tasks w @ map e ks\<rparr>)"
  using assms
proof (induction ks arbitrary: w)
  case Nil
  then show ?case by (simp add: act_simps)
next
  case (Cons k ks)
  let ?w = "w\<lparr>cst_progress := cst_progress w + g k, cst_opened := cst_opened w @ [c k], cst_tasks := cst_tasks w @ [e k]\<rparr>"
  have "(tasks ! k) w = (case e k of None \<Rightarrow> Inr () | Some x \<Rightarrow> Inl (Throw x),
      w\<lparr>cst_progress := cst_progress w + g k, cst_opened := cst_opened w @ [c k]\<rparr>)"
    by (rule Cons.prems(1)) (simp_all add: Cons.prems(2))
  then have "async (tasks ! k) w = (Inr (), ?w)" by (simp add: async_run split: option.splits)
  then show ?case
    using Cons.IH [of ?w] Cons.prems by (simp add: bnd_run ac_simps)
qed

lemma tasks_succeed:
  assumes "\<And>k w. k \<in> set ks \<Longrightarrow> cst_fs w = d \<Longrightarrow> (tasks ! k) w =
      (Inr (), w\<lparr>cst_progress := cst_progress w + g k, cst_opened := cst_opened w @ [c k]\<rparr>)"
    and "cst_fs w = d"
  shows "forA (\<lambda>k. async (tasks ! k)) ks w =
    (Inr (), w\<lparr>cst_progress := cst_progress w + sum_list (map g ks), cst_opened := cst_opened w @ map c ks,
       cst_tasks := cst_tasks w @ replicate (length ks) None\<rparr>)"
  using tasks_end [where e = "\<lambda>_. None" and d = d and g = g and c = c] assms by (simp add: map_replicate_const)

section \<open>The answer of the master\<close>

lemma unat_ucast_64: "unat (ucast (w :: 32 word) :: 64 word) = unat w"
proof -
  have "unat w < 2 ^ 64" using unat_lt [of w] by simp
  then show ?thesis unfolding ucast_of_unat [OF refl] by (rule unat_word_of_nat_64)
qed

lemma word_of_unat: "unat w = k \<Longrightarrow> w = word_of_nat k"
  by auto

text \<open>The client finds the number of fields from the size of the packet.\<close>

lemma list_size:
  assumes "m < 2 ^ 24" "unat (sz :: 32 word) = h + 22 * m" "h < 2 ^ 24"
  shows "unat ((ucast sz - word_of_nat h) div word_of_nat sizeof_STPFIELD :: 64 word) = m"
proof -
  have u: "(ucast sz :: 64 word) = word_of_nat (h + 22 * m)"
    using ucast_of_unat [OF assms(2)] .
  have "22 * m < 2 ^ 64" using assms(1) by simp
  then have "unat (ucast sz - word_of_nat h :: 64 word) = 22 * m"
    unfolding u using unat_word_of_nat_64 [of "22 * m"] by simp
  then show ?thesis by (simp add: unat_div sizeof_STPFIELD_def unat_word_of_nat_64)
qed

lemma list_size_wf:
  assumes "list_all wf_STPFIELD flds" "length flds < 2 ^ 24"
  shows "unat (size_get (delivered (up_answer fid flds))) = 8 + 22 * length flds"
    "front_data (delivered (up_answer fid flds)) = Inr (enc_fdetails \<lparr>fdetails_fid = fid, fdetails_stplist = flds\<rparr>)"
proof -
  have len: "length (concat (map enc_STPFIELD flds)) = 22 * length flds"
    using stpfield.array_size [OF assms(1)] by (simp add: sizeof_STPFIELD_def)
  have "8 + 22 * length flds < 2 ^ 32" using assms(2) by simp
  then have u: "unat (word_of_nat (8 + 22 * length flds) :: 32 word) = 8 + 22 * length flds"
    by (rule unat_word_of_nat_32)
  show "unat (size_get (delivered (up_answer fid flds))) = 8 + 22 * length flds"
    using u by (simp add: delivered_def up_answer_def packet_simps len codec_simps)
  show "front_data (delivered (up_answer fid flds)) = Inr (enc_fdetails \<lparr>fdetails_fid = fid, fdetails_stplist = flds\<rparr>)"
    by (simp add: delivered_def up_answer_def packet_simps front_data_def enc_fdetails_def)
qed

lemma view_fdetails:
  assumes "list_all wf_STPFIELD flds"
  shows "view (8 + sizeof_STPFIELD * length flds) (dec_fdetails (length flds)) (enc_fdetails \<lparr>fdetails_fid = fid, fdetails_stplist = flds\<rparr>)
    = Inr \<lparr>fdetails_fid = fid, fdetails_stplist = flds\<rparr>"
  using dec_enc_fdetails [of "\<lparr>fdetails_fid = fid, fdetails_stplist = flds\<rparr>" "length flds" "[]"]
    length_enc_fdetails [of "\<lparr>fdetails_fid = fid, fdetails_stplist = flds\<rparr>"] assms
  by (simp add: view_def sizeof_STPFIELD_def)

lemma hosts_print:
  assumes "net_ok N" "list_all wf_STPFIELD flds"
  shows "mapM (\<lambda>it. binary_to_string_ipv6 N (addr_ipv6 (stp_addr it)) 16) flds =
    Inr (map (\<lambda>it. ip6_to_string N (addr_ipv6 (stp_addr it))) flds)"
  using assms binary_to_string_text
  by (intro mapM_Inr) (auto simp: list_all_iff wf_STPFIELD_def wf_ADDR_def ipv6_type_size_def)

section \<open>An upload that succeeds\<close>

text \<open>The storages named in \<open>flds\<close> answer every part with a success.\<close>

definition accepts :: "'ctx client_env \<Rightarrow> STPFIELD list \<Rightarrow> bool" where
  "accepts E flds \<longleftrightarrow> (\<forall>k < length flds. \<exists>ft. serves E k (stp_addr (flds ! k)) (acks ft (unat (stp_nb (flds ! k)))))"

definition upload_connection :: "'ctx client_env \<Rightarrow> fid_type \<Rightarrow> string \<Rightarrow> STPFIELD list \<Rightarrow> nat \<Rightarrow> string \<times> port_type \<times> string" where
  "upload_connection E fid T flds k =
     connection E (stp_addr (flds ! k)) (parts_wire (cli_files E) fid T (nbs flds) (range_of flds k))"

definition upload_line :: "'ctx client_env \<Rightarrow> nat \<Rightarrow> string list" where
  "upload_line E len =
     (if cli_elapsed E \<noteq> 0 then [took ''Upload'' (cli_elapsed E) (word_of_nat len div cli_elapsed E)] else [])"

definition env_fits :: "'ctx client_env \<Rightarrow> STPFIELD list \<Rightarrow> bool" where
  "env_fits E flds \<longleftrightarrow> sha1_ok (cli_files E) \<and> net_ok (cli_net E) \<and> list_all wf_STPFIELD flds \<and> length flds < 2 ^ 24
     \<and> mset (cli_order E (length flds)) = mset [0..<length flds]"

lemma upload_task:
  assumes "env_fits E flds" "accepts E flds" "cut_ok (length T) (nbs flds)" "k < length flds"
    and "file_data (cst_fs w) f = T" "file_size f = length T"
  shows "(upload_tasks E fid f (word_of_nat (nbs flds)) 0 (word_of_nat (nbs flds)) flds ! k) w =
    (Inr (), w\<lparr>cst_progress := cst_progress w + word_of_nat (length (range_of flds k)),
       cst_opened := cst_opened w @ [upload_connection E fid T flds k]\<rparr>)"
proof -
  obtain ft where sv: "serves E k (stp_addr (flds ! k)) (acks ft (unat (stp_nb (flds ! k))))"
    using assms(2,4) unfolding accepts_def by blast
  have le: "nbs (drop k flds) \<le> nbs flds"
    by (metis append_take_drop_id le_add2 nbs_append)
  have wf: "wf_ADDR (stp_addr (flds ! k))"
    using assms(1,4) by (simp add: env_fits_def list_all_length wf_STPFIELD_def)
  have "nbs (drop (Suc k) flds) \<le> nbs (drop k flds)" "nbs (drop k flds) - nbs (drop (Suc k) flds) = unat (stp_nb (flds ! k))"
    using nbs_drop [OF assms(4)] by simp_all
  moreover have "sha1_ok (cli_files E)" "net_ok (cli_net E)" using assms(1) by (simp_all add: env_fits_def)
  ultimately show ?thesis
    using send_parts_run [OF _ _ assms(3) _ le assms(5,6) wf, where a = "nbs (drop (Suc k) flds)" and ft = ft] sv
    by (simp add: upload_tasks_nth [OF assms(4)] upload_connection_def range_of_def)
qed

lemma sum_over_order:
  assumes "mset ks = mset [0..<m]"
  shows "sum_list (map (g :: nat \<Rightarrow> 64 word) ks) = sum_list (map g [0..<m])"
  by (metis assms mset_map sum_mset_sum_list)

lemma mset_concat_map:
  assumes "mset ks = mset ls"
  shows "mset (concat (map h ks)) = mset (concat (map h ls))"
proof -
  have "mset (concat (map h xs)) = sum_mset (image_mset (\<lambda>k. mset (h k)) (mset xs))" for xs :: "'a list"
    by (induction xs) simp_all
  then show ?thesis by (simp only: assms)
qed

lemma sum_lengths: "sum_list (map (\<lambda>k. word_of_nat (length (h k))) ks) = (word_of_nat (length (concat (map h ks))) :: 'a::len word)"
  by (induction ks) simp_all

text \<open>The counter starts at one, so the last part is not waited for.\<close>

lemma limit_is:
  assumes "n < 2 ^ 31"
  shows "(ucast (ucast (word_of_nat n :: 64 word) :: 32 word) :: 64 word) = word_of_nat n"
proof -
  have 1: "unat (word_of_nat n :: 64 word) = n" using assms by (intro unat_word_of_nat_64) simp
  have 2: "unat (word_of_nat n :: 32 word) = n" using assms by (intro unat_word_of_nat_32) simp
  show ?thesis unfolding ucast_of_unat [OF 1] by (rule ucast_of_unat [OF 2])
qed

lemma progress_less:
  assumes "n < 2 ^ 31" "p < 2 ^ 31"
  shows "word_of_nat p < (ucast (ucast (word_of_nat n :: 64 word) :: 32 word) :: 64 word) \<longleftrightarrow> p < n"
proof -
  have "unat (word_of_nat n :: 64 word) = n" "unat (word_of_nat p :: 64 word) = p"
    using assms by (intro unat_word_of_nat_64; simp)+
  then show ?thesis unfolding limit_is [OF assms(1)] word_less_nat_alt by simp
qed

lemma progress_reaches:
  assumes "n < 2 ^ 30"
  shows "\<not> 1 + word_of_nat n < (ucast (ucast (word_of_nat n :: 64 word) :: 32 word) :: 64 word)"
  using progress_less [of n "Suc n"] assms by simp

lemma upload_answer_run:
  assumes "env_fits E flds" "accepts E flds" "cut_ok (length T) (nbs flds)"
    and "file_data (cst_fs w) f = T" "file_size f = length T"
  shows "upload_answer E f (delivered (up_answer fid flds)) (s, w) =
    (Inr KA_No, (s, w\<lparr>cst_progress := 1 + word_of_nat (nbs flds), cst_tasks := [],
       cst_opened := cst_opened w @ map (upload_connection E fid T flds) (cli_order E (length flds)),
       cst_out := cst_out w @ upload_line E (length T)\<rparr>))"
proof -
  let ?n = "nbs flds" and ?ks = "cli_order E (length flds)"
  let ?tasks = "upload_tasks E fid f (word_of_nat ?n) 0 (word_of_nat ?n) flds"
  have wf: "list_all wf_STPFIELD flds" "length flds < 2 ^ 24" and net: "net_ok (cli_net E)"
    and ks: "mset ?ks = mset [0..<length flds]" using assms(1) by (simp_all add: env_fits_def)
  have size: "unat ((ucast (size_get (delivered (up_answer fid flds))) - 8) div word_of_nat sizeof_STPFIELD :: 64 word) = length flds"
    using list_size [OF wf(2) list_size_wf(1) [OF wf], of fid] by simp
  have what: "what_get (delivered (up_answer fid flds)) \<noteq> 0"
    by (simp add: delivered_def up_answer_def packet_simps up_pieces_loc_w_def)
  have tasks: "(?tasks ! k) v = (Inr (), v\<lparr>cst_progress := cst_progress v + word_of_nat (length (range_of flds k)),
       cst_opened := cst_opened v @ [upload_connection E fid T flds k]\<rparr>)"
    if "k \<in> set ?ks" "cst_fs v = cst_fs w" for k v
    using upload_task [OF assms(1-3), of k v f fid] that assms(4,5) mset_eq_setD [OF ks] by simp
  have "sum_list (map (\<lambda>k. word_of_nat (length (range_of flds k))) ?ks) =
      (sum_list (map (\<lambda>k. word_of_nat (length (range_of flds k))) [0..<length flds]) :: 64 word)"
    by (rule sum_over_order [OF ks])
  also have "\<dots> = word_of_nat (length (concat (map (range_of flds) [0..<length flds])))"
    by (rule sum_lengths)
  also have "length (concat (map (range_of flds) [0..<length flds])) = ?n"
    using arg_cong [OF ranges_partition, of size flds] by (simp only: size_mset length_upt)
  finally have total: "sum_list (map (\<lambda>k. word_of_nat (length (range_of flds k))) ?ks) = (word_of_nat ?n :: 64 word)" .
  let ?w1 = "w\<lparr>cst_progress := 1\<rparr>"
  have run: "run_tasks E ?tasks ?w1 = (Inr (), ?w1\<lparr>cst_progress := 1 + word_of_nat ?n,
      cst_opened := cst_opened w @ map (upload_connection E fid T flds) ?ks,
      cst_tasks := cst_tasks w @ replicate (length ?ks) None\<rparr>)"
    unfolding run_tasks_def length_upload_tasks
    by (subst tasks_succeed [where d = "cst_fs w", OF tasks]) (simp_all add: total)
  have small: "?n \<le> 4096" using cut_ok_small [OF assms(3)] .
  have over: "\<not> 1 + word_of_nat ?n < (ucast (ucast (word_of_nat ?n :: 64 word) :: 32 word) :: 64 word)"
    by (rule progress_reaches) (use small in simp)
  show ?thesis
    by (simp add: upload_answer_def what bnd_run lift_res_run list_size_wf(2) [OF wf] size view_fdetails [OF wf(1)]
        hosts_print [OF net wf(1)] word_nbs on_world_run modify_run run progress_while_def over
        end_all_tasks_def print_out_def upload_line_def assms(5) ret_run Let_def)
qed

lemma up_answer_sendable:
  assumes "list_all wf_STPFIELD flds" "length flds < 2 ^ 24"
  shows "sendable (up_answer fid flds)"
  using stpfield.array_size [OF assms(1)] assms(2)
  by (simp add: sendable_def up_answer_def packet_simps codec_simps sizeof_STPFIELD_def)

definition to_master :: "'ctx client_env \<Rightarrow> Packet \<Rightarrow> string \<times> port_type \<times> string" where
  "to_master E p = (cc_master_hostname (cli_conf E), cc_master_port (cli_conf E), packet_bytes p)"

lemma request_upload_run:
  assumes "rdcy \<noteq> 0" "master_session_create E = Inr m" "ses_inbox m = packet_bytes (up_answer fid flds) @ rest"
    and "list_all wf_STPFIELD flds" "length flds < 2 ^ 24"
    and "\<And>s. upload_answer E f (delivered (up_answer fid flds)) (s, w) = (r, (s, w'))" "r \<noteq> Inr KA_Yes"
  shows "request_upload E f rdcy w = (case r of Inl e \<Rightarrow> Inl e | Inr _ \<Rightarrow> Inr (),
    w'\<lparr>cst_opened := cst_opened w' @
       [to_master E (up_req_packet (word_of_nat (file_size f)) rdcy (filename_get (cli_files E) f))]\<rparr>)"
proof -
  let ?p = "up_req_packet (word_of_nat (file_size f)) rdcy (filename_get (cli_files E) f)"
  have fresh: "ses_open m" "ses_outbox m = []"
    using session_connect_fresh assms(2) unfolding master_session_create_def by blast+
  have ans: "answered ?p m = m\<lparr>ses_outbox := packet_bytes ?p\<rparr>"
    using fresh by (simp add: answered_def)
  have "ses_inbox (answered ?p m) = packet_bytes (up_answer fid flds) @ rest"
    using assms(3) by (simp add: ans)
  from blocking_receive_once [of "up_answer fid flds" "answered ?p m" rest "upload_answer E f" w r
      "((answered ?p m)\<lparr>ses_inbox := rest\<rparr>, w')", OF up_answer_sendable [OF assms(4,5)] this assms(6,7)]
  show ?thesis
    using assms(1,2) by (simp add: request_upload_def with_session_run bnd_run blocking_send_answered ans to_master_def)
qed

lemma upload_run:
  assumes "env_fits E flds" "accepts E flds" "cut_ok (length T) (nbs flds)"
    and "file_data (cst_fs w) f = T" "file_size f = length T" "rdcy \<noteq> 0"
    and "master_session_create E = Inr m" "ses_inbox m = packet_bytes (up_answer fid flds) @ rest"
  shows "request_upload E f rdcy w = (Inr (), w\<lparr>cst_progress := 1 + word_of_nat (nbs flds), cst_tasks := [],
     cst_opened := cst_opened w @ map (upload_connection E fid T flds) (cli_order E (length flds)) @
       [to_master E (up_req_packet (word_of_nat (length T)) rdcy (filename_get (cli_files E) f))],
     cst_out := cst_out w @ upload_line E (length T)\<rparr>)"
proof -
  have wf: "list_all wf_STPFIELD flds" "length flds < 2 ^ 24" using assms(1) by (simp_all add: env_fits_def)
  show ?thesis
    by (subst request_upload_run [OF assms(6-8) wf upload_answer_run [OF assms(1-5)]]) (simp_all add: assms(5))
qed


text \<open>A client with one storage, at which every connection is answered by \<open>inbox\<close>.\<close>

definition sample_field :: "partnum_type \<Rightarrow> STPFIELD" where
  "sample_field nb = \<lparr>stp_addr = \<lparr>addr_ipv6 = ''abcdefghijklmnop'', addr_port = 7\<rparr>, stp_nb = nb\<rparr>"

definition sample_client_conf :: client_Conf where
  "sample_client_conf = \<lparr>cc_config_path = [], cc_concurrency = 1, cc_master_hostname = ''master'', cc_master_port = 8,
     cc_action = Act_upload, cc_file_path = ''f'', cc_redundancy = 49\<rparr>"

definition sample_client :: "string \<Rightarrow> string \<Rightarrow> string client_env" where
  "sample_client from_master from_storage =
     \<lparr>cli_files = sample_lib, cli_net = resolving_net,
      cli_connect = (\<lambda>k _. Inr (if k = 0 then from_master else from_storage)), cli_conf = sample_client_conf,
      cli_order = (\<lambda>n. [0..<n]), cli_space = 1000, cli_elapsed = 5\<rparr>"

definition sample_disk :: client_state where
  "sample_disk = \<lparr>cst_fs = [''f'' \<mapsto> ''abc''], cst_progress = 0, cst_tasks = [], cst_opened = [], cst_out = []\<rparr>"

lemma sample_client_connects:
  "master_session_create (sample_client a b) = Inr (session_create 0 ''master'' a)"
  "serves (sample_client a b) k (stp_addr (sample_field nb)) b"
  by (simp_all add: sample_client_def master_session_create_def serves_def session_connect_def endpoint_from_host_port_def
      endpoint_from_host_def resolving_net_def sample_client_conf_def sample_net_def sample_field_def)

lemma sample_client_fits: "env_fits (sample_client a b) [sample_field nb]"
proof -
  have "net_ok resolving_net"
    using sample_net_ok by (simp add: net_ok_def resolving_net_def ipv6_type_size_def)
  then show ?thesis
    using sample_lib_ok(1)
    by (simp add: env_fits_def sample_client_def sample_field_def wf_STPFIELD_def wf_ADDR_def ipv6_type_size_def)
qed

lemma sample_file_data:
  "file_data (cst_fs sample_disk) \<lparr>filepath_get = ''f'', file_size = 3\<rparr> = ''abc''"
  by (simp add: file_data_def sample_disk_def)


section \<open>A part that is refused\<close>

text \<open>
  What the storages answer when some refuse: storage \<open>k\<close> acknowledges its first \<open>g k\<close> parts
  with a success and, when it has more to get, the next one with \<open>code k\<close>.
\<close>

definition refuses :: "'ctx client_env \<Rightarrow> STPFIELD list \<Rightarrow> (nat \<Rightarrow> nat) \<Rightarrow> (nat \<Rightarrow> error_code) \<Rightarrow> bool" where
  "refuses E flds g code \<longleftrightarrow> (\<forall>k < length flds. g k \<le> unat (stp_nb (flds ! k)) \<and> code k \<noteq> success \<and>
     (\<exists>ft rest. serves E k (stp_addr (flds ! k)) (acks ft (g k) @
        (if g k < unat (stp_nb (flds ! k)) then packet_bytes (ack_answer ft (code k)) @ rest else []))))"

text \<open>The number of parts no storage keeps.\<close>

definition parts_lost :: "STPFIELD list \<Rightarrow> (nat \<Rightarrow> nat) \<Rightarrow> nat" where
  "parts_lost flds g = (\<Sum>k<length flds. unat (stp_nb (flds ! k)) - g k)"

definition refused_connection ::
  "'ctx client_env \<Rightarrow> fid_type \<Rightarrow> string \<Rightarrow> STPFIELD list \<Rightarrow> (nat \<Rightarrow> nat) \<Rightarrow> nat \<Rightarrow> string \<times> port_type \<times> string" where
  "refused_connection E fid T flds g k =
     connection E (stp_addr (flds ! k))
       (parts_wire (cli_files E) fid T (nbs flds) (take (Suc (g k)) (range_of flds k)))"

definition refusal :: "STPFIELD list \<Rightarrow> (nat \<Rightarrow> nat) \<Rightarrow> (nat \<Rightarrow> error_code) \<Rightarrow> nat \<Rightarrow> exn option" where
  "refusal flds g code k =
     (if g k < unat (stp_nb (flds ! k))
      then Some (Logic_error (''Error : '' @ decimal (unat (error_code_value (code k))))) else None)"

lemma nbs_sum: "nbs flds = (\<Sum>k<length flds. unat (stp_nb (flds ! k)))"
  by (simp add: nbs_def sum_list_sum_nth atLeast0LessThan)

lemma nbs_lost:
  assumes "refuses E flds g code"
  shows "nbs flds = parts_lost flds g + sum g {..<length flds}"
  using assms by (simp add: nbs_sum parts_lost_def refuses_def sum.distrib [symmetric])

lemma refused_task:
  assumes "env_fits E flds" "refuses E flds g code" "cut_ok (length T) (nbs flds)" "k < length flds"
    and "file_data (cst_fs w) f = T" "file_size f = length T"
  shows "(upload_tasks E fid f (word_of_nat (nbs flds)) 0 (word_of_nat (nbs flds)) flds ! k) w =
    (case refusal flds g code k of None \<Rightarrow> Inr () | Some x \<Rightarrow> Inl (Throw x),
     w\<lparr>cst_progress := cst_progress w + word_of_nat (g k),
       cst_opened := cst_opened w @ [refused_connection E fid T flds g k]\<rparr>)"
proof -
  let ?a = "nbs (drop (Suc k) flds)" and ?b = "nbs (drop k flds)" and ?nb = "unat (stp_nb (flds ! k))"
  obtain ft rest where g: "g k \<le> ?nb" "code k \<noteq> success"
    and sv: "serves E k (stp_addr (flds ! k)) (acks ft (g k) @
      (if g k < ?nb then packet_bytes (ack_answer ft (code k)) @ rest else []))"
    using assms(2,4) unfolding refuses_def by blast
  have le: "?b \<le> nbs flds" by (metis append_take_drop_id le_add2 nbs_append)
  have b: "?b = ?a + ?nb" using nbs_drop [OF assms(4)] by simp
  have wf: "wf_ADDR (stp_addr (flds ! k))"
    using assms(1,4) by (simp add: env_fits_def list_all_length wf_STPFIELD_def)
  have lib: "sha1_ok (cli_files E)" "net_ok (cli_net E)" using assms(1) by (simp_all add: env_fits_def)
  show ?thesis
  proof (cases "g k < ?nb")
    case True
    then have "take (Suc (g k)) (range_of flds k) = [?a..<Suc (?a + g k)]"
      by (simp add: range_of_def b take_upt)
    with send_parts_refused [OF lib assms(3) _ _ le assms(5,6) g(2) wf, where a = ?a and j = "?a + g k"
        and ft = ft and rest = rest and k = k] sv True
    show ?thesis
      by (simp add: upload_tasks_nth [OF assms(4)] refused_connection_def refusal_def b)
  next
    case False
    then have all: "g k = ?nb" using g(1) by simp
    then have "take (Suc (g k)) (range_of flds k) = range_of flds k"
      using length_range_of [OF assms(4)] by simp
    with send_parts_run [OF lib assms(3) _ le assms(5,6) wf, where a = ?a and ft = ft and k = k] sv all
    show ?thesis
      by (simp add: upload_tasks_nth [OF assms(4)] refused_connection_def refusal_def range_of_def b)
  qed
qed

lemma sum_over_indices:
  assumes "mset ks = mset [0..<m]"
  shows "sum_list (map (\<lambda>k. word_of_nat (g k)) ks) = (word_of_nat (sum g {..<m}) :: 64 word)"
proof -
  have "sum_list (map (\<lambda>k. word_of_nat (g k)) [0..<m]) = (word_of_nat (sum g {..<m}) :: 64 word)"
    by (induction m) (simp_all add: ac_simps)
  with sum_over_order [OF assms] show ?thesis by simp
qed

lemma refused_answer:
  assumes "env_fits E flds" "refuses E flds g code" "cut_ok (length T) (nbs flds)"
    and "file_data (cst_fs w) f = T" "file_size f = length T"
  shows "upload_answer E f (delivered (up_answer fid flds)) (s, w) =
    (if 1 < parts_lost flds g then Inl Looping else Inr KA_No,
     (s, w\<lparr>cst_progress := 1 + word_of_nat (sum g {..<length flds}),
       cst_opened := cst_opened w @ map (refused_connection E fid T flds g) (cli_order E (length flds)),
       cst_tasks := (if 1 < parts_lost flds g then cst_tasks w @ map (refusal flds g code) (cli_order E (length flds)) else []),
       cst_out := cst_out w @ (if 1 < parts_lost flds g then [] else upload_line E (length T))\<rparr>))"
proof -
  let ?p = "delivered (up_answer fid flds)" and ?n = "nbs flds" and ?ks = "cli_order E (length flds)"
  let ?tasks = "upload_tasks E fid f (word_of_nat ?n) 0 (word_of_nat ?n) flds" and ?g = "sum g {..<length flds}"
  have wf: "list_all wf_STPFIELD flds" "length flds < 2 ^ 24" and net: "net_ok (cli_net E)"
    and ks: "mset ?ks = mset [0..<length flds]" using assms(1) by (simp_all add: env_fits_def)
  have size: "unat ((ucast (size_get ?p) - 8) div word_of_nat sizeof_STPFIELD :: 64 word) = length flds"
    using list_size [OF wf(2) list_size_wf(1) [OF wf], of fid] by simp
  have what: "what_get ?p \<noteq> 0" by (simp add: delivered_def up_answer_def packet_simps up_pieces_loc_w_def)
  have tasks: "(?tasks ! k) v = (case refusal flds g code k of None \<Rightarrow> Inr () | Some x \<Rightarrow> Inl (Throw x),
      v\<lparr>cst_progress := cst_progress v + word_of_nat (g k), cst_opened := cst_opened v @ [refused_connection E fid T flds g k]\<rparr>)"
    if "k \<in> set ?ks" "cst_fs v = cst_fs w" for k v
    using refused_task [OF assms(1-3), of k v f fid] that assms(4,5) mset_eq_setD [OF ks] by simp
  let ?w1 = "w\<lparr>cst_progress := 1\<rparr>"
  let ?w2 = "?w1\<lparr>cst_progress := 1 + word_of_nat ?g, cst_opened := cst_opened w @ map (refused_connection E fid T flds g) ?ks,
      cst_tasks := cst_tasks w @ map (refusal flds g code) ?ks\<rparr>"
  have run: "run_tasks E ?tasks ?w1 = (Inr (), ?w2)"
    unfolding run_tasks_def length_upload_tasks
    by (subst tasks_end [where d = "cst_fs w", OF tasks]) (simp_all add: sum_over_indices [OF ks])
  have n: "?n = parts_lost flds g + ?g" by (rule nbs_lost [OF assms(2)])
  have over: "1 + word_of_nat ?g < (ucast (ucast (word_of_nat ?n :: 64 word) :: 32 word) :: 64 word) \<longleftrightarrow> 1 < parts_lost flds g"
    using progress_less [of ?n "Suc ?g"] cut_ok_small [OF assms(3)] n by simp
  show ?thesis
    unfolding upload_answer_def if_not_P [OF what] bnd_run lift_res_run list_size_wf(2) [OF wf] size view_fdetails [OF wf(1)]
        Let_def prod.case sum.case fdetails.simps hosts_print [OF net wf(1)] word_nbs on_world_run modify_run run progress_while_def
    by (simp add: over end_all_tasks_def print_out_def upload_line_def assms(5) act_simps del: upt_Suc of_nat_sum)
qed

text \<open>
  C3: A refused part is not reported. The file is not empty, has less than 16 MiB and at least
  the square of one less than its number of parts in bytes; at least one copy is asked for; the
  master grants it to any number of storages; each of these can be reached, acknowledges the first
  parts of its range and may answer the next one with an error code. Whatever the order of the
  tasks, the client sends a storage nothing after the part it refused: that part and the
  later ones of its range are lost. What the task threw stays in a future that is destroyed unread, and the progress
  counter starts at one: when at most one part is lost in all, the upload returns and
  prints the line it prints after a success; when two or more are lost the client waits forever.
\<close>

theorem refused_part_not_reported:
  assumes "env_fits E flds" "refuses E flds g code" "cut_ok (length T) (nbs flds)"
    and "file_data (cst_fs w) f = T" "file_size f = length T" "rdcy \<noteq> 0"
    and "master_session_create E = Inr m" "ses_inbox m = packet_bytes (up_answer fid flds) @ rest"
  shows "\<exists>w'. request_upload E f rdcy w = (if 1 < parts_lost flds g then Inl Looping else Inr (), w')
    \<and> cst_opened w' = cst_opened w @ map (refused_connection E fid T flds g) (cli_order E (length flds)) @
        [to_master E (up_req_packet (word_of_nat (length T)) rdcy (filename_get (cli_files E) f))]
    \<and> cst_out w' = cst_out w @ (if 1 < parts_lost flds g then [] else upload_line E (length T))
    \<and> cst_fs w' = cst_fs w"
proof -
  have wf: "list_all wf_STPFIELD flds" "length flds < 2 ^ 24" using assms(1) by (simp_all add: env_fits_def)
  from request_upload_run [OF assms(6-8) wf refused_answer [OF assms(1-5)]] show ?thesis
    by (cases "1 < parts_lost flds g") (simp_all add: assms(5))
qed

text \<open>
  Two storages get one part each of a file of two parts. When the second alone refuses its
  part the upload succeeds; when both do it never returns.
\<close>

definition refusing_client :: "string \<Rightarrow> string \<Rightarrow> string \<Rightarrow> string client_env" where
  "refusing_client from_master from_first from_second =
     (sample_client from_master from_first)\<lparr>cli_connect :=
        (\<lambda>k _. Inr (if k = 0 then from_master else if k = 1 then from_first else from_second))\<rparr>"

definition four_bytes :: client_state where
  "four_bytes = sample_disk\<lparr>cst_fs := [''f'' \<mapsto> ''abcd'']\<rparr>"

lemma refusing_client_fits: "env_fits (refusing_client a b c) [sample_field 1, sample_field 1]"
  using sample_client_fits [of a b 1] by (simp add: env_fits_def refusing_client_def) (simp add: sample_client_def)

lemma refusing_client_refuses:
  assumes "\<And>k. k < 2 \<Longrightarrow> answers k = (if g k = 1 then acks 3 1 else packet_bytes (ack_answer 3 hash_failed))"
    "\<And>k. k < 2 \<Longrightarrow> g k \<le> 1"
  shows "refuses (refusing_client a (answers 0) (answers 1)) [sample_field 1, sample_field 1] g (\<lambda>_. hash_failed)"
proof -
  have nb: "unat (stp_nb ([sample_field 1, sample_field 1] ! k)) = 1"
    "stp_addr ([sample_field 1, sample_field 1] ! k) = stp_addr (sample_field 1)" if "k < 2" for k
    using that by (auto simp: less_2_cases_iff sample_field_def)
  have sv: "serves (refusing_client a (answers 0) (answers 1)) k (stp_addr (sample_field 1)) (answers k)" if "k < 2" for k
    using that by (auto simp: less_2_cases_iff refusing_client_def sample_client_def serves_def session_connect_def
        endpoint_from_host_port_def endpoint_from_host_def resolving_net_def sample_net_def sample_field_def)
  have "answers k = acks 3 (g k) @ (if g k < 1 then packet_bytes (ack_answer 3 hash_failed) @ [] else [])" if "k < 2" for k
    using assms [OF that] by (cases "g k") (simp_all add: acks_def)
  then have "\<exists>ft rest. serves (refusing_client a (answers 0) (answers 1)) k (stp_addr (sample_field 1))
      (acks ft (g k) @ (if g k < 1 then packet_bytes (ack_answer ft hash_failed) @ rest else []))" if "k < 2" for k
    using sv [OF that] that by metis
  then show ?thesis
    using assms(2) unfolding refuses_def by (simp add: nb numeral_2_eq_2 del: nth_Cons_0 nth_Cons_Suc)
qed

lemma refused_part_not_reported_witness:
  "(\<exists>w'. request_upload (refusing_client (packet_bytes (up_answer 1 [sample_field 1, sample_field 1]))
        (acks 3 1) (packet_bytes (ack_answer 3 hash_failed)))
        \<lparr>filepath_get = ''f'', file_size = 4\<rparr> 1 four_bytes = (Inr (), w'))
   \<and> (\<exists>w'. request_upload (refusing_client (packet_bytes (up_answer 1 [sample_field 1, sample_field 1]))
        (packet_bytes (ack_answer 3 hash_failed)) (packet_bytes (ack_answer 3 hash_failed)))
        \<lparr>filepath_get = ''f'', file_size = 4\<rparr> 1 four_bytes = (Inl Looping, w'))"
proof -
  let ?flds = "[sample_field 1, sample_field 1]" and ?f = "\<lparr>filepath_get = ''f'', file_size = 4\<rparr>"
  let ?a = "packet_bytes (up_answer 1 ?flds)" and ?no = "packet_bytes (ack_answer 3 hash_failed)"
  have nb: "nbs ?flds = 2" by (simp add: sample_field_def)
  have cut: "cut_ok (length ''abcd'') (nbs ?flds)" unfolding nb by (simp add: cut_ok_def)
  have data: "file_data (cst_fs four_bytes) ?f = ''abcd''" by (simp add: file_data_def four_bytes_def)
  have size: "file_size ?f = length ''abcd''" "(1 :: rdcy_type) \<noteq> 0" by simp_all
  have m: "master_session_create (refusing_client ?a b c) = Inr (session_create 0 ''master'' ?a)" for b c
    using sample_client_connects(1) [of ?a b] by (simp add: refusing_client_def master_session_create_def) (simp add: sample_client_def)
  have inb: "ses_inbox (session_create 0 ''master'' ?a) = ?a @ []" by (simp add: session_create_def)
  have lost: "parts_lost ?flds (\<lambda>k. if k = 0 then 1 else 0) = 1" "parts_lost ?flds (\<lambda>_. 0) = 2"
    by (simp_all add: parts_lost_def sample_field_def lessThan_Suc)
  have one: "refuses (refusing_client ?a (acks 3 1) ?no) ?flds (\<lambda>k. if k = 0 then 1 else 0) (\<lambda>_. hash_failed)"
    using refusing_client_refuses [where answers = "\<lambda>k. if k = 0 then acks 3 1 else ?no" and g = "\<lambda>k. if k = 0 then 1 else 0"
        and a = ?a] by simp
  have both: "refuses (refusing_client ?a ?no ?no) ?flds (\<lambda>_. 0) (\<lambda>_. hash_failed)"
    using refusing_client_refuses [where answers = "\<lambda>_. ?no" and g = "\<lambda>_. 0" and a = ?a] by simp
  from refused_part_not_reported [OF refusing_client_fits one cut data size m inb]
    refused_part_not_reported [OF refusing_client_fits both cut data size m inb]
  show ?thesis unfolding lost by auto
qed
section \<open>Filling a file\<close>

text \<open>The bytes of \<open>T\<close> where a block covers them, those of \<open>X\<close> elsewhere.\<close>

definition cover :: "'a list \<Rightarrow> (nat \<times> nat) list \<Rightarrow> 'a list \<Rightarrow> 'a list" where
  "cover T rs X = map (\<lambda>i. if list_ex (\<lambda>(off, len). off \<le> i \<and> i < off + len) rs then T ! i else X ! i) [0..<length T]"

lemma length_cover [simp]: "length (cover T rs X) = length T"
  by (simp add: cover_def)

lemma cover_Nil: "length X = length T \<Longrightarrow> cover T [] X = X"
  by (rule nth_equalityI) (simp_all add: cover_def)

lemma cover_Cons:
  assumes "off + len \<le> length T"
  shows "splice off (slice off len T) (cover T rs X) = cover T ((off, len) # rs) X"
proof (rule nth_equalityI)
  show "length (splice off (slice off len T) (cover T rs X)) = length (cover T ((off, len) # rs) X)"
    using assms by simp
  fix i
  assume "i < length (splice off (slice off len T) (cover T rs X))"
  then have i: "i < length T" using assms by simp
  then show "splice off (slice off len T) (cover T rs X) ! i = cover T ((off, len) # rs) X ! i"
    using assms by (auto simp: nth_splice cover_def)
qed

lemma cover_cong: "set rs = set rs' \<Longrightarrow> cover T rs X = cover T rs' X"
  by (simp add: cover_def list_ex_iff)

section \<open>One part received\<close>

definition part_block :: "64 word \<Rightarrow> PARTID \<Rightarrow> string \<Rightarrow> nat \<times> nat" where
  "part_block part_size partid bytes = (unat (partid_partnum partid) * unat part_size, length bytes)"

definition down_request :: "PARTID \<Rightarrow> Packet" where
  "down_request partid = add_message (enc_PARTID partid) (packet_empty c_s_fromto cs_down_act_w)"

lemma part_packet_sendable:
  assumes "sha1_ok L" "length bytes < 2 ^ 24"
  shows "sendable (part_packet L partid bytes)" "length (sha1 L bytes) = sha1_type_size"
proof -
  show h: "length (sha1 L bytes) = sha1_type_size" using assms(1) by (simp add: sha1_ok_def sha1_def)
  have "length (payload (part_packet L partid bytes)) = sizeof_up_act + length bytes"
    using up_packet_views(4) [OF h] by (simp add: payload_part_packet)
  then show "sendable (part_packet L partid bytes)"
    using assms(2) by (simp add: sendable_def part_packet_def sizeof_up_act_def)
qed

lemma recv_part_answer_run:
  assumes "sha1_ok L" "length T < 2 ^ 24" "part_block part_size partid bytes = (off, len)" "off + len \<le> length T"
    and "bytes = slice off len T" "filepath_get f = path" "file_size f = length T"
    and "cst_fs w path = Some (cover T rs X)"
  shows "recv_part_answer f part_size (delivered (part_packet L partid bytes)) (s, w) =
    (Inr KA_No, (answered (ack_answer c_s_fromto success) s,
       w\<lparr>cst_fs := (cst_fs w)(path \<mapsto> cover T ((off, len) # rs) X), cst_progress := cst_progress w + 1\<rparr>))"
proof -
  let ?p = "delivered (part_packet L partid bytes)"
  have off: "off = unat (partid_partnum partid) * unat part_size" and len: "len = length bytes"
    using assms(3) by (simp_all add: part_block_def)
  have small: "length bytes < 2 ^ 24" using assms(2,4) len by simp
  note h = part_packet_sendable(2) [OF assms(1) small]
  note v = up_packet_views [OF h, where partid = partid and bytes = bytes]
  have fd: "front_data ?p = Inr (up_packet partid (sha1 L bytes) bytes)"
    by (simp add: delivered_def packet_of_message_def front_data_def message_seq_get_def payload_part_packet)
  have sz: "size_get ?p = word_of_nat (sizeof_up_act + length bytes)"
    using v(4) by (simp add: delivered_def packet_simps payload_part_packet)
  have len64: "unat (ucast (size_get ?p) - word_of_nat sizeof_PARTID - word_of_nat sha1_type_size :: 64 word) = len"
    using up_size [OF small sz] by (simp add: sizeof_up_act_def sizeof_PARTID_def sha1_type_size_def len)
  have off64: "unat (ucast (partid_partnum partid) * part_size :: 64 word) = off"
  proof -
    have "unat (partid_partnum partid) * unat part_size < 2 ^ 64" using assms(2,4) off by simp
    then have "unat (word_of_nat (unat (partid_partnum partid) * unat part_size) :: 64 word) = off"
      unfolding off by (rule unat_word_of_nat_64)
    then show ?thesis by simp
  qed
  have mapped: "file_data (cst_fs w) f = cover T rs X" using assms(6-8) by (simp add: file_data_def)
  have inv: "fromto_inverse (fromto_get ?p) = Inr c_s_fromto"
    by (simp add: delivered_def packet_simps part_packet_def fromto_inverse_def fromto_defs)
  have new: "view (off + len) (splice off bytes) (cover T rs X) = Inr (cover T ((off, len) # rs) X)"
    using assms(4) cover_Cons [OF assms(4)] assms(5) by (simp add: view_def)
  show ?thesis
    using v(5) by (simp add: recv_part_answer_def bnd_run lift_res_run fd v(2) len64 off64 on_world_run gets_run mapped
        new modify_run assms(6) send_ack_run [OF inv] step_progress_run ret_run Let_def len [symmetric])
qed

definition down_wire :: "PARTID \<Rightarrow> string" where
  "down_wire partid = packet_bytes (down_request partid) @ packet_bytes (ack_answer c_s_fromto success)"

lemma recv_part_run:
  assumes "sha1_ok L" "net_ok (cli_net E)" "wf_ADDR addr"
    and "serves E k addr (packet_bytes (part_packet L partid bytes) @ rest)"
    and "length T < 2 ^ 24" "part_block part_size partid bytes = (off, len)" "off + len \<le> length T"
    and "bytes = slice off len T" "filepath_get f = path" "file_size f = length T"
    and "cst_fs w path = Some (cover T rs X)"
  shows "recv_part E k f addr partid part_size w =
    (Inr (), w\<lparr>cst_fs := (cst_fs w)(path \<mapsto> cover T ((off, len) # rs) X), cst_progress := cst_progress w + 1,
       cst_opened := cst_opened w @ [connection E addr (down_wire partid)]\<rparr>)"
proof -
  let ?h = "ip6_to_string (cli_net E) (addr_ipv6 addr)" and ?p = "part_packet L partid bytes"
  have host: "binary_to_string_ipv6 (cli_net E) (addr_ipv6 addr) ipv6_type_size = Inr ?h"
    using binary_to_string_text [OF assms(2), of "addr_ipv6 addr"] assms(3) by (simp add: wf_ADDR_def ipv6_type_size_def)
  have "length bytes < 2 ^ 24" using assms(5-7) by (simp add: part_block_def)
  note send = part_packet_sendable(1) [OF assms(1) this]
  let ?s = "session_create (Suc k) ?h (packet_bytes ?p @ rest)"
  let ?s1 = "answered (down_request partid) ?s"
  let ?w = "w\<lparr>cst_fs := (cst_fs w)(path \<mapsto> cover T ((off, len) # rs) X), cst_progress := cst_progress w + 1\<rparr>"
  let ?s2 = "answered (ack_answer c_s_fromto success) (?s1\<lparr>ses_inbox := rest\<rparr>)"
  have "ses_inbox ?s1 = packet_bytes ?p @ rest" by (simp add: answered_def session_create_def)
  from blocking_receive_once [of ?p ?s1 rest "recv_part_answer f part_size" w "Inr KA_No" "(?s2, ?w)", OF send this
      recv_part_answer_run [OF assms(1,5-11)]]
  have "blocking_receive (recv_part_answer f part_size) (?s1, w) = (Inr (), (?s2, ?w))" by simp
  moreover have "ses_outbox ?s2 = down_wire partid"
    by (simp add: answered_def session_create_def down_wire_def)
  ultimately show ?thesis
    using assms(4) by (simp add: recv_part_def bnd_run lift_res_run host with_session_run serves_def
        down_request_def [symmetric] blocking_send_answered connection_def)
qed

section \<open>A download that succeeds\<close>

definition field_partid :: "fid_type \<Rightarrow> STPFIELD \<Rightarrow> PARTID" where
  "field_partid fid x = \<lparr>partid_fid = fid, partid_partnum = stp_nb x\<rparr>"

text \<open>
  Storage \<open>k\<close> of the list gives, for the part it is asked for, \<open>bs ! k\<close>: bytes of \<open>T\<close> at the
  offset the client computes.
\<close>

definition gives :: "('ctx, 'e) files_lib_scheme \<Rightarrow> 'c client_env \<Rightarrow> fid_type \<Rightarrow> STPFIELD list \<Rightarrow> string \<Rightarrow> 64 word \<Rightarrow> string list \<Rightarrow> bool" where
  "gives L E fid flds T part_size bs \<longleftrightarrow> length bs = length flds \<and>
     (\<forall>k < length flds. \<exists>rest off len.
        serves E k (stp_addr (flds ! k)) (packet_bytes (part_packet L (field_partid fid (flds ! k)) (bs ! k)) @ rest)
        \<and> part_block part_size (field_partid fid (flds ! k)) (bs ! k) = (off, len)
        \<and> off + len \<le> length T \<and> bs ! k = slice off len T)"

definition blocks :: "fid_type \<Rightarrow> STPFIELD list \<Rightarrow> 64 word \<Rightarrow> string list \<Rightarrow> nat \<Rightarrow> nat \<times> nat" where
  "blocks fid flds part_size bs k = part_block part_size (field_partid fid (flds ! k)) (bs ! k)"

lemma length_download_tasks [simp]: "length (download_tasks E fid f ps k flds) = length flds"
  by (induction flds arbitrary: k) simp_all

lemma download_tasks_nth:
  "j < length flds \<Longrightarrow>
   download_tasks E fid f ps k flds ! j = recv_part E (k + j) f (stp_addr (flds ! j)) (field_partid fid (flds ! j)) ps"
  by (induction flds arbitrary: k j) (auto simp: field_partid_def nth_Cons split: nat.splits)

lemma tasks_fill:
  assumes "\<And>k w rs. k \<in> set ks \<Longrightarrow> cst_fs w path = Some (cover T rs X) \<Longrightarrow> (tasks ! k) w =
      (Inr (), w\<lparr>cst_fs := (cst_fs w)(path \<mapsto> cover T (blk k # rs) X), cst_progress := cst_progress w + 1,
        cst_opened := cst_opened w @ [c k]\<rparr>)"
    and "cst_fs w path = Some (cover T rs X)"
  shows "forA (\<lambda>k. async (tasks ! k)) ks w =
    (Inr (), w\<lparr>cst_fs := (cst_fs w)(path \<mapsto> cover T (rev (map blk ks) @ rs) X),
       cst_progress := cst_progress w + word_of_nat (length ks), cst_opened := cst_opened w @ map c ks,
       cst_tasks := cst_tasks w @ replicate (length ks) None\<rparr>)"
  using assms
proof (induction ks arbitrary: w rs)
  case Nil
  then show ?case by (simp add: act_simps fun_upd_idem)
next
  case (Cons k ks)
  let ?w = "w\<lparr>cst_fs := (cst_fs w)(path \<mapsto> cover T (blk k # rs) X), cst_progress := cst_progress w + 1,
        cst_opened := cst_opened w @ [c k], cst_tasks := cst_tasks w @ [None]\<rparr>"
  have "(tasks ! k) w = (Inr (), w\<lparr>cst_fs := (cst_fs w)(path \<mapsto> cover T (blk k # rs) X), cst_progress := cst_progress w + 1,
        cst_opened := cst_opened w @ [c k]\<rparr>)"
    by (rule Cons.prems(1)) (simp_all add: Cons.prems(2))
  then have "async (tasks ! k) w = (Inr (), ?w)" by (simp add: async_run)
  moreover have "forA (\<lambda>k. async (tasks ! k)) ks ?w =
    (Inr (), ?w\<lparr>cst_fs := (cst_fs ?w)(path \<mapsto> cover T (rev (map blk ks) @ blk k # rs) X),
       cst_progress := cst_progress ?w + word_of_nat (length ks), cst_opened := cst_opened ?w @ map c ks,
       cst_tasks := cst_tasks ?w @ replicate (length ks) None\<rparr>)"
    by (rule Cons.IH) (simp_all add: Cons.prems(1))
  ultimately show ?case by (simp add: bnd_run ac_simps replicate_append_same fun_upd_def cong: if_cong)
qed

lemma down_answer_facts:
  assumes "list_all wf_STPFIELD flds" "length flds < 2 ^ 24"
  shows "sendable (down_answer fsize fid flds)"
    "unat (size_get (delivered (down_answer fsize fid flds))) = 16 + 22 * length flds"
    "front_data (delivered (down_answer fsize fid flds)) =
       Inr (enc_word fsize @ enc_fdetails \<lparr>fdetails_fid = fid, fdetails_stplist = flds\<rparr>)"
proof -
  have len: "length (concat (map enc_STPFIELD flds)) = 22 * length flds"
    using stpfield.array_size [OF assms(1)] by (simp add: sizeof_STPFIELD_def)
  have small: "16 + 22 * length flds < 2 ^ 32" using assms(2) by simp
  then have u: "unat (word_of_nat (16 + 22 * length flds) :: 32 word) = 16 + 22 * length flds"
    by (rule unat_word_of_nat_32)
  show "sendable (down_answer fsize fid flds)"
    using small by (simp add: sendable_def down_answer_def packet_simps codec_simps len)
  show "unat (size_get (delivered (down_answer fsize fid flds))) = 16 + 22 * length flds"
    using u by (simp add: delivered_def down_answer_def packet_simps len codec_simps)
  show "front_data (delivered (down_answer fsize fid flds)) =
       Inr (enc_word fsize @ enc_fdetails \<lparr>fdetails_fid = fid, fdetails_stplist = flds\<rparr>)"
    by (simp add: delivered_def down_answer_def packet_simps front_data_def enc_fdetails_def)
qed

lemma view_down:
  assumes "list_all wf_STPFIELD flds"
  shows "view (16 + sizeof_STPFIELD * length flds)
      (\<lambda>d. (dec_word (slice 0 8 d) :: fsize_type, dec_fdetails (length flds) (drop 8 d)))
      (enc_word fsize @ enc_fdetails \<lparr>fdetails_fid = fid, fdetails_stplist = flds\<rparr>)
    = Inr (fsize, \<lparr>fdetails_fid = fid, fdetails_stplist = flds\<rparr>)"
  using dec_enc_fdetails [of "\<lparr>fdetails_fid = fid, fdetails_stplist = flds\<rparr>" "length flds" "[]"]
    length_enc_fdetails [of "\<lparr>fdetails_fid = fid, fdetails_stplist = flds\<rparr>"] assms
  by (simp add: view_def sizeof_STPFIELD_def codec_simps)

definition down_fits :: "('ctx, 'e) files_lib_scheme \<Rightarrow> 'c client_env \<Rightarrow> STPFIELD list \<Rightarrow> nat \<Rightarrow> bool" where
  "down_fits L E flds len \<longleftrightarrow> sha1_ok L \<and> mapping_ok (cli_files E) \<and> net_ok (cli_net E) \<and> list_all wf_STPFIELD flds
     \<and> flds \<noteq> [] \<and> length flds < 2 ^ 24 \<and> mset (cli_order E (length flds)) = mset [0..<length flds]
     \<and> 0 < len \<and> len < 2 ^ 24 \<and> len \<le> unat (cli_space E) \<and> cli_elapsed E \<noteq> 0"

lemma download_answer_run:
  assumes "down_fits L E flds (length T)" "fsize = word_of_nat (length T)"
    and "ps = fsize div word_of_nat (length flds)" "gives L E fid flds T ps bs"
  shows "\<exists>w'. download_answer E name (delivered (down_answer fsize fid flds)) (s, w) = (Inr KA_No, (s, w'))
    \<and> cst_fs w' = (cst_fs w)(name @ ''-dl'' \<mapsto>
        cover T (map (blocks fid flds ps bs) [0..<length flds]) (replicate (length T) (CHR 0x00)))
    \<and> cst_tasks w' = [] \<and> length (cst_opened w') = length (cst_opened w) + length flds"
proof -
  let ?p = "delivered (down_answer fsize fid flds)" and ?m = "length flds" and ?len = "length T"
  let ?ks = "cli_order E ?m" and ?X = "replicate ?len (CHR 0x00)" and ?path = "name @ ''-dl''"
  let ?f = "\<lparr>filepath_get = ?path, file_size = ?len\<rparr>"
  have wf: "list_all wf_STPFIELD flds" "?m < 2 ^ 24" and sha: "sha1_ok L" and net: "net_ok (cli_net E)"
    and ks: "mset ?ks = mset [0..<?m]" and len: "0 < ?len" "?len < 2 ^ 24" and m0: "flds \<noteq> []"
    and map_ok: "mapping_ok (cli_files E)" and space: "?len \<le> unat (cli_space E)" and elapsed: "cli_elapsed E \<noteq> 0"
    using assms(1) by (simp_all add: down_fits_def)
  have what: "what_get ?p \<noteq> 0" by (simp add: delivered_def down_answer_def packet_simps down_pieces_loc_w_def)
  have size: "unat ((ucast (size_get ?p) - 8 - 8) div word_of_nat sizeof_STPFIELD :: 64 word) = ?m"
    using list_size [OF wf(2) down_answer_facts(2) [OF wf]] by simp
  then have size_w: "(ucast (size_get ?p) - 8 - 8) div word_of_nat sizeof_STPFIELD = (word_of_nat ?m :: 64 word)"
    by (rule word_of_unat)
  have m64: "unat (word_of_nat ?m :: 64 word) = ?m" using wf(2) by (intro unat_word_of_nat_64) simp
  have m_ne: "(word_of_nat ?m :: 64 word) \<noteq> 0" using m64 m0 by (metis length_0_conv unat_0)
  have fsz: "unat fsize = ?len" unfolding assms(2) using len(2) by (intro unat_word_of_nat_64) simp
  have sp: "\<not> cli_space E < fsize" using space by (simp add: word_less_nat_alt fsz)
  have create: "create_empty_file (cli_files E) d ?path ?len = Inr (?f, d(?path \<mapsto> ?X))" for d
    using map_ok len(1) by (simp add: create_empty_file_def mapping_ok_def)
  let ?tasks = "download_tasks E fid ?f ps 0 flds"
  let ?c = "\<lambda>k. connection E (stp_addr (flds ! k)) (down_wire (field_partid fid (flds ! k)))"
  have task: "(?tasks ! k) v = (Inr (), v\<lparr>cst_fs := (cst_fs v)(?path \<mapsto> cover T (blocks fid flds ps bs k # rs) ?X),
      cst_progress := cst_progress v + 1, cst_opened := cst_opened v @ [?c k]\<rparr>)"
    if "k \<in> set ?ks" "cst_fs v ?path = Some (cover T rs ?X)" for k v rs
  proof -
    have k: "k < ?m" using that(1) mset_eq_setD [OF ks] by simp
    obtain rest off n where g: "serves E k (stp_addr (flds ! k)) (packet_bytes (part_packet L (field_partid fid (flds ! k)) (bs ! k)) @ rest)"
      "part_block ps (field_partid fid (flds ! k)) (bs ! k) = (off, n)" "off + n \<le> ?len" "bs ! k = slice off n T"
      using assms(4) k unfolding gives_def by blast
    have wfk: "wf_ADDR (stp_addr (flds ! k))" using wf(1) k by (simp add: list_all_length wf_STPFIELD_def)
    from recv_part_run [OF sha net wfk g(1) len(2) g(2-4), of ?f ?path v rs ?X] that(2) show ?thesis
      by (simp add: download_tasks_nth [OF k] blocks_def g(2))
  qed
  let ?w1 = "w\<lparr>cst_fs := (cst_fs w)(?path \<mapsto> ?X), cst_progress := 1\<rparr>"
  have start: "cst_fs ?w1 ?path = Some (cover T [] ?X)" by (simp add: cover_Nil)
  let ?w2 = "?w1\<lparr>cst_fs := (cst_fs ?w1)(?path \<mapsto> cover T (rev (map (blocks fid flds ps bs) ?ks)) ?X),
      cst_progress := 1 + word_of_nat (length ?ks), cst_opened := cst_opened w @ map ?c ?ks,
      cst_tasks := cst_tasks w @ replicate (length ?ks) None\<rparr>"
  have run: "run_tasks E ?tasks ?w1 = (Inr (), ?w2)"
    unfolding run_tasks_def length_download_tasks
    by (subst tasks_fill [OF task start]) simp_all
  have lks: "length ?ks = ?m" using arg_cong [OF ks, of size] by simp
  have over: "\<not> 1 + word_of_nat ?m < (ucast (ucast (word_of_nat ?m :: 64 word) :: 32 word) :: 64 word)"
    using progress_reaches [of ?m] wf(2) by simp
  have cov: "cover T (rev (map (blocks fid flds ps bs) ?ks)) ?X = cover T (map (blocks fid flds ps bs) [0..<?m]) ?X"
    by (rule cover_cong) (simp add: mset_eq_setD [OF ks])
  let ?w3 = "?w2\<lparr>cst_tasks := [], cst_out := cst_out w @ [took ''Download'' (cli_elapsed E) (fsize div cli_elapsed E)]\<rparr>"
  have "download_answer E name ?p (s, w) = (Inr KA_No, (s, ?w3))"
    unfolding download_answer_def if_not_P [OF what] bnd_run lift_res_run down_answer_facts(3) [OF wf] size_w m64 Let_def
        if_not_P [OF m_ne] prod.case sum.case view_down [OF wf(1)] if_not_P [OF sp] on_world_run gets_run fsz create
        modify_run fdetails.simps assms(3) [symmetric] run progress_while_def if_not_P [OF elapsed]
    by (simp add: over lks end_all_tasks_def print_out_def act_simps run)
  then show ?thesis using cov lks by simp
qed

lemma request_download_run:
  assumes "down_fits L E flds (length T)" "fsize = word_of_nat (length T)"
    and "ps = fsize div word_of_nat (length flds)" "gives L E fid flds T ps bs"
    and "master_session_create E = Inr m" "ses_inbox m = packet_bytes (down_answer fsize fid flds) @ rest"
  shows "\<exists>w'. request_download E name w = (Inr (), w')
    \<and> cst_fs w' = (cst_fs w)(name @ ''-dl'' \<mapsto>
        cover T (map (blocks fid flds ps bs) [0..<length flds]) (replicate (length T) (CHR 0x00)))
    \<and> cst_tasks w' = [] \<and> length (cst_opened w') = length (cst_opened w) + length flds + 1"
proof -
  let ?p = "add_message name (packet_empty c_m_fromto down_req_w)"
  have wf: "list_all wf_STPFIELD flds" "length flds < 2 ^ 24" using assms(1) by (simp_all add: down_fits_def)
  have fresh: "ses_open m" "ses_outbox m = []"
    using session_connect_fresh assms(5) unfolding master_session_create_def by blast+
  have inbox: "ses_inbox (answered ?p m) = packet_bytes (down_answer fsize fid flds) @ rest"
    using assms(6) fresh by (simp add: answered_def)
  obtain w' where w': "download_answer E name (delivered (down_answer fsize fid flds)) ((answered ?p m)\<lparr>ses_inbox := rest\<rparr>, w) =
      (Inr KA_No, ((answered ?p m)\<lparr>ses_inbox := rest\<rparr>, w'))"
    "cst_fs w' = (cst_fs w)(name @ ''-dl'' \<mapsto>
        cover T (map (blocks fid flds ps bs) [0..<length flds]) (replicate (length T) (CHR 0x00)))"
    "cst_tasks w' = []" "length (cst_opened w') = length (cst_opened w) + length flds"
    using download_answer_run [OF assms(1-4), of name "(answered ?p m)\<lparr>ses_inbox := rest\<rparr>" w] by blast
  from blocking_receive_once [of "down_answer fsize fid flds" "answered ?p m" rest "download_answer E name" w "Inr KA_No",
      OF down_answer_facts(1) [OF wf] inbox w'(1)]
  show ?thesis
    using w'(2-4) assms(5) by (simp add: request_download_def with_session_run bnd_run blocking_send_answered)
qed

section \<open>The file that comes back\<close>

text \<open>How many bytes at the end no part covers.\<close>

definition lost_bytes :: "nat \<Rightarrow> nat \<Rightarrow> nat" where
  "lost_bytes len n = (if n dvd len then 0 else n - 1)"

lemma lost_le: "lost_bytes len n \<le> n"
  by (simp add: lost_bytes_def)

lemma last_part_len:
  assumes "cut_ok len n" "n * n \<le> len"
  shows "len div n * (n - 1) + part_len len n (n - 1) = len - lost_bytes len n"
    and "len div n * (n - 1) + (ceil_div len n - len div n) \<le> len - lost_bytes len n"
proof -
  let ?q = "len div n"
  have n: "0 < n" using assms(1) by (simp add: cut_ok_def)
  have len: "?q * (n - 1) + ?q + len mod n = len"
    using n mult_div_mod_eq [of n len] by (cases n) (simp_all add: algebra_simps)
  have q: "n \<le> ?q" using assms(2) n by (simp add: less_eq_div_iff_mult_less_eq)
  have "(n - 1) * ceil_div len n = ?q * (n - 1) + lost_bytes len n"
    using n by (simp add: ceil_div_floor lost_bytes_def algebra_simps)
  moreover have "lost_bytes len n \<le> ?q" using lost_le q by (rule le_trans)
  then have "?q * (n - 1) + lost_bytes len n \<le> len" using len by linarith
  ultimately show "?q * (n - 1) + part_len len n (n - 1) = len - lost_bytes len n"
    by (simp add: part_len_def)
  have "lost_bytes len n + (ceil_div len n - ?q) \<le> ?q + len mod n"
    using n q by (auto simp: lost_bytes_def ceil_div_floor)
  then show "?q * (n - 1) + (ceil_div len n - ?q) \<le> len - lost_bytes len n"
    using len by linarith
qed

lemma covered_iff:
  assumes "cut_ok len n" "n * n \<le> len"
  shows "(\<exists>i < n. len div n * i \<le> pos \<and> pos < len div n * i + part_len len n i) \<longleftrightarrow> pos < len - lost_bytes len n"
proof
  let ?q = "len div n"
  have n: "0 < n" using assms(1) by (simp add: cut_ok_def)
  have q: "?q \<le> ceil_div len n" using n by (simp add: ceil_div_floor)
  assume "\<exists>i < n. ?q * i \<le> pos \<and> pos < ?q * i + part_len len n i"
  then obtain i where i: "i < n" "pos < ?q * i + part_len len n i" by blast
  show "pos < len - lost_bytes len n"
  proof (cases "i = n - 1")
    case True
    then show ?thesis using i(2) last_part_len(1) [OF assms] by simp
  next
    case False
    then have "?q * Suc i \<le> ?q * (n - 1)" using i(1) by (intro mult_le_mono2) simp
    then have "?q * i + ceil_div len n \<le> ?q * (n - 1) + (ceil_div len n - ?q)" using q by simp
    with i(2) False last_part_len(2) [OF assms] show ?thesis by (simp add: part_len_def)
  qed
next
  let ?q = "len div n"
  have n: "0 < n" using assms(1) by (simp add: cut_ok_def)
  have "n \<le> len" using le_square assms(2) by (rule le_trans)
  then have q: "0 < ?q" "?q \<le> ceil_div len n"
    using n by (simp_all add: ceil_div_floor div_greater_zero_iff)
  assume pos: "pos < len - lost_bytes len n"
  show "\<exists>i < n. ?q * i \<le> pos \<and> pos < ?q * i + part_len len n i"
  proof (cases "pos < ?q * (n - 1)")
    case True
    then have i: "pos div ?q < n - 1" by (simp add: div_less_iff_less_mult q(1) mult.commute)
    have "pos < ?q * (pos div ?q) + ?q" using q(1) by (simp add: dividend_less_times_div add.commute)
    with i q(2) show ?thesis by (intro exI [of _ "pos div ?q"]) (auto simp: part_len_def)
  next
    case False
    with pos n last_part_len(1) [OF assms] show ?thesis by (intro exI [of _ "n - 1"]) simp
  qed
qed

lemma cover_parts:
  assumes "cut_ok (length T) n" "n * n \<le> length T" "set is = {..<n}"
  shows "cover T (map (\<lambda>i. (length T div n * i, part_len (length T) n i)) is) (replicate (length T) z) =
    take (length T - lost_bytes (length T) n) T @ replicate (lost_bytes (length T) n) z"
proof (rule nth_equalityI)
  have "lost_bytes (length T) n \<le> length T"
    using lost_le le_trans [OF le_square assms(2)] by (rule le_trans)
  then show l: "length (cover T (map (\<lambda>i. (length T div n * i, part_len (length T) n i)) is) (replicate (length T) z)) =
      length (take (length T - lost_bytes (length T) n) T @ replicate (lost_bytes (length T) n) z)"
    by simp
  fix pos
  assume "pos < length (cover T (map (\<lambda>i. (length T div n * i, part_len (length T) n i)) is) (replicate (length T) z))"
  then have "pos < length T" by simp
  then show "cover T (map (\<lambda>i. (length T div n * i, part_len (length T) n i)) is) (replicate (length T) z) ! pos =
      (take (length T - lost_bytes (length T) n) T @ replicate (lost_bytes (length T) n) z) ! pos"
    using covered_iff [OF assms(1,2), of pos] assms(3)
    by (auto simp: cover_def list_ex_iff nth_append)
qed

text \<open>The storages of the list hold, between them, the \<open>n\<close> parts of \<open>T\<close>, each under its number.\<close>

definition holds_parts :: "('ctx, 'e) files_lib_scheme \<Rightarrow> 'c client_env \<Rightarrow> fid_type \<Rightarrow> STPFIELD list \<Rightarrow> string \<Rightarrow> bool" where
  "holds_parts L E fid flds T \<longleftrightarrow>
     mset (map (\<lambda>x. unat (stp_nb x)) flds) = mset [0..<length flds]
     \<and> (\<forall>k < length flds. \<exists>rest. serves E k (stp_addr (flds ! k))
          (packet_bytes (part_packet L (field_partid fid (flds ! k)) (part_bytes T (length flds) (unat (stp_nb (flds ! k))))) @ rest))"

lemma holds_gives:
  assumes "holds_parts L E fid flds T" "cut_ok (length T) (length flds)"
    and "unat ps = length T div length flds"
  shows "gives L E fid flds T ps (map (\<lambda>x. part_bytes T (length flds) (unat (stp_nb x))) flds)"
    "map (blocks fid flds ps (map (\<lambda>x. part_bytes T (length flds) (unat (stp_nb x))) flds)) [0..<length flds] =
     map (\<lambda>i. (length T div length flds * i, part_len (length T) (length flds) i)) (map (\<lambda>x. unat (stp_nb x)) flds)"
proof -
  let ?n = "length flds" and ?bs = "map (\<lambda>x. part_bytes T (length flds) (unat (stp_nb x))) flds"
  have less: "unat (stp_nb (flds ! k)) < ?n" if "k < ?n" for k
  proof -
    have "unat (stp_nb (flds ! k)) \<in> set (map (\<lambda>x. unat (stp_nb x)) flds)" using that by simp
    moreover have "set (map (\<lambda>x. unat (stp_nb x)) flds) = set [0..<?n]"
      by (rule mset_eq_setD) (use assms(1) in \<open>simp only: holds_parts_def\<close>)
    ultimately show ?thesis by simp
  qed
  have block: "part_block ps (field_partid fid (flds ! k)) (?bs ! k) =
      (?n * 0 + length T div ?n * unat (stp_nb (flds ! k)), part_len (length T) ?n (unat (stp_nb (flds ! k))))" if "k < ?n" for k
    using that length_part_bytes [OF assms(2) less [OF that]]
    by (simp add: part_block_def field_partid_def assms(3))
  show "gives L E fid flds T ps ?bs"
    unfolding gives_def
  proof (intro conjI allI impI)
    show "length ?bs = length flds" by simp
    fix k
    assume k: "k < ?n"
    obtain rest where "serves E k (stp_addr (flds ! k))
        (packet_bytes (part_packet L (field_partid fid (flds ! k)) (?bs ! k)) @ rest)"
      using assms(1) k by (auto simp: holds_parts_def)
    with block [OF k] part_fits [OF assms(2) less [OF k]] k
    show "\<exists>rest off len. serves E k (stp_addr (flds ! k)) (packet_bytes (part_packet L (field_partid fid (flds ! k)) (?bs ! k)) @ rest)
        \<and> part_block ps (field_partid fid (flds ! k)) (?bs ! k) = (off, len)
        \<and> off + len \<le> length T \<and> ?bs ! k = slice off len T"
      by (auto simp: part_bytes_def)
  qed
  show "map (blocks fid flds ps ?bs) [0..<?n] =
     map (\<lambda>i. (length T div ?n * i, part_len (length T) ?n i)) (map (\<lambda>x. unat (stp_nb x)) flds)"
    by (rule nth_equalityI) (use block in \<open>simp_all add: blocks_def\<close>)
qed

lemma download_run:
  assumes "down_fits L E flds (length T)" "cut_ok (length T) (length flds)" "length flds * length flds \<le> length T"
    and "holds_parts L E fid flds T"
    and "master_session_create E = Inr m" "ses_inbox m = packet_bytes (down_answer (word_of_nat (length T)) fid flds) @ rest"
  shows "\<exists>w'. request_download E name w = (Inr (), w')
    \<and> cst_fs w' = (cst_fs w)(name @ ''-dl'' \<mapsto>
        take (length T - lost_bytes (length T) (length flds)) T @ replicate (lost_bytes (length T) (length flds)) (CHR 0x00))"
proof -
  let ?n = "length flds" and ?fs = "word_of_nat (length T) :: 64 word"
  let ?ps = "?fs div word_of_nat ?n" and ?nums = "map (\<lambda>x. unat (stp_nb x)) flds"
  have "unat ?fs = length T" "unat (word_of_nat ?n :: 64 word) = ?n"
    using assms(1) by (intro unat_word_of_nat_64; simp add: down_fits_def)+
  then have ps: "unat ?ps = length T div ?n" by (simp only: unat_div)
  note hg = holds_gives [OF assms(4,2) ps]
  have "set ?nums = set [0..<?n]"
    by (rule mset_eq_setD) (use assms(4) in \<open>simp only: holds_parts_def\<close>)
  then have nums: "set ?nums = {..<?n}" by (simp add: lessThan_atLeast0)
  obtain w' where "request_download E name w = (Inr (), w')"
    "cst_fs w' = (cst_fs w)(name @ ''-dl'' \<mapsto>
        cover T (map (\<lambda>i. (length T div ?n * i, part_len (length T) ?n i)) ?nums) (replicate (length T) (CHR 0x00)))"
    using request_download_run [OF assms(1) refl refl hg(1) assms(5,6), of name w] unfolding hg(2) by blast
  then show ?thesis unfolding cover_parts [OF assms(2,3) nums] by blast
qed

text \<open>
  What a download of an uploaded file leaves: with the parts cut as an upload cuts them, on
  any storages and whatever the order in which they arrive, the new file has the size of the
  uploaded one and its bytes, when the number of parts divides the size. Otherwise every part
  was cut at a multiple of the rounded down quotient but with the rounded up size, and the
  last \<open>n - 1\<close> bytes of the file come back as zeros.
\<close>

lemma download_returns_upload:
  assumes "down_fits L E flds (length T)" "cut_ok (length T) (length flds)" "length flds * length flds \<le> length T"
    and "holds_parts L E fid flds T"
    and "master_session_create E = Inr m" "ses_inbox m = packet_bytes (down_answer (word_of_nat (length T)) fid flds) @ rest"
  shows "\<exists>w'. request_download E name w = (Inr (), w')
    \<and> cst_fs w' = (cst_fs w)(name @ ''-dl'' \<mapsto>
        take (length T - lost_bytes (length T) (length flds)) T @ replicate (lost_bytes (length T) (length flds)) (CHR 0x00))"
  by (rule download_run [OF assms])

text \<open>Two storages, each with one of the two parts of five bytes.\<close>

definition two_fields :: "STPFIELD list" where
  "two_fields = [sample_field 0, sample_field 1]"

definition two_storages :: "string client_env" where
  "two_storages = (sample_client [] [])\<lparr>cli_connect := (\<lambda>k _. Inr (case k of
     0 \<Rightarrow> packet_bytes (down_answer 5 1 two_fields)
   | Suc i \<Rightarrow> packet_bytes (part_packet sample_lib \<lparr>partid_fid = 1, partid_partnum = word_of_nat i\<rparr> (part_bytes ''abcde'' 2 i))))\<rparr>"

lemma two_storages_connect:
  "master_session_create two_storages = Inr (session_create 0 ''master'' (packet_bytes (down_answer 5 1 two_fields)))"
  "serves two_storages i (stp_addr (sample_field nb))
     (packet_bytes (part_packet sample_lib \<lparr>partid_fid = 1, partid_partnum = word_of_nat i\<rparr> (part_bytes ''abcde'' 2 i)))"
  by (simp_all add: two_storages_def sample_client_def master_session_create_def serves_def session_connect_def
      endpoint_from_host_port_def endpoint_from_host_def resolving_net_def sample_client_conf_def sample_net_def sample_field_def)

lemma two_storages_hold: "holds_parts sample_lib two_storages 1 two_fields ''abcde''"
proof -
  have ex: "\<exists>rest. serves two_storages k (stp_addr (two_fields ! k))
      (packet_bytes (part_packet sample_lib (field_partid 1 (two_fields ! k)) (part_bytes ''abcde'' 2 (unat (stp_nb (two_fields ! k))))) @ rest)"
    if "k < 2" for k
  proof -
    have "two_fields ! k = sample_field (word_of_nat k)" "unat (word_of_nat k :: 32 word) = k"
      using that by (auto simp: two_fields_def less_2_cases_iff)
    then have "field_partid 1 (two_fields ! k) = \<lparr>partid_fid = 1, partid_partnum = word_of_nat k\<rparr>"
      "unat (stp_nb (two_fields ! k)) = k" "stp_addr (two_fields ! k) = stp_addr (sample_field 0)"
      by (simp_all add: field_partid_def sample_field_def)
    with two_storages_connect(2) [of k 0] show ?thesis by (intro exI [of _ "[]"]) simp
  qed
  have len: "length two_fields = 2" by (simp add: two_fields_def)
  have "map (\<lambda>x. unat (stp_nb x)) two_fields = [0..<2]" by (simp add: two_fields_def sample_field_def upt_rec)
  then show ?thesis unfolding holds_parts_def len using ex by simp
qed

lemma download_returns_upload_witness:
  "\<exists>w'. request_download two_storages ''f'' sample_disk = (Inr (), w')
     \<and> cst_fs w' ''f-dl'' = Some (''abcd'' @ [CHR 0x00])"
proof -
  have len: "length two_fields = 2" by (simp add: two_fields_def)
  have 1: "down_fits sample_lib two_storages two_fields (length ''abcde'')"
  proof -
    have "net_ok resolving_net"
      using sample_net_ok by (simp add: net_ok_def resolving_net_def ipv6_type_size_def)
    then show ?thesis
      using sample_lib_ok by (simp add: down_fits_def len two_storages_def sample_client_def)
        (simp add: two_fields_def sample_field_def wf_STPFIELD_def wf_ADDR_def ipv6_type_size_def)
  qed
  have 2: "cut_ok (length ''abcde'') (length two_fields)" "length two_fields * length two_fields \<le> length ''abcde''"
    by (simp_all add: len cut_ok_def)
  have 3: "ses_inbox (session_create 0 ''master'' (packet_bytes (down_answer 5 1 two_fields)))
      = packet_bytes (down_answer (word_of_nat (length ''abcde'')) 1 two_fields) @ []"
    by (simp add: session_create_def)
  have "\<not> (2 :: nat) dvd 5" by (simp add: dvd_eq_mod_eq_0)
  then have "lost_bytes (length ''abcde'') (length two_fields) = 1" by (simp add: lost_bytes_def len)
  with download_returns_upload [OF 1 2 two_storages_hold two_storages_connect(1) 3, of "''f''" sample_disk]
  show ?thesis by auto
qed

section \<open>The storage between them\<close>

lemma payload_upload_part:
  "payload (upload_part L fid T n i) =
     up_packet \<lparr>partid_fid = fid, partid_partnum = word_of_nat i\<rparr> (sha1 L (part_bytes T n i)) (part_bytes T n i)"
  by (simp add: upload_part_def packet_simps up_packet_def enc_up_act_def enc_PARTID_def)

text \<open>
  A storage takes a part as the client cuts and sends it and gives it back as the client
  expects it: dispatched one after the other, the upload of a non-empty part is acknowledged
  and keeps the connection, and a later request for its id and number is answered with the
  same bytes and their SHA-1.
\<close>

lemma storage_keeps_client_part:
  assumes "sha1_ok L" "mapping_ok L" "sto_files S = L" "cut_ok (length T) n" "i < n" "0 < part_len (length T) n i"
    and "partid = \<lparr>partid_fid = fid, partid_partnum = word_of_nat i\<rparr>"
    and "sto_writable S (part_path (sto_conf S) partid)" "master_session S = Inr m"
    and "ses_inbox b = packet_bytes (ack_answer ft success) @ rest"
  shows "\<exists>w'. storage_dispatcher S (delivered (upload_part L fid T n i)) (a, w) =
      (Inr KA_Yes, (answered (ack_answer s_c_fromto success) a, w'))
    \<and> storage_dispatcher S (delivered (down_request partid)) (b, w') =
      (Inr KA_No, ((answered (part_packet L partid (part_bytes T n i)) b)\<lparr>ses_inbox := rest\<rparr>, w'))"
proof -
  let ?B = "part_bytes T n i" and ?p = "delivered (upload_part L fid T n i)" and ?r = "delivered (down_request partid)"
  have len: "length ?B = part_len (length T) n i" by (rule length_part_bytes [OF assms(4,5)])
  have small: "length ?B < 2 ^ 24" "0 < length ?B"
    using part_fits [OF assms(4,5)] assms(4,6) unfolding len cut_ok_def by linarith+
  have h: "length (sha1 L ?B) = sha1_type_size" using assms(1) by (simp add: sha1_ok_def sha1_def)
  have fd: "front_data ?p = Inr (up_packet partid (sha1 L ?B) ?B)"
    by (simp add: delivered_def packet_of_message_def front_data_def message_seq_get_def payload_upload_part assms(7))
  have ft: "fromto_get ?p = c_s_fromto" "what_get ?p = cs_up_act_w"
    by (simp_all add: delivered_def packet_simps upload_part_def)
  have sz: "size_get ?p = word_of_nat (sizeof_up_act + length ?B)"
    using up_packet_views(4) [OF h] by (simp add: delivered_def packet_simps payload_upload_part)
  have "unat (size_get ?p) = sizeof_up_act + length ?B"
    unfolding sz by (rule unat_word_of_nat_32) (use small in \<open>simp add: sizeof_up_act_def\<close>)
  then have sz1: "\<not> size_get ?p < 1" using small by (simp add: word_less_nat_alt)
  obtain w' where up: "cs_up_act S ?p (a, w) = (Inr KA_Yes, (answered (ack_answer s_c_fromto success) a, w'))"
    "sst_fs w' = ofstream_write S (part_path (sto_conf S) partid) ?B (sst_fs w)"
    using up_act_run [of S ?B "sha1 L ?B" ?p partid m a w] assms(1,3,9) small(1) h fd ft(1) sz by auto
  have there: "sst_fs w' (part_path (sto_conf S) partid) = Some ?B"
    using up(2) assms(8) by (simp add: ofstream_write_def)
  have rd: "front_data ?r = Inr (enc_PARTID partid @ [])" "fromto_get ?r = c_s_fromto" "what_get ?r = cs_down_act_w"
    by (simp_all add: delivered_def packet_simps down_request_def front_data_def)
  have rs: "\<not> size_get ?r < 1"
    by (simp add: delivered_def packet_simps down_request_def enc_PARTID_def codec_simps word_less_nat_alt)
  have inbox: "ses_inbox (answered (part_packet L partid ?B) b) =
      packet_bytes (add_message (enc_word (error_code_value success)) (packet_empty ft ack_w)) @ rest"
    using assms(10) by (simp add: answered_def ack_answer_def)
  have "cs_down_act S ?r (b, w') = (Inr KA_No, ((answered (part_packet L partid ?B) b)\<lparr>ses_inbox := rest\<rparr>, w'))"
    using down_act_run [of S ?B w' partid ?r "[]" b] assms(1-3) small there rd(1) recv_ack_run [OF inbox, of w']
    by (simp add: bnd_run ret_run)
  with up(1) sz1 rs ft rd(2,3) show ?thesis
    by (auto simp: storage_dispatcher_def ack_w_def cs_up_act_w_def cs_down_act_w_def)
qed

lemma storage_keeps_client_part_witness:
  "\<exists>w'. storage_dispatcher sample_storage_env (delivered (upload_part sample_lib 1 ''abc'' 1 0)) (session_create 1 [] [], empty_storage) =
      (Inr KA_Yes, (answered (ack_answer s_c_fromto success) (session_create 1 [] []), w'))
    \<and> storage_dispatcher sample_storage_env (delivered (down_request \<lparr>partid_fid = 1, partid_partnum = 0\<rparr>))
        (session_create 2 [] (packet_bytes (ack_answer s_c_fromto success)), w') =
      (Inr KA_No, ((answered (part_packet sample_lib \<lparr>partid_fid = 1, partid_partnum = 0\<rparr> (part_bytes ''abc'' 1 0))
          (session_create 2 [] (packet_bytes (ack_answer s_c_fromto success))))\<lparr>ses_inbox := []\<rparr>, w'))"
  by (rule storage_keeps_client_part [OF sample_lib_ok _ _ _ _ _ _ sample_storage_env_ok(3)])
    (simp_all add: sample_storage_env_def cut_ok_def part_len_def session_create_def)

end
