(* ===== verification/Programs.thy ===== *)
theory Programs
  imports Server Options_Client Requests Transfers
begin

text \<open>
  The two servers as programs: the master and the storage server run their dispatchers on a
  \<^verbatim>\<open>Server\<close>, and their main functions put the parsing of the options, the initialisation and
  the life of the server together (\<^verbatim>\<open>master/main.cc\<close>, \<^verbatim>\<open>storage/main.cc\<close>, \<^verbatim>\<open>storage.cc\<close>).
\<close>

section \<open>The master\<close>

definition master_program ::
  "('db, 'e) master_env_scheme \<Rightarrow> (string \<times> port_type \<Rightarrow> bool) \<Rightarrow> server_event list \<Rightarrow> server_event list \<Rightarrow> master_Conf
    \<Rightarrow> ('db master_state) program_env" where
  "master_program E binds before after conf =
     \<lparr>pge_net = env_net E, pge_hostname = mc_hostname conf, pge_port = mc_port conf,
      pge_concurrency = mc_concurrency conf, pge_binds = binds, pge_dispatch = master_dispatcher E,
      pge_before = before, pge_after = after\<rparr>"

text \<open>The state of a main function: that of its options and that of its program.\<close>

record ('c, 'w) main_state =
  mns_opts :: "'c opt_state"
  mns_program :: "'w program"

definition on_opts :: "('c opt_state, 'a) act \<Rightarrow> (('c, 'w) main_state, 'a) act" where
  "on_opts m = (\<lambda>w. case m (mns_opts w) of (r, o') \<Rightarrow> (r, w\<lparr>mns_opts := o'\<rparr>))"

definition on_program :: "('w program, 'a) act \<Rightarrow> (('c, 'w) main_state, 'a) act" where
  "on_program m = (\<lambda>w. case m (mns_program w) of (r, p) \<Rightarrow> (r, w\<lparr>mns_program := p\<rparr>))"

definition on_program_world :: "('w, 'a) act \<Rightarrow> ('w program, 'a) act" where
  "on_program_world m = (\<lambda>p. case m (srv_world (prg_server p)) of
     (r, v) \<Rightarrow> (r, p\<lparr>prg_server := (prg_server p)\<lparr>srv_world := v\<rparr>\<rparr>))"

text \<open>\<^verbatim>\<open>sock\<close> and \<^verbatim>\<open>getsockopt_fails\<close> are the two system calls of \<^verbatim>\<open>check_system\<close>.\<close>

text \<open>What follows the parsing: the system check and the connection to the database.\<close>

definition master_init :: "('db, 'e) master_env_scheme \<Rightarrow> 'sock option \<Rightarrow> ('sock \<Rightarrow> bool) \<Rightarrow> ((master_Conf, 'db master_state) main_state, unit) act" where
  "master_init E sock fails =
     bnd (lift_res (check_system sock fails)) (\<lambda>_.
     bnd (gets (\<lambda>w. mc_db (ops_conf (mns_opts w)))) (\<lambda>db.
       on_program (on_program_world (Connector_get_instance E (db_hostname db) (db_password db) (db_bucket db)))))"

definition master_main ::
  "opt_lib \<Rightarrow> ('db, 'e) master_env_scheme \<Rightarrow> 'sock option \<Rightarrow> ('sock \<Rightarrow> bool) \<Rightarrow> (string \<times> port_type \<Rightarrow> bool)
    \<Rightarrow> server_event list \<Rightarrow> server_event list \<Rightarrow> string list \<Rightarrow> ((master_Conf, 'db master_state) main_state, int) act" where
  "master_main L E sock getsockopt_fails binds before after argv =
     program_main
       (bnd (on_opts (master_parse_options L argv)) (\<lambda>_. master_init E sock getsockopt_fails))
       (bnd (gets (\<lambda>w. ops_conf (mns_opts w))) (\<lambda>conf.
          main_rest (on_program (program_body (master_program E binds before after conf)))))"

section \<open>The storage server\<close>

definition storage_program ::
  "'ctx storage_env \<Rightarrow> (string \<times> port_type \<Rightarrow> bool) \<Rightarrow> server_event list \<Rightarrow> server_event list \<Rightarrow> storage_state program_env" where
  "storage_program S binds before after =
     \<lparr>pge_net = sto_net S, pge_hostname = sc_hostname (sto_conf S), pge_port = sc_port (sto_conf S),
      pge_concurrency = sc_concurrency (sto_conf S), pge_binds = binds, pge_dispatch = storage_dispatcher S,
      pge_before = before, pge_after = after\<rparr>"

text \<open>\<^verbatim>\<open>Storage::run\<close> asks for the identifier first.\<close>

definition storage_run :: "'ctx storage_env \<Rightarrow> storage_state program_env \<Rightarrow> (storage_state program, bool) act" where
  "storage_run S P = bnd (on_program_world (init_id S)) (\<lambda>_. program_run P)"

definition storage_program_body :: "'ctx storage_env \<Rightarrow> storage_state program_env \<Rightarrow> (storage_state program, unit) act" where
  "storage_program_body S P =
     bnd (program_create P) (\<lambda>_.
       scoped
         (bnd (storage_run S P) (\<lambda>running. if running then program_catch_stop P else ret ()))
         (program_destroy P))"

definition storage_main ::
  "opt_lib \<Rightarrow> 'ctx storage_env \<Rightarrow> 'sock option \<Rightarrow> ('sock \<Rightarrow> bool) \<Rightarrow> (string \<times> port_type \<Rightarrow> bool)
    \<Rightarrow> server_event list \<Rightarrow> server_event list \<Rightarrow> string list \<Rightarrow> ((storage_Conf, storage_state) main_state, int) act" where
  "storage_main L S sock getsockopt_fails binds before after argv =
     program_main
       (bnd (on_opts (storage_parse_options L argv)) (\<lambda>_.
          lift_res (check_system sock getsockopt_fails)))
       (bnd (gets (\<lambda>w. ops_conf (mns_opts w))) (\<lambda>conf.
          (let S = S\<lparr>sto_conf := conf\<rparr> in
           main_rest (on_program (storage_program_body S (storage_program S binds before after))))))"

section \<open>Their handlers only consume\<close>

lemma consumes_storage: "consumes (storage_dispatcher S p)"
  by (auto simp: storage_dispatcher_def cs_up_act_def cs_down_act_def storage_send_error_def Let_def
      intro!: consumes_intros)

lemma consumes_send_error [consumes_intros]: "consumes (send_error p e msg)"
  by (auto simp: send_error_def intro!: consumes_intros)

lemma consumes_del_parts [consumes_intros]: "consumes (del_parts p parts)"
  by (induction parts) (auto intro!: consumes_intros)

lemma consumes_replicate_to [consumes_intros]: "consumes (replicate_to N req locs sts)"
  by (induction sts) (auto intro!: consumes_intros)

lemma consumes_split [consumes_intros]: "(\<And>x y. consumes (k x y)) \<Longrightarrow> consumes (case z of (x, y) \<Rightarrow> k x y)"
  by (cases z) simp

lemma consumes_up_req: "consumes (cm_up_req E p)"
  by (auto simp: cm_up_req_def Let_def intro!: consumes_intros)

lemma consumes_down_req: "consumes (cm_down_req E p)"
  by (auto simp: cm_down_req_def Let_def intro!: consumes_intros)

lemma consumes_del_req: "consumes (cm_del_req E p)"
  by (auto simp: cm_del_req_def Let_def intro!: consumes_intros)

lemma consumes_part_ack: "consumes (sm_part_ack E p)"
  by (auto simp: sm_part_ack_def Let_def intro!: consumes_intros)

lemma consumes_id_req: "consumes (sm_id_req E p)"
  by (auto simp: sm_id_req_def Let_def intro!: consumes_intros)

lemma consumes_master: "consumes (master_dispatcher E p)"
  by (auto simp: master_dispatcher_is_table master_table_def Let_def
      intro!: consumes_intros consumes_up_req consumes_down_req consumes_del_req consumes_part_ack consumes_id_req)

text \<open>
  C32: A stopped server comes to rest: whatever the connections of a master or of a storage were
  doing when it was stopped, some completions of their receives leave it with nothing
  pending, so that its threads can be joined, unless one of its handlers fails or loops.
  Every peer sends finitely many bytes and then closes.
\<close>

theorem stopped_servers_come_to_rest:
  assumes "srv_open m" "srv_open s"
  shows "(\<exists>ks. let m' = server_run (master_dispatcher E) (map Receives ks) (server_stop m) in srv_fault m' \<noteq> None \<or> server_idle m')
    \<and> (\<exists>ks. let s' = server_run (storage_dispatcher S) (map Receives ks) (server_stop s) in srv_fault s' \<noteq> None \<or> server_idle s')"
  using stopped_server_comes_to_rest [of "master_dispatcher E" m] stopped_server_comes_to_rest [of "storage_dispatcher S" s]
    consumes_master consumes_storage assms by blast

lemma stopped_servers_come_to_rest_witness:
  "(\<exists>ks. let m' = server_run (master_dispatcher sample_env) (map Receives ks)
        (server_stop (server_run (master_dispatcher sample_env) [Connects ''a'' ''bytes''] (server_listen (closed_server (fresh_state None)\<lparr>srv_open := True\<rparr>))))
      in srv_fault m' \<noteq> None \<or> server_idle m')
   \<and> (\<exists>ks. let s' = server_run (storage_dispatcher sample_storage_env) (map Receives ks)
        (server_stop (server_run (storage_dispatcher sample_storage_env) [Connects ''a'' ''bytes''] (server_listen (closed_server empty_storage\<lparr>srv_open := True\<rparr>))))
      in srv_fault s' \<noteq> None \<or> server_idle s')"
  by (rule stopped_servers_come_to_rest) (simp_all add: server_listen_def)

section \<open>Exit codes\<close>

definition no_int :: "('w, 'a) act \<Rightarrow> bool" where
  "no_int m \<longleftrightarrow> (\<forall>w i. fst (m w) \<noteq> Inl (Throw (Int_thrown i)))"

lemma no_int_bnd: "no_int m \<Longrightarrow> (\<And>x. no_int (k x)) \<Longrightarrow> no_int (bnd m k)"
  unfolding no_int_def by (simp add: bnd_run split: prod.splits sum.splits) (metis fst_conv)

lemma no_int_catching: "no_int m \<Longrightarrow> (\<And>e. no_int (h e)) \<Longrightarrow> no_int (catching P m h)"
  unfolding no_int_def by (simp add: catching_run split: prod.splits sum.splits fault.splits) (metis fst_conv)

lemma no_int_simple:
  "no_int (ret x)" "no_int (gets f)" "no_int (modify g)" "no_int (raise (Throw (Runtime_error msg)))"
  by (simp_all add: no_int_def act_simps)

lemma no_int_lift: "(\<And>i. r \<noteq> Inl (Throw (Int_thrown i))) \<Longrightarrow> no_int (lift_res r)"
  by (simp add: no_int_def act_simps)

lemma no_int_connector: "no_int (Connector_get_instance E host pass bucket)"
proof -
  have put: "no_int (db_put E k v)" for k v
    by (auto simp: db_put_def get_instance_def set_db_def CouchbaseDb_cmd_put_def
        intro!: no_int_bnd no_int_simple no_int_lift split: option.splits sum.splits)
  have put_file: "no_int (db_put_file E k f)" for k f
    by (auto simp: db_put_file_def get_instance_def set_db_def cmd_put_file_def CouchbaseDb_cmd_put_def
        intro!: no_int_bnd no_int_simple no_int_lift split: option.splits sum.splits)
  have get: "no_int (db_get E k)" for k
    by (auto simp: db_get_def get_instance_def CouchbaseDb_cmd_get_def of_option_def
        intro!: no_int_bnd no_int_simple no_int_lift split: option.splits)
  have "no_int (ensure_connected E host pass bucket)"
    by (auto simp: ensure_connected_def set_db_def CouchbaseDb_make_def Let_def
        intro!: no_int_bnd no_int_simple no_int_lift split: option.splits connection.splits)
  moreover have "no_int create \<Longrightarrow> no_int (ensure_key E k create)" for k create
    by (auto simp: ensure_key_def intro!: no_int_catching no_int_bnd get no_int_simple)
  ultimately show ?thesis
    unfolding Connector_get_instance_def by (intro no_int_bnd) (simp_all add: put put_file)
qed

lemma check_system_no_int: "check_system sock fails \<noteq> Inl (Throw (Int_thrown i))"
  by (auto simp: check_system_def split: option.splits)

lemma on_program_fst: "fst (on_program m w) = fst (m (mns_program w))"
  by (simp add: on_program_def split: prod.splits)

lemma no_int_on_program: "no_int m \<Longrightarrow> no_int (on_program (on_program_world m))"
  unfolding no_int_def by (auto simp: on_program_def on_program_world_def split: prod.splits) (metis fst_conv)

text \<open>An \<^verbatim>\<open>int\<close> that comes out of an initialisation was thrown by the parser.\<close>

lemma thrown_by_parser:
  assumes "bnd (on_opts parse) (\<lambda>_. later) w = (Inl (Throw (Int_thrown i)), w')" "no_int later"
  shows "parse (mns_opts w) = (Inl (Throw (Int_thrown i)), mns_opts w') \<and> mns_program w' = mns_program w"
proof -
  obtain r o' where r: "parse (mns_opts w) = (r, o')" by (cases "parse (mns_opts w)")
  show ?thesis
  proof (cases r)
    case (Inl f)
    with assms(1) r show ?thesis by (auto simp: bnd_run on_opts_def)
  next
    case (Inr x)
    with assms(1) r have "fst (later (w\<lparr>mns_opts := o'\<rparr>)) = Inl (Throw (Int_thrown i))"
      by (simp add: bnd_run on_opts_def)
    with assms(2) show ?thesis unfolding no_int_def by blast
  qed
qed

lemma parsed_first:
  assumes "bnd (on_opts parse) (\<lambda>_. later) w = (Inr (), u)"
    and "\<And>x v v'. later v = (x, v') \<Longrightarrow> mns_opts v' = mns_opts v"
  shows "parse (mns_opts w) = (Inr (), mns_opts u)"
  using assms(1) by (auto simp: bnd_run on_opts_def dest!: assms(2) split: prod.splits sum.splits)

lemma no_int_master_init: "no_int (master_init E sock fails)"
  unfolding master_init_def
  by (intro no_int_bnd no_int_lift no_int_on_program no_int_connector no_int_simple) (simp add: check_system_no_int)

lemma master_init_opts: "master_init E sock fails v = (x, v') \<Longrightarrow> mns_opts v' = mns_opts v"
  by (auto simp: master_init_def bnd_run lift_res_run gets_run on_program_def split: prod.splits sum.splits)

lemma master_exits_zero:
  assumes "master_main L E sock fails binds before after argv v = (Inr 0, v')"
  shows "master_parse_options L argv (mns_opts v) = (Inl (Throw (Int_thrown 0)), mns_opts v') \<and> mns_program v' = mns_program v"
proof (rule thrown_by_parser [OF _ no_int_master_init])
  show "bnd (on_opts (master_parse_options L argv)) (\<lambda>_. master_init E sock fails) v = (Inl (Throw (Int_thrown 0)), v')"
  proof (rule main_zero [OF _ assms [unfolded master_main_def]])
    fix u
    assume "bnd (on_opts (master_parse_options L argv)) (\<lambda>_. master_init E sock fails) v = (Inr (), u)"
    then have "master_parse_options L argv (mns_opts v) = (Inr (), mns_opts u)"
      by (rule parsed_first) (rule master_init_opts)
    then have "mc_concurrency (ops_conf (mns_opts u)) \<noteq> 0" using master_options_valid by blast
    then have "fst (on_program (program_body (master_program E binds before after (ops_conf (mns_opts u)))) u) \<noteq> Inr ()"
      unfolding on_program_fst by (intro body_never_returns) (simp add: master_program_def)
    then show "fst (bnd (gets (\<lambda>w. ops_conf (mns_opts w)))
        (\<lambda>conf. main_rest (on_program (program_body (master_program E binds before after conf)))) u) \<noteq> Inr 0"
      by (simp add: bnd_run gets_run main_rest_zero)
  qed
qed

lemma storage_body_never_returns:
  assumes "pge_concurrency P \<noteq> 0"
  shows "fst (storage_program_body S P p) \<noteq> Inr ()"
proof
  assume "fst (storage_program_body S P p) = Inr ()"
  then obtain q where q: "program_create P p = (Inr (), q)"
    and sc: "fst (scoped (bnd (storage_run S P) (\<lambda>running. if running then program_catch_stop P else ret ())) (program_destroy P) q) = Inr ()"
    by (auto simp: storage_program_body_def bnd_run split: prod.splits sum.splits)
  have "b \<and> prg_threads r \<noteq> []" if r: "storage_run S P q = (Inr b, r)" for b r
  proof -
    obtain q' where "program_run P q' = (Inr b, r)" "srv_open (prg_server q') = srv_open (prg_server q)"
      using r by (auto simp: storage_run_def bnd_run on_program_world_def split: prod.splits sum.splits)
    with run_starts [OF _ assms, of q' b r] create_opens [OF q] show ?thesis by simp
  qed
  from life_never_returns [of "storage_run S P" q P, OF this] sc show False by blast
qed

lemma storage_exits_zero:
  assumes "storage_main L S sock fails binds before after argv w = (Inr 0, w')"
  shows "storage_parse_options L argv (mns_opts w) = (Inl (Throw (Int_thrown 0)), mns_opts w') \<and> mns_program w' = mns_program w"
proof (rule thrown_by_parser [OF _ no_int_lift])
  show "check_system sock fails \<noteq> Inl (Throw (Int_thrown i))" for i by (rule check_system_no_int)
  show "bnd (on_opts (storage_parse_options L argv)) (\<lambda>_. lift_res (check_system sock fails)) w = (Inl (Throw (Int_thrown 0)), w')"
  proof (rule main_zero [OF _ assms [unfolded storage_main_def]])
    fix u
    assume "bnd (on_opts (storage_parse_options L argv)) (\<lambda>_. lift_res (check_system sock fails)) w = (Inr (), u)"
    then have "storage_parse_options L argv (mns_opts w) = (Inr (), mns_opts u)"
      by (rule parsed_first) (simp add: lift_res_run)
    then have "sc_concurrency (ops_conf (mns_opts u)) \<noteq> 0" by (rule storage_concurrency_set)
    then have "fst (on_program (storage_program_body (S\<lparr>sto_conf := ops_conf (mns_opts u)\<rparr>)
        (storage_program (S\<lparr>sto_conf := ops_conf (mns_opts u)\<rparr>) binds before after)) u) \<noteq> Inr ()"
      unfolding on_program_fst by (intro storage_body_never_returns) (simp add: storage_program_def)
    then show "fst (bnd (gets (\<lambda>w. ops_conf (mns_opts w))) (\<lambda>conf. let S = S\<lparr>sto_conf := conf\<rparr> in
        main_rest (on_program (storage_program_body S (storage_program S binds before after)))) u) \<noteq> Inr 0"
      by (simp add: bnd_run gets_run Let_def main_rest_zero)
  qed
qed

lemma main_throws:
  assumes "parse (mns_opts w) = (Inl (Throw (Int_thrown i)), o')"
  shows "program_main (bnd (on_opts parse) (\<lambda>_. later)) rest w = (Inr i, w\<lparr>mns_opts := o'\<rparr>)"
  using assms by (simp add: program_main_def main_init_def on_opts_def bnd_run catching_run ret_run)

lemma master_zero_iff:
  "master_main L E sock fails binds before after argv v = (Inr 0, v') \<longleftrightarrow>
   (\<exists>t. asked_text L master_desc ''Master'' argv = Some t
      \<and> v' = v\<lparr>mns_opts := (mns_opts v)\<lparr>ops_out := ops_out (mns_opts v) @ [t]\<rparr>\<rparr>)" (is "?zero \<longleftrightarrow> ?asked")
proof
  assume ?zero
  from master_exits_zero [OF this] show ?asked
    unfolding master_parser.throws_zero_iff [simplified] by (cases v; cases v') auto
next
  assume ?asked
  then obtain t where t: "asked_text L master_desc ''Master'' argv = Some t"
    "v' = v\<lparr>mns_opts := (mns_opts v)\<lparr>ops_out := ops_out (mns_opts v) @ [t]\<rparr>\<rparr>" by blast
  then have "master_parse_options L argv (mns_opts v) =
      (Inl (Throw (Int_thrown 0)), (mns_opts v)\<lparr>ops_out := ops_out (mns_opts v) @ [t]\<rparr>)"
    unfolding master_parser.throws_zero_iff [simplified] by simp
  from main_throws [of "master_parse_options L argv", OF this] show ?zero unfolding master_main_def t(2) .
qed

lemma storage_zero_iff:
  "storage_main L S sock fails binds before after argv w = (Inr 0, w') \<longleftrightarrow>
   (\<exists>t. asked_text L storage_desc ''Storage'' argv = Some t
      \<and> w' = w\<lparr>mns_opts := (mns_opts w)\<lparr>ops_out := ops_out (mns_opts w) @ [t]\<rparr>\<rparr>)" (is "?zero \<longleftrightarrow> ?asked")
proof
  assume ?zero
  from storage_exits_zero [OF this] show ?asked
    unfolding storage_parser.throws_zero_iff [simplified] by (cases w; cases w') auto
next
  assume ?asked
  then obtain t where t: "asked_text L storage_desc ''Storage'' argv = Some t"
    "w' = w\<lparr>mns_opts := (mns_opts w)\<lparr>ops_out := ops_out (mns_opts w) @ [t]\<rparr>\<rparr>" by blast
  then have "storage_parse_options L argv (mns_opts w) =
      (Inl (Throw (Int_thrown 0)), (mns_opts w)\<lparr>ops_out := ops_out (mns_opts w) @ [t]\<rparr>)"
    unfolding storage_parser.throws_zero_iff [simplified] by simp
  from main_throws [of "storage_parse_options L argv", OF this] show ?zero unfolding storage_main_def t(2) .
qed

lemma server_codes:
  "fst (master_main L E sock fails binds before after argv v) = Inr x \<Longrightarrow> x = 0 \<or> x = 1"
  "fst (storage_main L S sock fails binds before after argv w) = Inr x \<Longrightarrow> x = 0 \<or> x = 1"
proof -
  assume m: "fst (master_main L E sock fails binds before after argv v) = Inr x"
  show "x = 0 \<or> x = 1"
  proof (rule main_code [OF _ _ m [unfolded master_main_def]])
    show "i = 0 \<or> i = 1"
      if "bnd (on_opts (master_parse_options L argv)) (\<lambda>_. master_init E sock fails) v = (Inl (Throw (Int_thrown i)), v')" for i v'
      using thrown_by_parser [OF that no_int_master_init] master_parser.exit_code by fastforce
    show "y = 0 \<or> y = 1" if "fst (bnd (gets (\<lambda>w. ops_conf (mns_opts w)))
        (\<lambda>conf. main_rest (on_program (program_body (master_program E binds before after conf)))) u) = Inr y" for u y
      using that by (auto simp: bnd_run gets_run dest: main_rest_code)
  qed
next
  assume m: "fst (storage_main L S sock fails binds before after argv w) = Inr x"
  show "x = 0 \<or> x = 1"
  proof (rule main_code [OF _ _ m [unfolded storage_main_def]])
    show "i = 0 \<or> i = 1"
      if "bnd (on_opts (storage_parse_options L argv)) (\<lambda>_. lift_res (check_system sock fails)) w = (Inl (Throw (Int_thrown i)), w')" for i w'
      using thrown_by_parser [OF that no_int_lift [OF check_system_no_int]] storage_parser.exit_code by fastforce
    show "y = 0 \<or> y = 1" if "fst (bnd (gets (\<lambda>w. ops_conf (mns_opts w))) (\<lambda>conf. let S = S\<lparr>sto_conf := conf\<rparr> in
        main_rest (on_program (storage_program_body S (storage_program S binds before after)))) u) = Inr y" for u y
      using that by (auto simp: bnd_run gets_run Let_def dest: main_rest_code)
  qed
qed

text \<open>
  C33: A server never ends with the exit code 0 once it has begun. The master exits with 0 exactly
  when its arguments can be parsed and give \<^verbatim>\<open>--help\<close> or \<^verbatim>\<open>--version\<close>; it then has printed the
  answer and done nothing else, and its server was never made. The same holds of the
  storage. In every other case the main function of either returns 1, or it does not return: it is
  ended by an exception nobody catches or by an abort, or it never ends.
\<close>

theorem exit_zero_is_no_run:
  "(master_main L E sock fails binds before after argv v = (Inr 0, v') \<longleftrightarrow>
      (\<exists>t. asked_text L master_desc ''Master'' argv = Some t
         \<and> v' = v\<lparr>mns_opts := (mns_opts v)\<lparr>ops_out := ops_out (mns_opts v) @ [t]\<rparr>\<rparr>))
   \<and> (storage_main L S sock fails binds before after argv w = (Inr 0, w') \<longleftrightarrow>
      (\<exists>t. asked_text L storage_desc ''Storage'' argv = Some t
         \<and> w' = w\<lparr>mns_opts := (mns_opts w)\<lparr>ops_out := ops_out (mns_opts w) @ [t]\<rparr>\<rparr>))
   \<and> fst (master_main L E sock fails binds before after argv v) \<in> {Inr 0, Inr 1} \<union> range Inl
   \<and> fst (storage_main L S sock fails binds before after argv w) \<in> {Inr 0, Inr 1} \<union> range Inl"
proof (intro conjI)
  show "fst (master_main L E sock fails binds before after argv v) \<in> {Inr 0, Inr 1} \<union> range Inl"
    using server_codes(1) by (cases "fst (master_main L E sock fails binds before after argv v)") blast+
  show "fst (storage_main L S sock fails binds before after argv w) \<in> {Inr 0, Inr 1} \<union> range Inl"
    using server_codes(2) by (cases "fst (storage_main L S sock fails binds before after argv w)") blast+
qed (rule master_zero_iff storage_zero_iff)+

definition example_master_conf :: master_Conf where
  "example_master_conf = \<lparr>mc_config_path = ''m.conf'', mc_hostname = ''localhost'', mc_port = 3727, mc_concurrency = 4,
     mc_timeout = 300, mc_db = \<lparr>db_hostname = ''db'', db_password = [], db_bucket = ''b''\<rparr>\<rparr>"

definition fresh_main :: "'c \<Rightarrow> 'w \<Rightarrow> ('c, 'w) main_state" where
  "fresh_main conf w = \<lparr>mns_opts = \<lparr>ops_conf = conf, ops_out = [], ops_err = [], ops_dirs = []\<rparr>,
     mns_program = \<lparr>prg_server = closed_server w, prg_threads = []\<rparr>\<rparr>"

text \<open>Both answer \<^verbatim>\<open>--help\<close>; the master that is given nothing fails on the missing configuration.\<close>

lemma exit_zero_is_no_run_witness:
  "(\<exists>v'. master_main (sample_options [] []) sample_env (Some ()) (\<lambda>_. False) (\<lambda>_. True) [] [] [''help'', []]
         (fresh_main example_master_conf (fresh_state None)) = (Inr 0, v')
     \<and> mns_program v' = mns_program (fresh_main example_master_conf (fresh_state None)))
   \<and> (\<exists>w'. storage_main (sample_options [] []) sample_storage_env (Some ()) (\<lambda>_. False) (\<lambda>_. True) [] [] [''help'', []]
         (fresh_main example_storage_conf empty_storage) = (Inr 0, w')
     \<and> mns_program w' = mns_program (fresh_main example_storage_conf empty_storage))
   \<and> (\<nexists>v'. master_main (sample_options [] []) sample_env (Some ()) (\<lambda>_. False) (\<lambda>_. True) [] [] []
         (fresh_main example_master_conf (fresh_state None)) = (Inr 0, v'))"
proof -
  let ?L = "sample_options [] []" and ?argv = "[''help'', []]" and ?vm = "[''help'' \<mapsto> V_flag]"
  have "parse_cli ?L master_desc ?argv = Inr ?vm" "parse_cli ?L storage_desc ?argv = Inr ?vm"
    by (simp_all add: parse_cli_def sample_options_def master_desc_def storage_desc_def long_name_def store_option_def
        validate_def fun_eq_iff)
  then have asked: "asked_text ?L master_desc ''Master'' ?argv = Some (opl_usage ?L master_desc)"
    "asked_text ?L storage_desc ''Storage'' ?argv = Some (opl_usage ?L storage_desc)"
    by (simp_all add: asked_text_def vm_count_def)
  have "parse_cli ?L master_desc [] = Inr Map.empty"
    by (simp add: parse_cli_def sample_options_def master_desc_def long_name_def store_option_def fun_eq_iff)
  then have none: "asked_text ?L master_desc ''Master'' [] = None" by (simp add: asked_text_def vm_count_def)
  note use = exit_zero_is_no_run [of ?L sample_env "Some ()" "\<lambda>_. False" "\<lambda>_. True" "[]" "[]" _ _ _ sample_storage_env]
  show ?thesis
    using use [of ?argv] use [of "[]"] by (auto simp: asked none)
qed

end
