(* ===== verification/Deployment.thy ===== *)
theory Deployment
  imports Transfers
begin

text \<open>
  The programs together: a client and the master on the two ends of one connection, and the
  acknowledgements of the storages between an upload and a download. The bytes that one side
  writes are the bytes the other side reads.
\<close>

section \<open>One connection of the master\<close>

text \<open>The master serves a connection on which its peer sends one request.\<close>

definition master_serves :: "('db, 'e) master_env_scheme \<Rightarrow> session \<Rightarrow> 'db master_state \<Rightarrow> unit res \<times> session \<times> 'db master_state" where
  "master_serves E s w = blocking_receive (master_dispatcher E) (s, w)"

declare delivered_simps [simp]

lemma up_req_packet_facts [simp]:
  "payload (up_req_packet fsize rdcy fname) = enc_up_req \<lparr>up_req_fsize = fsize, up_req_rdcy = rdcy\<rparr> @ fname"
  "fromto_get (up_req_packet fsize rdcy fname) = c_m_fromto" "what_get (up_req_packet fsize rdcy fname) = up_req_w"
  by (simp_all add: up_req_packet_def packet_simps c_m_fromto_def up_req_w_def)

lemma up_req_sendable: "length fname < 2 ^ 31 \<Longrightarrow> sendable (up_req_packet fsize rdcy fname)"
  by (simp add: sendable_def up_req_packet_def packet_simps length_enc_up_req)

lemma serves_up_req:
  assumes "length fname < 2 ^ 31" "ses_inbox s = packet_bytes (up_req_packet fsize rdcy fname)"
    and "cm_up_req E (delivered (up_req_packet fsize rdcy fname)) (s\<lparr>ses_inbox := []\<rparr>, w) = (Inr KA_No, c)"
  shows "master_serves E s w = (Inr (), c)"
proof -
  let ?p = "up_req_packet fsize rdcy fname"
  have "unat (word_of_nat (9 + length fname) :: 32 word) = 9 + length fname"
    using assms(1) by (intro unat_word_of_nat_32) simp
  then have "size_get (delivered ?p) \<noteq> 0" by (auto simp: length_enc_up_req simp flip: unat_eq_0)
  then have "master_dispatcher E (delivered ?p) (s\<lparr>ses_inbox := []\<rparr>, w) = (Inr KA_No, c)"
    using assms(3) by (simp add: master_dispatcher_is_table master_table_def Let_def)
  from blocking_receive_once [of ?p s "[]" "master_dispatcher E" w "Inr KA_No" c, OF up_req_sendable [OF assms(1)] _ this]
  show ?thesis using assms(2) by (simp add: master_serves_def)
qed

section \<open>An upload through the master\<close>

definition client_ok :: "'ctx client_env \<Rightarrow> bool" where
  "client_ok E \<longleftrightarrow> sha1_ok (cli_files E) \<and> net_ok (cli_net E) \<and> (\<forall>n. mset (cli_order E n) = mset [0..<n])"

lemma deals_length: "deals N sts nb flds \<Longrightarrow> length flds \<le> unat nb"
proof -
  have le: "list_all (\<lambda>f. 0 < unat (stp_nb f)) flds \<Longrightarrow> length flds \<le> nbs flds"
    by (induction flds) auto
  assume d: "deals N sts nb flds"
  then have "list_all (\<lambda>f. 0 < unat (stp_nb f)) flds" by (auto simp: deals_def list_all_iff)
  with le d show ?thesis by (simp add: deals_def nbs_def)
qed

text \<open>A file below 16 MiB is cut into at most four parts.\<close>

lemma first_size_small:
  assumes "unat fsize < 2 ^ 24"
  shows "unat (first_size size_values fsize) \<le> 4"
    "0 < unat fsize \<Longrightarrow> cut_ok (unat fsize) (unat (first_size size_values fsize))"
  using assms by (simp_all add: size_values_def size_table_def word_le_nat_alt cut_ok_def)

text \<open>What the master refuses, the client throws.\<close>

lemma ack_answer_facts:
  "fromto_get (ack_answer ft code) = ft" "what_get (ack_answer ft code) = 0"
  "payload (ack_answer ft code) = enc_word (error_code_value code)" "sendable (ack_answer ft code)"
  by (simp_all add: ack_answer_def packet_simps ack_w_def sendable_def codec_simps)

lemma process_error_run:
  "process_error (delivered (ack_answer ft code)) whom (s, w) =
     (Inl (Throw (Logic_error (''Error received from '' @ whom @ '' : '' @ decimal (unat (error_code_value code))))), (s, w))"
proof -
  have "view 1 (\<lambda>d. dec_word (slice 0 1 d) :: 8 word) (enc_word (error_code_value code)) = Inr (error_code_value code)"
    by (simp add: view_def codec_simps)
  then show ?thesis
    by (simp add: process_error_def bnd_run lift_res_run raise_run ack_answer_facts)
qed

lemma request_upload_refused:
  assumes "rdcy \<noteq> 0" "master_session_create E = Inr m" "ses_inbox m = packet_bytes (ack_answer ft code) @ rest"
  shows "fst (request_upload E f rdcy w) =
    Inl (Throw (Logic_error (''Error received from master : '' @ decimal (unat (error_code_value code)))))"
proof -
  let ?p = "up_req_packet (word_of_nat (file_size f)) rdcy (filename_get (cli_files E) f)"
  have inbox: "ses_inbox (answered ?p m) = packet_bytes (ack_answer ft code) @ rest"
    using assms(3) by (simp add: answered_def)
  have "upload_answer E f (delivered (ack_answer ft code)) ((answered ?p m)\<lparr>ses_inbox := rest\<rparr>, w) =
      (Inl (Throw (Logic_error (''Error received from master : '' @ decimal (unat (error_code_value code))))),
       ((answered ?p m)\<lparr>ses_inbox := rest\<rparr>, w))"
    using process_error_run [of ft code "''master''"] by (simp add: upload_answer_def ack_answer_facts)
  from blocking_receive_once [where callback = "upload_answer E f", OF ack_answer_facts(4) inbox this]
  show ?thesis
    using assms(1,2) by (simp add: request_upload_def with_session_run bnd_run blocking_send_answered)
qed

text \<open>What the master does with the request of a client, and what it leaves on the connection.\<close>

definition granted :: "('db, 'e) master_env_scheme \<Rightarrow> StorageItem list \<Rightarrow> nat \<Rightarrow> STPFIELD list \<Rightarrow> bool" where
  "granted E sts len flds \<longleftrightarrow> deals (env_net E) sts (first_size size_values (word_of_nat len)) flds"

lemma master_grants:
  assumes "env_ok E" "mst_database w = Some db"
    and "represents (env_boost E) (store_of E db) cat" "cat_ok cat"
    and "store_of E db ''storage_sizes'' = Some sizes_json" "turn_ok w"
    and "st \<in> set (dealt_over w cat)"
      "roomy (env_net E) (word_of_nat len) (first_size size_values (word_of_nat len)) st"
    and "len < 2 ^ 24" "plain fname" "length (cat_files cat) + 1 < 2 ^ 64" "length fname < 2 ^ 31"
    and "ses_open s" "ses_outbox s = []" "ses_inbox s = packet_bytes (up_req_packet (word_of_nat len) rdcy fname)"
  shows "\<exists>flds s' w' db'. master_serves E s w = (Inr (), (s', w')) \<and> mst_database w' = Some db' \<and> granted E (dealt_over w cat) len flds
    \<and> (if length flds < unat rdcy
       then ses_outbox s' = packet_bytes (ack_answer m_c_fromto redundancy) \<and> db' = db
       else ses_outbox s' = packet_bytes (up_answer (word_of_nat (length (cat_files cat))) flds)
         \<and> represents (env_boost E) (store_of E db')
             (cat_add_file (new_file fname \<lparr>up_req_fsize = word_of_nat len, up_req_rdcy = rdcy\<rparr>) cat)
         \<and> cat_ok (cat_add_file (new_file fname \<lparr>up_req_fsize = word_of_nat len, up_req_rdcy = rdcy\<rparr>) cat))"
proof -
  let ?p = "up_req_packet (word_of_nat len) rdcy fname" and ?req = "\<lparr>up_req_fsize = word_of_nat len, up_req_rdcy = rdcy\<rparr>"
  have fsize: "roomy (env_net E) (up_req_fsize ?req) (first_size size_values (up_req_fsize ?req)) st"
    "unat (up_req_fsize ?req) < 2 ^ 24"
    using assms(8,9) by (simp_all add: unat_word_of_nat_64)
  have pkt: "front_data (delivered ?p) = Inr (enc_up_req ?req @ fname)" "fromto_get (delivered ?p) = c_m_fromto"
    "size_get (delivered ?p) = word_of_nat (9 + length fname)"
    by (simp_all add: length_enc_up_req)
  obtain flds s' w' db' where run: "cm_up_req E (delivered ?p) (s\<lparr>ses_inbox := []\<rparr>, w) = (Inr KA_No, (s', w'))"
    "mst_database w' = Some db'" "granted E (dealt_over w cat) len flds"
    "if length flds < unat rdcy
     then s' = answered (ack_answer m_c_fromto redundancy) (s\<lparr>ses_inbox := []\<rparr>) \<and> db' = db
     else s' = answered (up_answer (word_of_nat (length (cat_files cat))) flds) (s\<lparr>ses_inbox := []\<rparr>)
       \<and> represents (env_boost E) (store_of E db') (cat_add_file (new_file fname ?req) cat)
       \<and> cat_ok (cat_add_file (new_file fname ?req) cat)"
    using up_req_run [OF assms(1-7) fsize assms(10-12) pkt, of "s\<lparr>ses_inbox := []\<rparr>"] unfolding granted_def by auto
  have "ses_outbox (answered q (s\<lparr>ses_inbox := []\<rparr>)) = packet_bytes q" for q
    using assms(13,14) by (simp add: answered_def)
  then show ?thesis
    using serves_up_req [OF assms(12,15) run(1)] run(2-4)
    by (intro exI [of _ flds] exI [of _ s'] exI [of _ w'] exI [of _ db']) (auto split: if_splits)
qed

text \<open>The fields the master hands out are ones the client can work with.\<close>

lemma granted_fits:
  assumes "granted M sts len flds" "0 < len" "len < 2 ^ 24" "client_ok E"
  shows "env_fits E flds" "cut_ok len (nbs flds)"
    "mset (concat (map (range_of flds) (cli_order E (length flds)))) = mset [0..<nbs flds]"
proof -
  have len: "unat (word_of_nat len :: fsize_type) = len"
    using assms(3) by (intro unat_word_of_nat_64) simp
  have nbs: "nbs flds = unat (first_size size_values (word_of_nat len))" and wf: "list_all wf_STPFIELD flds"
    using assms(1) by (auto simp: granted_def deals_def nbs_def list_all_iff)
  have "length flds \<le> 4"
    using deals_length assms(1) first_size_small(1) [of "word_of_nat len"] assms(3) len
    unfolding granted_def by fastforce
  then show "env_fits E flds" using assms(4) wf by (simp add: env_fits_def client_ok_def)
  show "cut_ok len (nbs flds)"
    using first_size_small(2) [of "word_of_nat len"] assms(2,3) len nbs by simp
  show "mset (concat (map (range_of flds) (cli_order E (length flds)))) = mset [0..<nbs flds]"
    using mset_concat_map [of "cli_order E (length flds)" "[0..<length flds]" "range_of flds"] ranges_partition assms(4)
    by (simp add: client_ok_def)
qed


text \<open>A client, the master and its one storage; the file has ten bytes.\<close>

definition ten_file :: File where
  "ten_file = \<lparr>filepath_get = ''f'', file_size = 10\<rparr>"

definition ten_disk :: client_state where
  "ten_disk = sample_disk\<lparr>cst_fs := [''f'' \<mapsto> ''abcdefghij'']\<rparr>"

lemma granted_one_storage:
  assumes "granted sample_env (cat_storages one_storage) 10 flds"
  shows "flds = [sample_field 1]"
proof -
  have nb: "unat (first_size size_values (word_of_nat 10)) = 1" using sample_first_size by simp
  have "length flds \<le> 1"
    using deals_length assms unfolding granted_def nb [symmetric] by blast
  moreover have "flds \<noteq> []" using assms unfolding granted_def deals_def nb by auto
  ultimately obtain x where x: "flds = [x]" by (cases flds) auto
  then have "unat (stp_nb x) = 1" "addr_get (env_net sample_env) sample_storage = Inr (stp_addr x)"
    using assms unfolding granted_def deals_def nb by (auto simp: one_storage_def)
  moreover from this(1) have "stp_nb x = 1" using word_of_unat [of "stp_nb x" 1] by simp
  ultimately show ?thesis
    using x by (simp add: sample_field_def addr_get_def get_addr_def get_ipv6_def sample_storage_def sample_env_def sample_net_def)
qed

lemma sample_client_ok: "client_ok (sample_client a b)"
  using sample_client_fits [of a b 0] by (simp add: client_ok_def env_fits_def) (simp add: sample_client_def)

lemma sample_accepts: "accepts (sample_client a (acks ft 1)) [sample_field 1]"
  using sample_client_connects(2) [of a "acks ft 1"] by (auto simp: accepts_def sample_field_def)


section \<open>The acknowledgements of the storages\<close>

text \<open>The storages report their parts one after the other, each on a connection of its own.\<close>

definition ack_of :: "stid_type \<times> PARTID \<Rightarrow> part_ack" where
  "ack_of a = \<lparr>part_ack_stid = fst a, part_ack_partid = snd a, part_ack_avspace = 10\<rparr>"

fun ack_parts :: "('db, 'e) master_env_scheme \<Rightarrow> (stid_type \<times> PARTID) list \<Rightarrow> 'db master_state \<Rightarrow> 'db master_state" where
  "ack_parts E [] w = w"
| "ack_parts E ((stid, partid) # reports) w =
     ack_parts E reports (snd (snd (master_serves E (session_create 0 [] (packet_bytes (part_ack_packet stid partid))) w)))"

lemma part_ack_packet_facts:
  "payload (part_ack_packet stid partid) = enc_part_ack (ack_of (stid, partid))"
  "fromto_get (part_ack_packet stid partid) = s_m_fromto" "what_get (part_ack_packet stid partid) = sm_part_ack_w"
  "sendable (part_ack_packet stid partid)" "length (enc_part_ack (ack_of (stid, partid))) \<noteq> 0"
  "length (enc_part_ack (ack_of (stid, partid))) < 2 ^ 32"
  by (simp_all add: part_ack_packet_def packet_simps ack_of_def sendable_def enc_part_ack_def enc_PARTID_def codec_simps)

lemma serves_part_ack:
  assumes "env_ok E" "mst_database w = Some db"
    and "represents (env_boost E) (store_of E db) cat" "cat_ok cat" "unat (partid_fid partid) < length (cat_files cat)"
  shows "\<exists>db'. mst_database (snd (snd (master_serves E (session_create k r (packet_bytes (part_ack_packet stid partid))) w))) = Some db'
    \<and> represents (env_boost E) (store_of E db') (cat_add_part (ack_of (stid, partid)) cat)
    \<and> cat_ok (cat_add_part (ack_of (stid, partid)) cat)"
proof -
  let ?p = "part_ack_packet stid partid" and ?s = "(session_create k r (packet_bytes (part_ack_packet stid partid)))\<lparr>ses_inbox := []\<rparr>"
  let ?req = "ack_of (stid, partid)"
  have 1: "unat (partid_fid (part_ack_partid ?req)) < length (cat_files cat)" using assms(5) by (simp add: ack_of_def)
  have 2: "front_data (delivered ?p) = Inr (enc_part_ack ?req @ [])" "fromto_get (delivered ?p) = s_m_fromto"
    by (simp_all add: part_ack_packet_facts)
  obtain q s' w' db' where run: "sm_part_ack E (delivered ?p) (?s, w) = (q, (s', w'))" "mst_database w' = Some db'"
    "represents (env_boost E) (store_of E db') (cat_add_part ?req cat)" "cat_ok (cat_add_part ?req cat)"
    "q \<noteq> Inr KA_Yes"
    using part_ack_run [OF assms(1-4) 1 2, of ?s] by blast
  have "unat (word_of_nat (length (enc_part_ack ?req)) :: 32 word) \<noteq> 0"
    using part_ack_packet_facts(5,6) by (simp add: unat_word_of_nat_32)
  then have "size_get (delivered ?p) \<noteq> 0" by (auto simp: part_ack_packet_facts simp flip: unat_eq_0)
  then have "master_dispatcher E (delivered ?p) (?s, w) = (q, (s', w'))"
    using run(1) by (simp add: master_dispatcher_is_table master_table_def Let_def part_ack_packet_facts fromto_defs what_defs)
  from blocking_receive_once [where callback = "master_dispatcher E", OF part_ack_packet_facts(4) _ this run(5)]
  have "snd (snd (master_serves E (session_create k r (packet_bytes ?p)) w)) = w'"
    by (simp add: master_serves_def session_create_def)
  with run(2-4) show ?thesis by auto
qed

definition cat_ack_parts :: "(stid_type \<times> PARTID) list \<Rightarrow> catalogue \<Rightarrow> catalogue" where
  "cat_ack_parts reports cat = foldl (\<lambda>cat a. cat_add_part (ack_of a) cat) cat reports"

lemma cat_ack_parts_simps [simp]:
  "cat_ack_parts [] cat = cat"
  "cat_ack_parts (a # reports) cat = cat_ack_parts reports (cat_add_part (ack_of a) cat)"
  by (simp_all add: cat_ack_parts_def)

lemma ack_parts_run:
  assumes "env_ok E" "mst_database w = Some db"
    and "represents (env_boost E) (store_of E db) cat" "cat_ok cat"
    and "list_all (\<lambda>a. unat (partid_fid (snd a)) < length (cat_files cat)) reports"
  shows "\<exists>db'. mst_database (ack_parts E reports w) = Some db'
    \<and> represents (env_boost E) (store_of E db') (cat_ack_parts reports cat) \<and> cat_ok (cat_ack_parts reports cat)"
  using assms(2-5)
proof (induction reports arbitrary: w db cat)
  case Nil
  then show ?case by auto
next
  case (Cons a reports)
  obtain stid partid where a: "a = (stid, partid)" by (cases a)
  have "unat (partid_fid (part_ack_partid (ack_of (stid, partid)))) < length (cat_files cat)"
    using Cons.prems(4) by (simp add: a ack_of_def)
  note maps = cat_add_part_maps [OF this]
  obtain db' where db': "mst_database (snd (snd (master_serves E (session_create 0 [] (packet_bytes (part_ack_packet stid partid))) w))) = Some db'"
    "represents (env_boost E) (store_of E db') (cat_add_part (ack_of (stid, partid)) cat)"
    "cat_ok (cat_add_part (ack_of (stid, partid)) cat)"
    using serves_part_ack [OF assms(1) Cons.prems(1-3), of partid 0 "[]" stid] Cons.prems(4) by (auto simp: a)
  then show ?case using Cons.IH [OF db'] Cons.prems(4) maps(4) by (simp add: a)
qed

text \<open>What the reports leave of the file: one item for each, in their order.\<close>

lemma cat_ack_parts_file:
  assumes "i < length (cat_files cat)"
    and "list_all (\<lambda>a. unat (partid_fid (snd a)) = i) reports" "distinct (map (partid_partnum \<circ> snd) reports)"
    and "\<forall>p \<in> set (fi_parts (cat_files cat ! i)). num_get p \<notin> set (map (partid_partnum \<circ> snd) reports)"
  shows "cat_storages (cat_ack_parts reports cat) = cat_storages cat
    \<and> length (cat_files (cat_ack_parts reports cat)) = length (cat_files cat)
    \<and> cat_files (cat_ack_parts reports cat) ! i =
      (cat_files cat ! i)\<lparr>fi_parts := fi_parts (cat_files cat ! i) @ map (\<lambda>a. ack_part (ack_of a)) reports\<rparr>"
  using assms
proof (induction reports arbitrary: cat)
  case (Cons a reports)
  let ?f = "cat_files cat ! i" and ?cat = "cat_add_part (ack_of a) cat"
  have i: "unat (partid_fid (part_ack_partid (ack_of a))) = i" using Cons.prems(2) by (simp add: ack_of_def)
  then have less: "unat (partid_fid (part_ack_partid (ack_of a))) < length (cat_files cat)" using Cons.prems(1) by simp
  note maps = cat_add_part_maps [OF less]
  have "map (\<lambda>p. if num_get p = partid_partnum (snd a) then add_stid s p else p) (fi_parts ?f) = fi_parts ?f" for s
    using Cons.prems(4) by (intro map_idI) auto
  then have f: "cat_files ?cat ! i = ?f\<lparr>fi_parts := fi_parts ?f @ [ack_part (ack_of a)]\<rparr>"
    using Cons.prems(1) by (simp add: cat_add_part_def i Let_def add_part_def) (simp add: ack_of_def)
  have num: "num_get (ack_part (ack_of a)) = partid_partnum (snd a)"
    by (simp add: num_get_def ack_part_def ack_of_def)
  have prems: "i < length (cat_files ?cat)" "list_all (\<lambda>a. unat (partid_fid (snd a)) = i) reports"
    "distinct (map (partid_partnum \<circ> snd) reports)"
    "\<forall>p \<in> set (fi_parts (cat_files ?cat ! i)). num_get p \<notin> set (map (partid_partnum \<circ> snd) reports)"
    using Cons.prems maps(4) by (auto simp: f num comp_def)
  from Cons.IH [OF prems] show ?case using maps(4,5) by (simp add: f)
qed simp

section \<open>A download through the master\<close>

definition down_req_packet :: "string \<Rightarrow> Packet" where
  "down_req_packet fname = add_message fname (packet_empty c_m_fromto down_req_w)"

lemma down_req_packet_facts:
  "payload (down_req_packet fname) = fname" "fromto_get (down_req_packet fname) = c_m_fromto"
  "what_get (down_req_packet fname) = down_req_w" "length fname < 2 ^ 31 \<Longrightarrow> sendable (down_req_packet fname)"
  by (simp_all add: down_req_packet_def packet_simps sendable_def)

text \<open>The master on a connection with one download request.\<close>

lemma serves_down_req:
  assumes "env_ok E" "mst_database w = Some db"
    and "represents (env_boost E) (store_of E db) cat" "cat_ok cat"
    and "ses_open s" "ses_outbox s = []" "ses_inbox s = packet_bytes (down_req_packet fname)"
    and "fname \<noteq> []" "length fname < 2 ^ 31"
  shows "if fname \<in> set (map fi_name (cat_files cat))
    then \<exists>f \<in> set (cat_files cat). fi_name f = fname \<and>
      (\<forall>addrs. list_all2 (located (env_net E) (cat_storages cat)) (fi_parts f) addrs \<longrightarrow>
         ses_outbox (fst (snd (master_serves E s w))) = packet_bytes (down_answer (fi_file_size f) (fi_id f)
              (map2 (\<lambda>p a. \<lparr>stp_addr = a, stp_nb = num_get p\<rparr>) (fi_parts f) addrs)))
    else ses_outbox (fst (snd (master_serves E s w))) = packet_bytes (ack_answer m_c_fromto file_not_found)"
proof -
  let ?p = "down_req_packet fname" and ?s = "s\<lparr>ses_inbox := []\<rparr>"
  have sz: "unat (size_get (delivered ?p)) = length fname"
    using assms(9) by (simp add: down_req_packet_facts) (intro unat_word_of_nat_32; simp)
  then have "size_get (delivered ?p) \<noteq> 0" using assms(8) by auto
  then have disp: "master_dispatcher E (delivered ?p) = cm_down_req E (delivered ?p)"
    by (intro ext) (simp add: master_dispatcher_is_table master_table_def Let_def down_req_packet_facts fromto_defs what_defs)
  have out: "ses_outbox (fst (snd (master_serves E s w))) = packet_bytes q"
    if "cm_down_req E (delivered ?p) (?s, w) = (Inr KA_No, (answered q ?s, w'))" for q w'
    using blocking_receive_once [where callback = "master_dispatcher E",
        OF down_req_packet_facts(4) [OF assms(9)] _ that [folded disp]] assms(5-7)
    by (simp add: master_serves_def answered_def)
  have pkt: "front_data (delivered ?p) = Inr (fname @ [])" "fromto_get (delivered ?p) = c_m_fromto"
    by (simp_all add: down_req_packet_facts)
  from down_req_run [OF assms(1-4) pkt sz, of ?s] show ?thesis
    by (auto split: if_splits intro!: out dest: spec)
qed

lemma request_download_refused:
  assumes "master_session_create E = Inr m" "ses_inbox m = packet_bytes (ack_answer ft code) @ rest"
  shows "\<exists>w'. request_download E fname w =
      (Inl (Throw (Logic_error (''Error received from master : '' @ decimal (unat (error_code_value code))))), w')
    \<and> cst_fs w' = cst_fs w"
proof -
  let ?p = "add_message fname (packet_empty c_m_fromto down_req_w)"
  have inbox: "ses_inbox (answered ?p m) = packet_bytes (ack_answer ft code) @ rest"
    using assms(2) by (simp add: answered_def)
  have "download_answer E fname (delivered (ack_answer ft code)) ((answered ?p m)\<lparr>ses_inbox := rest\<rparr>, w) =
      (Inl (Throw (Logic_error (''Error received from master : '' @ decimal (unat (error_code_value code))))),
       ((answered ?p m)\<lparr>ses_inbox := rest\<rparr>, w))"
    using process_error_run [of ft code "''master''"] by (simp add: download_answer_def ack_answer_facts)
  from blocking_receive_once [where callback = "download_answer E fname", OF ack_answer_facts(4) inbox this]
  show ?thesis
    using assms(1) by (simp add: request_download_def with_session_run bnd_run blocking_send_answered)
qed

text \<open>The parts that were reported, as the master lists them to a client.\<close>

definition reports_of :: "fid_type \<Rightarrow> (stid_type \<times> partnum_type) list \<Rightarrow> (stid_type \<times> PARTID) list" where
  "reports_of fid places = map (\<lambda>(stid, j). (stid, \<lparr>partid_fid = fid, partid_partnum = j\<rparr>)) places"

definition fields_of :: "(stid_type \<Rightarrow> ADDR) \<Rightarrow> (stid_type \<times> partnum_type) list \<Rightarrow> STPFIELD list" where
  "fields_of addr places = map (\<lambda>(stid, j). \<lparr>stp_addr = addr stid, stp_nb = j\<rparr>) places"

definition places_ok :: "net_lib \<Rightarrow> StorageItem list \<Rightarrow> (stid_type \<Rightarrow> ADDR) \<Rightarrow> (stid_type \<times> partnum_type) list \<Rightarrow> bool" where
  "places_ok N sts addr places \<longleftrightarrow> distinct (map snd places)
     \<and> list_all (\<lambda>a. unat (fst a) < length sts \<and> addr_get N (sts ! unat (fst a)) = Inr (addr (fst a)) \<and> addr_port (addr (fst a)) \<noteq> 0) places"

lemma reported_parts_located:
  assumes "places_ok N sts addr places"
  shows "list_all2 (located N sts) (map (\<lambda>a. ack_part (ack_of a)) (reports_of fid places)) (map (addr \<circ> fst) places)"
    "map2 (\<lambda>p a. \<lparr>stp_addr = a, stp_nb = num_get p\<rparr>) (map (\<lambda>a. ack_part (ack_of a)) (reports_of fid places)) (map (addr \<circ> fst) places)
      = fields_of addr places"
proof -
  show "list_all2 (located N sts) (map (\<lambda>a. ack_part (ack_of a)) (reports_of fid places)) (map (addr \<circ> fst) places)"
    using assms by (auto simp: places_ok_def reports_of_def list_all2_map1 list_all2_map2 list.rel_refl_strong
        located_def ack_part_def ack_of_def list_all_iff case_prod_beta intro!: list.rel_refl_strong)
  show "map2 (\<lambda>p a. \<lparr>stp_addr = a, stp_nb = num_get p\<rparr>) (map (\<lambda>a. ack_part (ack_of a)) (reports_of fid places)) (map (addr \<circ> fst) places)
      = fields_of addr places"
    by (induction places) (auto simp: reports_of_def fields_of_def num_get_def ack_part_def ack_of_def)
qed

text \<open>What the master answers once the parts of a file have been reported.\<close>

lemma reported_file_answer:
  assumes "env_ok M" "mst_database w = Some db"
    and "represents (env_boost M) (store_of M db) cat" "cat_ok cat"
    and "i < length (cat_files cat)" "f = cat_files cat ! i" "fi_parts f = []"
    and "places_ok (env_net M) (cat_storages cat) addr places"
    and "ses_open s" "ses_outbox s = []" "ses_inbox s = packet_bytes (down_req_packet (fi_name f))"
    and "fi_name f \<noteq> []" "length (fi_name f) < 2 ^ 31"
  shows "ses_outbox (fst (snd (master_serves M s (ack_parts M (reports_of (fi_id f) places) w)))) =
    packet_bytes (down_answer (fi_file_size f) (fi_id f) (fields_of addr places))"
proof -
  let ?reports = "reports_of (fi_id f) places" and ?N = "env_net M"
  let ?cat = "cat_ack_parts ?reports cat"
  have id: "unat (fi_id f) = i"
  proof -
    have "map fi_id (cat_files cat) ! i = word_of_nat i" "i < 2 ^ 64" using assms(4,5) by (auto simp: cat_ok_def)
    then show ?thesis using assms(5,6) by (simp add: unat_word_of_nat_64)
  qed
  have fid: "list_all (\<lambda>a. unat (partid_fid (snd a)) = i) ?reports"
    by (auto simp: reports_of_def list_all_iff id)
  have nums: "distinct (map (partid_partnum \<circ> snd) ?reports)"
    using assms(8) by (simp add: places_ok_def reports_of_def comp_def case_prod_beta)
  have fresh: "\<forall>p \<in> set (fi_parts (cat_files cat ! i)). num_get p \<notin> set (map (partid_partnum \<circ> snd) ?reports)"
    using assms(6,7) by simp
  from cat_ack_parts_file [OF assms(5) fid nums fresh] have upd: "cat_storages ?cat = cat_storages cat"
    "length (cat_files ?cat) = length (cat_files cat)"
    "cat_files ?cat ! i = f\<lparr>fi_parts := map (\<lambda>a. ack_part (ack_of a)) ?reports\<rparr>"
    using assms(6,7) by simp_all
  have "list_all (\<lambda>a. unat (partid_fid (snd a)) < length (cat_files cat)) ?reports"
    using fid assms(5) by (auto simp: list_all_iff)
  then obtain db' where db': "mst_database (ack_parts M ?reports w) = Some db'"
    "represents (env_boost M) (store_of M db') ?cat" "cat_ok ?cat"
    using ack_parts_run [OF assms(1-4)] by blast
  have mem: "cat_files ?cat ! i \<in> set (cat_files ?cat)" using upd(2) assms(5) by simp
  have name: "fi_name (cat_files ?cat ! i) = fi_name f" using upd(3) by simp
  then have "fi_name f \<in> set (map fi_name (cat_files ?cat))" using imageI [OF mem, of fi_name] by simp
  then obtain g where g: "g \<in> set (cat_files ?cat)" "fi_name g = fi_name f"
    "\<And>addrs. list_all2 (located ?N (cat_storages ?cat)) (fi_parts g) addrs \<Longrightarrow>
       ses_outbox (fst (snd (master_serves M s (ack_parts M ?reports w)))) =
       packet_bytes (down_answer (fi_file_size g) (fi_id g) (map2 (\<lambda>p a. \<lparr>stp_addr = a, stp_nb = num_get p\<rparr>) (fi_parts g) addrs))"
    using serves_down_req [OF assms(1) db' assms(9-13)] by auto
  obtain j where "j < length (cat_files ?cat)" "g = cat_files ?cat ! j" using g(1) by (auto simp: in_set_conv_nth)
  then have "g = cat_files ?cat ! i"
    using file_at_distinct [OF db'(3), of j i] g(2) name upd(2) assms(5) by simp
  then have "g = f\<lparr>fi_parts := map (\<lambda>a. ack_part (ack_of a)) ?reports\<rparr>" using upd(3) by simp
  then show ?thesis
    using g(3) [of "map (addr \<circ> fst) places"] reported_parts_located [OF assms(8), of "fi_id f"] upd(1) by simp
qed

text \<open>
  C5: A download through the master of a file below 16 MiB whose parts have been reported, no more
  parts than the square root of its size. When each part was
  reported once, by any storages that are up and in any order, the master sends the client
  to those storages; if they hold the parts as an upload cuts them, and the client has the
  disk space and takes at least a millisecond, by which it divides, it ends with the file, complete when the number of parts divides its size, and with zeros for the bytes at
  the end that no part covers otherwise.
\<close>

theorem reported_file_downloads:
  assumes "env_ok M" "mst_database w = Some db"
    and "represents (env_boost M) (store_of M db) cat" "cat_ok cat"
    and "i < length (cat_files cat)" "f = cat_files cat ! i" "fi_parts f = []" "fi_file_size f = word_of_nat (length T)"
    and "places_ok (env_net M) (cat_storages cat) addr places" "flds = fields_of addr places"
    and "ses_open s" "ses_outbox s = []" "ses_inbox s = packet_bytes (down_req_packet (fi_name f))"
    and "fi_name f \<noteq> []" "length (fi_name f) < 2 ^ 31"
    and "down_fits L E flds (length T)" "cut_ok (length T) (length flds)" "length flds * length flds \<le> length T"
    and "holds_parts L E (fi_id f) flds T" "master_session_create E = Inr m"
    and "ses_inbox m = ses_outbox (fst (snd (master_serves M s (ack_parts M (reports_of (fi_id f) places) w))))"
  shows "\<exists>v'. request_download E (fi_name f) v = (Inr (), v')
    \<and> cst_fs v' = (cst_fs v)(fi_name f @ ''-dl'' \<mapsto>
        take (length T - lost_bytes (length T) (length flds)) T @ replicate (lost_bytes (length T) (length flds)) (CHR 0x00))"
proof -
  have "ses_inbox m = packet_bytes (down_answer (word_of_nat (length T)) (fi_id f) flds) @ []"
    using reported_file_answer [OF assms(1-7,9,11-15)] assms(8,10,21) by simp
  from download_run [OF assms(16-20) this] show ?thesis .
qed

lemma one_file_uploaded:
  "cat_add_file (new_file ''a'' \<lparr>up_req_fsize = 10, up_req_rdcy = 1\<rparr>) one_storage = one_file 1 []"
proof -
  have "decimal 0 = ''0''" by code_simp
  moreover have "fresh_number one_storage ''a'' = 0"
    by (subst fresh_number_def) (simp add: one_storage_def first_free.simps)
  ultimately show ?thesis
    by (simp add: cat_add_file_def file_entry_def new_file_def one_file_def ten_bytes_def numbered_name_def)
      (simp add: one_storage_def)
qed

lemma reported_file_downloads_witness:
  "\<exists>v'. request_download (sample_client (ses_outbox (fst (snd (master_serves sample_env
        (session_create 1 [] (packet_bytes (down_req_packet ''a.__0'')))
        (ack_parts sample_env (reports_of 0 [(0, 0)]) (fresh_state (Some (file_db 1 []))))))))
        (packet_bytes (part_packet sample_lib \<lparr>partid_fid = 0, partid_partnum = 0\<rparr> ''abcdefghij'')))
      ''a.__0'' sample_disk = (Inr (), v')
    \<and> cst_fs v' ''a.__0-dl'' = Some ''abcdefghij''"
proof -
  let ?T = "''abcdefghij''" and ?f = "ten_bytes 1 []" and ?cat = "one_file 1 []" and ?places = "[(0 :: stid_type, 0 :: partnum_type)]"
  let ?addr = "\<lambda>_ :: stid_type. stp_addr (sample_field 0)"
  let ?s = "session_create 1 [] (packet_bytes (down_req_packet ''a.__0''))"
  let ?w = "fresh_state (Some (file_db 1 []))"
  let ?m = "ses_outbox (fst (snd (master_serves sample_env ?s (ack_parts sample_env (reports_of 0 ?places) ?w))))"
  let ?from = "packet_bytes (part_packet sample_lib \<lparr>partid_fid = 0, partid_partnum = 0\<rparr> ?T)"
  let ?E = "sample_client ?m ?from"
  have ok: "list_all PartItem_ok []" by simp
  have 1: "0 < length (cat_files ?cat)" "?f = cat_files ?cat ! 0" "fi_parts ?f = []" "fi_file_size ?f = word_of_nat (length ?T)"
    by (simp_all add: one_file_def ten_bytes_def)
  have 2: "places_ok (env_net sample_env) (cat_storages ?cat) ?addr ?places"
    by (simp add: places_ok_def one_file_def one_storage_def sample_storage_def sample_env_def sample_net_def addr_get_def
        get_addr_def get_ipv6_def sample_field_def)
  have flds: "[sample_field 0] = fields_of ?addr ?places" by (simp add: fields_of_def sample_field_def)
  have 3: "ses_open ?s" "ses_outbox ?s = []" "ses_inbox ?s = packet_bytes (down_req_packet (fi_name ?f))"
    "fi_name ?f \<noteq> []" "length (fi_name ?f) < 2 ^ 31"
    by (simp_all add: session_create_def ten_bytes_def)
  have 4: "down_fits sample_lib ?E [sample_field 0] (length ?T)"
    using sample_client_fits [of ?m ?from 0] sample_lib_ok
    by (simp add: env_fits_def down_fits_def) (simp add: sample_client_def)
  have 5: "cut_ok (length ?T) (length [sample_field 0])" "length [sample_field 0] * length [sample_field 0] \<le> length ?T"
    by (simp_all add: cut_ok_def)
  have part: "part_bytes ?T 1 0 = ?T" by (simp add: part_bytes_def part_len_def slice_def)
  have 6: "holds_parts sample_lib ?E (fi_id ?f) [sample_field 0] ?T"
    using sample_client_connects(2) [of ?m ?from 0 0] part
    by (auto simp: holds_parts_def sample_field_def field_partid_def ten_bytes_def intro!: exI [of _ "[]"])
  have 7: "ses_inbox (session_create 0 ''master'' ?m) =
      ses_outbox (fst (snd (master_serves sample_env ?s (ack_parts sample_env (reports_of (fi_id ?f) ?places) ?w))))"
    by (simp add: session_create_def ten_bytes_def)
  have "lost_bytes (length ?T) (length [sample_field 0]) = 0" by (simp add: lost_bytes_def)
  with reported_file_downloads [OF sample_env_ok file_state(1-3) [OF ok] 1 2 flds 3 4 5 6 sample_client_connects(1) 7, of sample_disk]
  show ?thesis by (auto simp: ten_bytes_def)
qed

section \<open>Asking for a file by its own name\<close>

text \<open>Names that hold the mark the master puts between the name of a file and its number.\<close>

fun has_mark :: "string \<Rightarrow> bool" where
  "has_mark [] = False"
| "has_mark (c # cs) = (take 3 (c # cs) = ''.__'' \<or> has_mark cs)"

definition marked :: "catalogue \<Rightarrow> bool" where
  "marked cat \<longleftrightarrow> list_all (\<lambda>f. has_mark (fi_name f)) (cat_files cat)"

lemma has_mark_numbered: "has_mark (numbered_name name i)"
proof -
  have "has_mark (name @ ''.__'' @ rest)" for rest by (induction name) simp_all
  then show ?thesis by (simp add: numbered_name_def)
qed

lemma marked_add_file: "marked cat \<Longrightarrow> marked (cat_add_file fi cat)"
  by (simp add: marked_def cat_add_file_def file_entry_def has_mark_numbered)

lemma code_3: "''Error received from master : '' @ decimal (unat (3 :: 8 word)) = ''Error received from master : 3''"
  by (simp add: decimal.simps digit_char_def char_of_eq_iff)

text \<open>
  C6: A client cannot download a file under the name it uploaded it by, unless the name has the mark
  \<^verbatim>\<open>.__\<close> of the master's numbers in it already. The master files it
  under that name with a number, which it does not tell the client, and looks a download up
  under the bare name: right after the upload the request ends with \<^verbatim>\<open>file_not_found\<close>, and no
  file is made.
\<close>

theorem uploaded_name_not_found:
  assumes "env_ok M" "mst_database w = Some db"
    and "represents (env_boost M) (store_of M db) (cat_add_file (new_file fname req) cat)"
      "cat_ok (cat_add_file (new_file fname req) cat)" "marked cat"
    and "\<not> has_mark fname" "fname \<noteq> []" "length fname < 2 ^ 31"
    and "ses_open s" "ses_outbox s = []" "ses_inbox s = packet_bytes (down_req_packet fname)"
    and "master_session_create E = Inr m" "ses_inbox m = ses_outbox (fst (snd (master_serves M s w)))"
  shows "\<exists>v'. request_download E fname v = (Inl (Throw (Logic_error ''Error received from master : 3'')), v')
    \<and> cst_fs v' = cst_fs v"
proof -
  have "marked (cat_add_file (new_file fname req) cat)" by (rule marked_add_file [OF assms(5)])
  then have "fname \<notin> set (map fi_name (cat_files (cat_add_file (new_file fname req) cat)))"
    using assms(6) by (auto simp: marked_def list_all_iff)
  then have "ses_inbox m = packet_bytes (ack_answer m_c_fromto file_not_found) @ []"
    using serves_down_req [OF assms(1-4,9-11,7,8)] assms(13) by simp
  from request_download_refused [OF assms(12) this] show ?thesis by (simp only: error_code_value.simps code_3)
qed

lemma uploaded_name_not_found_witness:
  "\<exists>v'. request_download (sample_client (ses_outbox (fst (snd (master_serves sample_env
        (session_create 1 [] (packet_bytes (down_req_packet ''a''))) (fresh_state (Some (file_db 1 []))))))) []) ''a'' sample_disk
    = (Inl (Throw (Logic_error ''Error received from master : 3'')), v')"
proof -
  let ?s = "session_create 1 [] (packet_bytes (down_req_packet ''a''))" and ?w = "fresh_state (Some (file_db 1 []))"
  let ?m = "ses_outbox (fst (snd (master_serves sample_env ?s ?w)))"
  have ok: "list_all PartItem_ok []" by simp
  have 1: "marked one_storage" "\<not> has_mark ''a''" "''a'' \<noteq> []" "length ''a'' < 2 ^ 31"
    by (simp_all add: marked_def one_storage_def)
  have 2: "ses_open ?s" "ses_outbox ?s = []" "ses_inbox ?s = packet_bytes (down_req_packet ''a'')"
    "ses_inbox (session_create 0 ''master'' ?m) = ?m"
    by (simp_all add: session_create_def)
  from uploaded_name_not_found [OF sample_env_ok file_state(1) [OF ok, of 1]
      file_state(2,3) [OF ok, of 1, folded one_file_uploaded] 1 2(1-3) sample_client_connects(1) 2(4)]
  show ?thesis by blast
qed

end
