(* ===== verification/Client_Program.thy ===== *)
theory Client_Program
  imports Programs Deployment
begin

text \<open>
  The client as a program: its main function (\<^verbatim>\<open>client/main.cc\<close>) parses the options, checks the
  system, does the one transfer it was asked for and turns what happened into an exit code.
\<close>

section \<open>The main function\<close>

record client_main_state =
  cms_opts :: "client_Conf opt_state"
  cms_client :: client_state

definition on_client_opts :: "(client_Conf opt_state, 'a) act \<Rightarrow> (client_main_state, 'a) act" where
  "on_client_opts m = (\<lambda>w. case m (cms_opts w) of (r, o') \<Rightarrow> (r, w\<lparr>cms_opts := o'\<rparr>))"

definition on_client :: "(client_state, 'a) act \<Rightarrow> (client_main_state, 'a) act" where
  "on_client m = (\<lambda>w. case m (cms_client w) of (r, c) \<Rightarrow> (r, w\<lparr>cms_client := c\<rparr>))"

definition client_init :: "opt_lib \<Rightarrow> 'sock option \<Rightarrow> ('sock \<Rightarrow> bool) \<Rightarrow> string list \<Rightarrow> (client_main_state, unit) act" where
  "client_init L sock getsockopt_fails argv =
     bnd (on_client_opts (client_parse_options L argv)) (\<lambda>_. lift_res (check_system sock getsockopt_fails))"

definition client_program :: "opt_lib \<Rightarrow> 'ctx client_env \<Rightarrow> 'sock option \<Rightarrow> ('sock \<Rightarrow> bool) \<Rightarrow> string list \<Rightarrow> (client_main_state, int) act" where
  "client_program L E sock getsockopt_fails argv =
     program_main (client_init L sock getsockopt_fails argv)
       (bnd (gets (\<lambda>w. ops_conf (cms_opts w))) (\<lambda>conf.
          on_client (client_main (E\<lparr>cli_conf := conf\<rparr>))))"

section \<open>Its exit codes\<close>

text \<open>The transfer a configuration asks for has been done.\<close>

definition transferred :: "'ctx client_env \<Rightarrow> client_state \<Rightarrow> client_state \<Rightarrow> bool" where
  "transferred E w w' \<longleftrightarrow>
     (case cc_action (cli_conf E) of
        Act_upload \<Rightarrow> \<exists>f. File_open (cli_files E) (cst_fs w) (cc_file_path (cli_conf E)) = Inr f
          \<and> request_upload E f (cc_redundancy (cli_conf E) - 48) w = (Inr (), w')
      | Act_download \<Rightarrow> request_download E (cc_file_path (cli_conf E)) w = (Inr (), w')
      | Act_none \<Rightarrow> w' = w)"

lemma client_main_zero: "client_main E w = (Inr 0, w') \<longleftrightarrow> transferred E w w'"
  unfolding client_main_def transferred_def
  by (cases "cc_action (cli_conf E)")
    (auto simp: catching_run bnd_run gets_run lift_res_run ret_run split: prod.splits sum.splits fault.splits if_splits)

lemma client_init_Inr:
  "client_init L sock fails argv w = (Inr (), w') \<longleftrightarrow>
     (\<exists>o'. client_parse_options L argv (cms_opts w) = (Inr (), o') \<and> w' = w\<lparr>cms_opts := o'\<rparr>)
     \<and> check_system sock fails = Inr ()"
  by (auto simp: client_init_def bnd_run on_client_opts_def lift_res_run split: prod.splits sum.splits)

lemma program_main_zero:
  "program_main init rest w = (Inr 0, w') \<longleftrightarrow>
     init w = (Inl (Throw (Int_thrown 0)), w') \<or> (\<exists>v. init w = (Inr (), v) \<and> rest v = (Inr 0, w'))"
  by (cases "init w")
    (auto simp: program_main_def main_init_def catching_run bnd_run ret_run split: sum.splits fault.splits exn.splits)

lemma client_init_thrown:
  "client_init L sock fails argv w = (Inl (Throw (Int_thrown i)), w') \<longleftrightarrow>
     (\<exists>o'. client_parse_options L argv (cms_opts w) = (Inl (Throw (Int_thrown i)), o') \<and> w' = w\<lparr>cms_opts := o'\<rparr>)"
  using check_system_no_int [of sock fails i]
  by (auto simp: client_init_def bnd_run on_client_opts_def lift_res_run split: prod.splits sum.splits)

lemma upload_needs_copies: "request_upload E f rdcy w = (Inr (), w') \<Longrightarrow> rdcy \<noteq> 0"
  by (auto simp: request_upload_def raise_run split: if_splits)

text \<open>
  A client exits with 0 in two cases only: it answered \<^verbatim>\<open>--help\<close> or \<^verbatim>\<open>--version\<close> and did
  nothing else, or its options were good and the one transfer they ask for returned: the
  download, or the upload of a file that could be opened, with a redundancy that was not
  typed as zero. Every other run ends with another code, is aborted, or does not end.
\<close>

lemma client_exit_zero:
  "client_program L E sock fails argv w = (Inr 0, w') \<longleftrightarrow>
     (client_parse_options L argv (cms_opts w) = (Inl (Throw (Int_thrown 0)), cms_opts w') \<and> cms_client w' = cms_client w)
   \<or> (client_parse_options L argv (cms_opts w) = (Inr (), cms_opts w') \<and> check_system sock fails = Inr ()
      \<and> (let conf = ops_conf (cms_opts w'); E = E\<lparr>cli_conf := conf\<rparr>; fs = cst_fs (cms_client w) in
           (cc_action conf = Act_download
              \<and> request_download E (cc_file_path conf) (cms_client w) = (Inr (), cms_client w'))
         \<or> (cc_action conf = Act_upload \<and> cc_redundancy conf \<noteq> 48
              \<and> (\<exists>f. File_open (cli_files E) fs (cc_file_path conf) = Inr f
                   \<and> request_upload E f (cc_redundancy conf - 48) (cms_client w) = (Inr (), cms_client w')))))"
    (is "?exit \<longleftrightarrow> ?help \<or> ?done")
proof -
  let ?T = "\<lambda>v. transferred (E\<lparr>cli_conf := ops_conf (cms_opts v)\<rparr>) (cms_client w)"
  have run: "on_client (client_main (E\<lparr>cli_conf := ops_conf o'\<rparr>)) (w\<lparr>cms_opts := o'\<rparr>) = (Inr 0, w') \<longleftrightarrow>
      o' = cms_opts w' \<and> ?T w' (cms_client w')" for o'
    by (cases w; cases w') (auto simp: on_client_def client_main_zero [symmetric] split: prod.splits)
  have asked: "(\<exists>o'. client_parse_options L argv (cms_opts w) = (Inl (Throw (Int_thrown 0)), o') \<and> w' = w\<lparr>cms_opts := o'\<rparr>) \<longleftrightarrow> ?help"
    by (cases w; cases w') auto
  have "?exit \<longleftrightarrow> ?help \<or> (client_parse_options L argv (cms_opts w) = (Inr (), cms_opts w')
      \<and> check_system sock fails = Inr () \<and> ?T w' (cms_client w'))"
    unfolding client_program_def program_main_zero client_init_thrown asked client_init_Inr
    using run by (auto simp: bnd_run gets_run)
  moreover have "?T w' (cms_client w') \<longleftrightarrow>
      (let conf = ops_conf (cms_opts w'); E = E\<lparr>cli_conf := conf\<rparr>; fs = cst_fs (cms_client w) in
           (cc_action conf = Act_download
              \<and> request_download E (cc_file_path conf) (cms_client w) = (Inr (), cms_client w'))
         \<or> (cc_action conf = Act_upload \<and> cc_redundancy conf \<noteq> 48
              \<and> (\<exists>f. File_open (cli_files E) fs (cc_file_path conf) = Inr f
                   \<and> request_upload E f (cc_redundancy conf - 48) (cms_client w) = (Inr (), cms_client w'))))"
    if "client_parse_options L argv (cms_opts w) = (Inr (), cms_opts w')"
  proof -
    have "cc_action (ops_conf (cms_opts w')) \<noteq> Act_none"
      using that unfolding client_returns client_settles_def Let_def
      by (auto simp: client_conf_of_def dest: chosen_acts)
    then show ?thesis
      by (cases "cc_action (ops_conf (cms_opts w'))") (auto simp: transferred_def Let_def dest: upload_needs_copies)
  qed
  ultimately show ?thesis by blast
qed

end
