(* ===== verification/Loggers.thy ===== *)
theory Loggers
  imports Utils
begin

text \<open>
  \<^verbatim>\<open>src/logger-tests\<close>: the program that compares three ways to print lines from many threads. The
  naive printer writes under a mutex (\<^verbatim>\<open>naive.cc\<close>), the classic one hands its lines to a thread
  through a queue with a mutex (\<^verbatim>\<open>classic.cc\<close>), the third one through a lock-free queue
  (\<^verbatim>\<open>lockfree.cc\<close>, the active object of \<open>Utils\<close>). The colours of \<^verbatim>\<open>color.cc\<close> are those of \<open>Utils\<close>.
\<close>

section \<open>The naive printer\<close>

text \<open>
  \<^verbatim>\<open>naive_printer\<close> takes the time (with \<^verbatim>\<open>localtime\<close>, whose buffer the threads share without a lock;
  that race is not shown), locks the mutex, writes four pieces and unlocks it. Where a
  thread is in it: \<open>Idle\<close> between two calls, \<open>Stamped\<close> before the lock, \<open>Writing k\<close> before the
  \<open>k\<close>-th piece, past the last of which it unlocks.
\<close>

datatype naive_pc = Idle | Stamped | Writing nat

record naive_state =
  nv_todo :: "nat \<Rightarrow> string list"
  nv_pc :: "nat \<Rightarrow> naive_pc"
  nv_buf :: "nat \<Rightarrow> string"
  nv_mutex :: "nat option"
  nv_out :: string

definition naive_pieces :: "string \<Rightarrow> string \<Rightarrow> string list" where
  "naive_pieces buf msg = [colour_code Green, ''<'' @ buf @ ''> '', colour_code White, msg @ [CHR 0x0A]]"

text \<open>A step of thread \<open>t\<close>; \<open>now\<close> is what the clock shows.\<close>

inductive naive_step :: "nat \<Rightarrow> naive_state \<Rightarrow> naive_state \<Rightarrow> bool" for t :: nat where
  stamps: "nv_pc s t = Idle \<Longrightarrow> nv_todo s t \<noteq> [] \<Longrightarrow>
    naive_step t s (s\<lparr>nv_pc := (nv_pc s)(t := Stamped), nv_buf := (nv_buf s)(t := now)\<rparr>)"
| locks: "nv_pc s t = Stamped \<Longrightarrow> nv_mutex s = None \<Longrightarrow>
    naive_step t s (s\<lparr>nv_pc := (nv_pc s)(t := Writing 0), nv_mutex := Some t\<rparr>)"
| writes: "nv_pc s t = Writing k \<Longrightarrow> k < 4 \<Longrightarrow>
    naive_step t s (s\<lparr>nv_pc := (nv_pc s)(t := Writing (Suc k)),
      nv_out := nv_out s @ naive_pieces (nv_buf s t) (hd (nv_todo s t)) ! k\<rparr>)"
| unlocks: "nv_pc s t = Writing 4 \<Longrightarrow>
    naive_step t s (s\<lparr>nv_pc := (nv_pc s)(t := Idle), nv_todo := (nv_todo s)(t := tl (nv_todo s t)), nv_mutex := None\<rparr>)"

inductive_cases naive_stepE: "naive_step t s s'"

text \<open>\<^verbatim>\<open>naive_caller\<close>: thread \<open>i\<close> prints its line a number of times.\<close>

definition naive_text :: "nat \<Rightarrow> string" where
  "naive_text i = ''This is a naive printer message from thread '' @ decimal i @ ''!''"

definition naive_start :: "(nat \<Rightarrow> string list) \<Rightarrow> naive_state" where
  "naive_start msgs = \<lparr>nv_todo = msgs, nv_pc = (\<lambda>_. Idle), nv_buf = (\<lambda>_. []), nv_mutex = None, nv_out = []\<rparr>"

inductive naive_reach :: "(nat \<Rightarrow> string list) \<Rightarrow> naive_state \<Rightarrow> bool" for msgs where
  start: "naive_reach msgs (naive_start msgs)"
| step: "naive_reach msgs s \<Longrightarrow> naive_step t s s' \<Longrightarrow> naive_reach msgs s'"

text \<open>
  The invariant: the output is whole lines, \<open>ls\<close>, followed by what the thread that holds the
  mutex has written of its line; each thread's lines are the first of its messages.
\<close>

definition naive_line :: "nat \<times> string \<times> string \<Rightarrow> string" where
  "naive_line l = (case l of (t, buf, msg) \<Rightarrow> concat (naive_pieces buf msg))"

definition written :: "nat \<Rightarrow> (nat \<times> string \<times> string) list \<Rightarrow> string list" where
  "written t ls = map (snd \<circ> snd) (filter (\<lambda>l. fst l = t) ls)"

definition naive_partial :: "naive_state \<Rightarrow> string" where
  "naive_partial s =
     (case nv_mutex s of
        None \<Rightarrow> []
      | Some t \<Rightarrow> (case nv_pc s t of
          Writing k \<Rightarrow> concat (take k (naive_pieces (nv_buf s t) (hd (nv_todo s t))))
        | _ \<Rightarrow> []))"

definition naive_inv :: "(nat \<Rightarrow> string list) \<Rightarrow> (nat \<times> string \<times> string) list \<Rightarrow> naive_state \<Rightarrow> bool" where
  "naive_inv msgs ls s \<longleftrightarrow>
     nv_out s = concat (map naive_line ls) @ naive_partial s
     \<and> (\<forall>t. written t ls @ nv_todo s t = msgs t)
     \<and> (\<forall>t. (\<exists>k. nv_pc s t = Writing k) \<longleftrightarrow> nv_mutex s = Some t)
     \<and> (\<forall>t k. nv_pc s t = Writing k \<longrightarrow> k \<le> 4)
     \<and> (\<forall>t. nv_pc s t \<noteq> Idle \<longrightarrow> nv_todo s t \<noteq> [])"

lemma naive_invD:
  assumes "naive_inv msgs ls s"
  shows "nv_out s = concat (map naive_line ls) @ naive_partial s" "written t ls @ nv_todo s t = msgs t"
    "nv_mutex s = Some t \<longleftrightarrow> (\<exists>k. nv_pc s t = Writing k)" "nv_pc s t = Writing k \<Longrightarrow> k \<le> 4"
    "nv_pc s t \<noteq> Idle \<Longrightarrow> nv_todo s t \<noteq> []"
  using assms unfolding naive_inv_def by auto

lemma naive_partial_at:
  "nv_mutex s = Some t \<Longrightarrow> nv_pc s t = Writing k \<Longrightarrow>
   naive_partial s = concat (take k (naive_pieces (nv_buf s t) (hd (nv_todo s t))))"
  by (simp add: naive_partial_def)

lemma naive_inv_write:
  assumes "naive_inv msgs ls s" "nv_pc s t = Writing k" "k < 4"
  shows "naive_inv msgs ls (s\<lparr>nv_pc := (nv_pc s)(t := Writing (Suc k)),
      nv_out := nv_out s @ naive_pieces (nv_buf s t) (hd (nv_todo s t)) ! k\<rparr>)"
proof -
  have m: "nv_mutex s = Some t" using naive_invD(3) [OF assms(1)] assms(2) by blast
  have "length (naive_pieces b x) = 4" for b x by (simp add: naive_pieces_def)
  then have "concat (take (Suc k) (naive_pieces b x)) = concat (take k (naive_pieces b x)) @ naive_pieces b x ! k" for b x
    using assms(3) by (simp add: take_Suc_conv_app_nth)
  then show ?thesis
    using assms m naive_partial_at [OF m assms(2)] unfolding naive_inv_def
    by (auto simp: naive_partial_def split: if_splits)
qed

lemma naive_inv_unlock:
  assumes "naive_inv msgs ls s" "nv_pc s t = Writing 4"
  shows "naive_inv msgs (ls @ [(t, nv_buf s t, hd (nv_todo s t))])
    (s\<lparr>nv_pc := (nv_pc s)(t := Idle), nv_todo := (nv_todo s)(t := tl (nv_todo s t)), nv_mutex := None\<rparr>)"
proof -
  have m: "nv_mutex s = Some t" using naive_invD(3) [OF assms(1)] assms(2) by blast
  have "take 4 (naive_pieces b x) = naive_pieces b x" for b x by (simp add: naive_pieces_def)
  then have "naive_partial s = naive_line (t, nv_buf s t, hd (nv_todo s t))"
    using naive_partial_at [OF m assms(2)] by (simp add: naive_line_def)
  moreover have "nv_todo s t \<noteq> []" using naive_invD(5) [OF assms(1)] assms(2) by simp
  then have "hd (nv_todo s t) # tl (nv_todo s t) = nv_todo s t" by simp
  moreover have "nv_pc s u = Writing k \<Longrightarrow> u = t" for u k
    using naive_invD(3) [OF assms(1), of u] m by auto
  ultimately show ?thesis
    using assms(1) unfolding naive_inv_def
    by (auto simp: naive_partial_def written_def)
qed

lemma naive_inv_step:
  assumes "naive_inv msgs ls s" "naive_step t s s'"
  shows "\<exists>ls'. naive_inv msgs ls' s'"
  using assms(2)
proof cases
  case (stamps now)
  have "naive_partial s' = naive_partial s"
  proof (cases "nv_mutex s")
    case (Some u)
    then have "u \<noteq> t" using stamps(2) naive_invD(3) [OF assms(1), of u] by auto
    with Some show ?thesis by (simp add: stamps(1) naive_partial_def split: naive_pc.split)
  qed (simp add: stamps(1) naive_partial_def)
  moreover have "nv_mutex s \<noteq> Some t" using stamps(2) naive_invD(3) [OF assms(1), of t] by auto
  ultimately have "naive_inv msgs ls s'"
    using assms(1) stamps unfolding naive_inv_def by (auto simp: stamps(1))
  then show ?thesis ..
next
  case locks
  then have "naive_inv msgs ls s'"
    using assms(1) unfolding naive_inv_def by (auto simp: naive_partial_def)
  then show ?thesis ..
next
  case (writes k)
  then show ?thesis using naive_inv_write [OF assms(1)] by blast
next
  case unlocks
  then show ?thesis using naive_inv_unlock [OF assms(1)] by blast
qed

lemma naive_reach_inv: "naive_reach msgs s \<Longrightarrow> \<exists>ls. naive_inv msgs ls s"
proof (induction rule: naive_reach.induct)
  case start
  have "naive_inv msgs [] (naive_start msgs)"
    by (simp add: naive_inv_def naive_start_def naive_partial_def written_def)
  then show ?case ..
next
  case (step s t s')
  then show ?case using naive_inv_step by blast
qed

text \<open>Some thread can always go on while there is something to print.\<close>

lemma naive_never_stuck:
  assumes "naive_inv msgs ls s" "nv_todo s t \<noteq> []"
  shows "\<exists>t s'. naive_step t s s'"
proof (cases "nv_mutex s")
  case (Some u)
  then obtain k where k: "nv_pc s u = Writing k" "k \<le> 4" using naive_invD(3,4) [OF assms(1)] by blast
  then show ?thesis
    by (cases "k = 4") (use naive_step.writes [OF k(1)] naive_step.unlocks [of s u] in auto)
next
  case None
  then show ?thesis
    using naive_step.stamps [of s t] naive_step.locks [of s t] naive_invD(3) [OF assms(1), of t] assms(2)
    by (cases "nv_pc s t") auto
qed

text \<open>
  C37: The lines of the naive printer are never mixed. Whatever the order of the threads' steps,
  when no thread holds the mutex the output is a sequence of whole lines in which each thread
  has its messages in order, without loss or repetition; and as long as a thread has
  something left to print, some thread can take a step.
\<close>

theorem naive_lines_are_whole:
  assumes "naive_reach msgs s"
  shows "(nv_mutex s = None \<longrightarrow>
      (\<exists>ls. nv_out s = concat (map naive_line ls) \<and> (\<forall>t. written t ls @ nv_todo s t = msgs t)))
    \<and> ((\<exists>t s'. naive_step t s s') \<or> (\<forall>t. nv_todo s t = []))"
proof -
  obtain ls where ls: "naive_inv msgs ls s" using naive_reach_inv [OF assms] ..
  then have "nv_mutex s = None \<Longrightarrow> nv_out s = concat (map naive_line ls)"
    by (simp add: naive_inv_def naive_partial_def)
  moreover have "\<forall>t. written t ls @ nv_todo s t = msgs t" using ls by (simp add: naive_inv_def)
  ultimately show ?thesis using naive_never_stuck [OF ls] by blast
qed

text \<open>A thread that runs alone prints its line.\<close>

lemma naive_write_reach:
  assumes "naive_reach msgs s" "nv_pc s t = Writing k" "k < 4"
  shows "naive_reach msgs (s\<lparr>nv_pc := (nv_pc s)(t := Writing (Suc k)),
      nv_out := nv_out s @ naive_pieces (nv_buf s t) (hd (nv_todo s t)) ! k\<rparr>)"
  using naive_reach.step [OF assms(1) naive_step.writes [OF assms(2,3)]] .

lemma naive_alone:
  assumes "naive_reach msgs s" "nv_pc s t = Idle" "nv_mutex s = None" "nv_todo s t = m # ms"
  shows "naive_reach msgs (s\<lparr>nv_todo := (nv_todo s)(t := ms), nv_buf := (nv_buf s)(t := now),
      nv_out := nv_out s @ naive_line (t, now, m)\<rparr>)"
proof -
  let ?s = "\<lambda>k out. \<lparr>nv_todo = nv_todo s, nv_pc = (nv_pc s)(t := Writing k), nv_buf = (nv_buf s)(t := now), nv_mutex = Some t, nv_out = out\<rparr>"
  let ?p = "naive_pieces now m"
  have "naive_reach msgs (s\<lparr>nv_pc := (nv_pc s)(t := Stamped), nv_buf := (nv_buf s)(t := now)\<rparr>)"
    using naive_reach.step [OF assms(1) naive_step.stamps [OF assms(2)]] assms(4) by simp
  from naive_reach.step [OF this naive_step.locks [of _ t]]
  have 0: "naive_reach msgs (?s 0 (nv_out s))" using assms(3) by (cases s) simp
  have next_piece: "naive_reach msgs (?s k out) \<Longrightarrow> k < 4 \<Longrightarrow> naive_reach msgs (?s (Suc k) (out @ ?p ! k))" for k out
    using naive_write_reach [of msgs "?s k out" t k] assms(4) by simp
  have "naive_reach msgs (?s 4 ((((nv_out s @ ?p ! 0) @ ?p ! 1) @ ?p ! 2) @ ?p ! 3))"
    using next_piece [OF next_piece [OF next_piece [OF next_piece [OF 0]]]] by (simp add: numeral_eq_Suc)
  moreover have "(((nv_out s @ ?p ! 0) @ ?p ! 1) @ ?p ! 2) @ ?p ! 3 = nv_out s @ naive_line (t, now, m)"
    by (simp add: naive_line_def naive_pieces_def)
  ultimately have "naive_reach msgs (?s 4 (nv_out s @ naive_line (t, now, m)))" by simp
  from naive_reach.step [OF this naive_step.unlocks [of _ t]] show ?thesis
    using assms(2-4) by (cases s) (simp add: fun_upd_idem)
qed

lemma naive_lines_are_whole_witness:
  "\<exists>s. naive_reach ((\<lambda>_. [])(0 := [''a''], 1 := [''b''])) s
     \<and> nv_out s = naive_line (1, ''00:00:00'', ''b'') @ naive_line (0, ''00:00:01'', ''a'')
     \<and> (\<exists>ls. nv_out s = concat (map naive_line ls) \<and> written 0 ls = [''a''])"
proof -
  let ?msgs = "(\<lambda>_ :: nat. [])(0 := [''a''], 1 := [''b''])"
  obtain s where s: "naive_reach ?msgs s" "nv_pc s 0 = Idle" "nv_mutex s = None" "nv_todo s 0 = [''a'']"
    "nv_out s = naive_line (1, ''00:00:00'', ''b'')"
    using naive_alone [OF naive_reach.start, of ?msgs 1 "''b''" "[]" "''00:00:00''"] by (simp add: naive_start_def)
  from naive_alone [OF s(1-4), of "''00:00:01''"]
  obtain u where u: "naive_reach ?msgs u" "nv_mutex u = None" "nv_todo u 0 = []"
    "nv_out u = naive_line (1, ''00:00:00'', ''b'') @ naive_line (0, ''00:00:01'', ''a'')"
    using s(3,5) by simp
  from naive_lines_are_whole [OF u(1)] u(2)
  obtain ls where ls: "nv_out u = concat (map naive_line ls)" "\<forall>t. written t ls @ nv_todo u t = ?msgs t" by blast
  from ls(2) [rule_format, of 0] u(3) have "written 0 ls = [''a'']" by simp
  with u(1,4) ls(1) show ?thesis by blast
qed

section \<open>The classic logger\<close>

text \<open>
  \<^verbatim>\<open>Active2\<close> of \<^verbatim>\<open>classic.cc\<close>: one queue for all senders, whose \<^verbatim>\<open>Send\<close> takes a mutex. \<^verbatim>\<open>Run\<close> takes
  none; each of its accesses to the queue is one step here, although the code has a data race
  there. It runs the message at the front and pops it afterwards: \<open>ac2_popping\<close> in between.
\<close>

record 'm active2 =
  ac2_done :: bool
  ac2_mq :: "(nat \<times> 'm action) list"
  ac2_popping :: bool
  ac2_log :: "(nat \<times> 'm) list"

definition Active2_new :: "'m active2" where
  "Active2_new = \<lparr>ac2_done = False, ac2_mq = [], ac2_popping = False, ac2_log = []\<rparr>"

definition Active2_Send :: "nat \<Rightarrow> 'm action \<Rightarrow> 'm active2 \<Rightarrow> 'm active2" where
  "Active2_Send t m c = c\<lparr>ac2_mq := ac2_mq c @ [(t, m)]\<rparr>"

definition Active2_Run_step :: "'m active2 \<Rightarrow> 'm active2" where
  "Active2_Run_step c =
     (if ac2_popping c then c\<lparr>ac2_mq := tl (ac2_mq c), ac2_popping := False\<rparr>
      else if ac2_done c then c
      else case ac2_mq c of
             [] \<Rightarrow> c
           | (t, Line m) # _ \<Rightarrow> c\<lparr>ac2_log := ac2_log c @ [(t, m)], ac2_popping := True\<rparr>
           | (t, Finish) # _ \<Rightarrow> c\<lparr>ac2_done := True, ac2_popping := True\<rparr>)"

text \<open>The events of the active object; whose turn it is does not matter to a single queue.\<close>

fun active2_step :: "'m event \<Rightarrow> 'm active2 \<Rightarrow> 'm active2" where
  "active2_step (Sends t m) c = Active2_Send t (Line m) c"
| "active2_step Destroys c = Active2_Send 0 Finish c"
| "active2_step (Runs t) c = Active2_Run_step c"

definition active2_run :: "'m event list \<Rightarrow> 'm active2" where
  "active2_run es = fold active2_step es Active2_new"

lemma active2_run_snoc: "active2_run (es @ [e]) = active2_step e (active2_run es)"
  by (simp add: active2_run_def)

fun calls :: "'m event list \<Rightarrow> (nat \<times> 'm action) list" where
  "calls [] = []"
| "calls (Sends t m # es) = (t, Line m) # calls es"
| "calls (Destroys # es) = (0, Finish) # calls es"
| "calls (Runs t # es) = calls es"

lemma calls_append [simp]: "calls (es @ fs) = calls es @ calls fs"
  by (induction es rule: calls.induct) simp_all

definition pending :: "'m active2 \<Rightarrow> (nat \<times> 'm action) list" where
  "pending c = (if ac2_popping c then tl (ac2_mq c) else ac2_mq c)"

definition lines_of :: "(nat \<times> 'm) list \<Rightarrow> (nat \<times> 'm action) list" where
  "lines_of log = map (\<lambda>(t, m). (t, Line m)) log"

text \<open>
  The calls are what was run and what is still queued, in the order of all senders together:
  once it is done, exactly the lines sent before the destructor's message were written.
\<close>

lemma classic_runs_in_order:
  "(ac2_popping (active2_run es) \<longrightarrow> ac2_mq (active2_run es) \<noteq> [])
   \<and> (if ac2_done (active2_run es)
      then \<exists>t. calls es = lines_of (ac2_log (active2_run es)) @ (t, Finish) # pending (active2_run es)
      else calls es = lines_of (ac2_log (active2_run es)) @ pending (active2_run es))"
proof (induction es rule: rev_induct)
  case Nil
  show ?case by (simp add: active2_run_def Active2_new_def pending_def lines_of_def)
next
  case (snoc e es)
  show ?case
  proof (cases e)
    case (Runs t)
    with snoc show ?thesis
      by (auto simp: active2_run_snoc Active2_Run_step_def pending_def lines_of_def split: list.splits action.splits)
  qed (use snoc in \<open>auto simp: active2_run_snoc Active2_Send_def pending_def lines_of_def split: if_splits\<close>)
qed

text \<open>
  It is one behaviour of the lock-free logger: with the same calls in the same order, some
  choice of turns makes that one write the same lines and end alike.
\<close>

definition simulates :: "'m active2 \<Rightarrow> 'm active \<Rightarrow> bool" where
  "simulates c a \<longleftrightarrow> act_done a = ac2_done c \<and> act_log a = ac2_log c \<and> (ac2_popping c \<longrightarrow> ac2_mq c \<noteq> [])
     \<and> (\<forall>t. act_mq a t = map snd (filter (\<lambda>p. fst p = t) (pending c)))"

lemma simulates_step:
  assumes "simulates c a"
  shows "\<exists>es. calls es = calls [e] \<and> simulates (active2_step e c) (fold active_step es a)"
proof (cases e)
  case (Sends t m)
  with assms show ?thesis
    by (intro exI [of _ "[Sends t m]"]) (auto simp: simulates_def Active2_Send_def Active_Send_def pending_def)
next
  case Destroys
  with assms show ?thesis
    by (intro exI [of _ "[Destroys]"]) (auto simp: simulates_def Active2_Send_def Active_Send_def pending_def)
next
  case (Runs u)
  show ?thesis
  proof (cases "ac2_popping c \<or> ac2_done c \<or> ac2_mq c = []")
    case True
    with Runs assms show ?thesis
      by (intro exI [of _ "[]"]) (auto simp: simulates_def Active2_Run_step_def pending_def)
  next
    case False
    then obtain t m ms where m: "ac2_mq c = (t, m) # ms" by (cases "ac2_mq c") auto
    with False assms have "act_mq a t = m # map snd (filter (\<lambda>p. fst p = t) ms)" "\<not> act_done a"
      by (simp_all add: simulates_def pending_def)
    with Runs m False assms show ?thesis
      by (intro exI [of _ "[Runs t]"], cases m)
        (auto simp: simulates_def Active2_Run_step_def Active_Run_step_def pending_def)
  qed
qed

lemma classic_simulated: "\<exists>es'. calls es' = calls es \<and> simulates (active2_run es) (active_run es')"
proof (induction es rule: rev_induct)
  case Nil
  have "simulates (active2_run []) (active_run [])"
    by (simp add: simulates_def active2_run_def active_run_def Active2_new_def Active_new_def pending_def)
  then show ?case by blast
next
  case (snoc e es)
  then obtain es' where "calls es' = calls es" "simulates (active2_run es) (active_run es')" by blast
  moreover from simulates_step [OF this(2), of e] obtain fs where
    "calls fs = calls [e]" "simulates (active2_step e (active2_run es)) (fold active_step fs (active_run es'))" by blast
  ultimately show ?case
    by (intro exI [of _ "es' @ fs"]) (simp add: active2_run_snoc active_run_def)
qed

lemma classic_refines_active:
  "\<exists>es'. calls es' = calls es \<and> act_log (active_run es') = ac2_log (active2_run es)
     \<and> act_done (active_run es') = ac2_done (active2_run es)"
  using classic_simulated [of es] by (auto simp: simulates_def)

section \<open>The loggers of the library\<close>

text \<open>
  \<^verbatim>\<open>Logger::cout()\<close> and \<^verbatim>\<open>Logger::cerr()\<close> are made when they are first asked for, each with an
  active object of its own. \<^verbatim>\<open>operator<<\<close> prints in a debug build only. The clock shows
  \<open>now k\<close> when the \<open>k\<close>-th line of a stream is written.
\<close>

record loggers =
  lgs_cout :: "string active option"
  lgs_cerr :: "string active option"

definition Logger_get :: "string active option \<Rightarrow> string active" where
  "Logger_get instance_of = (case instance_of of None \<Rightarrow> Active_new | Some a \<Rightarrow> a)"

definition Logger_cout :: "loggers \<Rightarrow> loggers" where
  "Logger_cout w = w\<lparr>lgs_cout := Some (Logger_get (lgs_cout w))\<rparr>"

definition Logger_cerr :: "loggers \<Rightarrow> loggers" where
  "Logger_cerr w = w\<lparr>lgs_cerr := Some (Logger_get (lgs_cerr w))\<rparr>"

definition Logger_Print :: "nat \<Rightarrow> string \<Rightarrow> string active \<Rightarrow> string active" where
  "Logger_Print t msg a = Active_Send t (Line msg) a"

definition Logger_shift :: "bool \<Rightarrow> nat \<Rightarrow> string \<Rightarrow> string active \<Rightarrow> string active" where
  "Logger_shift debug t msg a = (if debug then Logger_Print t msg a else a)"

text \<open>What the thread of a logger has written.\<close>

definition logger_stream :: "(nat \<Rightarrow> string) \<Rightarrow> (nat \<times> string) list \<Rightarrow> string" where
  "logger_stream now log = fold (\<lambda>(k, (t, msg)). print_line (now k) msg) (enumerate 0 log) []"

definition clog_line :: "string \<Rightarrow> string" where
  "clog_line t = colour_code Green @ ''<'' @ ''> '' @ colour_code White @ t @ [CHR 0x0A]"

lemma print_line_is: "print_line now msg out = out @ naive_line (t, now, msg)"
  by (simp add: print_line_def set_colour_def naive_line_def naive_pieces_def)

text \<open>The stream of a logger is whole lines too, those of its log in their order.\<close>

lemma logger_stream_lines:
  "logger_stream now log = concat (map (\<lambda>(k, (t, msg)). naive_line (t, now k, msg)) (enumerate 0 log))"
proof -
  have "fold (\<lambda>(k, (t, msg)). print_line (now k) msg) xs out =
      out @ concat (map (\<lambda>(k, (t, msg)). naive_line (t, now k, msg)) xs)" for xs out
    by (induction xs arbitrary: out) (auto simp: print_line_is)
  from this [of "enumerate 0 log" "[]"] show ?thesis by (simp add: logger_stream_def)
qed

section \<open>The test program\<close>

text \<open>\<^verbatim>\<open>atoi\<close>: blanks, a sign and digits; a value no \<^verbatim>\<open>int\<close> holds is undefined.\<close>

definition atoi :: "string \<Rightarrow> int res" where
  "atoi text =
     (let s = dropWhile is_blank text;
          neg = (s \<noteq> [] \<and> hd s = CHR ''-'');
          s = (if neg \<or> s \<noteq> [] \<and> hd s = CHR ''+'' then tl s else s);
          v = int (num_value (takeWhile is_digit s));
          v = (if neg then - v else v)
      in if - (2 ^ 31) \<le> v \<and> v < 2 ^ 31 then Inr v else Inl Undefined)"

datatype log_type = Naive | Classic | Lock_free

definition classic_text :: "nat \<Rightarrow> string" where
  "classic_text i = ''This is a classic printer message from thread '' @ decimal i @ ''!''"

definition lock_free_text :: "nat \<Rightarrow> string" where
  "lock_free_text i = ''This is a lock-free printer message from thread '' @ decimal i @ ''!''"

text \<open>The three callers: what thread \<open>i\<close> is to print.\<close>

definition naive_caller :: "32 word \<Rightarrow> nat \<Rightarrow> string list" where
  "naive_caller nb_messages i = replicate (unat nb_messages) (naive_text i)"

definition classic_caller :: "32 word \<Rightarrow> nat \<Rightarrow> string list" where
  "classic_caller nb_messages i = replicate (unat nb_messages) (classic_text i)"

definition lock_free_caller :: "32 word \<Rightarrow> nat \<Rightarrow> string list" where
  "lock_free_caller nb_messages i = replicate (unat nb_messages) (lock_free_text i)"

text \<open>
  \<^verbatim>\<open>main\<close>: \<open>None\<close> when it prints its usage, otherwise the printer and what each thread prints
  with it. Three arguments are read where two were checked for: \<^verbatim>\<open>argv[argc]\<close> is a null pointer.
\<close>

definition tests_main :: "string list \<Rightarrow> (log_type \<times> (nat \<Rightarrow> string list)) option res" where
  "tests_main argv =
     (if length argv < 3 then Inr None
      else
        rbind (atoi (argv ! 1)) (\<lambda>log_type.
        rbind (atoi (argv ! 2)) (\<lambda>nb_threads.
        rbind (if length argv = 3 then Inl Undefined else atoi (argv ! 3)) (\<lambda>nb_messages.
        (let n = word_of_int nb_messages;
             (kind, caller) = (if word_of_int log_type = (0 :: 32 word) then (Naive, naive_caller)
                               else if word_of_int log_type = (1 :: 32 word) then (Classic, classic_caller)
                               else (Lock_free, lock_free_caller))
         in Inr (Some (kind, \<lambda>i. if i < unat (word_of_int nb_threads :: 32 word) then caller n i else [])))))))"

lemma tests_main_reads_past: "atoi a = Inr i \<Longrightarrow> atoi b = Inr j \<Longrightarrow> tests_main [prog, a, b] = Inl Undefined"
  by (simp add: tests_main_def)

text \<open>A run of the naive printer that has ended has printed each thread's line as often as asked.\<close>

lemma atoi_bounds: "atoi s = Inr v \<Longrightarrow> v < 2 ^ 31"
  by (auto simp: atoi_def Let_def split: if_splits)

lemma naive_test_prints_all:
  assumes "3 < length argv" "atoi (argv ! 1) = Inr 0" "atoi (argv ! 2) = Inr (int k)" "atoi (argv ! 3) = Inr (int n)"
    and "tests_main argv = Inr (Some (kind, msgs))"
    and "naive_reach msgs s" "nv_mutex s = None" "\<forall>t. nv_todo s t = []"
  shows "kind = Naive \<and> (\<exists>ls. nv_out s = concat (map naive_line ls)
    \<and> (\<forall>t. written t ls = (if t < k then replicate n (naive_text t) else [])))"
proof -
  obtain ls where ls: "naive_inv msgs ls s" using naive_reach_inv [OF assms(6)] ..
  have "unat (word_of_int (int k) :: 32 word) = k" "unat (word_of_int (int n) :: 32 word) = n"
    using atoi_bounds [OF assms(3)] atoi_bounds [OF assms(4)] by (simp_all add: unat_word_of_nat_32)
  then have "kind = Naive \<and> msgs = (\<lambda>i. if i < k then replicate n (naive_text i) else [])"
    using assms(1-5) by (auto simp: tests_main_def Let_def naive_caller_def result_simps cong: if_cong split: if_splits)
  with ls assms(7,8) show ?thesis
    by (intro conjI exI [of _ ls]) (auto simp: naive_inv_def naive_partial_def)
qed

end
