(* ===== verification/End_To_End.thy ===== *)
theory End_To_End
  imports Deployment
begin

text \<open>
  The way of a file through the whole system. The storages serve the connections the client
  opens to them: the bytes the client writes are what they read, and what they answer is what
  the client reads. What an upload leaves on them, and what they report to the master, is then
  what a download finds.
\<close>

section \<open>A storage on a connection\<close>

definition storage_serves :: "'ctx storage_env \<Rightarrow> session \<Rightarrow> storage_state \<Rightarrow> unit res \<times> session \<times> storage_state" where
  "storage_serves S s w = receive (storage_dispatcher S) (s, w)"

text \<open>A storage after one part of a client, and after several.\<close>

definition part_id :: "fid_type \<Rightarrow> nat \<Rightarrow> PARTID" where
  "part_id fid j = \<lparr>partid_fid = fid, partid_partnum = word_of_nat j\<rparr>"

definition report :: "'ctx storage_env \<Rightarrow> stid_type \<Rightarrow> fid_type \<Rightarrow> nat \<Rightarrow> string \<times> port_type \<times> string" where
  "report S stid fid j =
     (sc_master_hostname (sto_conf S), sc_master_port (sto_conf S), packet_bytes (part_ack_packet stid (part_id fid j)))"

definition took_part :: "'ctx storage_env \<Rightarrow> fid_type \<Rightarrow> string \<Rightarrow> nat \<Rightarrow> nat \<Rightarrow> storage_state \<Rightarrow> storage_state" where
  "took_part S fid T n j w =
     w\<lparr>sst_fs := ofstream_write S (part_path (sto_conf S) (part_id fid j)) (part_bytes T n j) (sst_fs w),
       sst_opened := sst_opened w @ [report S (sst_id w) fid j]\<rparr>"

definition storage_fits :: "'ctx storage_env \<Rightarrow> bool" where
  "storage_fits S \<longleftrightarrow> sha1_ok (sto_files S) \<and> mapping_ok (sto_files S) \<and> (\<exists>m. master_session S = Inr m)
     \<and> (\<forall>partid. sto_writable S (part_path (sto_conf S) partid))"

lemma part_bytes_small: "cut_ok (length T) n \<Longrightarrow> i < n \<Longrightarrow> length (part_bytes T n i) < 2 ^ 24"
  using part_fits [of "length T" n i] length_part_bytes [of T n i] by (simp add: cut_ok_def)

lemma upload_part_facts:
  assumes "sha1_ok L" "cut_ok (length T) n" "i < n"
  defines "B \<equiv> part_bytes T n i"
  shows "sendable (upload_part L fid T n i)"
    "length (sha1 L B) = sha1_type_size"
    "payload (upload_part L fid T n i) = up_packet (part_id fid i) (sha1 L B) B"
    "fromto_get (upload_part L fid T n i) = c_s_fromto" "what_get (upload_part L fid T n i) = cs_up_act_w"
proof -
  show h: "length (sha1 L B) = sha1_type_size" using assms(1) by (simp add: sha1_ok_def sha1_def)
  show p: "payload (upload_part L fid T n i) = up_packet (part_id fid i) (sha1 L B) B"
    by (simp add: payload_upload_part part_id_def B_def)
  have "length (payload (upload_part L fid T n i)) < 2 ^ 32"
    using up_packet_views(4) [OF h, of "part_id fid i" B] part_bytes_small [OF assms(2,3)] p
    by (simp add: B_def sizeof_up_act_def)
  then show "sendable (upload_part L fid T n i)" by (simp add: sendable_def upload_part_def)
  show "fromto_get (upload_part L fid T n i) = c_s_fromto" "what_get (upload_part L fid T n i) = cs_up_act_w"
    by (simp_all add: upload_part_def packet_simps)
qed

lemma dispatch_upload_part:
  assumes "storage_fits S" "cut_ok (length T) n" "i < n"
  shows "storage_dispatcher S (delivered (upload_part (sto_files S) fid T n i)) (s, w) =
    (Inr KA_Yes, (answered (ack_answer s_c_fromto success) s, took_part S fid T n i w))"
proof -
  let ?L = "sto_files S" and ?B = "part_bytes T n i" and ?p = "delivered (upload_part (sto_files S) fid T n i)"
  have L: "sha1_ok ?L" using assms(1) by (simp add: storage_fits_def)
  obtain m where m: "master_session S = Inr m" using assms(1) by (auto simp: storage_fits_def)
  note facts = upload_part_facts [OF L assms(2,3)]
  have small: "length ?B < 2 ^ 24" by (rule part_bytes_small [OF assms(2,3)])
  have sz: "size_get ?p = word_of_nat (sizeof_up_act + length ?B)"
    using up_packet_views(4) [OF facts(2)] by (simp add: facts(3))
  have "unat (size_get ?p) = sizeof_up_act + length ?B"
    unfolding sz by (rule unat_word_of_nat_32) (use small in \<open>simp add: sizeof_up_act_def\<close>)
  then have "size_get ?p \<noteq> 0" by (auto simp: sizeof_up_act_def)
  moreover have "cs_up_act S ?p (s, w) = (Inr KA_Yes, (answered (ack_answer s_c_fromto success) s, took_part S fid T n i w))"
    using up_act_run [OF L small facts(2) _ _ sz m, of "part_id fid i" s w]
    by (simp add: facts(3,4) took_part_def report_def)
  ultimately show ?thesis
    by (simp add: storage_dispatcher_def facts(4,5) ack_w_def cs_up_act_w_def)
qed

lemma storage_takes_rounds:
  assumes "storage_fits S" "cut_ok (length T) n"
  shows "list_all (\<lambda>i. i < n) js \<Longrightarrow> ses_open s \<Longrightarrow> ses_inbox s = parts_wire (sto_files S) fid T n js \<Longrightarrow> length js < m \<Longrightarrow>
    receive_rounds m (storage_dispatcher S) (s, w) =
      (Inr (), (s\<lparr>ses_inbox := [], ses_outbox := ses_outbox s @ acks s_c_fromto (length js)\<rparr>, fold (took_part S fid T n) js w))"
proof (induction js arbitrary: s w m)
  case Nil
  then show ?case
    by (cases m) (simp_all add: receive_round_def receive_packet_def act_simps sizeof_PACKET_HEADER_def parts_wire_def acks_def)
next
  case (Cons i js)
  then obtain k where k: "m = Suc k" by (cases m) auto
  have L: "sha1_ok (sto_files S)" using assms(1) by (simp add: storage_fits_def)
  let ?p = "upload_part (sto_files S) fid T n i" and ?rest = "parts_wire (sto_files S) fid T n js"
  have i: "i < n" using Cons.prems(1) by simp
  have "receive_packet (s, w) = (Inr (Some (delivered ?p)), (s\<lparr>ses_inbox := ?rest\<rparr>, w))"
    using Cons.prems(3) by (intro receive_packet_sent upload_part_facts(1) [OF L assms(2) i]) (simp add: parts_wire_def)
  then have "receive_rounds m (storage_dispatcher S) (s, w) =
      receive_rounds k (storage_dispatcher S) (answered (ack_answer s_c_fromto success) (s\<lparr>ses_inbox := ?rest\<rparr>), took_part S fid T n i w)"
    by (simp add: k act_simps receive_round_def dispatch_upload_part [OF assms i])
  with Cons.IH [of "answered (ack_answer s_c_fromto success) (s\<lparr>ses_inbox := ?rest\<rparr>)" k "took_part S fid T n i w"] Cons.prems
  show ?case by (simp add: k answered_def acks_def)
qed

text \<open>What a storage makes of the connection of an uploading client.\<close>

lemma storage_takes_upload:
  assumes "storage_fits S" "cut_ok (length T) n" "list_all (\<lambda>i. i < n) js"
    and "ses_open s" "ses_inbox s = parts_wire (sto_files S) fid T n js"
  shows "storage_serves S s w =
    (Inr (), (s\<lparr>ses_inbox := [], ses_outbox := ses_outbox s @ acks s_c_fromto (length js)\<rparr>, fold (took_part S fid T n) js w))"
proof -
  have "length js < Suc (length (ses_inbox s))"
    using packets_shorter_than_bytes [of "map (upload_part (sto_files S) fid T n) js"] assms(5)
    by (simp add: parts_wire_def comp_def)
  from storage_takes_rounds [OF assms(1-5) this] show ?thesis
    by (simp add: storage_serves_def receive_is_blocking_receive blocking_receive_def)
qed

section \<open>What an upload leaves on a storage\<close>

lemma part_path_eq:
  "i < 2 ^ 32 \<Longrightarrow> j < 2 ^ 32 \<Longrightarrow> part_path conf (part_id fid i) = part_path conf (part_id fid j) \<longleftrightarrow> i = j"
  by (simp add: part_path_def part_id_def unat_word_of_nat_32)

lemma took_parts:
  assumes "storage_fits S"
  shows "list_all (\<lambda>i. i < 2 ^ 32) js \<Longrightarrow>
    sst_id (fold (took_part S fid T n) js w) = sst_id w
    \<and> sst_opened (fold (took_part S fid T n) js w) = sst_opened w @ map (report S (sst_id w) fid) js
    \<and> (\<forall>j \<in> set js. sst_fs (fold (took_part S fid T n) js w) (part_path (sto_conf S) (part_id fid j)) = Some (part_bytes T n j))"
proof (induction js rule: rev_induct)
  case Nil
  then show ?case by simp
next
  case (snoc i js)
  then show ?case
    using assms by (auto simp: took_part_def ofstream_write_def storage_fits_def part_path_eq list_all_iff)
qed

section \<open>What a storage gives a downloading client\<close>

lemma down_request_facts:
  "payload (down_request partid) = enc_PARTID partid" "fromto_get (down_request partid) = c_s_fromto"
  "what_get (down_request partid) = cs_down_act_w" "sendable (down_request partid)"
  by (simp_all add: down_request_def packet_simps sendable_def length_enc_PARTID sizeof_PARTID_def)

lemma storage_gives_part:
  assumes "storage_fits S" "0 < length bytes" "length bytes < 2 ^ 24"
    and "sst_fs w (part_path (sto_conf S) partid) = Some bytes" "ses_inbox s = down_wire partid"
  shows "storage_serves S s w = (Inr (), (answered (part_packet (sto_files S) partid bytes) (s\<lparr>ses_inbox := []\<rparr>), w))"
proof -
  let ?q = "delivered (down_request partid)" and ?s = "s\<lparr>ses_inbox := packet_bytes (ack_answer c_s_fromto success)\<rparr>"
  let ?a = "answered (part_packet (sto_files S) partid bytes) ?s"
  have lib: "sha1_ok (sto_files S)" "mapping_ok (sto_files S)" using assms(1) by (simp_all add: storage_fits_def)
  have inbox: "ses_inbox ?a = packet_bytes (add_message (enc_word (error_code_value success)) (packet_empty c_s_fromto ack_w)) @ []"
    by (simp add: answered_def ack_answer_def)
  have "front_data ?q = Inr (enc_PARTID partid @ [])" by (simp add: down_request_facts)
  then have "cs_down_act S ?q (?s, w) = (Inr KA_No, (?a\<lparr>ses_inbox := []\<rparr>, w))"
    using down_act_run [OF lib assms(2-4), of ?q "[]" ?s] by (simp add: bnd_run recv_ack_run [OF inbox] ret_run)
  then have "storage_dispatcher S ?q (?s, w) = (Inr KA_No, (?a\<lparr>ses_inbox := []\<rparr>, w))"
    by (simp add: storage_dispatcher_def down_request_facts length_enc_PARTID sizeof_PARTID_def cs_down_act_w_def cs_up_act_w_def ack_w_def)
  from blocking_receive_once [where callback = "storage_dispatcher S", OF down_request_facts(4) _ this]
  show ?thesis
    using assms(5) by (simp add: storage_serves_def receive_is_blocking_receive down_wire_def answered_def)
qed

section \<open>A file from client to client\<close>

text \<open>
  The storages of an upload: storage \<open>k\<close> has the environment \<open>S k\<close>, is in the state \<open>W k\<close>
  before the upload, and reads the connection the client opens to the \<open>k\<close>th field.
\<close>

definition takes_upload :: "(nat \<Rightarrow> 'ctx storage_env) \<Rightarrow> (nat \<Rightarrow> storage_state) \<Rightarrow> fid_type \<Rightarrow> string \<Rightarrow> STPFIELD list \<Rightarrow> nat \<Rightarrow>
    unit res \<times> session \<times> storage_state" where
  "takes_upload S W fid T flds k =
     storage_serves (S k) (session_create 0 [] (parts_wire (sto_files (S k)) fid T (nbs flds) (range_of flds k))) (W k)"

text \<open>Where the parts are then: the identifier of the storage and the number of the part.\<close>

definition dealt_places :: "(nat \<Rightarrow> storage_state) \<Rightarrow> STPFIELD list \<Rightarrow> (stid_type \<times> partnum_type) list" where
  "dealt_places W flds =
     concat (map (\<lambda>k. map (\<lambda>j. (sst_id (W k), word_of_nat j)) (range_of flds k)) [0..<length flds])"

text \<open>
  The connections of a downloading client lead to those storages, in their states after the
  upload: what it reads from the storage of a part is what that storage writes when it reads
  the request for the part.
\<close>

definition reaches_storages :: "(nat \<Rightarrow> 'ctx storage_env) \<Rightarrow> (nat \<Rightarrow> storage_state) \<Rightarrow> 'c client_env \<Rightarrow> fid_type \<Rightarrow> STPFIELD list \<Rightarrow>
    (stid_type \<Rightarrow> ADDR) \<Rightarrow> (stid_type \<times> partnum_type) list \<Rightarrow> bool" where
  "reaches_storages S W E fid flds addr places \<longleftrightarrow>
     (\<forall>i < length places. \<exists>k < length flds.
        fst (places ! i) = sst_id (W k) \<and> unat (snd (places ! i)) \<in> set (range_of flds k)
        \<and> serves E i (addr (fst (places ! i))) (ses_outbox (fst (snd
             (storage_serves (S k) (session_create 0 [] (down_wire \<lparr>partid_fid = fid, partid_partnum = snd (places ! i)\<rparr>)) (W k))))))"

lemma takes_upload_run:
  assumes "storage_fits (S k)" "cut_ok (length T) (nbs flds)" "k < length flds"
  shows "ses_outbox (fst (snd (takes_upload S W fid T flds k))) = acks s_c_fromto (unat (stp_nb (flds ! k)))"
    "sst_id (snd (snd (takes_upload S W fid T flds k))) = sst_id (W k)"
    "sst_opened (snd (snd (takes_upload S W fid T flds k))) = sst_opened (W k) @ map (report (S k) (sst_id (W k)) fid) (range_of flds k)"
    "\<And>j. j \<in> set (range_of flds k) \<Longrightarrow>
      sst_fs (snd (snd (takes_upload S W fid T flds k))) (part_path (sto_conf (S k)) (part_id fid j)) = Some (part_bytes T (nbs flds) j)"
proof -
  have below: "list_all (\<lambda>i. i < nbs flds) (range_of flds k)"
    using range_below [of _ flds k] by (auto simp: list_all_iff)
  then have small: "list_all (\<lambda>i. i < 2 ^ 32) (range_of flds k)"
    using cut_ok_small [OF assms(2)] by (auto simp: list_all_iff)
  note run = storage_takes_upload [OF assms(1,2) below, of "session_create 0 [] (parts_wire (sto_files (S k)) fid T (nbs flds) (range_of flds k))" fid "W k"]
  note parts = took_parts [OF assms(1) small, of fid T "nbs flds" "W k"]
  show "ses_outbox (fst (snd (takes_upload S W fid T flds k))) = acks s_c_fromto (unat (stp_nb (flds ! k)))"
    using run length_range_of [OF assms(3)] by (auto simp: takes_upload_def session_create_def)
  show "sst_id (snd (snd (takes_upload S W fid T flds k))) = sst_id (W k)" "sst_opened (snd (snd (takes_upload S W fid T flds k))) = sst_opened (W k) @ map (report (S k) (sst_id (W k)) fid) (range_of flds k)"
    using run parts by (simp_all add: takes_upload_def session_create_def)
  fix j
  assume "j \<in> set (range_of flds k)"
  then show "sst_fs (snd (snd (takes_upload S W fid T flds k))) (part_path (sto_conf (S k)) (part_id fid j)) = Some (part_bytes T (nbs flds) j)"
    using run parts by (simp add: takes_upload_def session_create_def)
qed

lemma part_len_pos:
  assumes "cut_ok len n" "n * n \<le> len" "i < n"
  shows "0 < part_len len n i"
proof -
  have n: "0 < n" using assms(1) by (simp add: cut_ok_def)
  then have q: "n \<le> len div n" using assms(2) by (simp add: less_eq_div_iff_mult_less_eq)
  show ?thesis
  proof (cases "i = n - 1")
    case True
    have "len div n * (n - 1) + len div n \<le> len" using n div_times_less_eq_dividend [of len n] by (cases n) simp_all
    then show ?thesis using last_part_len(1) [OF assms(1,2)] q n True by (simp add: lost_bytes_def split: if_splits)
  next
    case False
    then show ?thesis using q n by (simp add: part_len_def ceil_div_floor)
  qed
qed

lemma dealt_numbers:
  assumes "nbs flds \<le> 2 ^ 32" "mset places = mset (dealt_places W flds)"
  shows "mset (map (unat \<circ> snd) places) = mset [0..<nbs flds]"
proof -
  have "map (unat \<circ> snd) (map (\<lambda>j. (sst_id (W k), word_of_nat j :: partnum_type)) (range_of flds k)) = range_of flds k" for k
    using assms(1) by (auto intro!: map_idI unat_word_of_nat_32 dest!: range_below)
  then have "map (unat \<circ> snd) (dealt_places W flds) = concat (map (range_of flds) [0..<length flds])"
    by (simp add: dealt_places_def map_concat comp_def)
  moreover have "mset (map (unat \<circ> snd) places) = mset (map (unat \<circ> snd) (dealt_places W flds))"
    using assms(2) by (metis mset_map)
  ultimately show ?thesis using ranges_partition by metis
qed

lemma uploaded_parts_held:
  assumes "\<forall>k < length flds. storage_fits (S k) \<and> sto_files (S k) = L"
    and "cut_ok (length T) (nbs flds)" "nbs flds * nbs flds \<le> length T"
    and "mset places = mset (dealt_places W flds)"
    and "reaches_storages S (\<lambda>k. snd (snd (takes_upload S W fid T flds k))) E fid flds addr places"
  shows "holds_parts L E fid (fields_of addr places) T" "length (fields_of addr places) = nbs flds"
proof -
  let ?W = "\<lambda>k. snd (snd (takes_upload S W fid T flds k))" and ?n = "nbs flds"
  have small: "?n \<le> 2 ^ 32" using cut_ok_small [OF assms(2)] by simp
  have nums: "mset (map (\<lambda>x. unat (stp_nb x)) (fields_of addr places)) = mset [0..<?n]"
    using dealt_numbers [OF small assms(4)] by (simp add: fields_of_def comp_def case_prod_beta)
  then have "length (map (\<lambda>x. unat (stp_nb x)) (fields_of addr places)) = length [0..<?n]" by (rule mset_eq_length)
  then show n: "length (fields_of addr places) = ?n" by simp
  have "\<exists>rest. serves E i (stp_addr (fields_of addr places ! i))
      (packet_bytes (part_packet L (field_partid fid (fields_of addr places ! i)) (part_bytes T ?n (unat (stp_nb (fields_of addr places ! i))))) @ rest)"
    if "i < ?n" for i
  proof -
    let ?a = "places ! i" and ?p = "\<lparr>partid_fid = fid, partid_partnum = snd (places ! i)\<rparr>"
    let ?b = "part_bytes T ?n (unat (snd (places ! i)))"
    have i: "i < length places" using that n by (simp add: fields_of_def)
    then have at: "fields_of addr places ! i = \<lparr>stp_addr = addr (fst ?a), stp_nb = snd ?a\<rparr>"
      by (simp add: fields_of_def case_prod_beta)
    obtain k where k: "k < length flds" "unat (snd ?a) \<in> set (range_of flds k)"
      "serves E i (addr (fst ?a)) (ses_outbox (fst (snd (storage_serves (S k) (session_create 0 [] (down_wire ?p)) (?W k)))))"
      using assms(5) i by (auto simp: reaches_storages_def)
    have S: "storage_fits (S k)" "sto_files (S k) = L" using assms(1) k(1) by simp_all
    have held: "sst_fs (?W k) (part_path (sto_conf (S k)) ?p) = Some ?b"
      using takes_upload_run(4) [where S = S, OF S(1) assms(2) k(1,2)] by (simp add: part_id_def)
    have j: "unat (snd ?a) < ?n" by (rule range_below [OF k(2)])
    have "0 < length ?b" "length ?b < 2 ^ 24"
      using part_len_pos [OF assms(2,3) j] length_part_bytes [OF assms(2) j] part_bytes_small [OF assms(2) j] by simp_all
    from storage_gives_part [OF S(1) this held, of "session_create 0 [] (down_wire ?p)"] k(3) S(2) at
    show ?thesis by (auto simp: session_create_def answered_def field_partid_def intro!: exI [of _ "[]"])
  qed
  then show "holds_parts L E fid (fields_of addr places) T"
    unfolding holds_parts_def n using nums by simp
qed

text \<open>The number of parts of a file below 16 MiB, once more.\<close>

lemma granted_cut:
  assumes "granted M sts len flds" "0 < len" "len < 2 ^ 24"
  shows "cut_ok len (nbs flds)" "nbs flds * nbs flds \<le> len"
proof -
  have len: "unat (word_of_nat len :: fsize_type) = len" using assms(3) by (intro unat_word_of_nat_64) simp
  have nbs: "nbs flds = unat (first_size size_values (word_of_nat len))"
    using assms(1) by (simp add: granted_def deals_def nbs_def)
  show "cut_ok len (nbs flds)"
    using first_size_small(2) [of "word_of_nat len"] assms(2,3) len nbs by simp
  have "unat (first_size size_values s) * unat (first_size size_values s) \<le> unat s"
    if "0 < unat s" "unat s < 2 ^ 24" for s
    using that by (simp_all add: size_values_def size_table_def word_le_nat_alt)
  from this [of "word_of_nat len"] show "nbs flds * nbs flds \<le> len" using assms(2,3) len nbs by simp
qed

text \<open>
  C1: A file below 16 MiB goes to the storages and comes back. The master has entered the file and
  granted the fields \<open>flds\<close>; the storages read the connections of the uploading client. Then each of them
  acknowledges every part to that client and reports it to the master; and once the master has
  read these reports, in any order, a client that asks it for the file reads, from the storages
  the master names, the file that was uploaded, with zeros for the bytes that no part covers,
  provided it has the disk space and takes at least a millisecond (it divides by that time).
\<close>

theorem uploaded_file_comes_back:
  assumes "env_ok M" "mst_database w = Some db" "granted M sts (length T) flds" "0 < length T" "length T < 2 ^ 24"
    and "f = file_entry cat (new_file fname req)" "up_req_fsize req = word_of_nat (length T)"
    and "represents (env_boost M) (store_of M db) (cat_add_file (new_file fname req) cat)"
      "cat_ok (cat_add_file (new_file fname req) cat)"
    and "\<forall>k < length flds. storage_fits (S k) \<and> sto_files (S k) = L"
    and "mset places = mset (dealt_places W flds)" "places_ok (env_net M) (cat_storages cat) addr places"
    and "ses_open s" "ses_outbox s = []" "ses_inbox s = packet_bytes (down_req_packet (fi_name f))"
    and "length (fi_name f) < 2 ^ 31" "down_fits L E (fields_of addr places) (length T)"
    and "reaches_storages S (\<lambda>k. snd (snd (takes_upload S W (fi_id f) T flds k))) E (fi_id f) flds addr places"
    and "master_session_create E = Inr m"
    and "ses_inbox m = ses_outbox (fst (snd (master_serves M s (ack_parts M (reports_of (fi_id f) places) w))))"
  shows "(\<forall>k < length flds.
      ses_outbox (fst (snd (takes_upload S W (fi_id f) T flds k))) = acks s_c_fromto (unat (stp_nb (flds ! k)))
      \<and> sst_opened (snd (snd (takes_upload S W (fi_id f) T flds k))) =
          sst_opened (W k) @ map (report (S k) (sst_id (W k)) (fi_id f)) (range_of flds k))
    \<and> (\<exists>v'. request_download E (fi_name f) v = (Inr (), v')
      \<and> cst_fs v' = (cst_fs v)(fi_name f @ ''-dl'' \<mapsto>
          take (length T - lost_bytes (length T) (nbs flds)) T @ replicate (lost_bytes (length T) (nbs flds)) (CHR 0x00)))"
proof (intro conjI allI impI)
  note cut = granted_cut [OF assms(3-5)]
  note held = uploaded_parts_held [OF assms(10) cut assms(11,18)]
  let ?cat = "cat_add_file (new_file fname req) cat"
  have entry: "length (cat_files cat) < length (cat_files ?cat)" "f = cat_files ?cat ! length (cat_files cat)"
    "fi_parts f = []" "fi_file_size f = word_of_nat (length T)" "cat_storages ?cat = cat_storages cat" "fi_name f \<noteq> []"
    by (simp_all add: cat_add_file_def assms(6,7) file_entry_def new_file_def numbered_name_def)
  from reported_file_answer [OF assms(1,2,8,9) entry(1-3) _ assms(13-15) entry(6) assms(16)] assms(12,20) entry(4,5)
  have "ses_inbox m = packet_bytes (down_answer (word_of_nat (length T)) (fi_id f) (fields_of addr places)) @ []"
    by simp
  from download_run [OF assms(17) _ _ held(1) assms(19) this] cut
  show "\<exists>v'. request_download E (fi_name f) v = (Inr (), v')
      \<and> cst_fs v' = (cst_fs v)(fi_name f @ ''-dl'' \<mapsto>
          take (length T - lost_bytes (length T) (nbs flds)) T @ replicate (lost_bytes (length T) (nbs flds)) (CHR 0x00))"
    by (simp add: held(2))
  fix k
  assume k: "k < length flds"
  with assms(10) have "storage_fits (S k)" by simp
  note run = takes_upload_run [where S = S and W = W and fid = "fi_id f", OF this cut(1) k]
  show "ses_outbox (fst (snd (takes_upload S W (fi_id f) T flds k))) = acks s_c_fromto (unat (stp_nb (flds ! k)))"
    "sst_opened (snd (snd (takes_upload S W (fi_id f) T flds k))) =
       sst_opened (W k) @ map (report (S k) (sst_id (W k)) (fi_id f)) (range_of flds k)"
    by (rule run(1), rule run(3))
qed

text \<open>One storage, with identifier 0, and the ten bytes of \<^verbatim>\<open>a\<close>.\<close>

definition storage_zero :: "nat \<Rightarrow> storage_state" where
  "storage_zero = (\<lambda>_. empty_storage\<lparr>sst_id := 0\<rparr>)"

lemma one_storage_granted: "granted sample_env (cat_storages one_storage) 10 [sample_field 1]"
  using sample_first_size
  by (simp add: granted_def deals_def one_storage_def addr_get_def get_addr_def get_ipv6_def sample_storage_def sample_env_def
      sample_net_def sample_field_def wf_STPFIELD_def wf_ADDR_def ipv6_type_size_def)

lemma sample_storage_fits: "storage_fits sample_storage_env" "sto_files sample_storage_env = sample_lib"
  using sample_storage_env_ok by (simp_all add: storage_fits_def) (simp_all add: sample_storage_env_def)

lemma uploaded_entry: "file_entry one_storage (new_file ''a'' \<lparr>up_req_fsize = 10, up_req_rdcy = 1\<rparr>) = ten_bytes 1 []"
  using arg_cong [OF one_file_uploaded, of cat_files] by (simp add: cat_add_file_def one_file_def one_storage_def)

lemma one_storage_places:
  "dealt_places storage_zero [sample_field 1] = [(0, 0)]"
  "places_ok (env_net sample_env) (cat_storages one_storage) (\<lambda>_. stp_addr (sample_field 0)) [(0, 0)]"
  by (simp_all add: dealt_places_def range_of_def sample_field_def storage_zero_def places_ok_def one_storage_def
      sample_storage_def sample_env_def sample_net_def addr_get_def get_addr_def get_ipv6_def)

text \<open>The client that downloads: it reads what the master and the storage write.\<close>

definition round_trip_client :: "string client_env" where
  "round_trip_client = sample_client
     (ses_outbox (fst (snd (master_serves sample_env (session_create 1 [] (packet_bytes (down_req_packet ''a.__0'')))
        (ack_parts sample_env (reports_of 0 [(0, 0)]) (fresh_state (Some (file_db 1 []))))))))
     (ses_outbox (fst (snd (storage_serves sample_storage_env (session_create 0 [] (down_wire \<lparr>partid_fid = 0, partid_partnum = 0\<rparr>))
        (snd (snd (takes_upload (\<lambda>_. sample_storage_env) storage_zero 0 ''abcdefghij'' [sample_field 1] 0)))))))"

lemma uploaded_file_comes_back_witness:
  "\<exists>v'. request_download round_trip_client ''a.__0'' sample_disk = (Inr (), v') \<and> cst_fs v' ''a.__0-dl'' = Some ''abcdefghij''"
proof -
  let ?T = "''abcdefghij''" and ?f = "ten_bytes 1 []" and ?req = "\<lparr>up_req_fsize = 10, up_req_rdcy = 1\<rparr>"
  let ?flds = "[sample_field 1]" and ?places = "[(0 :: stid_type, 0 :: partnum_type)]"
  let ?addr = "\<lambda>_ :: stid_type. stp_addr (sample_field 0)" and ?S = "\<lambda>_ :: nat. sample_storage_env"
  let ?W = "\<lambda>k. snd (snd (takes_upload ?S storage_zero (fi_id ?f) ?T ?flds k))"
  let ?s = "session_create 1 [] (packet_bytes (down_req_packet ''a.__0''))" and ?w = "fresh_state (Some (file_db 1 []))"
  let ?m = "ses_outbox (fst (snd (master_serves sample_env ?s (ack_parts sample_env (reports_of (fi_id ?f) ?places) ?w))))"
  let ?from = "ses_outbox (fst (snd (storage_serves sample_storage_env
      (session_create 0 [] (down_wire \<lparr>partid_fid = fi_id ?f, partid_partnum = 0\<rparr>)) (?W 0))))"
  let ?E = "sample_client ?m ?from"
  have ok: "list_all PartItem_ok []" by simp
  have len: "length ?T = 10" by simp
  have 1: "granted sample_env (cat_storages one_storage) (length ?T) ?flds" "0 < length ?T" "length ?T < 2 ^ 24"
    "?f = file_entry one_storage (new_file ''a'' ?req)" "up_req_fsize ?req = word_of_nat (length ?T)"
    unfolding len using one_storage_granted by (simp_all add: uploaded_entry)
  have 2: "\<forall>k < length ?flds. storage_fits (?S k) \<and> sto_files (?S k) = sample_lib" "mset ?places = mset (dealt_places storage_zero ?flds)"
    using sample_storage_fits by (simp_all add: one_storage_places(1))
  have 3: "ses_open ?s" "ses_outbox ?s = []" "ses_inbox ?s = packet_bytes (down_req_packet (fi_name ?f))" "length (fi_name ?f) < 2 ^ 31"
    by (simp_all add: session_create_def ten_bytes_def)
  have 4: "down_fits sample_lib ?E (fields_of ?addr ?places) (length ?T)"
    using sample_client_fits [of ?m ?from 0] sample_lib_ok
    by (simp add: env_fits_def down_fits_def fields_of_def sample_field_def) (simp add: sample_client_def)
  have "range_of ?flds 0 = [0]" by (simp add: range_of_def sample_field_def)
  moreover have "sst_id (?W 0) = 0"
    using takes_upload_run(2) [where S = ?S and W = storage_zero and fid = "fi_id ?f", OF sample_storage_fits(1) granted_cut(1) [OF 1(1-3)], of 0]
    by (simp add: storage_zero_def)
  ultimately have 5: "reaches_storages ?S ?W ?E (fi_id ?f) ?flds ?addr ?places"
    using sample_client_connects(2) [of ?m ?from 0 0] by (simp add: reaches_storages_def)
  have 6: "ses_inbox (session_create 0 ''master'' ?m) = ?m" by (simp add: session_create_def)
  have "lost_bytes (length ?T) (nbs ?flds) = 0" by (simp add: lost_bytes_def sample_field_def)
  with uploaded_file_comes_back [OF sample_env_ok file_state(1) [OF ok, of 1] 1 file_state(2,3) [OF ok, of 1, folded one_file_uploaded]
      2 one_storage_places(2) 3 4 5 sample_client_connects(1) 6, of sample_disk]
  show ?thesis by (auto simp: ten_bytes_def round_trip_client_def)
qed

end
