(* ===== verification/Interleaving.thy ===== *)
theory Interleaving
  imports Requests "HOL-Library.Multiset"
begin

text \<open>
  The handlers of the master on its threads. A thread runs a handler as a sequence of commands to
  the database, each of them atomic since the database takes its mutex for it; between two
  commands other threads run. \<^verbatim>\<open>sm_part_ack\<close> holds a mutex of its own throughout, and its bodies run one after the other
  whatever the schedule; \<^verbatim>\<open>sm_id_req\<close> does not (\<open>Collisions\<close>). The answer on the connection, which
  the database does not depend on, is left out of the tasks.
\<close>

section \<open>Tasks\<close>

text \<open>
  What a thread is still to do: an atomic command and what follows its outcome, an access to the
  globals, taking the mutex, giving it back.
\<close>

datatype ('w, 'a) task =
    Done 'a
  | Atomic "('w, string) act" "string res \<Rightarrow> ('w, 'a) task"
  | Read "'w \<Rightarrow> ('w, 'a) task"
  | Acquire "('w, 'a) task"
  | Release "('w, 'a) task"

primrec task_bind :: "('w, 'a) task \<Rightarrow> ('a \<Rightarrow> ('w, 'b) task) \<Rightarrow> ('w, 'b) task" where
  "task_bind (Done x) f = f x"
| "task_bind (Atomic c k) f = Atomic c (\<lambda>r. task_bind (k r) f)"
| "task_bind (Read k) f = Read (\<lambda>w. task_bind (k w) f)"
| "task_bind (Acquire t) f = Acquire (task_bind t f)"
| "task_bind (Release t) f = Release (task_bind t f)"

text \<open>A task that runs alone.\<close>

primrec task_run :: "('w, 'a) task \<Rightarrow> 'w \<Rightarrow> 'a \<times> 'w" where
  "task_run (Done x) w = (x, w)"
| "task_run (Atomic c k) w = (case c w of (r, w1) \<Rightarrow> task_run (k r) w1)"
| "task_run (Read k) w = task_run (k w) w"
| "task_run (Acquire t) w = task_run t w"
| "task_run (Release t) w = task_run t w"

lemma task_run_bind: "task_run (task_bind t f) w = (case task_run t w of (x, w1) \<Rightarrow> task_run (f x) w1)"
  by (induction t arbitrary: w) (simp_all split: prod.split)

text \<open>The computations of \<open>Prelude\<close> as tasks.\<close>

definition t_ret :: "'a \<Rightarrow> ('w, 'a res) task" where
  "t_ret x = Done (Inr x)"

definition t_lift :: "'a res \<Rightarrow> ('w, 'a res) task" where
  "t_lift r = Done r"

definition t_bnd :: "('w, 'a res) task \<Rightarrow> ('a \<Rightarrow> ('w, 'b res) task) \<Rightarrow> ('w, 'b res) task" where
  "t_bnd t f = task_bind t (\<lambda>r. case r of Inl e \<Rightarrow> Done (Inl e) | Inr x \<Rightarrow> f x)"

definition t_get :: "('db, 'e) master_env_scheme \<Rightarrow> string \<Rightarrow> ('db master_state, string res) task" where
  "t_get E k = Atomic (db_get E k) Done"

definition t_put :: "('db, 'e) master_env_scheme \<Rightarrow> string \<Rightarrow> string \<Rightarrow> ('db master_state, unit res) task" where
  "t_put E k v = Atomic (bnd (db_put E k v) (\<lambda>_. ret [])) (\<lambda>r. Done (rbind r (\<lambda>_. Inr ())))"

definition t_gets :: "('w \<Rightarrow> 'a) \<Rightarrow> ('w, 'a res) task" where
  "t_gets f = Read (\<lambda>w. Done (Inr (f w)))"

definition t_modify :: "('w \<Rightarrow> 'w) \<Rightarrow> ('w, unit res) task" where
  "t_modify f = Atomic (bnd (modify f) (\<lambda>_. ret [])) (\<lambda>r. Done (rbind r (\<lambda>_. Inr ())))"

fun t_map :: "('a \<Rightarrow> ('w, 'b res) task) \<Rightarrow> 'a list \<Rightarrow> ('w, 'b list res) task" where
  "t_map f [] = t_ret []"
| "t_map f (x # xs) = t_bnd (f x) (\<lambda>y. t_bnd (t_map f xs) (\<lambda>ys. t_ret (y # ys)))"

lemma task_bind_assoc: "task_bind (task_bind t f) g = task_bind t (\<lambda>x. task_bind (f x) g)"
  by (induction t) simp_all

lemma t_bnd_assoc: "t_bnd (t_bnd t f) g = t_bnd t (\<lambda>x. t_bnd (f x) g)"
  unfolding t_bnd_def task_bind_assoc by (rule arg_cong [where f = "task_bind t"]) (auto split: sum.split)

lemma t_bnd_ret: "t_bnd (t_ret x) f = f x"
  by (simp add: t_bnd_def t_ret_def)

lemma task_bind_Done: "task_bind t Done = t"
  by (induction t) simp_all

lemma task_runs [simp]:
  "task_run (t_ret x) = ret x" "task_run (t_lift r) = lift_res r"
  "task_run (t_bnd t f) = bnd (task_run t) (\<lambda>x. task_run (f x))"
  "task_run (t_get E k) = db_get E k" "task_run (t_put E k v) = db_put E k v" "task_run (t_modify g) = modify g"
  "task_run (t_gets h) = gets h"
proof -
  show "task_run (t_ret x) = ret x" "task_run (t_lift r) = lift_res r"
    by (simp_all add: fun_eq_iff t_ret_def t_lift_def act_simps)
  show "task_run (t_bnd t f) = bnd (task_run t) (\<lambda>x. task_run (f x))"
    by (simp add: fun_eq_iff t_bnd_def task_run_bind bnd_def split: prod.split sum.split)
  show "task_run (t_get E k) = db_get E k"
    by (simp add: fun_eq_iff t_get_def split: prod.split)
  show "task_run (t_put E k v) = db_put E k v" "task_run (t_modify g) = modify g" "task_run (t_gets h) = gets h"
    by (auto simp: fun_eq_iff t_put_def t_modify_def t_gets_def act_simps split: prod.split sum.split)
qed

lemma task_run_map [simp]: "task_run (t_map f xs) = mapA (\<lambda>x. task_run (f x)) xs"
  by (induction xs) simp_all

section \<open>The handlers as tasks\<close>

definition id_req_store :: "('db, 'e) master_env_scheme \<Rightarrow> string \<Rightarrow> id_req \<Rightarrow> string \<Rightarrow> ('db master_state, stid_type res) task" where
  "id_req_store E remote req json =
     t_bnd (t_lift (MetaOnStoragesItem_deserialize (env_boost E) json)) (\<lambda>mos.
     (let si = StorageItem_make (MetaOnStoragesItem_count_get mos) remote (id_req_port req) (id_req_avspace req) in
      t_bnd (t_put E (storage_key (unat (StorageItem_id_get si))) (StorageItem_serialize si)) (\<lambda>_.
      (let mos = MetaOnStoragesItem_count_set (MetaOnStoragesItem_count_get mos + 1) mos;
           mos = available_space_set (MetaOnStoragesItem_available_space_get mos + ucast (id_req_avspace req)) mos
       in t_bnd (t_put E ''storages'' (MetaOnStoragesItem_serialize mos)) (\<lambda>_.
          t_ret (StorageItem_id_get si))))))"

definition id_req_task :: "('db, 'e) master_env_scheme \<Rightarrow> string \<Rightarrow> id_req \<Rightarrow> ('db master_state, stid_type res) task" where
  "id_req_task E remote req = t_bnd (t_get E ''storages'') (id_req_store E remote req)"

definition all_storages_task :: "('db, 'e) master_env_scheme \<Rightarrow> ('db master_state, StorageItem list res) task" where
  "all_storages_task E =
     t_bnd (t_get E ''storages'') (\<lambda>json.
     t_bnd (t_lift (MetaOnStoragesItem_deserialize (env_boost E) json)) (\<lambda>mos.
     t_bnd (t_map (\<lambda>i. t_bnd (t_get E (storage_key i)) (\<lambda>json. t_lift (StorageItem_deserialize (env_boost E) json)))
               [0..<unat (MetaOnStoragesItem_count_get mos)]) (\<lambda>storages.
     t_bnd (t_modify (\<lambda>w. w\<lparr>iterator_initialized := False\<rparr>)) (\<lambda>_. t_ret storages))))"

text \<open>
  What \<^verbatim>\<open>sm_part_ack\<close> does to the database: the result is where the part is, and the storages when
  it is to be replicated.
\<close>

definition part_ack_task :: "('db, 'e) master_env_scheme \<Rightarrow> part_ack \<Rightarrow> ('db master_state, (stid_type list \<times> StorageItem list option) res) task" where
  "part_ack_task E req =
     t_bnd (t_get E ''files'') (\<lambda>json.
     t_bnd (t_lift (MetaOnFilesItem_deserialize (env_boost E) json)) (\<lambda>mof.
     t_bnd (t_lift (file_name_by_id mof (partid_fid (part_ack_partid req)))) (\<lambda>fname.
     t_bnd (t_get E (file_key fname)) (\<lambda>json.
     t_bnd (t_lift (FileItem_deserialize (env_boost E) json)) (\<lambda>fi.
     t_bnd (t_lift (record_part req fi)) (\<lambda>(fi, it).
     t_bnd (t_lift (FileItem_serialize fi)) (\<lambda>s.
     t_bnd (t_put E (file_key fname) s) (\<lambda>_.
     if unat (redundancy_get fi) \<le> length (locations_get (parts_get fi ! it))
     then t_ret (locations_get (parts_get fi ! it), None)
     else t_bnd (all_storages_task E) (\<lambda>storages. t_ret (locations_get (parts_get fi ! it), Some storages))))))))))"

text \<open>Alone they are the handlers of \<open>Master\<close>.\<close>

lemma id_req_task_run:
  assumes "front_data packet = Inr (enc_id_req req @ rest)"
  shows "sm_id_req E packet (s, w) = (case task_run (id_req_task E (ses_remote s) req) w of
      (Inl f, w1) \<Rightarrow> (Inl f, (s, w1))
    | (Inr i, w1) \<Rightarrow> (Inr KA_No, (answered (id_answer i) s, w1)))"
proof -
  have view: "view sizeof_id_req dec_id_req (enc_id_req req @ rest) = Inr req"
    by (rule id_req.view_enc) simp
  show ?thesis
    by (simp add: sm_id_req_def id_req_task_def id_req_store_def bnd_run lift_res_run gets_run on_world_run assms view Let_def
        blocking_send_answered id_answer_def ret_run split: prod.split sum.split)
qed

lemma part_ack_task_run:
  assumes "front_data packet = Inr (enc_part_ack req @ rest)"
  shows "sm_part_ack E packet (s, w) = (case task_run (part_ack_task E req) w of
      (Inl f, w1) \<Rightarrow> (Inl f, (s, w1))
    | (Inr (locations, None), w1) \<Rightarrow> bnd (send_ack packet success) (\<lambda>_. ret KA_No) (s, w1)
    | (Inr (locations, Some storages), w1) \<Rightarrow>
        bnd (replicate_to (env_net E) req locations (env_shuffle E storages)) (\<lambda>_. ret KA_No) (s, w1))"
proof -
  have view: "view sizeof_part_ack dec_part_ack (enc_part_ack req @ rest) = Inr req"
    by (rule part_ack.view_enc) simp
  have all: "task_run (all_storages_task E) = get_all_storages E"
    by (simp add: all_storages_task_def get_all_storages_def)
  show ?thesis
    by (simp add: sm_part_ack_def part_ack_task_def bnd_run lift_res_run on_world_run assms view all ret_run
        split: prod.split sum.split)
qed

section \<open>Threads\<close>

text \<open>The next command of a task, if it is one.\<close>

primrec advance :: "('w, 'a) task \<Rightarrow> 'w \<Rightarrow> (('w, 'a) task \<times> 'w) option" where
  "advance (Done x) w = None"
| "advance (Atomic c k) w = (case c w of (r, w1) \<Rightarrow> Some (k r, w1))"
| "advance (Read k) w = Some (k w, w)"
| "advance (Acquire t) w = None"
| "advance (Release t) w = None"

lemma advance_bind: "advance t w = Some (t1, w1) \<Longrightarrow> advance (task_bind t f) w = Some (task_bind t1 f, w1)"
  by (cases t) (auto split: prod.splits)

lemma advance_held:
  "advance (task_bind t (\<lambda>x. Release (Done x))) w = Some (u, w1) \<Longrightarrow>
   \<exists>t1. advance t w = Some (t1, w1) \<and> u = task_bind t1 (\<lambda>x. Release (Done x))"
  by (cases t) (auto split: prod.splits)

text \<open>
  The tasks of the threads, the thread that has the mutex, and the world they share. One step is
  one thread's next command, or its taking the mutex when it is free, or its giving it back.
\<close>

type_synonym ('w, 'a) threads = "('w, 'a) task list \<times> nat option \<times> 'w"

inductive thread_step :: "('w, 'a) threads \<Rightarrow> ('w, 'a) threads \<Rightarrow> bool" where
  command: "i < length ts \<Longrightarrow> advance (ts ! i) w = Some (t1, w1) \<Longrightarrow> thread_step (ts, l, w) (ts[i := t1], l, w1)"
| acquire: "i < length ts \<Longrightarrow> ts ! i = Acquire t \<Longrightarrow> thread_step (ts, None, w) (ts[i := t], Some i, w)"
| release: "i < length ts \<Longrightarrow> ts ! i = Release t \<Longrightarrow> thread_step (ts, l, w) (ts[i := t], None, w)"

inductive threads_reach :: "('w, 'a) threads \<Rightarrow> ('w, 'a) threads \<Rightarrow> bool" where
  here: "threads_reach c c"
| further: "threads_reach c c1 \<Longrightarrow> thread_step c1 c2 \<Longrightarrow> threads_reach c c2"

definition all_done :: "('w, 'a) threads \<Rightarrow> bool" where
  "all_done c \<longleftrightarrow> (\<forall>t \<in> set (fst c). \<exists>x. t = Done x)"

text \<open>\<^verbatim>\<open>std::lock_guard\<close> around a body: however it ends, the mutex is given back.\<close>

definition locked :: "('w, 'a) task \<Rightarrow> ('w, 'a) task" where
  "locked t = Acquire (task_bind t (\<lambda>x. Release (Done x)))"

primrec lock_free :: "('w, 'a) task \<Rightarrow> bool" where
  "lock_free (Done x) = True"
| "lock_free (Atomic c k) = (\<forall>r. lock_free (k r))"
| "lock_free (Read k) = (\<forall>w. lock_free (k w))"
| "lock_free (Acquire t) = False"
| "lock_free (Release t) = False"

lemma advance_run:
  assumes "advance t w = Some (t1, w1)"
  shows "task_run t w = task_run t1 w1" "lock_free t \<Longrightarrow> lock_free t1"
  using assms by (cases t; auto split: prod.splits)+

lemma advance_lock_free: "lock_free t \<Longrightarrow> (\<exists>x. t = Done x) \<or> (\<exists>t1 w1. advance t w = Some (t1, w1))"
  by (cases t) (auto split: prod.splits)

lemma lock_free_bind: "lock_free t \<Longrightarrow> (\<And>x. lock_free (f x)) \<Longrightarrow> lock_free (task_bind t f)"
  by (induction t) auto

lemma lock_free_tasks [simp]:
  "lock_free (t_ret x)" "lock_free (t_lift r)" "lock_free (t_get E k)" "lock_free (t_put E k v)" "lock_free (t_modify g)"
  "lock_free (t_gets h)"
  "lock_free t \<Longrightarrow> (\<And>x. lock_free (f x)) \<Longrightarrow> lock_free (t_bnd t f)"
  by (auto simp: t_ret_def t_lift_def t_get_def t_put_def t_modify_def t_gets_def t_bnd_def intro!: lock_free_bind split: sum.split)

lemma lock_free_map [simp]: "(\<And>x. lock_free (f x)) \<Longrightarrow> lock_free (t_map f xs)"
  by (induction xs) simp_all

text \<open>Bodies that run one after the other.\<close>

fun serial :: "(nat \<Rightarrow> ('w, 'a) task) \<Rightarrow> nat list \<Rightarrow> 'w \<Rightarrow> (nat \<times> 'a) list \<times> 'w" where
  "serial b [] w = ([], w)"
| "serial b (i # is) w =
     (let (r, w1) = task_run (b i) w; (rs, w2) = serial b is w1 in ((i, r) # rs, w2))"

lemma serial_snoc:
  "serial b (is @ [i]) w =
     (let (rs, w1) = serial b is w; (r, w2) = task_run (b i) w1 in (rs @ [(i, r)], w2))"
  by (induction "is" arbitrary: w) (simp_all split: prod.split)

lemma serial_fst: "map fst (fst (serial b is w)) = is"
  by (induction "is" arbitrary: w) (simp_all add: case_prod_beta Let_def)

text \<open>
  The invariant: the bodies of \<open>ds\<close> have run, in this order; the thread with the mutex, if any, is
  somewhere in its body; the others have not begun.
\<close>

definition serialised :: "(nat \<Rightarrow> ('w, 'a) task) \<Rightarrow> nat \<Rightarrow> 'w \<Rightarrow> ('w, 'a) threads \<Rightarrow> nat list \<Rightarrow> bool" where
  "serialised b n w0 c ds \<longleftrightarrow> (case c of (ts, l, w) \<Rightarrow>
     length ts = n \<and> distinct ds \<and> set ds \<subseteq> {..<n}
     \<and> (\<forall>(i, r) \<in> set (fst (serial b ds w0)). ts ! i = Done r)
     \<and> (\<forall>i < n. i \<notin> set ds \<longrightarrow> l \<noteq> Some i \<longrightarrow> ts ! i = locked (b i))
     \<and> (case l of
          None \<Rightarrow> w = snd (serial b ds w0)
        | Some i \<Rightarrow> i < n \<and> i \<notin> set ds
            \<and> (\<exists>t. lock_free t \<and> ts ! i = task_bind t (\<lambda>x. Release (Done x)) \<and> task_run t w = task_run (b i) (snd (serial b ds w0)))))"

lemma serialised_at:
  assumes "serialised b n w0 (ts, l, w) ds" "i < n"
  shows "(i \<in> set ds \<and> (\<exists>r. ts ! i = Done r)) \<or> (i \<notin> set ds \<and> l \<noteq> Some i \<and> ts ! i = locked (b i))
    \<or> (i \<notin> set ds \<and> l = Some i \<and> (\<exists>t. lock_free t \<and> ts ! i = task_bind t (\<lambda>x. Release (Done x))
         \<and> task_run t w = task_run (b i) (snd (serial b ds w0))))"
proof (cases "i \<in> set ds")
  case True
  then have "i \<in> fst ` set (fst (serial b ds w0))" using serial_fst [of b ds w0] by (metis set_map)
  then obtain r where "(i, r) \<in> set (fst (serial b ds w0))" by auto
  then show ?thesis using True assms(1) by (auto simp: serialised_def)
next
  case False
  then show ?thesis using assms by (cases l) (auto simp: serialised_def)
qed

lemma serialised_update:
  assumes "serialised b n w0 (ts, l, w) ds" "i < n" "i \<notin> set ds"
  shows "length (ts[i := t]) = n"
    "\<forall>(j, r) \<in> set (fst (serial b ds w0)). ts[i := t] ! j = Done r"
    "\<forall>j < n. j \<notin> set ds \<longrightarrow> l \<noteq> Some j \<longrightarrow> j \<noteq> i \<longrightarrow> ts[i := t] ! j = locked (b j)"
proof -
  have "j \<noteq> i" if "(j, r) \<in> set (fst (serial b ds w0))" for j r
  proof -
    have "j \<in> set (map fst (fst (serial b ds w0)))" using that by force
    then show ?thesis using assms(3) by (auto simp: serial_fst)
  qed
  then show "\<forall>(j, r) \<in> set (fst (serial b ds w0)). ts[i := t] ! j = Done r"
    using assms(1,2) by (fastforce simp: serialised_def)
qed (use assms in \<open>auto simp: serialised_def\<close>)

lemma serialised_step:
  assumes "thread_step c c1" "serialised b n w0 c ds" "\<forall>i < n. lock_free (b i)"
  shows "\<exists>ds1. serialised b n w0 c1 ds1"
  using assms(1,2)
proof (cases rule: thread_step.cases)
  case (command i ts w t1 w1 l)
  have inv: "serialised b n w0 (ts, l, w) ds" using assms(2) command(1) by simp
  have i: "i < n" using inv command(3) by (simp add: serialised_def)
  obtain t where t: "i \<notin> set ds" "l = Some i" "lock_free t" "ts ! i = task_bind t (\<lambda>x. Release (Done x))"
    "task_run t w = task_run (b i) (snd (serial b ds w0))"
    using serialised_at [OF inv i] command(4) by (auto simp: locked_def)
  then obtain t2 where t2: "advance t w = Some (t2, w1)" "t1 = task_bind t2 (\<lambda>x. Release (Done x))"
    using command(4) advance_held by metis
  have "lock_free t2" "task_run t2 w1 = task_run (b i) (snd (serial b ds w0))"
    using advance_run [OF t2(1)] t(3,5) by simp_all
  then have "serialised b n w0 (ts[i := t1], l, w1) ds"
    using serialised_update [OF inv i t(1), of t1] t(1,2) t2(2) i inv
    by (auto simp: serialised_def)
  then show ?thesis using command(2) by blast
next
  case (acquire i ts t w)
  have inv: "serialised b n w0 (ts, None, w) ds" using assms(2) acquire(1) by simp
  have i: "i < n" using inv acquire(3) by (simp add: serialised_def)
  have t: "i \<notin> set ds" "t = task_bind (b i) (\<lambda>x. Release (Done x))"
    using serialised_at [OF inv i] acquire(4) by (auto simp: locked_def)
  have w: "w = snd (serial b ds w0)" using inv by (simp add: serialised_def)
  have "serialised b n w0 (ts[i := t], Some i, w) ds"
    using serialised_update [OF inv i t(1), of t] t i w assms(3) inv by (auto simp: serialised_def)
  then show ?thesis using acquire(2) by blast
next
  case (release i ts t l w)
  have inv: "serialised b n w0 (ts, l, w) ds" using assms(2) release(1) by simp
  have i: "i < n" using inv release(3) by (simp add: serialised_def)
  obtain u where u: "i \<notin> set ds" "l = Some i" "lock_free u" "ts ! i = task_bind u (\<lambda>x. Release (Done x))"
    "task_run u w = task_run (b i) (snd (serial b ds w0))"
    using serialised_at [OF inv i] release(4) by (auto simp: locked_def)
  then obtain x where x: "u = Done x" "t = Done x" using release(4) by (cases u) auto
  obtain rs wd where s: "serial b ds w0 = (rs, wd)" by (cases "serial b ds w0")
  have run: "task_run (b i) wd = (x, w)" using u(5) x(1) s by simp
  have "serialised b n w0 (ts[i := t], None, w) (ds @ [i])"
    using serialised_update [OF inv i u(1), of t] u(1,2) x(2) i s run inv
    by (auto simp: serialised_def serial_snoc)
  then show ?thesis using release(2) by blast
qed

lemma serialised_reach:
  assumes "threads_reach c c1" "c = (map (\<lambda>i. locked (b i)) [0..<n], None, w0)" "\<forall>i < n. lock_free (b i)"
  shows "\<exists>ds. serialised b n w0 c1 ds"
  using assms(1,2)
proof (induction rule: threads_reach.induct)
  case (here c)
  then show ?case by (intro exI [of _ "[]"]) (simp add: serialised_def)
next
  case (further c c1 c2)
  then show ?case using serialised_step [OF further.hyps(2) _ assms(3)] by blast
qed

text \<open>Bodies under one mutex: whatever the schedule, they have run one after the other.\<close>

lemma locked_bodies_serialise:
  assumes "threads_reach (map (\<lambda>i. locked (b i)) [0..<n], None, w0) (ts, l, w)" "all_done (ts, l, w)" "\<forall>i < n. lock_free (b i)"
  shows "\<exists>ds. mset ds = mset [0..<n] \<and> w = snd (serial b ds w0) \<and> l = None
    \<and> (\<forall>(i, r) \<in> set (fst (serial b ds w0)). ts ! i = Done r)"
proof -
  obtain ds where inv: "serialised b n w0 (ts, l, w) ds" using serialised_reach [OF assms(1) refl assms(3)] by blast
  have len: "length ts = n" using inv by (simp add: serialised_def)
  have finished: "\<exists>r. ts ! i = Done r" if "i < n" for i
    using assms(2) that len by (simp add: all_done_def)
  have all: "i \<in> set ds" if "i < n" for i
  proof -
    note finished [OF that]
    then obtain r where r: "ts ! i = Done r" by blast
    have "Done r \<noteq> task_bind t (\<lambda>x. Release (Done x))" for t by (cases t) simp_all
    then show ?thesis using serialised_at [OF inv that] r by (auto simp: locked_def)
  qed
  have "l = None" using inv all by (auto simp: serialised_def split: option.splits)
  moreover have "set ds = {..<n}" "distinct ds" using inv all by (auto simp: serialised_def)
  then have "mset ds = mset [0..<n]" by (simp add: set_eq_iff_mset_eq_distinct [symmetric, of ds "[0..<n]", simplified] lessThan_atLeast0)
  ultimately show ?thesis using inv by (auto simp: serialised_def)
qed

text \<open>Threads under one mutex are never stuck.\<close>

lemma locked_never_stuck:
  assumes "threads_reach (map (\<lambda>i. locked (b i)) [0..<n], None, w0) c" "\<not> all_done c" "\<forall>i < n. lock_free (b i)"
  shows "\<exists>c1. thread_step c c1"
proof -
  obtain ts l w where c: "c = (ts, l, w)" by (cases c) auto
  obtain ds where inv: "serialised b n w0 (ts, l, w) ds" using serialised_reach [OF assms(1) refl assms(3)] c by blast
  have len: "length ts = n" using inv by (simp add: serialised_def)
  show ?thesis
  proof (cases l)
    case None
    obtain i where i: "i < n" "\<forall>x. ts ! i \<noteq> Done x" using assms(2) c len by (auto simp: all_done_def in_set_conv_nth)
    then have "ts ! i = Acquire (task_bind (b i) (\<lambda>x. Release (Done x)))"
      using serialised_at [OF inv i(1)] None by (auto simp: locked_def)
    then show ?thesis using thread_step.acquire [of i ts] i(1) len c None by blast
  next
    case (Some i)
    then obtain t where t: "i < n" "lock_free t" "ts ! i = task_bind t (\<lambda>x. Release (Done x))"
      using inv by (auto simp: serialised_def)
    show ?thesis
    proof (cases "\<exists>x. t = Done x")
      case True
      then show ?thesis using thread_step.release [of i ts] t len c by (metis task_bind.simps(1))
    next
      case False
      then obtain t1 w1 where "advance t w = Some (t1, w1)" using advance_lock_free [OF t(2)] by blast
      from advance_bind [OF this] show ?thesis using thread_step.command [of i ts w] t len c by metis
    qed
  qed
qed

section \<open>Acknowledged parts on several threads\<close>

lemma part_ack_task_world:
  assumes "env_ok E" "mst_database w = Some db"
    and "represents (env_boost E) (store_of E db) cat" "cat_ok cat"
    and "unat (partid_fid (part_ack_partid req)) < length (cat_files cat)"
  shows "\<exists>db'. mst_database (snd (task_run (part_ack_task E req) w)) = Some db'
    \<and> represents (env_boost E) (store_of E db') (cat_add_part req cat) \<and> cat_ok (cat_add_part req cat)"
proof -
  let ?p = "packet_of_message s_m_fromto sm_part_ack_w (enc_part_ack req)" and ?s = "session_create 0 [] []"
  have p: "front_data ?p = Inr (enc_part_ack req @ [])" "fromto_get ?p = s_m_fromto"
    by (simp_all add: packet_of_message_def front_data_def message_seq_get_def mk_header_def fromto_get_def)
  obtain r s' w' db' where run: "sm_part_ack E ?p (?s, w) = (r, (s', w'))" "mst_database w' = Some db'"
    "represents (env_boost E) (store_of E db') (cat_add_part req cat)" "cat_ok (cat_add_part req cat)"
    using part_ack_run [OF assms p, of ?s] by blast
  obtain x w1 where task: "task_run (part_ack_task E req) w = (x, w1)" by (cases "task_run (part_ack_task E req) w")
  have "w1 = w'"
  proof (cases x)
    case (Inl f)
    then show ?thesis using part_ack_task_run [OF p(1), of E ?s w] run(1) task by simp
  next
    case (Inr y)
    obtain locations sts where y: "y = (locations, sts)" by (cases y)
    show ?thesis
    proof (cases sts)
      case None
      then show ?thesis
        using part_ack_task_run [OF p(1), of E ?s w] run(1) task Inr y p(2) by (simp add: bnd_run ret_run send_ack_run)
    next
      case (Some storages)
      obtain r2 s2 where "bnd (replicate_to (env_net E) req locations (env_shuffle E storages)) (\<lambda>_. ret KA_No) (?s, w1) = (r2, (s2, w1))"
        by (rule replicate_to_run)
      then show ?thesis using part_ack_task_run [OF p(1), of E ?s w] run(1) task Inr y Some by simp
    qed
  qed
  then show ?thesis using task run(2-4) by auto
qed

lemma serial_part_acks:
  assumes "env_ok E"
  shows "mst_database w = Some db \<Longrightarrow> represents (env_boost E) (store_of E db) cat \<Longrightarrow> cat_ok cat \<Longrightarrow>
    list_all (\<lambda>i. unat (partid_fid (part_ack_partid (reqs i))) < length (cat_files cat)) is \<Longrightarrow>
    \<exists>db'. mst_database (snd (serial (\<lambda>i. part_ack_task E (reqs i)) is w)) = Some db'
      \<and> represents (env_boost E) (store_of E db') (foldl (\<lambda>cat req. cat_add_part req cat) cat (map reqs is))
      \<and> cat_ok (foldl (\<lambda>cat req. cat_add_part req cat) cat (map reqs is))"
proof (induction "is" arbitrary: w db cat)
  case Nil
  then show ?case by auto
next
  case (Cons i "is")
  then have i: "unat (partid_fid (part_ack_partid (reqs i))) < length (cat_files cat)" by simp
  obtain db1 where db1: "mst_database (snd (task_run (part_ack_task E (reqs i)) w)) = Some db1"
    "represents (env_boost E) (store_of E db1) (cat_add_part (reqs i) cat)" "cat_ok (cat_add_part (reqs i) cat)"
    using part_ack_task_world [OF assms Cons.prems(1-3) i] by blast
  have "list_all (\<lambda>j. unat (partid_fid (part_ack_partid (reqs j))) < length (cat_files (cat_add_part (reqs i) cat))) is"
    using Cons.prems(4) unfolding cat_add_part_maps(4) [OF i] by simp
  then show ?case using Cons.IH [OF db1] cat_add_part_maps(4) [OF i] Cons.prems(4) by (simp add: case_prod_beta Let_def)
qed

lemma part_ack_lock_free: "lock_free (part_ack_task E req)"
  unfolding part_ack_task_def all_storages_task_def
  by (auto intro!: lock_free_tasks(7) split: prod.split)

text \<open>
  C14: Storages may acknowledge parts at the same time on any threads of the master. The mutex
  of \<^verbatim>\<open>sm_part_ack\<close> makes up for the database's reads and writes being separate commands: under
  every schedule some thread can go on until all are done, and then the catalogue is the one
  with all the acknowledgements entered one after the other, in some order; none is lost.
\<close>

theorem part_acks_serialise:
  assumes "env_ok E" "mst_database w = Some db"
    and "represents (env_boost E) (store_of E db) cat" "cat_ok cat"
    and "list_all (\<lambda>req. unat (partid_fid (part_ack_partid req)) < length (cat_files cat)) reqs"
    and "threads_reach (map (\<lambda>req. locked (part_ack_task E req)) reqs, None, w) (ts, l, w1)"
  shows "if all_done (ts, l, w1)
    then \<exists>order db1. mset order = mset reqs \<and> mst_database w1 = Some db1
      \<and> represents (env_boost E) (store_of E db1) (foldl (\<lambda>cat req. cat_add_part req cat) cat order)
    else \<exists>c. thread_step (ts, l, w1) c"
proof -
  let ?b = "\<lambda>i. part_ack_task E (reqs ! i)"
  have "map (\<lambda>req. locked (part_ack_task E req)) reqs = map (\<lambda>i. locked (?b i)) [0..<length reqs]"
    by (rule nth_equalityI) simp_all
  then have reach: "threads_reach (map (\<lambda>i. locked (?b i)) [0..<length reqs], None, w) (ts, l, w1)" using assms(6) by simp
  have free: "\<forall>i < length reqs. lock_free (?b i)" by (simp add: part_ack_lock_free)
  show ?thesis
  proof (cases "all_done (ts, l, w1)")
    case True
    obtain ds where ds: "mset ds = mset [0..<length reqs]" "w1 = snd (serial ?b ds w)"
      using locked_bodies_serialise [OF reach True free] by blast
    have "set ds = set [0..<length reqs]" by (rule mset_eq_setD [OF ds(1)])
    then have "list_all (\<lambda>i. unat (partid_fid (part_ack_partid (reqs ! i))) < length (cat_files cat)) ds"
      using assms(5) by (auto simp: list_all_iff)
    from serial_part_acks [OF assms(1-4) this] obtain db1 where "mst_database w1 = Some db1"
      "represents (env_boost E) (store_of E db1) (foldl (\<lambda>cat req. cat_add_part req cat) cat (map ((!) reqs) ds))"
      using ds(2) by blast
    moreover have "mset (map ((!) reqs) ds) = mset reqs" using ds(1) by (metis map_nth mset_map)
    ultimately show ?thesis using True by meson
  next
    case False
    then show ?thesis using locked_never_stuck [OF reach False free] by simp
  qed
qed

text \<open>A part of a task that does not take or give back the mutex can run without a break.\<close>

lemma run_through:
  "lock_free t \<Longrightarrow> threads_reach c (ts[i := task_bind t f], l, w) \<Longrightarrow> i < length ts \<Longrightarrow>
   threads_reach c (ts[i := f (fst (task_run t w))], l, snd (task_run t w))"
proof (induction t arbitrary: w)
  case (Atomic com k)
  obtain r w1 where run: "com w = (r, w1)" by (cases "com w")
  have "thread_step (ts[i := task_bind (Atomic com k) f], l, w) (ts[i := task_bind (k r) f], l, w1)"
    using thread_step.command [of i "ts[i := task_bind (Atomic com k) f]" w "task_bind (k r) f" w1 l] Atomic.prems(3) run by simp
  from threads_reach.further [OF Atomic.prems(2) this]
  have "threads_reach c (ts[i := task_bind (k r) f], l, w1)" .
  then show ?case using Atomic.IH [OF rangeI, of r w1] Atomic.prems(1,3) run by simp
next
  case (Read k)
  have "thread_step (ts[i := task_bind (Read k) f], l, w) (ts[i := task_bind (k w) f], l, w)"
    using thread_step.command [of i "ts[i := task_bind (Read k) f]" w "task_bind (k w) f" w l] Read.prems(3) by simp
  from threads_reach.further [OF Read.prems(2) this]
  have "threads_reach c (ts[i := task_bind (k w) f], l, w)" .
  then show ?case using Read.IH [OF rangeI, of w w] Read.prems(1,3) by simp
qed simp_all

lemma finish_locked:
  assumes "lock_free t" "threads_reach c (ts, None, w)" "i < length ts" "ts ! i = locked t"
  shows "threads_reach c (ts[i := Done (fst (task_run t w))], None, snd (task_run t w))"
proof -
  have "threads_reach c (ts[i := task_bind t (\<lambda>x. Release (Done x))], Some i, w)"
    using threads_reach.further [OF assms(2)] thread_step.acquire [of i ts] assms(3,4) by (simp add: locked_def)
  from run_through [OF assms(1) this assms(3)]
  have "threads_reach c (ts[i := Release (Done (fst (task_run t w)))], Some i, snd (task_run t w))" .
  from threads_reach.further [OF this] thread_step.release [of i "ts[i := Release (Done (fst (task_run t w)))]"]
  show ?thesis using assms(3) by fastforce
qed

text \<open>Two storages acknowledge the two parts of the file of the sample.\<close>

definition sample_acks :: "part_ack list" where
  "sample_acks = map (\<lambda>j. \<lparr>part_ack_stid = 0, part_ack_partid = \<lparr>partid_fid = 0, partid_partnum = j\<rparr>, part_ack_avspace = 10\<rparr>) [0, 1]"

lemma part_acks_serialise_witness:
  "\<exists>c w1 db1 order. threads_reach (map (\<lambda>req. locked (part_ack_task sample_env req)) sample_acks, None, fresh_state (Some (file_db 1 []))) c
    \<and> all_done c \<and> snd (snd c) = w1 \<and> mst_database w1 = Some db1 \<and> mset order = mset sample_acks
    \<and> represents (env_boost sample_env) (store_of sample_env db1) (foldl (\<lambda>cat req. cat_add_part req cat) (one_file 1 []) order)"
proof -
  let ?w = "fresh_state (Some (file_db 1 []))" and ?t = "\<lambda>i. part_ack_task sample_env (sample_acks ! i)"
  let ?ts = "map (\<lambda>req. locked (part_ack_task sample_env req)) sample_acks"
  have ok: "list_all PartItem_ok []" by simp
  have fids: "list_all (\<lambda>req. unat (partid_fid (part_ack_partid req)) < length (cat_files (one_file 1 []))) sample_acks"
    by (simp add: sample_acks_def one_file_def)
  have ts: "?ts = [locked (?t 0), locked (?t 1)]" by (simp add: sample_acks_def)
  obtain x0 w0 where run0: "task_run (?t 0) ?w = (x0, w0)" by (cases "task_run (?t 0) ?w")
  obtain x1 w1 where run1: "task_run (?t 1) w0 = (x1, w1)" by (cases "task_run (?t 1) w0")
  have "threads_reach (?ts, None, ?w) ([Done x0, locked (?t 1)], None, w0)"
    using finish_locked [of "?t 0" "(?ts, None, ?w)" ?ts ?w 0] threads_reach.here [of "(?ts, None, ?w)"] run0
    unfolding ts by (simp add: part_ack_lock_free)
  from finish_locked [OF part_ack_lock_free this, of 1 sample_env "sample_acks ! 1"]
  have reach: "threads_reach (?ts, None, ?w) ([Done x0, Done x1], None, w1)" using run1 by simp
  have fin: "all_done ([Done x0, Done x1], None :: nat option, w1)" by (simp add: all_done_def)
  from part_acks_serialise [OF sample_env_ok file_state(1-3) [OF ok] fids reach] fin reach show ?thesis
    by (intro exI [of _ "([Done x0, Done x1], None, w1)"]) auto
qed

end
