(* ===== verification/Collisions.thy ===== *)
theory Collisions
  imports Interleaving
begin

text \<open>
  Handlers without a mutex. \<^verbatim>\<open>sm_id_req\<close> and \<^verbatim>\<open>create_new_file\<close> read a counter and write it back in
  separate commands. When two threads both read before either writes, both go on with the
  same number. This theory has \<^verbatim>\<open>create_new_file\<close> as a task and shows both collisions.
\<close>

section \<open>Two threads that read first\<close>

text \<open>Each thread reads (\<open>a\<close>, \<open>b\<close>) and goes on with what it read; the second reads before the first goes on.\<close>

lemma both_read_first:
  assumes "lock_free a" "task_run a w = (Inr x, w)" "lock_free b" "task_run b w = (Inr y, w)"
    and "lock_free (f x)" "task_run (f x) w = (r1, w1)" "lock_free (g y)" "task_run (g y) w1 = (r2, w2)"
  shows "threads_reach ([t_bnd a f, t_bnd b g], None, w) ([Done r1, Done r2], None, w2)"
proof -
  let ?c = "([t_bnd a f, t_bnd b g], None, w)"
  have "threads_reach ?c ([f x, t_bnd b g], None, w)"
    using run_through [OF assms(1), of ?c "[t_bnd a f, t_bnd b g]" 0 _ None w] threads_reach.here [of ?c] assms(2)
    by (fastforce simp: t_bnd_def)
  then have "threads_reach ?c ([f x, g y], None, w)"
    using run_through [OF assms(3), of ?c "[f x, t_bnd b g]" 1 _ None w] assms(4) by (fastforce simp: t_bnd_def)
  then have "threads_reach ?c ([Done r1, g y], None, w1)"
    using run_through [OF assms(5), of ?c "[f x, g y]" 0 Done None w] assms(6) by (simp add: task_bind_Done)
  then show ?thesis
    using run_through [OF assms(7), of ?c "[Done r1, g y]" 1 Done None w1] assms(8) by (simp add: task_bind_Done)
qed

section \<open>Identifiers of storages\<close>

text \<open>What is written, whatever the database holds by then.\<close>

lemma id_req_store_run:
  assumes "env_ok E" "mst_database w = Some db" "length (cat_storages cat) + 1 < 2 ^ 32"
    and "MetaOnStoragesItem_deserialize (env_boost E) json = Inr (storages_doc cat)"
  obtains db1 where
    "task_run (id_req_store E host req json) w = (Inr (word_of_nat (length (cat_storages cat))), w\<lparr>mst_database := Some db1\<rparr>)"
    "store_of E db1 = (store_of E db)(storage_key (length (cat_storages cat)) \<mapsto> StorageItem_serialize (storage_entry cat host req),
       ''storages'' \<mapsto> MetaOnStoragesItem_serialize (storages_doc (cat_add_storage host req cat)))"
proof -
  have n: "unat (word_of_nat (length (cat_storages cat)) :: stid_type) = length (cat_storages cat)"
    using assms(3) by (intro unat_word_of_nat_32) simp
  have cnt: "mos_count (storages_doc cat) = word_of_nat (length (cat_storages cat))"
    by (simp add: storages_doc_def MetaOnStoragesItem_make_def)
  have upd: "available_space_set (mos_available_space (storages_doc cat) + ucast (id_req_avspace req))
      (MetaOnStoragesItem_count_set (word_of_nat (length (cat_storages cat)) + 1) (storages_doc cat)) = storages_doc (cat_add_storage host req cat)"
    unfolding storages_doc_add cnt ..
  obtain d1 where d1: "db_put E (storage_key (length (cat_storages cat))) (StorageItem_serialize (storage_entry cat host req)) w
      = (Inr (), w\<lparr>mst_database := Some d1\<rparr>)"
    "store_of E d1 = (store_of E db)(storage_key (length (cat_storages cat)) \<mapsto> StorageItem_serialize (storage_entry cat host req))"
    using db_put_run [OF assms(1,2)] .
  obtain d2 where d2: "db_put E ''storages'' (MetaOnStoragesItem_serialize (storages_doc (cat_add_storage host req cat)))
      (w\<lparr>mst_database := Some d1\<rparr>) = (Inr (), w\<lparr>mst_database := Some d1\<rparr>\<lparr>mst_database := Some d2\<rparr>)"
    "store_of E d2 = (store_of E d1)(''storages'' \<mapsto> MetaOnStoragesItem_serialize (storages_doc (cat_add_storage host req cat)))"
    by (rule db_put_run [OF assms(1), of "w\<lparr>mst_database := Some d1\<rparr>" d1]) simp
  have "task_run (id_req_store E host req json) w = (Inr (word_of_nat (length (cat_storages cat))), w\<lparr>mst_database := Some d2\<rparr>)"
    using d1(1) d2(1)
    by (simp add: id_req_store_def act_simps assms(4) Let_def StorageItem_make_def StorageItem_id_get_def
        MetaOnStoragesItem_count_get_def MetaOnStoragesItem_available_space_get_def MetaOnStoragesItem_count_set_def
        cnt upd [unfolded MetaOnStoragesItem_count_set_def] n storage_entry_def)
  with d1(2) d2(2) show ?thesis by (intro that [of d2]) simp_all
qed

lemma id_req_store_lock_free: "lock_free (id_req_store E host req json)"
  unfolding id_req_store_def Let_def by (intro lock_free_tasks)

text \<open>
  Storages that ask for an identifier at the same time can be given the same one: the
  counter is read and written in separate commands with no mutex around them (the code
  has a note to use the compare and swap of the database). Under the schedule in which both
  threads read before either writes, both storages get the number the first should get, and the
  catalogue has only the second of them: the first is lost to the master.
\<close>

lemma concurrent_id_requests_collide:
  assumes "env_ok E" "mst_database w = Some db"
    and "represents (env_boost E) (store_of E db) cat" "length (cat_storages cat) + 1 < 2 ^ 32"
    and "plain host2"
  shows "\<exists>w1 db1. threads_reach ([id_req_task E host1 req1, id_req_task E host2 req2], None, w)
      ([Done (Inr (word_of_nat (length (cat_storages cat)))), Done (Inr (word_of_nat (length (cat_storages cat))))], None, w1)
    \<and> mst_database w1 = Some db1
    \<and> represents (env_boost E) (store_of E db1) (cat_add_storage host2 req2 cat)"
proof -
  let ?n = "length (cat_storages cat)"
  obtain json where json: "db_get E ''storages'' w = (Inr json, w)"
    "MetaOnStoragesItem_deserialize (env_boost E) json = Inr (storages_doc cat)"
    using db_reads [OF assms(2), of E "MetaOnStoragesItem_deserialize (env_boost E)"] assms(3) unfolding represents_def by blast
  obtain d1 where d1: "task_run (id_req_store E host1 req1 json) w = (Inr (word_of_nat ?n), w\<lparr>mst_database := Some d1\<rparr>)"
    "store_of E d1 = (store_of E db)(storage_key ?n \<mapsto> StorageItem_serialize (storage_entry cat host1 req1),
       ''storages'' \<mapsto> MetaOnStoragesItem_serialize (storages_doc (cat_add_storage host1 req1 cat)))"
    using id_req_store_run [OF assms(1,2,4) json(2)] .
  let ?w1 = "w\<lparr>mst_database := Some d1\<rparr>"
  have w1: "mst_database ?w1 = Some d1" by simp
  obtain d2 where d2: "task_run (id_req_store E host2 req2 json) ?w1 = (Inr (word_of_nat ?n), ?w1\<lparr>mst_database := Some d2\<rparr>)"
    "store_of E d2 = (store_of E d1)(storage_key ?n \<mapsto> StorageItem_serialize (storage_entry cat host2 req2),
       ''storages'' \<mapsto> MetaOnStoragesItem_serialize (storages_doc (cat_add_storage host2 req2 cat)))"
    using id_req_store_run [OF assms(1) w1 assms(4) json(2)] .
  have get: "lock_free (t_get E ''storages'')" "task_run (t_get E ''storages'') w = (Inr json, w)"
    using json(1) by simp_all
  note reach = both_read_first [where f = "id_req_store E host1 req1" and g = "id_req_store E host2 req2",
      OF get get id_req_store_lock_free d1(1) id_req_store_lock_free d2(1)]
  have "store_of E d2 = (store_of E db)(storage_key ?n \<mapsto> StorageItem_serialize (storage_entry cat host2 req2),
      ''storages'' \<mapsto> MetaOnStoragesItem_serialize (storages_doc (cat_add_storage host2 req2 cat)))"
    by (rule ext) (simp add: d1(2) d2(2))
  then have "represents (env_boost E) (store_of E d2) (cat_add_storage host2 req2 cat)"
    using represents_add_storage [OF env_okD(1) [OF assms(1)] assms(3,5), of req2] by simp
  with reach show ?thesis
    unfolding id_req_task_def by (intro exI [of _ "?w1\<lparr>mst_database := Some d2\<rparr>"] exI [of _ d2]) simp
qed

lemma concurrent_id_requests_collide_witness:
  "\<exists>w1. threads_reach ([id_req_task sample_env ''::1'' \<lparr>id_req_port = 7, id_req_avspace = 9\<rparr>,
        id_req_task sample_env ''::2'' \<lparr>id_req_port = 8, id_req_avspace = 9\<rparr>], None, fresh_state (Some start_db))
      ([Done (Inr 0), Done (Inr 0)], None, w1)"
proof -
  have rep: "represents (env_boost sample_env) (store_of sample_env start_db) no_catalogue"
    unfolding start_state(2) by (rule start_state(3))
  have "plain ''::2''" by (simp add: plain_char_def)
  from concurrent_id_requests_collide [OF sample_env_ok start_state(1) rep _ this, of "''::1''" "\<lparr>id_req_port = 7, id_req_avspace = 9\<rparr>"
      "\<lparr>id_req_port = 8, id_req_avspace = 9\<rparr>"]
  show ?thesis by auto
qed

section \<open>Identifiers of files\<close>

text \<open>\<^verbatim>\<open>create_new_file\<close> as a task: each lookup of the search is a command of its own.\<close>

function search_task :: "('db, 'e) master_env_scheme \<Rightarrow> string \<Rightarrow> 64 word \<Rightarrow> ('db master_state, 64 word res) task" where
  "search_task E name i = Atomic (db_get E (file_key (numbered_name name i))) (\<lambda>r. case r of
     Inl _ \<Rightarrow> Done (Inr i)
   | Inr _ \<Rightarrow> if i = - 1 then Done (Inl Looping) else search_task E name (i + 1))"
  by pat_completeness auto

termination
proof (relation "measure (\<lambda>(E, name, i). 2 ^ 64 - unat i)")
  fix E :: "('db, 'e) master_env_scheme" and name :: string and i :: "64 word"
  assume "i \<noteq> - 1"
  with unat_Suc_64 [of i] unat_lt [of "i + 1"]
  show "((E, name, i + 1), E, name, i) \<in> measure (\<lambda>(E, name, i). 2 ^ 64 - unat i)" by simp
qed simp

declare search_task.simps [simp del]

definition enter_file_task :: "('db, 'e) master_env_scheme \<Rightarrow> FileItem \<Rightarrow> string \<Rightarrow> ('db master_state, FileItem res) task" where
  "enter_file_task E fi json =
     t_bnd (t_lift (MetaOnFilesItem_deserialize (env_boost E) json)) (\<lambda>mof.
     (let fi = FileItem_id_set (MetaOnFilesItem_count_get mof) fi;
          mof = MetaOnFilesItem_count_set (MetaOnFilesItem_count_get mof + 1) mof;
          mof = total_size_set (total_size_get mof + ucast (file_size_get fi)) mof;
          mof = mof\<lparr>mof_name_by_id := emplace (FileItem_id_get fi) (name_get fi) (name_by_id_get mof)\<rparr>
      in t_bnd (t_lift (MetaOnFilesItem_serialize mof)) (\<lambda>s.
         t_bnd (t_put E ''files'' s) (\<lambda>_.
         t_bnd (t_lift (FileItem_serialize fi)) (\<lambda>s'.
         t_bnd (t_put E (file_key (name_get fi)) s') (\<lambda>_.
           t_ret fi))))))"

definition create_file_task :: "('db, 'e) master_env_scheme \<Rightarrow> FileItem \<Rightarrow> ('db master_state, FileItem res) task" where
  "create_file_task E fi =
     t_bnd (search_task E (name_get fi) 0) (\<lambda>i.
     t_bnd (t_get E ''files'') (enter_file_task E (name_set (numbered_name (name_get fi) i) fi)))"

lemma enter_file_task_run: "task_run (enter_file_task E fi json) = enter_file E fi json"
  by (simp add: enter_file_task_def enter_file_def Let_def)

lemma search_task_lock_free: "lock_free (search_task E name i)"
proof (induction E name i rule: search_task.induct)
  case (1 E name i)
  show ?case by (subst search_task.simps) (use 1 in \<open>auto split: sum.split\<close>)
qed

lemma search_task_run:
  "task_run (search_task E name i) w =
    (case first_free (\<lambda>i. name_taken E w (numbered_name name i)) i of None \<Rightarrow> Inl Looping | Some j \<Rightarrow> Inr j, w)"
proof (induction "\<lambda>i. name_taken E w (numbered_name name i)" i rule: first_free.induct)
  case (1 i)
  obtain r where r: "db_get E (file_key (numbered_name name i)) w = (r, w)"
    using db_get_keeps [of E "file_key (numbered_name name i)" w] by (metis prod.collapse)
  show ?case
    by (subst search_task.simps, subst first_free.simps)
      (use 1 in \<open>auto simp: r name_taken_def split: sum.split\<close>)
qed

text \<open>Alone it is \<open>create_new_file\<close>.\<close>

lemma create_file_task_run: "task_run (create_file_task E fi) = create_new_file E fi"
  by (rule ext) (simp add: create_file_task_def create_new_file_def bnd_run gets_run search_task_run enter_file_task_run
      raise_def split: option.split)

lemma enter_file_lock_free: "lock_free (enter_file_task E fi json)"
  unfolding enter_file_task_def Let_def by (intro lock_free_tasks)

text \<open>
  C15: Two uploads that are entered at the same time get the same file identifier: the search
  for a name and the counter of the files are read before, and written after, in separate
  commands with no mutex (the code has the same note here). Under the schedule in which both
  threads read before either writes, both clients are told the identifier the first should have;
  the metadata has only the second file under it, so the parts of the first are acknowledged to
  the second. If both files had the same name, the document of the first is overwritten, and
  the database is as if only the second had been uploaded.
\<close>

theorem concurrent_uploads_collide:
  assumes "env_ok E" "mst_database w = Some db"
    and "represents (env_boost E) (store_of E db) cat" "cat_ok cat"
    and "FileItem_ok fi1" "FileItem_ok fi2" "length (cat_files cat) + 1 < 2 ^ 64"
  shows "\<exists>w1 db1. threads_reach ([create_file_task E fi1, create_file_task E fi2], None, w)
      ([Done (Inr (file_entry cat fi1)), Done (Inr (file_entry cat fi2))], None, w1)
    \<and> fi_id (file_entry cat fi1) = fi_id (file_entry cat fi2)
    \<and> mst_database w1 = Some db1
    \<and> reads (store_of E db1) (MetaOnFilesItem_deserialize (env_boost E)) ''files'' (files_doc (cat_add_file fi2 cat))
    \<and> reads (store_of E db1) (FileItem_deserialize (env_boost E)) (file_key (fi_name (file_entry cat fi2))) (file_entry cat fi2)
    \<and> (fi_name fi1 = fi_name fi2 \<longrightarrow> represents (env_boost E) (store_of E db1) (cat_add_file fi2 cat))"
proof -
  let ?named = "\<lambda>fi. name_set (numbered_name (fi_name fi) (fresh_number cat (fi_name fi))) fi"
  let ?read = "\<lambda>fi. t_bnd (search_task E (fi_name fi) 0) (\<lambda>i. t_bnd (t_get E ''files'') (\<lambda>json. t_ret (i, json)))"
  let ?on = "\<lambda>fi (i, json). enter_file_task E (name_set (numbered_name (fi_name fi) i) fi) json"
  obtain json where json: "db_get E ''files'' w = (Inr json, w)"
    "MetaOnFilesItem_deserialize (env_boost E) json = Inr (files_doc cat)"
    using db_reads [OF assms(2), of E "MetaOnFilesItem_deserialize (env_boost E)"] assms(3) unfolding represents_def by blast
  obtain s s' d1 where d1: "enter_file E (?named fi1) json w = (Inr (file_entry cat fi1), w\<lparr>mst_database := Some d1\<rparr>)"
    "store_of E d1 = (store_of E db)(''files'' \<mapsto> s, file_key (fi_name (file_entry cat fi1)) \<mapsto> s')"
    using enter_file_run [OF assms(1,2,4,5,7) json(2)] by metis
  let ?w1 = "w\<lparr>mst_database := Some d1\<rparr>"
  have w1: "mst_database ?w1 = Some d1" by simp
  obtain t t' d2 where d2: "enter_file E (?named fi2) json ?w1 = (Inr (file_entry cat fi2), ?w1\<lparr>mst_database := Some d2\<rparr>)"
    "store_of E d2 = (store_of E d1)(''files'' \<mapsto> t, file_key (fi_name (file_entry cat fi2)) \<mapsto> t')"
    "MetaOnFilesItem_deserialize (env_boost E) t = Inr (files_doc (cat_add_file fi2 cat))"
    "FileItem_deserialize (env_boost E) t' = Inr (file_entry cat fi2)"
    using enter_file_run [OF assms(1) w1 assms(4,6,7) json(2)] .
  have read: "lock_free (?read fi)" "task_run (?read fi) w = (Inr (fresh_number cat (fi_name fi), json), w)" for fi
    by (auto intro!: lock_free_tasks search_task_lock_free
        simp: bnd_run ret_run search_task_run first_free_run [OF assms(2-4)] json(1))
  have task: "create_file_task E fi = t_bnd (?read fi) (?on fi)" for fi
    by (simp add: create_file_task_def t_bnd_assoc t_bnd_ret name_get_def)
  have reach: "threads_reach ([create_file_task E fi1, create_file_task E fi2], None, w)
      ([Done (Inr (file_entry cat fi1)), Done (Inr (file_entry cat fi2))], None, ?w1\<lparr>mst_database := Some d2\<rparr>)"
    unfolding task by (rule both_read_first [OF read read]) (use d1(1) d2(1) in \<open>simp_all add: enter_file_lock_free enter_file_task_run\<close>)
  have "represents (env_boost E) (store_of E d2) (cat_add_file fi2 cat)" if "fi_name fi1 = fi_name fi2"
  proof -
    have "store_of E d2 = (store_of E db)(''files'' \<mapsto> t, file_key (fi_name (file_entry cat fi2)) \<mapsto> t')"
      by (rule ext) (simp add: d1(2) d2(2) file_entry_def that)
    then show ?thesis using represents_add_file(1) [OF assms(3,4) d2(3,4)] by simp
  qed
  moreover have "fi_id (file_entry cat fi1) = fi_id (file_entry cat fi2)" by (simp add: file_entry_def)
  ultimately show ?thesis
    using reach d2(2-4) by (intro exI [of _ "?w1\<lparr>mst_database := Some d2\<rparr>"] exI [of _ d2]) (simp add: reads_def)
qed

lemma concurrent_uploads_collide_witness:
  "\<exists>w1 db1. threads_reach ([create_file_task sample_env (sample_file\<lparr>fi_name := ''a''\<rparr>),
        create_file_task sample_env (sample_file\<lparr>fi_name := ''b''\<rparr>)], None, fresh_state (Some start_db))
      ([Done (Inr (sample_file\<lparr>fi_id := 0, fi_name := ''a.__0''\<rparr>)), Done (Inr (sample_file\<lparr>fi_id := 0, fi_name := ''b.__0''\<rparr>))], None, w1)
    \<and> mst_database w1 = Some db1
    \<and> reads (store_of sample_env db1) (MetaOnFilesItem_deserialize (env_boost sample_env)) ''files''
        (files_doc (cat_add_file (sample_file\<lparr>fi_name := ''b''\<rparr>) no_catalogue))"
proof -
  have rep: "represents (env_boost sample_env) (store_of sample_env start_db) no_catalogue"
    unfolding start_state(2) by (rule start_state(3))
  have "plain ''a''" "plain ''b''" by (simp_all add: plain_char_def)
  note ok = this [THEN sample_entry(1)]
  show ?thesis
    using concurrent_uploads_collide [OF sample_env_ok start_state(1) rep start_state(4) ok]
      sample_entry(2) [of "''a''"] sample_entry(2) [of "''b''"] by simp blast
qed

end
