(* ===== verification/Handler_Tasks.thy ===== *)
theory Handler_Tasks
  imports Collisions
begin

text \<open>
  The remaining handlers of the master as tasks: \<^verbatim>\<open>cm_up_req\<close>, \<^verbatim>\<open>cm_down_req\<close> and \<^verbatim>\<open>cm_del_req\<close>. Their
  commands to the database and their accesses to the globals of \<^verbatim>\<open>database_procedures.hxx\<close> are the
  atomic steps; what they answer on the connection is a function of the task's result.
\<close>

section \<open>Downloads and deletions\<close>

text \<open>A lookup whose \<^verbatim>\<open>std::logic_error\<close> is caught.\<close>

definition t_try_get :: "('db, 'e) master_env_scheme \<Rightarrow> string \<Rightarrow> ('db master_state, string option res) task" where
  "t_try_get E k = Atomic (db_get E k) (\<lambda>r. Done (case r of
     Inr json \<Rightarrow> Inr (Some json)
   | Inl (Throw e) \<Rightarrow> if is_logic_error e then Inr None else Inl (Throw e)
   | Inl f \<Rightarrow> Inl f))"

lemma t_try_get_run [simp]: "task_run (t_try_get E k) = try_logic (db_get E k)"
  by (auto simp: fun_eq_iff t_try_get_def try_logic_def act_simps split: prod.split sum.split fault.split)

text \<open>The file that is looked up under a key and the storages; \<open>None\<close> when there is none.\<close>

definition lookup_task :: "('db, 'e) master_env_scheme \<Rightarrow> string \<Rightarrow> ('db master_state, (FileItem \<times> StorageItem list) option res) task" where
  "lookup_task E key =
     t_bnd (t_try_get E key) (\<lambda>r. case r of
       None \<Rightarrow> t_ret None
     | Some json \<Rightarrow>
         t_bnd (t_lift (FileItem_deserialize (env_boost E) json)) (\<lambda>fi.
         t_bnd (all_storages_task E) (\<lambda>storages. t_ret (Some (fi, storages)))))"

definition down_req_task :: "('db, 'e) master_env_scheme \<Rightarrow> string \<Rightarrow> ('db master_state, (FileItem \<times> StorageItem list) option res) task" where
  "down_req_task E fname = lookup_task E (file_key fname)"

definition del_req_task :: "('db, 'e) master_env_scheme \<Rightarrow> string \<Rightarrow> ('db master_state, (FileItem \<times> StorageItem list) option res) task" where
  "del_req_task E fname = lookup_task E fname"

text \<open>The answers.\<close>

definition down_reply :: "('db, 'e) master_env_scheme \<Rightarrow> Packet \<Rightarrow> string \<Rightarrow> (FileItem \<times> StorageItem list) option \<Rightarrow> ('w conn, keep_alive) act" where
  "down_reply E packet fname r = (case r of
     None \<Rightarrow> send_error packet file_not_found (''File '' @ fname @ '' does not exist.'')
   | Some (fi, storages) \<Rightarrow>
       (case down_fields E storages (parts_get fi) of
          None \<Rightarrow> send_error packet incomplete_file ''File is not complete on ourservers (wait for full upload).''
        | Some flds \<Rightarrow> bnd (blocking_send (down_answer (file_size_get fi) (FileItem_id_get fi) flds)) (\<lambda>_. ret KA_No)))"

definition del_reply :: "Packet \<Rightarrow> string \<Rightarrow> (FileItem \<times> StorageItem list) option \<Rightarrow> ('w conn, keep_alive) act" where
  "del_reply packet fname r = (case r of
     None \<Rightarrow> send_error packet file_not_found (''File '' @ fname @ '' does not exist.'')
   | Some (fi, storages) \<Rightarrow> del_parts packet (parts_get fi))"

text \<open>A handler: the task on the world, then the answer on the connection.\<close>

definition task_then :: "('w, 'a res) task \<Rightarrow> ('a \<Rightarrow> ('w conn, 'b) act) \<Rightarrow> ('w conn, 'b) act" where
  "task_then t reply = bnd (on_world (task_run t)) reply"

lemma all_storages_task_run: "task_run (all_storages_task E) = get_all_storages E"
  by (simp add: all_storages_task_def get_all_storages_def)

lemma on_world_bnd: "on_world (bnd m f) = bnd (on_world m) (\<lambda>x. on_world (f x))"
  by (simp add: fun_eq_iff on_world_run bnd_run split: prod.split sum.split)

lemma on_world_ret: "on_world (ret x) = ret x" and on_world_lift: "on_world (lift_res r) = lift_res r"
  and on_world_raise: "on_world (raise f) = raise f"
  by (simp_all add: fun_eq_iff on_world_run act_simps)

lemma down_req_task_run:
  assumes "front_data packet = Inr data" "string_at 0 (unat (size_get packet)) data = Inr fname"
  shows "cm_down_req E packet = task_then (down_req_task E fname) (down_reply E packet fname)"
  using assms
  by (simp add: fun_eq_iff cm_down_req_def task_then_def down_req_task_def lookup_task_def down_reply_def down_answer_def
      all_storages_task_run bnd_run lift_res_run on_world_run ret_run Let_def split: prod.split sum.split option.split)

lemma del_req_task_run:
  assumes "front_data packet = Inr data" "string_at 0 (unat (size_get packet)) data = Inr fname"
  shows "cm_del_req E packet = task_then (del_req_task E fname) (del_reply packet fname)"
  using assms
  by (simp add: fun_eq_iff cm_del_req_def task_then_def del_req_task_def lookup_task_def del_reply_def
      all_storages_task_run bnd_run lift_res_run on_world_run ret_run Let_def split: prod.split sum.split option.split)

section \<open>Uploads\<close>

definition parts_task :: "('db, 'e) master_env_scheme \<Rightarrow> fsize_type \<Rightarrow> ('db master_state, partnum_type res) task" where
  "parts_task E fsize =
     t_bnd (t_get E ''storage_sizes'') (\<lambda>json.
     t_bnd (t_lift (read_sizes (env_boost E) json)) (\<lambda>values.
       t_ret (first_size values fsize)))"

definition rand_task :: "('db master_state, nat res) task" where
  "rand_task = t_bnd (t_gets (\<lambda>w. mst_rand w 0)) (\<lambda>x.
     t_bnd (t_modify (\<lambda>w. w\<lparr>mst_rand := \<lambda>k. mst_rand w (Suc k)\<rparr>)) (\<lambda>_. t_ret x))"

definition round_robin_task :: "('db, 'e) master_env_scheme \<Rightarrow> ('db master_state, bool res) task" where
  "round_robin_task E =
     t_bnd (t_gets iterator_initialized) (\<lambda>initialized.
     if initialized then t_ret True
     else t_bnd (all_storages_task E) (\<lambda>tmp.
          if tmp = [] then t_ret False
          else t_bnd rand_task (\<lambda>r.
               t_bnd (t_modify (\<lambda>w. w\<lparr>static_storages := tmp, current_round_robin := r mod (length tmp + 1),
                                      iterator_initialized := True\<rparr>)) (\<lambda>_. t_ret True))))"

definition fields_task :: "('db, 'e) master_env_scheme \<Rightarrow> fsize_type \<Rightarrow> ('db master_state, STPFIELD list res) task" where
  "fields_task E fsize =
     t_bnd (round_robin_task E) (\<lambda>go.
     if \<not> go then t_ret []
     else t_bnd (parts_task E fsize) (\<lambda>nb_parts.
          t_bnd (t_gets (\<lambda>w. (static_storages w, current_round_robin w))) (\<lambda>(storages, rr).
          t_bnd (t_lift (stp_loop (stp_fuel nb_parts (length storages)) (env_net E) fsize nb_parts storages (1, rr, []))) (\<lambda>(rr', tmp).
          t_bnd (t_modify (\<lambda>w. w\<lparr>current_round_robin := rr'\<rparr>)) (\<lambda>_.
          t_lift (mapM (stpfield_of (env_net E)) tmp))))))"

text \<open>How an upload request ends: with no parts table entry, with too few storages, or granted.\<close>

datatype up_outcome = No_parts | Too_few nat | Granted FileItem "STPFIELD list"

definition up_req_task :: "('db, 'e) master_env_scheme \<Rightarrow> FileItem \<Rightarrow> ('db master_state, up_outcome res) task" where
  "up_req_task E fi =
     t_bnd (parts_task E (file_size_get fi)) (\<lambda>nb_parts.
     if nb_parts = 0 then t_ret No_parts
     else
       t_bnd (fields_task E (file_size_get fi)) (\<lambda>flds.
       if length flds < unat (redundancy_get fi) then t_ret (Too_few (length flds))
       else t_bnd (create_file_task E fi) (\<lambda>fi. t_ret (Granted fi flds))))"

definition up_reply :: "('db, 'e) master_env_scheme \<Rightarrow> Packet \<Rightarrow> FileItem \<Rightarrow> up_outcome \<Rightarrow> ('w conn, keep_alive) act" where
  "up_reply E packet fi r = (case r of
     No_parts \<Rightarrow> send_error packet missing_storage ''Add some storages so that clients can upload!''
   | Too_few n \<Rightarrow> send_error packet redundancy
       (''Client is asking for a redundancy of '' @ decimal (unat (redundancy_get fi))
        @ '' but there is only '' @ decimal n @ '' storages available.'')
   | Granted fi flds \<Rightarrow>
       bnd (lift_res (mapM (\<lambda>it. binary_to_string_ipv6 (env_net E) (addr_ipv6 (stp_addr it)) 16) flds)) (\<lambda>_.
       bnd (blocking_send (up_answer (FileItem_id_get fi) flds)) (\<lambda>_. ret KA_No)))"

lemma task_run_if: "task_run (if b then t else u) = (if b then task_run t else task_run u)"
  by simp

lemma up_tasks_run:
  "task_run (parts_task E fsize) = number_of_parts E fsize"
  "task_run rand_task = next_rand"
  "task_run (round_robin_task E) = init_round_robin E"
  "task_run (fields_task E fsize) = get_stpfields_for_upload E fsize"
proof -
  show parts: "task_run (parts_task E fsize) = number_of_parts E fsize" for fsize
    by (simp add: parts_task_def number_of_parts_def)
  show rand: "task_run rand_task = next_rand"
    by (simp add: rand_task_def next_rand_def)
  show robin: "task_run (round_robin_task E) = init_round_robin E"
    by (simp add: round_robin_task_def init_round_robin_def all_storages_task_run rand task_run_if cong: if_cong)
  show "task_run (fields_task E fsize) = get_stpfields_for_upload E fsize"
    by (simp add: fields_task_def get_stpfields_for_upload_def robin parts task_run_if case_prod_unfold cong: if_cong)
qed

lemma up_req_task_run:
  assumes "front_data packet = Inr data" "sizeof_up_req \<le> unat (size_get packet)"
    and "string_at sizeof_up_req (unat (size_get packet) - sizeof_up_req) data = Inr fname"
    and "view sizeof_up_req dec_up_req data = Inr req"
    and "FileItem_make 0 fname (up_req_fsize req) (up_req_rdcy req) 0 blank_hash False [] = Inr fi"
  shows "cm_up_req E packet = task_then (up_req_task E fi) (up_reply E packet fi)"
  using assms
  by (simp add: fun_eq_iff cm_up_req_def task_then_def up_req_task_def up_reply_def up_answer_def up_tasks_run create_file_task_run
      bnd_run lift_res_run on_world_run ret_run Let_def split: prod.split sum.split)

end
