(* ===== verification/Upload_Stages.thy ===== *)
theory Upload_Stages
  imports Handler_Tasks
begin

text \<open>
  The database while a file is entered: not listed, listed without its document, entered. What
  requests read and write at each stage, so that they can be proved against an upload that goes on
  between their commands.
\<close>

section \<open>The database while an upload is entered\<close>

text \<open>How far the upload is, and what the database holds then.\<close>

datatype stage = Absent | Listed | Entered

definition held :: "boost \<Rightarrow> FileItem \<Rightarrow> stage \<Rightarrow> catalogue \<Rightarrow> (string \<rightharpoonup> string) \<Rightarrow> bool" where
  "held B fi s cat st \<longleftrightarrow> (case s of
     Absent \<Rightarrow> represents B st cat
   | Listed \<Rightarrow> reads st (MetaOnFilesItem_deserialize B) ''files'' (files_doc (cat_add_file fi cat))
       \<and> (\<exists>v. represents B (st(''files'' \<mapsto> v)) cat)
   | Entered \<Rightarrow> represents B st (cat_add_file fi cat))"

text \<open>What acknowledgements leave as it is.\<close>

definition same_shape :: "catalogue \<Rightarrow> catalogue \<Rightarrow> bool" where
  "same_shape cat0 cat \<longleftrightarrow> cat_storages cat = cat_storages cat0 \<and> length (cat_files cat) = length (cat_files cat0)
     \<and> map fi_name (cat_files cat) = map fi_name (cat_files cat0) \<and> files_doc cat = files_doc cat0"

definition shared_state :: "('db, 'e) master_env_scheme \<Rightarrow> FileItem \<Rightarrow> part_ack list \<Rightarrow> catalogue \<Rightarrow> stage \<Rightarrow> catalogue \<Rightarrow> 'db master_state \<Rightarrow> bool" where
  "shared_state E fi reqs cat0 s cat w \<longleftrightarrow>
     list_all (\<lambda>req. unat (partid_fid (part_ack_partid req)) < length (cat_files cat0)) reqs \<and> env_ok E \<and> FileItem_ok fi \<and> length (cat_files cat0) + 1 < 2 ^ 64
     \<and> cat_ok cat0 \<and> cat_ok cat \<and> same_shape cat0 cat
     \<and> (\<exists>db. mst_database w = Some db \<and> held (env_boost E) fi s cat (store_of E db))"

lemma fresh_same: "same_shape cat0 cat \<Longrightarrow> fresh_number cat name = fresh_number cat0 name"
  by (simp add: same_shape_def fresh_number_def)

lemma entry_same: "same_shape cat0 cat \<Longrightarrow> file_entry cat fi = file_entry cat0 fi"
  by (simp add: file_entry_def fresh_same) (simp add: same_shape_def)

lemma listed_same:
  assumes "same_shape cat0 cat" "cat_ok cat0" "cat_ok cat"
  shows "files_doc (cat_add_file fi cat) = files_doc (cat_add_file fi cat0)"
  unfolding files_doc_add [OF assms(2)] files_doc_add [OF assms(3)] entry_same [OF assms(1)]
  using assms(1) by (simp add: same_shape_def)

lemma same_shape_add_part:
  "same_shape cat0 cat \<Longrightarrow> unat (partid_fid (part_ack_partid req)) < length (cat_files cat0) \<Longrightarrow> same_shape cat0 (cat_add_part req cat)"
  using cat_add_part_maps [of req cat] by (simp add: same_shape_def)

text \<open>An acknowledgement for an old file and the new file do not meet.\<close>

lemma add_part_add_file:
  assumes "unat (partid_fid (part_ack_partid req)) < length (cat_files cat)"
  shows "cat_add_part req (cat_add_file fi cat) = cat_add_file fi (cat_add_part req cat)"
proof -
  have "same_shape cat (cat_add_part req cat)" using assms by (intro same_shape_add_part) (simp_all add: same_shape_def)
  from entry_same [OF this] have "file_entry (cat_add_part req cat) fi = file_entry cat fi" .
  then show ?thesis
    using assms by (simp add: cat_add_file_def) (simp add: cat_add_part_def Let_def nth_append list_update_append)
qed

lemma taken_before:
  assumes "shared_state E fi reqs cat0 Absent cat w"
  shows "name_taken E w name \<longleftrightarrow> name \<in> set (map fi_name (cat_files cat0))"
  using assms name_taken_names by (fastforce simp: shared_state_def held_def same_shape_def simp del: set_map)

lemma t_bnd_lift: "t_bnd (t_lift (Inr x)) f = f x"
  by (simp add: t_bnd_def t_lift_def)

lemma enter_file_task_steps:
  assumes "cat_ok cat" "MetaOnFilesItem_deserialize (env_boost E) json = Inr (files_doc cat)"
    "MetaOnFilesItem_serialize (files_doc (cat_add_file fi cat)) = Inr s" "FileItem_serialize (file_entry cat fi) = Inr s'"
  shows "enter_file_task E (name_set (numbered_name (fi_name fi) (fresh_number cat (fi_name fi))) fi) json =
    t_bnd (t_put E ''files'' s) (\<lambda>_. t_bnd (t_put E (file_key (fi_name (file_entry cat fi))) s') (\<lambda>_. t_ret (file_entry cat fi)))"
  using assms(3,4)
  by (simp add: enter_file_task_def assms(2) t_bnd_lift entering entered_item entered_metadata [OF assms(1)] Let_def)

lemma list_files:
  assumes "shared_state E fi reqs cat0 Absent cat w" "MetaOnFilesItem_deserialize (env_boost E) s = Inr (files_doc (cat_add_file fi cat0))"
  shows "\<exists>w1. db_put E ''files'' s w = (Inr (), w1) \<and> shared_state E fi reqs cat0 Listed cat w1"
proof -
  obtain db where db: "env_ok E" "mst_database w = Some db" "represents (env_boost E) (store_of E db) cat"
    using assms(1) by (auto simp: shared_state_def held_def)
  obtain db1 where db1: "db_put E ''files'' s w = (Inr (), w\<lparr>mst_database := Some db1\<rparr>)"
    "store_of E db1 = (store_of E db)(''files'' \<mapsto> s)"
    using db_put_run [OF db(1,2)] .
  obtain v where v: "store_of E db ''files'' = Some v" using db(3) by (auto simp: represents_def reads_def)
  then have "(store_of E db1)(''files'' \<mapsto> v) = store_of E db" by (simp add: db1(2) fun_upd_idem)
  then have "\<exists>v. represents (env_boost E) ((store_of E db1)(''files'' \<mapsto> v)) cat" using db(3) by metis
  moreover have "files_doc (cat_add_file fi cat0) = files_doc (cat_add_file fi cat)"
    using assms(1) listed_same [of cat0 cat] by (simp add: shared_state_def)
  then have "reads (store_of E db1) (MetaOnFilesItem_deserialize (env_boost E)) ''files'' (files_doc (cat_add_file fi cat))"
    using assms(2) by (simp add: db1(2))
  ultimately show ?thesis using assms(1) db1(1) by (auto simp: shared_state_def held_def)
qed

lemma enter_document:
  assumes "shared_state E fi reqs cat0 Listed cat w" "FileItem_deserialize (env_boost E) s' = Inr (file_entry cat0 fi)"
  shows "\<exists>w1. db_put E (file_key (fi_name (file_entry cat0 fi))) s' w = (Inr (), w1) \<and> shared_state E fi reqs cat0 Entered cat w1"
proof -
  let ?k = "file_key (fi_name (file_entry cat fi))"
  have e: "file_entry cat0 fi = file_entry cat fi" using assms(1) entry_same [of cat0 cat] by (simp add: shared_state_def)
  obtain db v where db: "env_ok E" "mst_database w = Some db" "represents (env_boost E) ((store_of E db)(''files'' \<mapsto> v)) cat"
    "reads (store_of E db) (MetaOnFilesItem_deserialize (env_boost E)) ''files'' (files_doc (cat_add_file fi cat))" "cat_ok cat"
    using assms(1) by (auto simp: shared_state_def held_def)
  obtain db1 where db1: "db_put E ?k s' w = (Inr (), w\<lparr>mst_database := Some db1\<rparr>)" "store_of E db1 = (store_of E db)(?k \<mapsto> s')"
    using db_put_run [OF db(1,2)] .
  obtain t where t: "store_of E db ''files'' = Some t" "MetaOnFilesItem_deserialize (env_boost E) t = Inr (files_doc (cat_add_file fi cat))"
    using db(4) by (auto simp: reads_def)
  have "store_of E db1 = (store_of E db)(''files'' \<mapsto> v, ''files'' \<mapsto> t, ?k \<mapsto> s')"
    using t(1) by (simp add: db1(2) fun_upd_idem)
  then have "represents (env_boost E) (store_of E db1) (cat_add_file fi cat)"
    using represents_add_file(1) [OF db(3,5) t(2)] assms(2) unfolding e by simp
  then show ?thesis using assms(1) db1(1) unfolding e by (auto simp: shared_state_def held_def)
qed

text \<open>What an acknowledgement reads is the same at every stage of the upload.\<close>

lemma read_name:
  assumes "shared_state E fi reqs cat0 s cat w" "unat fid < length (cat_files cat)"
  shows "\<exists>json mof. fst (db_get E ''files'' w) = Inr json \<and> MetaOnFilesItem_deserialize (env_boost E) json = Inr mof
    \<and> file_name_by_id mof fid = Inr (fi_name (cat_files cat ! unat fid))"
proof -
  obtain db where db: "mst_database w = Some db" "held (env_boost E) fi s cat (store_of E db)" "cat_ok cat"
    "FileItem_ok fi" "length (cat_files cat) + 1 < 2 ^ 64"
    using assms(1) by (auto simp: shared_state_def same_shape_def)
  have new: "file_name_by_id (files_doc (cat_add_file fi cat)) fid = Inr (fi_name (cat_files cat ! unat fid))"
    using file_at(2) [OF cat_add_file_ok [OF db(3-5)], of fid] assms(2) by (simp add: cat_add_file_def nth_append)
  have "\<exists>mof. reads (store_of E db) (MetaOnFilesItem_deserialize (env_boost E)) ''files'' mof
      \<and> file_name_by_id mof fid = Inr (fi_name (cat_files cat ! unat fid))"
    using db(2) file_at(2) [OF db(3) assms(2)] new by (cases s) (auto simp: held_def represents_def)
  then show ?thesis using db_reads [OF db(1)] by fastforce
qed

lemma read_file:
  assumes "shared_state E fi reqs cat0 s cat w" "f \<in> set (cat_files cat)"
  shows "\<exists>json. fst (db_get E (file_key (fi_name f)) w) = Inr json \<and> FileItem_deserialize (env_boost E) json = Inr f"
proof -
  obtain db where db: "mst_database w = Some db" "held (env_boost E) fi s cat (store_of E db)"
    using assms(1) by (auto simp: shared_state_def)
  have "reads (store_of E db) (FileItem_deserialize (env_boost E)) (file_key (fi_name f)) f"
    using db(2) assms(2) by (cases s) (auto simp: held_def represents_def cat_add_file_def)
  then show ?thesis using db_reads [OF db(1)] by fastforce
qed

text \<open>What it writes changes the old file alone, at every stage.\<close>

lemma held_add_part:
  assumes "held B fi s cat st" "cat_ok cat" "FileItem_ok fi" "length (cat_files cat) + 1 < 2 ^ 64"
    and "unat (partid_fid (part_ack_partid req)) < length (cat_files cat)"
  defines "f \<equiv> cat_files cat ! unat (partid_fid (part_ack_partid req))"
  assumes "FileItem_deserialize B v = Inr (add_part req f)"
  shows "held B fi s (cat_add_part req cat) (st(file_key (fi_name f) \<mapsto> v))"
proof (cases s)
  case Absent
  then show ?thesis using represents_add_part [OF _ assms(2,5)] assms(1,7) by (simp add: held_def f_def)
next
  case Listed
  then obtain u where u: "represents B (st(''files'' \<mapsto> u)) cat"
    "reads st (MetaOnFilesItem_deserialize B) ''files'' (files_doc (cat_add_file fi cat))"
    using assms(1) by (auto simp: held_def)
  have "same_shape cat (cat_add_part req cat)" using assms(5) by (intro same_shape_add_part) (simp_all add: same_shape_def)
  from listed_same [OF this assms(2) cat_add_part_ok [OF assms(2,5)]]
  have "files_doc (cat_add_file fi (cat_add_part req cat)) = files_doc (cat_add_file fi cat)" .
  moreover have "represents B (st(file_key (fi_name f) \<mapsto> v, ''files'' \<mapsto> u)) (cat_add_part req cat)"
    using represents_add_part [OF u(1) assms(2,5)] assms(7) by (simp add: f_def fun_upd_twist)
  ultimately show ?thesis using u(2) Listed by (auto simp: held_def)
next
  case Entered
  have f: "cat_files (cat_add_file fi cat) ! unat (partid_fid (part_ack_partid req)) = f"
    "unat (partid_fid (part_ack_partid req)) < length (cat_files (cat_add_file fi cat))"
    using assms(5) by (simp_all add: cat_add_file_def nth_append f_def)
  have "represents B st (cat_add_file fi cat)" using assms(1) Entered by (simp add: held_def)
  from represents_add_part [OF this cat_add_file_ok [OF assms(2-4)] f(2), unfolded f, OF assms(7)]
  show ?thesis using Entered add_part_add_file [OF assms(5)] by (simp add: held_def)
qed

lemma write_part:
  assumes "shared_state E fi reqs cat0 s cat w" "req \<in> set reqs"
  defines "f \<equiv> cat_files cat ! unat (partid_fid (part_ack_partid req))"
  assumes "FileItem_deserialize (env_boost E) v = Inr (add_part req f)"
  shows "\<exists>w1. db_put E (file_key (fi_name f)) v w = (Inr (), w1) \<and> shared_state E fi reqs cat0 s (cat_add_part req cat) w1"
proof -
  have at: "unat (partid_fid (part_ack_partid req)) < length (cat_files cat)"
    using assms(1,2) by (auto simp: shared_state_def same_shape_def list_all_iff)
  obtain db where db: "env_ok E" "mst_database w = Some db" "held (env_boost E) fi s cat (store_of E db)" "cat_ok cat"
    "FileItem_ok fi" "length (cat_files cat) + 1 < 2 ^ 64"
    using assms(1) by (auto simp: shared_state_def same_shape_def)
  obtain db1 where db1: "db_put E (file_key (fi_name f)) v w = (Inr (), w\<lparr>mst_database := Some db1\<rparr>)"
    "store_of E db1 = (store_of E db)(file_key (fi_name f) \<mapsto> v)"
    using db_put_run [OF db(1,2)] .
  have "held (env_boost E) fi s (cat_add_part req cat) (store_of E db1)"
    unfolding db1(2) f_def by (rule held_add_part [OF db(3-6) at]) (use assms(4) in \<open>simp add: f_def\<close>)
  moreover have "same_shape cat0 (cat_add_part req cat)"
    using assms(1) at by (intro same_shape_add_part) (simp_all add: shared_state_def same_shape_def)
  ultimately show ?thesis
    using assms(1) db1(1) cat_add_part_ok [OF db(4) at] by (auto simp: shared_state_def)
qed

text \<open>The documents of the storages are the same at every stage.\<close>

lemma read_storages:
  assumes "shared_state E fi reqs cat0 s cat w"
  shows "\<exists>json. fst (db_get E ''storages'' w) = Inr json \<and> MetaOnStoragesItem_deserialize (env_boost E) json = Inr (storages_doc cat0)"
    and "i < length (cat_storages cat0) \<Longrightarrow>
      \<exists>json. fst (db_get E (storage_key i) w) = Inr json \<and> StorageItem_deserialize (env_boost E) json = Inr (cat_storages cat0 ! i)"
proof -
  obtain db where db: "mst_database w = Some db" "held (env_boost E) fi s cat (store_of E db)" "cat_storages cat = cat_storages cat0"
    using assms by (auto simp: shared_state_def same_shape_def)
  have doc: "storages_doc cat0 = storages_doc cat" "storages_doc (cat_add_file fi cat) = storages_doc cat"
    using db(3) by (simp_all add: storages_doc_def cat_add_file_def)
  have "reads (store_of E db) (MetaOnStoragesItem_deserialize (env_boost E)) ''storages'' (storages_doc cat0)"
    using db(2) doc by (cases s) (auto simp: held_def represents_def)
  then show "\<exists>json. fst (db_get E ''storages'' w) = Inr json \<and> MetaOnStoragesItem_deserialize (env_boost E) json = Inr (storages_doc cat0)"
    using db_reads [OF db(1)] by fastforce
  assume i: "i < length (cat_storages cat0)"
  have "reads (store_of E db) (StorageItem_deserialize (env_boost E)) (storage_key i) (cat_storages cat0 ! i)"
    using db(2,3) i by (cases s) (auto simp: held_def represents_def cat_add_file_def)
  then show "\<exists>json. fst (db_get E (storage_key i) w) = Inr json \<and> StorageItem_deserialize (env_boost E) json = Inr (cat_storages cat0 ! i)"
    using db_reads [OF db(1)] by fastforce
qed

text \<open>A file is found once its document is there.\<close>

definition down_result :: "catalogue \<Rightarrow> string \<Rightarrow> (FileItem \<times> StorageItem list) option" where
  "down_result cat fname = map_option (\<lambda>f. (f, cat_storages cat)) (find (\<lambda>f. fi_name f = fname) (cat_files cat))"

definition found :: "stage \<Rightarrow> FileItem \<Rightarrow> catalogue \<Rightarrow> catalogue" where
  "found s fi cat = (if s = Entered then cat_add_file fi cat else cat)"

lemma find_name:
  assumes "find (\<lambda>f. fi_name f = fname) fs = x"
  shows "x = None \<longleftrightarrow> fname \<notin> set (map fi_name fs)" "x = Some f \<Longrightarrow> f \<in> set fs \<and> fi_name f = fname"
  using assms by (auto simp: find_None_iff find_Some_iff)

lemma read_document:
  assumes "shared_state E fi reqs cat0 s cat w"
  shows "case down_result (found s fi cat) fname of
      None \<Rightarrow> fst (try_logic (db_get E (file_key fname)) w) = Inr None
    | Some (f, sts) \<Rightarrow> \<exists>json. fst (db_get E (file_key fname) w) = Inr json \<and> FileItem_deserialize (env_boost E) json = Inr f \<and> sts = cat_storages cat0"
proof -
  obtain db where db: "mst_database w = Some db" "held (env_boost E) fi s cat (store_of E db)" "cat_storages cat = cat_storages cat0"
    using assms by (auto simp: shared_state_def same_shape_def)
  let ?st = "store_of E db"
  have st: "reads ?st (FileItem_deserialize (env_boost E)) (file_key (fi_name f)) f" if "f \<in> set (cat_files (found s fi cat))" for f
    using db(2) that by (cases s) (auto simp: held_def represents_def found_def)
  have none: "?st (file_key fname) = None" if "fname \<notin> set (map fi_name (cat_files (found s fi cat)))"
    using db(2) that by (cases s) (auto simp: held_def represents_def found_def)
  show ?thesis
  proof (cases "find (\<lambda>f. fi_name f = fname) (cat_files (found s fi cat))")
    case None
    then have "?st (file_key fname) = None" using none find_name(1) [OF refl] by metis
    then show ?thesis using None by (simp add: down_result_def try_logic_def act_simps db_get_run [OF db(1)])
  next
    case (Some f)
    then have "f \<in> set (cat_files (found s fi cat))" "fi_name f = fname" using find_name(2) [OF refl] by metis+
    then show ?thesis using Some st [of f] db_reads [OF db(1)] db(3) by (fastforce simp: down_result_def found_def cat_add_file_def)
  qed
qed

end
