(* ===== verification/Rely.thy ===== *)
theory Rely
  imports Interleaving
begin

text \<open>
  Tasks proved against what other threads may do meanwhile, by rely and guarantee. The shared world
  is described by an invariant over a ghost state, such as the history of what has been done; each
  thread relies on how the others move it and guarantees how it does. Locale \<open>rely_guarantee\<close>: threads
  without a mutex and threads under one, together.
\<close>

section \<open>Safe tasks\<close>

text \<open>How the ghost state may move.\<close>

type_synonym 'g moves = "'g \<Rightarrow> 'g \<Rightarrow> bool"

text \<open>
  Whatever the others have done before it (\<open>R\<close>), each command of the task finds the invariant,
  moves the ghost state as it guarantees (\<open>G\<close>) and keeps the invariant; at the end \<open>Q\<close> holds.
\<close>

primrec safe :: "('g \<Rightarrow> 'w \<Rightarrow> bool) \<Rightarrow> 'g moves \<Rightarrow> 'g moves \<Rightarrow> ('a \<Rightarrow> 'g \<Rightarrow> bool) \<Rightarrow> ('w, 'a) task \<Rightarrow> 'g \<Rightarrow> bool" where
  "safe I R G Q (Done x) g \<longleftrightarrow> Q x g"
| "safe I R G Q (Atomic c k) g \<longleftrightarrow>
     (\<forall>g1 w. R g g1 \<longrightarrow> I g1 w \<longrightarrow> (\<exists>g2. G g1 g2 \<and> I g2 (snd (c w)) \<and> safe I R G Q (k (fst (c w))) g2))"
| "safe I R G Q (Read k) g \<longleftrightarrow>
     (\<forall>g1 w. R g g1 \<longrightarrow> I g1 w \<longrightarrow> (\<exists>g2. G g1 g2 \<and> I g2 w \<and> safe I R G Q (k w) g2))"
| "safe I R G Q (Acquire t) g \<longleftrightarrow> False"
| "safe I R G Q (Release t) g \<longleftrightarrow> False"

lemma safe_bind:
  "safe I R G P t g \<Longrightarrow> (\<And>x g1. P x g1 \<Longrightarrow> safe I R G Q (f x) g1) \<Longrightarrow> safe I R G Q (task_bind t f) g"
  by (induction t arbitrary: g) (simp, fastforce, fastforce, simp_all)

lemma safe_bnd:
  assumes "safe I R G P t g" "\<And>e g1. P (Inl e) g1 \<Longrightarrow> Q (Inl e) g1" "\<And>x g1. P (Inr x) g1 \<Longrightarrow> safe I R G Q (f x) g1"
  shows "safe I R G Q (t_bnd t f) g"
  unfolding t_bnd_def using assms by (auto intro!: safe_bind split: sum.split)

lemma safe_step:
  assumes "safe I R G Q t g" "R g g1" "I g1 w" "advance t w = Some (t1, w1)"
  shows "\<exists>g2. G g1 g2 \<and> I g2 w1 \<and> safe I R G Q t1 g2"
  using assms by (cases t) (auto split: prod.splits, fastforce)

lemma safe_goes_on: "safe I R G Q t g \<Longrightarrow> (\<exists>x. t = Done x) \<or> (\<exists>t1 w1. advance t w = Some (t1, w1))"
  by (cases t) (auto split: prod.splits)

text \<open>What the others do does not make a task unsafe.\<close>

lemma safe_rely:
  assumes "\<And>g1 g2. R g g1 \<Longrightarrow> R g1 g2 \<Longrightarrow> R g g2" "\<And>x. Q x g \<Longrightarrow> R g g1 \<Longrightarrow> Q x g1" "R g g1"
  shows "safe I R G Q t g \<Longrightarrow> safe I R G Q t g1"
  using assms by (cases t) auto

section \<open>Threads without a mutex and threads under one\<close>

text \<open>
  \<open>part\<close> is the part of the ghost state that the mutex protects; body \<open>i\<close> moves it as \<open>effect i\<close> says.
\<close>

locale rely_guarantee =
  fixes inv :: "'g \<Rightarrow> 'w \<Rightarrow> bool" and rely guar :: "nat \<Rightarrow> 'g moves" and post :: "nat \<Rightarrow> 'a \<Rightarrow> 'g \<Rightarrow> bool"
    and free :: "nat \<Rightarrow> ('w, 'a) task" and m :: nat
    and lock_rely lock_guar :: "'g moves" and part :: "'g \<Rightarrow> 'c" and effect :: "nat \<Rightarrow> 'c \<Rightarrow> 'c"
    and body :: "nat \<Rightarrow> ('w, 'a) task" and n :: nat and start :: 'g
  assumes rely_refl: "rely j g g" and lock_rely_refl: "lock_rely g g"
    and rely_trans: "rely j g g1 \<Longrightarrow> rely j g1 g2 \<Longrightarrow> rely j g g2"
    and lock_rely_trans: "lock_rely g g1 \<Longrightarrow> lock_rely g1 g2 \<Longrightarrow> lock_rely g g2"
    and post_stable: "post j x g \<Longrightarrow> rely j g g1 \<Longrightarrow> post j x g1"
    and part_stable: "lock_rely g g1 \<Longrightarrow> part g1 = part g"
    and free_free: "j < m \<Longrightarrow> k < m \<Longrightarrow> j \<noteq> k \<Longrightarrow> guar j g g1 \<Longrightarrow> rely k g g1"
    and free_lock: "j < m \<Longrightarrow> guar j g g1 \<Longrightarrow> lock_rely g g1"
    and body_free: "k < m \<Longrightarrow> lock_guar g g1 \<Longrightarrow> rely k g g1"
    and free_safe: "j < m \<Longrightarrow> safe inv (rely j) (guar j) (post j) (free j) start"
    and body_safe: "i < n \<Longrightarrow> safe inv lock_rely lock_guar (\<lambda>_ g1. part g1 = effect i (part g)) (body i) g"
begin

definition applied :: "nat list \<Rightarrow> 'c" where
  "applied ds = foldl (\<lambda>c i. effect i c) (part start) ds"

definition threads :: "('w, 'a) task list" where
  "threads = map free [0..<m] @ map (\<lambda>i. locked (body i)) [0..<n]"

text \<open>
  The bodies of \<open>ds\<close> have run, in this order; the thread with the mutex is somewhere in its body;
  the others under it have not begun; those without it are anywhere.
\<close>

definition going :: "('w, 'a) threads \<Rightarrow> nat list \<Rightarrow> 'g \<Rightarrow> bool" where
  "going C ds g \<longleftrightarrow> (case C of (ts, l, w) \<Rightarrow>
     length ts = m + n \<and> distinct ds \<and> set ds \<subseteq> {..<n} \<and> inv g w
     \<and> (\<forall>j < m. safe inv (rely j) (guar j) (post j) (ts ! j) g)
     \<and> (\<forall>i \<in> set ds. \<exists>r. ts ! (m + i) = Done r)
     \<and> (\<forall>i < n. i \<notin> set ds \<longrightarrow> l \<noteq> Some (m + i) \<longrightarrow> ts ! (m + i) = locked (body i))
     \<and> (case l of
          None \<Rightarrow> part g = applied ds
        | Some k \<Rightarrow> \<exists>i t. k = m + i \<and> i < n \<and> i \<notin> set ds \<and> ts ! k = task_bind t (\<lambda>x. Release (Done x))
            \<and> safe inv lock_rely lock_guar (\<lambda>_ g1. part g1 = effect i (applied ds)) t g))"

lemma free_after: "safe inv (rely j) (guar j) (post j) t g \<Longrightarrow> rely j g g1 \<Longrightarrow> safe inv (rely j) (guar j) (post j) t g1"
  by (rule safe_rely) (auto intro: rely_trans post_stable)

lemma body_after:
  "safe inv lock_rely lock_guar (\<lambda>_ g1. part g1 = c) t g \<Longrightarrow> lock_rely g g1 \<Longrightarrow> safe inv lock_rely lock_guar (\<lambda>_ g1. part g1 = c) t g1"
  by (rule safe_rely) (auto intro: lock_rely_trans simp: part_stable)

lemma going_other:
  assumes "going (ts, l, w) ds g" "i < n"
  shows "(i \<in> set ds \<and> (\<exists>r. ts ! (m + i) = Done r)) \<or> (i \<notin> set ds \<and> l \<noteq> Some (m + i) \<and> ts ! (m + i) = locked (body i))
    \<or> (i \<notin> set ds \<and> l = Some (m + i) \<and> (\<exists>t. ts ! (m + i) = task_bind t (\<lambda>x. Release (Done x))
         \<and> safe inv lock_rely lock_guar (\<lambda>_ g1. part g1 = effect i (applied ds)) t g))"
  using assms by (cases l) (auto simp: going_def)

lemma going_free:
  assumes "going (ts, l, w) ds g" "j < m" "advance (ts ! j) w = Some (t1, w1)"
  shows "\<exists>g1. going (ts[j := t1], l, w1) ds g1"
proof -
  have j: "safe inv (rely j) (guar j) (post j) (ts ! j) g" "inv g w"
    using assms(1,2) by (simp_all add: going_def)
  obtain g1 where g1: "guar j g g1" "inv g1 w1" "safe inv (rely j) (guar j) (post j) t1 g1"
    using safe_step [OF j(1) rely_refl j(2) assms(3)] by blast
  have "safe inv (rely i) (guar i) (post i) (ts[j := t1] ! i) g1" if "i < m" for i
  proof (cases "i = j")
    case True
    then show ?thesis using assms(1,2) g1(3) by (simp add: going_def)
  next
    case False
    have "safe inv (rely i) (guar i) (post i) (ts ! i) g" using assms(1) that by (simp add: going_def)
    from free_after [OF this free_free [OF assms(2) that _ g1(1)]] False show ?thesis by simp
  qed
  moreover have "case l of None \<Rightarrow> part g1 = applied ds
    | Some k1 \<Rightarrow> \<exists>i t. k1 = m + i \<and> i < n \<and> i \<notin> set ds \<and> ts[j := t1] ! k1 = task_bind t (\<lambda>x. Release (Done x))
        \<and> safe inv lock_rely lock_guar (\<lambda>_ g1. part g1 = effect i (applied ds)) t g1"
  proof (cases l)
    case None
    then show ?thesis using assms(1) part_stable [OF free_lock [OF assms(2) g1(1)]] by (simp add: going_def)
  next
    case (Some k1)
    then obtain i t where t: "k1 = m + i" "i < n" "i \<notin> set ds" "ts ! k1 = task_bind t (\<lambda>x. Release (Done x))"
      "safe inv lock_rely lock_guar (\<lambda>_ g1. part g1 = effect i (applied ds)) t g"
      using assms(1) by (auto simp: going_def)
    note body_after [OF t(5) free_lock [OF assms(2) g1(1)]]
    then show ?thesis using t(1-4) Some assms(2) by (simp, blast)
  qed
  ultimately have "going (ts[j := t1], l, w1) ds g1"
    using assms(1,2) g1(2) by (simp add: going_def)
  then show ?thesis by blast
qed

lemma going_command:
  assumes "going (ts, l, w) ds g" "i < n" "advance (ts ! (m + i)) w = Some (t1, w1)"
  shows "\<exists>g1. going (ts[m + i := t1], l, w1) ds g1"
proof -
  obtain t where t: "i \<notin> set ds" "l = Some (m + i)" "ts ! (m + i) = task_bind t (\<lambda>x. Release (Done x))"
    "safe inv lock_rely lock_guar (\<lambda>_ g1. part g1 = effect i (applied ds)) t g"
    using going_other [OF assms(1,2)] assms(3) by (auto simp: locked_def)
  then obtain t2 where t2: "advance t w = Some (t2, w1)" "t1 = task_bind t2 (\<lambda>x. Release (Done x))"
    using assms(3) advance_held by metis
  have "inv g w" using assms(1) by (simp add: going_def)
  from safe_step [OF t(4) lock_rely_refl this t2(1)]
  obtain g1 where g1: "lock_guar g g1" "inv g1 w1" "safe inv lock_rely lock_guar (\<lambda>_ g1. part g1 = effect i (applied ds)) t2 g1" by blast
  have "\<forall>j < m. safe inv (rely j) (guar j) (post j) (ts ! j) g1"
    using assms(1) free_after body_free [OF _ g1(1)] by (auto simp: going_def)
  then have "going (ts[m + i := t1], l, w1) ds g1"
    using assms(1,2) t(1,2) t2(2) g1(2,3) by (auto simp: going_def nth_list_update)
  then show ?thesis by blast
qed

lemma going_acquire:
  assumes "going (ts, None, w) ds g" "i < n" "ts ! (m + i) = Acquire t"
  shows "going (ts[m + i := t], Some (m + i), w) ds g"
proof -
  have t: "i \<notin> set ds" "t = task_bind (body i) (\<lambda>x. Release (Done x))"
    using going_other [OF assms(1,2)] assms(3) by (auto simp: locked_def)
  have "part g = applied ds" using assms(1) by (simp add: going_def)
  then show ?thesis
    using assms(1,2) t body_safe [OF assms(2), of g] by (auto simp: going_def nth_list_update)
qed

lemma going_release:
  assumes "going (ts, l, w) ds g" "i < n" "ts ! (m + i) = Release t"
  shows "going (ts[m + i := t], None, w) (ds @ [i]) g"
proof -
  obtain u where u: "i \<notin> set ds" "l = Some (m + i)" "ts ! (m + i) = task_bind u (\<lambda>x. Release (Done x))"
    "safe inv lock_rely lock_guar (\<lambda>_ g1. part g1 = effect i (applied ds)) u g"
    using going_other [OF assms(1,2)] assms(3) by (auto simp: locked_def)
  then obtain x where x: "u = Done x" "t = Done x" using assms(3) by (cases u) auto
  then have "part g = applied (ds @ [i])" using u(4) by (simp add: applied_def)
  then show ?thesis
    using assms(1,2) u(1,2) x(2) by (auto simp: going_def nth_list_update)
qed

text \<open>A thread of the list is one without the mutex or one under it.\<close>

lemma split_index:
  assumes "i < m + n" obtains "i < m" | j where "i = m + j" "j < n"
proof (cases "i < m")
  case False
  then show ?thesis using that(2) [of "i - m"] assms by simp
qed (use that(1) in blast)

lemma going_step:
  assumes "thread_step C C1" "going C ds g"
  shows "\<exists>ds g. going C1 ds g"
  using assms
proof (cases rule: thread_step.cases)
  case (command i ts w t1 w1 l)
  note C = assms(2) [unfolded command(1)]
  have "i < m + n" using C command(3) by (simp add: going_def)
  then show ?thesis
    by (rule split_index) (use going_free [OF C, of i t1 w1] going_command [OF C, of _ t1 w1] command(2,4) in blast)+
next
  case (acquire i ts t w)
  note C = assms(2) [unfolded acquire(1)]
  have "i < m + n" "\<not> i < m" using C acquire(3,4) by (auto simp: going_def)
  then have i: "i - m < n" "m + (i - m) = i" by simp_all
  show ?thesis using going_acquire [OF C i(1), of t] acquire(2,4) unfolding i(2) by blast
next
  case (release i ts t l w)
  note C = assms(2) [unfolded release(1)]
  have "i < m + n" "\<not> i < m" using C release(3,4) by (auto simp: going_def)
  then have i: "i - m < n" "m + (i - m) = i" by simp_all
  show ?thesis using going_release [OF C i(1), of t] release(2,4) unfolding i(2) by blast
qed

lemma going_reach:
  assumes "threads_reach C C1" "C = (threads, None, w)" "inv start w"
  shows "\<exists>ds g. going C1 ds g"
  using assms(1,2)
proof (induction rule: threads_reach.induct)
  case (here C)
  then have "going C [] start"
    using assms(3) free_safe by (auto simp: going_def applied_def threads_def nth_append)
  then show ?case by blast
next
  case (further C C1 C2)
  then show ?case using going_step by blast
qed

text \<open>However the threads take turns, when they are done all of them have done their part.\<close>

lemma ends_well:
  assumes "threads_reach (threads, None, w) (ts, l, w1)" "inv start w" "all_done (ts, l, w1)"
  shows "\<exists>ds g. mset ds = mset [0..<n] \<and> part g = applied ds \<and> inv g w1 \<and> (\<forall>j < m. \<exists>x. ts ! j = Done x \<and> post j x g)"
proof -
  obtain ds g where C: "going (ts, l, w1) ds g" using going_reach [OF assms(1) refl assms(2)] by blast
  have len: "length ts = m + n" using C by (simp add: going_def)
  have finished: "\<exists>r. ts ! i = Done r" if "i < m + n" for i using assms(3) that len by (simp add: all_done_def)
  have not_locked: "Done r \<noteq> locked t" for r :: 'a and t :: "('w, 'a) task" by (simp add: locked_def)
  have not_release: "Done r \<noteq> task_bind t (\<lambda>x. Release (Done x))" for r :: 'a and t :: "('w, 'a) task" by (cases t) simp_all
  have "i \<in> set ds" if i: "i < n" for i
  proof -
    obtain r where "ts ! (m + i) = Done r" using finished [of "m + i"] i by auto
    then show ?thesis using going_other [OF C i] not_release not_locked by metis
  qed
  then have sub: "{..<n} \<subseteq> set ds" by blast
  have "l = None"
  proof (cases l)
    case (Some k)
    then show ?thesis using C sub by (auto simp: going_def)
  qed
  then have ds: "set ds \<subseteq> {..<n}" "distinct ds" "part g = applied ds" "inv g w1"
    using C by (simp_all add: going_def)
  have "set ds = set [0..<n]" using ds(1) sub by (simp add: lessThan_atLeast0 subset_antisym)
  then have "mset ds = mset [0..<n]" using set_eq_iff_mset_eq_distinct [OF ds(2) distinct_upt] by blast
  moreover have "\<exists>x. ts ! j = Done x \<and> post j x g" if j: "j < m" for j
  proof -
    obtain x where "ts ! j = Done x" using finished [of j] j by auto
    moreover have "safe inv (rely j) (guar j) (post j) (ts ! j) g" using C j by (simp add: going_def)
    ultimately show ?thesis by simp
  qed
  ultimately show ?thesis using ds(3,4) by blast
qed

text \<open>Until then some thread can go on.\<close>

lemma goes_on:
  assumes "threads_reach (threads, None, w) C" "inv start w" "\<not> all_done C"
  shows "\<exists>C1. thread_step C C1"
proof -
  obtain ts l w1 where c: "C = (ts, l, w1)" by (cases C) auto
  obtain ds g where C: "going (ts, l, w1) ds g" using going_reach [OF assms(1) refl assms(2)] c by blast
  have len: "length ts = m + n" using C by (simp add: going_def)
  have commands: "\<exists>C1. thread_step (ts, l, w1) C1" if "i < m + n" "advance (ts ! i) w1 = Some (t1, w2)" for i t1 w2
    using thread_step.command [of i ts w1 t1 w2 l] that len by auto
  show ?thesis
  proof (cases l)
    case (Some k)
    then obtain i t where t: "k = m + i" "i < n" "ts ! k = task_bind t (\<lambda>x. Release (Done x))"
      "safe inv lock_rely lock_guar (\<lambda>_ g1. part g1 = effect i (applied ds)) t g"
      using C by (auto simp: going_def)
    show ?thesis
    proof (cases "\<exists>x. t = Done x")
      case True
      then show ?thesis using thread_step.release [of k ts] t(1-3) len c by fastforce
    next
      case False
      then obtain t1 w2 where "advance t w1 = Some (t1, w2)" using safe_goes_on [OF t(4)] by blast
      from advance_bind [OF this] have "advance (ts ! k) w1 = Some (task_bind t1 (\<lambda>x. Release (Done x)), w2)"
        unfolding t(3) .
      from commands [OF _ this] show ?thesis using t(1,2) c by simp
    qed
  next
    case None
    obtain i where i: "i < m + n" "\<forall>x. ts ! i \<noteq> Done x" using assms(3) c len by (auto simp: all_done_def in_set_conv_nth)
    from i(1) show ?thesis
    proof (rule split_index)
      assume "i < m"
      then have "safe inv (rely i) (guar i) (post i) (ts ! i) g" using C by (simp add: going_def)
      from safe_goes_on [OF this] i(2) obtain t1 w2 where "advance (ts ! i) w1 = Some (t1, w2)" by blast
      from commands [OF i(1) this] show ?thesis using c by simp
    next
      fix j assume j: "i = m + j" "j < n"
      then have "ts ! i = Acquire (task_bind (body j) (\<lambda>x. Release (Done x)))"
        using going_other [OF C j(2)] i(2) None by (auto simp: locked_def)
      then show ?thesis using thread_step.acquire [of i ts] i(1) len c None by fastforce
    qed
  qed
qed

end

end
