(* ===== verification/Concurrent_Requests.thy ===== *)
theory Concurrent_Requests
  imports Upload_Stages Rely "HOL-Library.Sublist"
begin

text \<open>
  Requests on the threads of the master at the same time: one upload, which takes no mutex and writes
  in several commands; downloads, which read; acknowledgements under their mutex. The ghost state
  is the history of what took effect. Interpretation \<open>requests\<close> proves each request against the others,
  and together they come out as one after the other.
\<close>

section \<open>Histories\<close>

datatype event = Uploaded | Acked part_ack

fun event_effect :: "FileItem \<Rightarrow> catalogue \<Rightarrow> event \<Rightarrow> catalogue" where
  "event_effect fi cat Uploaded = cat_add_file fi cat"
| "event_effect fi cat (Acked req) = cat_add_part req cat"

definition after :: "FileItem \<Rightarrow> catalogue \<Rightarrow> event list \<Rightarrow> catalogue" where
  "after fi cat h = foldl (event_effect fi) cat h"

fun acks :: "event list \<Rightarrow> part_ack list" where
  "acks [] = []"
| "acks (Uploaded # h) = acks h"
| "acks (Acked req # h) = req # acks h"

fun uploads :: "event list \<Rightarrow> nat" where
  "uploads [] = 0"
| "uploads (Uploaded # h) = Suc (uploads h)"
| "uploads (Acked req # h) = uploads h"

definition acked :: "catalogue \<Rightarrow> event list \<Rightarrow> catalogue" where
  "acked cat h = foldl (\<lambda>cat req. cat_add_part req cat) cat (acks h)"

lemma history_append [simp]:
  "acks (h @ h1) = acks h @ acks h1" "uploads (h @ h1) = uploads h + uploads h1"
  by (induction h rule: acks.induct) simp_all

lemma after_snoc [simp]: "after fi cat [] = cat" "after fi cat (h @ [e]) = event_effect fi (after fi cat h) e"
  by (simp_all add: after_def)

lemma acked_snoc [simp]:
  "acked cat [] = cat" "acked cat (h @ [Acked req]) = cat_add_part req (acked cat h)" "acked cat (h @ [Uploaded]) = acked cat h"
  by (simp_all add: acked_def)

text \<open>Acknowledgements are for files that were there, so the upload can be thought of as the last event.\<close>

definition in_range :: "catalogue \<Rightarrow> part_ack list \<Rightarrow> bool" where
  "in_range cat reqs \<longleftrightarrow> list_all (\<lambda>req. unat (partid_fid (part_ack_partid req)) < length (cat_files cat)) reqs"

lemma acked_length: "in_range cat (acks h) \<Longrightarrow> length (cat_files (acked cat h)) = length (cat_files cat)"
proof (induction h rule: rev_induct)
  case (snoc e h)
  then show ?case using cat_add_part_maps(4) by (cases e) (auto simp: in_range_def)
qed simp

lemma after_eq:
  "in_range cat (acks h) \<Longrightarrow> uploads h \<le> 1 \<Longrightarrow> after fi cat h = found (if uploads h = 1 then Entered else Absent) fi (acked cat h)"
proof (induction h rule: rev_induct)
  case Nil
  then show ?case by (simp add: found_def)
next
  case (snoc e h)
  then show ?case
    using acked_length [of cat h] add_part_add_file [of _ "acked cat h" fi] by (cases e) (auto simp: found_def in_range_def)
qed

section \<open>The ghost state\<close>

text \<open>Whether the new file is listed, and what has taken effect.\<close>

type_synonym ghost = "bool \<times> event list"

definition stage_of :: "ghost \<Rightarrow> stage" where
  "stage_of g = (if uploads (snd g) = 1 then Entered else if fst g then Listed else Absent)"

definition good :: "('db, 'e) master_env_scheme \<Rightarrow> FileItem \<Rightarrow> part_ack list \<Rightarrow> catalogue \<Rightarrow> ghost \<Rightarrow> 'db master_state \<Rightarrow> bool" where
  "good E fi reqs cat0 g w \<longleftrightarrow> shared_state E fi reqs cat0 (stage_of g) (acked cat0 (snd g)) w
     \<and> uploads (snd g) \<le> 1 \<and> set (acks (snd g)) \<subseteq> set reqs"

definition grown :: "ghost \<Rightarrow> ghost \<Rightarrow> bool" where
  "grown g g1 \<longleftrightarrow> prefix (snd g) (snd g1)"

text \<open>What each kind of request relies on and guarantees.\<close>

definition up_rely :: "ghost \<Rightarrow> ghost \<Rightarrow> bool" where
  "up_rely g g1 \<longleftrightarrow> grown g g1 \<and> uploads (snd g1) = uploads (snd g) \<and> fst g1 = fst g"

definition up_guar :: "ghost \<Rightarrow> ghost \<Rightarrow> bool" where
  "up_guar g g1 \<longleftrightarrow> grown g g1 \<and> acks (snd g1) = acks (snd g)"

definition ack_rely :: "ghost \<Rightarrow> ghost \<Rightarrow> bool" where
  "ack_rely g g1 \<longleftrightarrow> grown g g1 \<and> acks (snd g1) = acks (snd g)"

definition ack_guar :: "ghost \<Rightarrow> ghost \<Rightarrow> bool" where
  "ack_guar g g1 \<longleftrightarrow> grown g g1 \<and> uploads (snd g1) = uploads (snd g) \<and> fst g1 = fst g"

definition down_guar :: "ghost \<Rightarrow> ghost \<Rightarrow> bool" where
  "down_guar g g1 \<longleftrightarrow> g1 = g"

lemmas rely_defs = grown_def up_rely_def up_guar_def ack_rely_def ack_guar_def down_guar_def

section \<open>Commands that change nothing\<close>

text \<open>A task that only reads keeps what the others do not change.\<close>

definition steady :: "('g \<Rightarrow> 'w \<Rightarrow> bool) \<Rightarrow> 'g moves \<Rightarrow> 'g moves \<Rightarrow> ('g \<Rightarrow> bool) \<Rightarrow> ('w, 'a) task \<Rightarrow> bool" where
  "steady I R G P t \<longleftrightarrow> (\<forall>g. P g \<longrightarrow> safe I R G (\<lambda>_ g1. P g1) t g)"

lemma safe_get:
  assumes "\<And>g1 w. R g g1 \<Longrightarrow> I g1 w \<Longrightarrow> G g1 g1 \<and> Q (fst (db_get E k w)) g1"
  shows "safe I R G Q (t_get E k) g"
  unfolding t_get_def using assms by (auto simp: db_get_keeps)

lemma steady_tasks:
  assumes "\<And>g. G g g" "\<And>g g1. P g \<Longrightarrow> R g g1 \<Longrightarrow> P g1"
  shows "steady I R G P (t_get E k)" "steady I R G P (t_lift r)" "steady I R G P (t_ret x)" "steady I R G P (t_gets h)"
    "(\<And>g w. I g w \<Longrightarrow> I g (f w)) \<Longrightarrow> steady I R G P (t_modify f)"
  unfolding steady_def using assms
  by (auto intro!: safe_get simp: t_lift_def t_ret_def t_gets_def t_modify_def bnd_run ret_run modify_run; blast)+

lemma steady_bnd: "steady I R G P t \<Longrightarrow> (\<And>x. steady I R G P (f x)) \<Longrightarrow> steady I R G P (t_bnd t f)"
  unfolding steady_def by (auto intro!: safe_bnd [where P = "\<lambda>_. P"])

lemma steady_ret: "steady I R G P (t_ret x)"
  by (simp add: steady_def t_ret_def)

lemma steady_map: "(\<And>x. steady I R G P (f x)) \<Longrightarrow> steady I R G P (t_map f xs)"
  by (induction xs) (auto intro!: steady_bnd steady_ret)

lemma safe_map:
  assumes "\<And>x g. x \<in> set xs \<Longrightarrow> P g \<Longrightarrow> safe I R G (\<lambda>r g1. P g1 \<and> r = Inr (y x)) (f x) g"
  shows "P g \<Longrightarrow> safe I R G (\<lambda>r g1. P g1 \<and> r = Inr (map y xs)) (t_map f xs) g"
  using assms
proof (induction xs arbitrary: g)
  case Nil
  then show ?case by (simp add: t_ret_def)
next
  case (Cons x xs)
  have "safe I R G (\<lambda>r g1. P g1 \<and> r = Inr (map y (x # xs))) (t_bnd (t_map f xs) (\<lambda>ys. t_ret (y x # ys))) g1" if "P g1" for g1
    by (rule safe_bnd [OF Cons.IH [OF that]]) (use Cons.prems(2) in \<open>auto simp: t_ret_def\<close>)
  then show ?case
    using Cons.prems by (auto intro!: safe_bnd [OF Cons.prems(2) [of x]])
qed

lemma safe_put:
  assumes "\<And>g1 w. R g g1 \<Longrightarrow> I g1 w \<Longrightarrow> \<exists>g2 w1. db_put E k v w = (Inr (), w1) \<and> G g1 g2 \<and> I g2 w1 \<and> Q (Inr ()) g2"
  shows "safe I R G Q (t_put E k v) g"
  unfolding t_put_def safe.simps
proof (intro allI impI, goal_cases)
  case (1 g1 w)
  from assms [OF this] obtain g2 w1 where "db_put E k v w = (Inr (), w1)" "G g1 g2" "I g2 w1" "Q (Inr ()) g2" by blast
  then show ?case by (intro exI [of _ g2]) (simp add: bnd_run ret_run)
qed

lemma safe_try_get:
  assumes "\<And>g1 w. R g g1 \<Longrightarrow> I g1 w \<Longrightarrow> G g1 g1 \<and> Q (fst (try_logic (db_get E k) w)) g1"
  shows "safe I R G Q (t_try_get E k) g"
  unfolding t_try_get_def safe.simps
proof (intro allI impI, goal_cases)
  case (1 g1 w)
  have "fst (try_logic (db_get E k) w) = (case fst (db_get E k w) of Inr json \<Rightarrow> Inr (Some json)
      | Inl (Throw e) \<Rightarrow> if is_logic_error e then Inr None else Inl (Throw e) | Inl f \<Rightarrow> Inl f)"
    by (auto simp: try_logic_def act_simps split: prod.split sum.split fault.split)
  then show ?case using assms [OF 1] 1(2) by (intro exI [of _ g1]) (simp add: db_get_keeps)
qed

section \<open>A download against the others\<close>

lemma good_storages:
  assumes "good E fi reqs cat0 g w"
  shows "\<exists>json. fst (db_get E ''storages'' w) = Inr json \<and> MetaOnStoragesItem_deserialize (env_boost E) json = Inr (storages_doc cat0)"
    and "i < length (cat_storages cat0) \<Longrightarrow>
      \<exists>json. fst (db_get E (storage_key i) w) = Inr json \<and> StorageItem_deserialize (env_boost E) json = Inr (cat_storages cat0 ! i)"
  using assms read_storages unfolding good_def by blast+

lemma storages_count:
  assumes "cat_ok cat"
  shows "unat (MetaOnStoragesItem_count_get (storages_doc cat)) = length (cat_storages cat)"
  using assms unat_word_of_nat [of "length (cat_storages cat)", where 'a = 32]
  by (simp add: storages_doc_def MetaOnStoragesItem_make_def MetaOnStoragesItem_count_get_def cat_ok_def)

lemma good_flag: "good E fi reqs cat0 g w \<Longrightarrow> good E fi reqs cat0 g (w\<lparr>iterator_initialized := b\<rparr>)"
  by (simp add: good_def shared_state_def)

lemma safe_all_storages:
  assumes "\<And>g. G g g" "\<And>g g1. P g \<Longrightarrow> R g g1 \<Longrightarrow> P g1" "cat_ok cat0" "P g"
  shows "safe (good E fi reqs cat0) R G (\<lambda>r g1. P g1 \<and> r = Inr (cat_storages cat0)) (all_storages_task E) g"
proof -
  let ?I = "good E fi reqs cat0"
  let ?read = "\<lambda>i. t_bnd (t_get E (storage_key i)) (\<lambda>json. t_lift (StorageItem_deserialize (env_boost E) json))"
  have meta: "safe ?I R G (\<lambda>r g1. P g1 \<and> (\<exists>json. r = Inr json \<and> MetaOnStoragesItem_deserialize (env_boost E) json = Inr (storages_doc cat0)))
      (t_get E ''storages'') g"
    by (rule safe_get) (use assms(1,2,4) good_storages(1) in blast)
  have one: "safe ?I R G (\<lambda>r g1. P g1 \<and> r = Inr (cat_storages cat0 ! i)) (?read i) g"
    if "i \<in> set [0..<length (cat_storages cat0)]" "P g" for i g
  proof (rule safe_bnd)
    show "safe ?I R G (\<lambda>r g1. P g1 \<and> (\<exists>json. r = Inr json \<and> StorageItem_deserialize (env_boost E) json = Inr (cat_storages cat0 ! i)))
        (t_get E (storage_key i)) g"
      by (rule safe_get) (use assms(1,2) that good_storages(2) in auto)
  qed (auto simp: t_lift_def)
  note all = safe_map [where xs = "[0..<length (cat_storages cat0)]" and f = ?read and y = "\<lambda>i. cat_storages cat0 ! i", OF one]
  have flag: "safe ?I R G (\<lambda>r g1. P g1 \<and> r = Inr ()) (t_modify (\<lambda>w. w\<lparr>iterator_initialized := False\<rparr>)) g" if "P g" for g
    unfolding t_modify_def safe.simps
  proof (intro allI impI, goal_cases)
    case (1 g1 w)
    then show ?case using assms(1,2) that good_flag by (intro exI [of _ g1]) (simp add: bnd_run ret_run modify_run)
  qed
  have rest: "safe ?I R G (\<lambda>r g1. P g1 \<and> r = Inr (cat_storages cat0))
      (t_bnd (t_map ?read [0..<length (cat_storages cat0)]) (\<lambda>storages.
       t_bnd (t_modify (\<lambda>w. w\<lparr>iterator_initialized := False\<rparr>)) (\<lambda>_. t_ret storages))) g" if "P g" for g
    by (rule safe_bnd [OF all [OF _ _ that]])
      (auto simp: map_nth t_ret_def intro!: safe_bnd [OF flag])
  show ?thesis
    unfolding all_storages_task_def
    by (rule safe_bnd [OF meta]) (auto simp: t_bnd_lift storages_count [OF assms(3)] intro!: rest)
qed

definition read_point :: "FileItem \<Rightarrow> catalogue \<Rightarrow> string \<Rightarrow> (FileItem \<times> StorageItem list) option res \<Rightarrow> ghost \<Rightarrow> bool" where
  "read_point fi cat0 fname r g \<longleftrightarrow> (\<exists>p. prefix p (snd g) \<and> r = Inr (down_result (after fi cat0 p) fname))"

lemma good_after:
  assumes "good E fi reqs cat0 g w"
  shows "found (stage_of g) fi (acked cat0 (snd g)) = after fi cat0 (snd g)"
proof -
  have "in_range cat0 (acks (snd g))" using assms by (auto simp: good_def shared_state_def in_range_def list_all_iff)
  from after_eq [OF this] show ?thesis using assms by (auto simp: good_def found_def stage_of_def)
qed

lemma safe_down:
  "safe (good E fi reqs cat0) grown down_guar (read_point fi cat0 fname) (down_req_task E fname) g"
proof -
  let ?I = "good E fi reqs cat0"
  let ?P = "\<lambda>(r :: string option res) (g :: ghost). cat_ok cat0 \<and> (\<exists>p. prefix p (snd g) \<and> (case down_result (after fi cat0 p) fname of
      None \<Rightarrow> r = Inr None
    | Some (f, sts) \<Rightarrow> sts = cat_storages cat0 \<and> (\<exists>json. r = Inr (Some json) \<and> FileItem_deserialize (env_boost E) json = Inr f)))"
  have look: "safe ?I grown down_guar ?P (t_try_get E (file_key fname)) g"
  proof (rule safe_try_get)
    fix g1 w
    assume good: "?I g1 w"
    then have s: "shared_state E fi reqs cat0 (stage_of g1) (acked cat0 (snd g1)) w" by (simp add: good_def)
    have "case down_result (after fi cat0 (snd g1)) fname of
        None \<Rightarrow> fst (try_logic (db_get E (file_key fname)) w) = Inr None
      | Some (f, sts) \<Rightarrow> sts = cat_storages cat0
          \<and> (\<exists>json. fst (try_logic (db_get E (file_key fname)) w) = Inr (Some json) \<and> FileItem_deserialize (env_boost E) json = Inr f)"
      using read_document [OF s, of fname] unfolding good_after [OF good]
      by (auto simp: try_logic_def act_simps split: option.splits prod.splits)
    moreover have "cat_ok cat0" using s by (simp add: shared_state_def)
    ultimately show "down_guar g1 g1 \<and> ?P (fst (try_logic (db_get E (file_key fname)) w)) g1"
      by (auto simp: down_guar_def)
  qed
  have rest: "safe ?I grown down_guar (read_point fi cat0 fname)
      (t_bnd (t_lift (FileItem_deserialize (env_boost E) json)) (\<lambda>fi. t_bnd (all_storages_task E) (\<lambda>storages. t_ret (Some (fi, storages))))) g1"
    if "cat_ok cat0" "prefix p (snd g1)" "down_result (after fi cat0 p) fname = Some (f, cat_storages cat0)"
      "FileItem_deserialize (env_boost E) json = Inr f" for p f json g1
  proof -
    have "safe ?I grown down_guar (\<lambda>r g1. prefix p (snd g1) \<and> r = Inr (cat_storages cat0)) (all_storages_task E) g1"
      by (rule safe_all_storages) (use that in \<open>auto simp: rely_defs\<close>)
    then show ?thesis
      unfolding that(4) t_bnd_lift by (rule safe_bnd) (use that(3) in \<open>auto simp: t_ret_def read_point_def\<close>)
  qed
  have after_look: "safe ?I grown down_guar (read_point fi cat0 fname) (case x of
       None \<Rightarrow> t_ret None
     | Some json \<Rightarrow> t_bnd (t_lift (FileItem_deserialize (env_boost E) json)) (\<lambda>fi.
         t_bnd (all_storages_task E) (\<lambda>storages. t_ret (Some (fi, storages))))) g1" if P: "?P (Inr x) g1" for x g1
  proof -
    obtain p where p: "cat_ok cat0" "prefix p (snd g1)" "case down_result (after fi cat0 p) fname of
      None \<Rightarrow> (Inr x :: string option res) = Inr None
    | Some (f, sts) \<Rightarrow> sts = cat_storages cat0
        \<and> (\<exists>json. (Inr x :: string option res) = Inr (Some json) \<and> FileItem_deserialize (env_boost E) json = Inr f)"
      using P by (elim conjE exE) (rule that)
    show ?thesis
    proof (cases "down_result (after fi cat0 p) fname")
      case None
      then show ?thesis using p(2,3) by (auto simp: read_point_def t_ret_def)
    next
      case (Some y)
      then obtain f json where "y = (f, cat_storages cat0)" "x = Some json" "FileItem_deserialize (env_boost E) json = Inr f"
        using p(3) by (cases y) auto
      then show ?thesis using rest [OF p(1,2)] Some by simp
    qed
  qed
  show ?thesis
    unfolding down_req_task_def lookup_task_def
  proof (rule safe_bnd [OF look])
    fix e g1
    assume "?P (Inl e) g1"
    then show "read_point fi cat0 fname (Inl e) g1" by (auto split: option.splits)
  qed (rule after_look)
qed

text \<open>Alone, a download is answered from the catalogue the database holds.\<close>

lemma safe_run:
  "safe I R G Q t g \<Longrightarrow> I g w \<Longrightarrow> R g g \<Longrightarrow> (\<And>g1. G g g1 \<Longrightarrow> g1 = g) \<Longrightarrow> Q (fst (task_run t w)) g"
proof (induction t arbitrary: w)
  case (Atomic c k)
  obtain r w1 where c: "c w = (r, w1)" by (cases "c w")
  obtain g2 where "G g g2" "I g2 w1" "safe I R G Q (k r) g2" using Atomic.prems(1-3) c by fastforce
  then have "I g w1" "safe I R G Q (k r) g" using Atomic.prems(4) by blast+
  then show ?case using Atomic.IH [OF rangeI] Atomic.prems(3,4) c by simp
next
  case (Read k)
  obtain g2 where "G g g2" "I g2 w" "safe I R G Q (k w) g2" using Read.prems(1-3) by auto
  then have "safe I R G Q (k w) g" using Read.prems(4) by blast
  then show ?case using Read.IH [OF rangeI] Read.prems(2-4) by simp
qed simp_all

lemma down_req_task_alone:
  assumes "good E fi reqs cat (False, []) w"
  shows "fst (task_run (down_req_task E fname) w) = Inr (down_result cat fname)"
  using safe_run [OF safe_down assms, of fname] by (simp add: rely_defs read_point_def)

section \<open>The upload against the others\<close>

definition not_yet :: "ghost \<Rightarrow> bool" where
  "not_yet g \<longleftrightarrow> uploads (snd g) = 0 \<and> \<not> fst g"

lemma not_yet_stable: "not_yet g \<Longrightarrow> up_rely g g1 \<Longrightarrow> not_yet g1"
  by (simp add: not_yet_def up_rely_def)

lemma not_yet_stage: "not_yet g \<Longrightarrow> stage_of g = Absent"
  by (simp add: not_yet_def stage_of_def)

lemma up_guar_refl: "up_guar g g"
  by (simp add: rely_defs)

text \<open>Up to the search for a name the upload changes the round robin only.\<close>

lemma good_globals:
  "good E fi reqs cat0 g w \<Longrightarrow> good E fi reqs cat0 g (w\<lparr>mst_rand := r\<rparr>)"
  "good E fi reqs cat0 g w \<Longrightarrow> good E fi reqs cat0 g (w\<lparr>current_round_robin := n\<rparr>)"
  "good E fi reqs cat0 g w \<Longrightarrow> good E fi reqs cat0 g (w\<lparr>static_storages := sts, current_round_robin := n, iterator_initialized := b\<rparr>)"
  by (simp_all add: good_def shared_state_def)

lemma up_steady:
  "steady I up_rely up_guar not_yet (t_get E k)" "steady I up_rely up_guar not_yet (t_lift r)"
  "steady I up_rely up_guar not_yet (t_ret x)" "steady I up_rely up_guar not_yet (t_gets h)"
  "(\<And>g w. I g w \<Longrightarrow> I g (f w)) \<Longrightarrow> steady I up_rely up_guar not_yet (t_modify f)"
  by (rule steady_tasks; auto intro: up_guar_refl not_yet_stable)+

lemma steady_all_storages: "steady (good E fi reqs cat0) up_rely up_guar not_yet (all_storages_task E)"
  unfolding all_storages_task_def by (intro steady_bnd up_steady steady_map) (rule good_flag)

lemma steady_parts: "steady (good E fi reqs cat0) up_rely up_guar not_yet (parts_task E fsize)"
  unfolding parts_task_def by (intro steady_bnd up_steady)

lemma steady_rand: "steady (good E fi reqs cat0) up_rely up_guar not_yet rand_task"
  unfolding rand_task_def t_modify_def t_gets_def steady_def t_bnd_def
  using not_yet_stable up_guar_refl good_globals(1) by (auto simp: t_ret_def bnd_run ret_run modify_run; blast)

lemma steady_fields: "steady (good E fi reqs cat0) up_rely up_guar not_yet (fields_task E fsize)"
  unfolding fields_task_def round_robin_task_def
  by (auto intro!: steady_bnd up_steady steady_all_storages steady_parts steady_rand good_globals split: prod.split)

lemma taken_not_yet:
  assumes "good E fi reqs cat0 g w" "not_yet g"
  shows "name_taken E w name \<longleftrightarrow> name \<in> set (map fi_name (cat_files cat0))"
  using assms taken_before by (simp only: good_def not_yet_stage) blast

lemma safe_search:
  assumes "cat_ok cat0"
  shows "i \<le> fresh_number cat0 name \<Longrightarrow> not_yet g \<Longrightarrow>
    safe (good E fi reqs cat0) up_rely up_guar (\<lambda>r g. not_yet g \<and> r = Inr (fresh_number cat0 name)) (search_task E name i) g"
proof (induction E name i arbitrary: g rule: search_task.induct)
  case (1 E name i)
  let ?taken = "numbered_name name i \<in> set (map fi_name (cat_files cat0))"
  let ?Q = "\<lambda>r g. not_yet g \<and> r = Inr (fresh_number cat0 name)"
  have taken: "?taken \<longleftrightarrow> i \<noteq> fresh_number cat0 name"
    using fresh_number_spec(2,3) [OF assms] 1(2) by (metis order_less_le)
  have more: "safe (good E fi reqs cat0) up_rely up_guar ?Q
      (if i = - 1 then Done (Inl Looping) else search_task E name (i + 1)) g1" if "?taken" "not_yet g1" for g1
  proof -
    have "i < fresh_number cat0 name" using 1(2) that(1) taken by simp
    moreover from this have "i \<noteq> - 1" using word_n1_ge [of "fresh_number cat0 name"] by auto
    ultimately have "i \<noteq> - 1" "i + 1 \<le> fresh_number cat0 name" by (auto simp: inc_le)
    then show ?thesis using 1(1) that(2) by simp
  qed
  have look: "(fst (db_get E (file_key (numbered_name name i)) w) = Inl e \<longrightarrow> \<not> ?taken)
      \<and> (fst (db_get E (file_key (numbered_name name i)) w) = Inr x \<longrightarrow> ?taken)"
    if "good E fi reqs cat0 g1 w" "not_yet g1" for g1 w e x
    using taken_not_yet [OF that, of "numbered_name name i"] by (simp add: name_taken_def split: sum.splits)
  show ?case
    unfolding search_task.simps [of E name i] safe.simps
  proof (intro allI impI, goal_cases)
    case (1 g1 w)
    have now: "not_yet g1" using not_yet_stable [OF \<open>not_yet g\<close> 1(1)] .
    show ?case
      by (rule exI [of _ g1])
        (use taken more [OF _ now] look [OF 1(2) now] now 1(2) in \<open>auto simp: db_get_keeps up_guar_refl split: sum.splits simp del: set_map\<close>)
  qed
qed

definition entered_post :: "FileItem \<Rightarrow> catalogue \<Rightarrow> FileItem res \<Rightarrow> ghost \<Rightarrow> bool" where
  "entered_post fi cat0 r g \<longleftrightarrow> uploads (snd g) = 1 \<and> r = Inr (file_entry cat0 fi)"

lemma good_list_files:
  assumes "good E fi reqs cat0 g w" "not_yet g" "MetaOnFilesItem_deserialize (env_boost E) s = Inr (files_doc (cat_add_file fi cat0))"
  shows "\<exists>w1. db_put E ''files'' s w = (Inr (), w1) \<and> good E fi reqs cat0 (True, snd g) w1"
  using list_files [of E fi reqs cat0 "acked cat0 (snd g)" w s] assms not_yet_stage [OF assms(2)]
  by (auto simp: good_def stage_of_def not_yet_def)

lemma good_enter_document:
  assumes "good E fi reqs cat0 (True, h) w" "uploads h = 0" "FileItem_deserialize (env_boost E) s' = Inr (file_entry cat0 fi)"
  shows "\<exists>w1. db_put E (file_key (fi_name (file_entry cat0 fi))) s' w = (Inr (), w1) \<and> good E fi reqs cat0 (True, h @ [Uploaded]) w1"
  using enter_document [of E fi reqs cat0 "acked cat0 h" w s'] assms by (auto simp: good_def stage_of_def)

lemma safe_enter:
  assumes "env_ok E" "FileItem_ok fi" "length (cat_files cat0) + 1 < 2 ^ 64" "cat_ok cat0"
    and "MetaOnFilesItem_deserialize (env_boost E) json = Inr (files_doc cat0)" "not_yet g"
  shows "safe (good E fi reqs cat0) up_rely up_guar (entered_post fi cat0)
    (enter_file_task E (name_set (numbered_name (fi_name fi) (fresh_number cat0 (fi_name fi))) fi) json) g"
proof -
  let ?I = "good E fi reqs cat0" and ?listed = "\<lambda>r g. uploads (snd g) = 0 \<and> fst g \<and> r = Inr ()"
  obtain s s' where s: "MetaOnFilesItem_serialize (files_doc (cat_add_file fi cat0)) = Inr s"
    "MetaOnFilesItem_deserialize (env_boost E) s = Inr (files_doc (cat_add_file fi cat0))"
    "FileItem_serialize (file_entry cat0 fi) = Inr s'" "FileItem_deserialize (env_boost E) s' = Inr (file_entry cat0 fi)"
    using entered_documents [OF env_okD(1) [OF assms(1)] assms(4,2,3)] .
  have list: "safe ?I up_rely up_guar ?listed (t_put E ''files'' s) g"
  proof (rule safe_put)
    fix g1 w
    assume g1: "up_rely g g1" "?I g1 w"
    note now = not_yet_stable [OF assms(6) g1(1)]
    from good_list_files [OF g1(2) now s(2)]
    show "\<exists>g2 w1. db_put E ''files'' s w = (Inr (), w1) \<and> up_guar g1 g2 \<and> ?I g2 w1 \<and> ?listed (Inr ()) g2"
      using now by (intro exI [of _ "(True, snd g1)"]) (auto simp: rely_defs not_yet_def)
  qed
  have doc: "safe ?I up_rely up_guar (\<lambda>r g. uploads (snd g) = 1 \<and> r = Inr ()) (t_put E (file_key (fi_name (file_entry cat0 fi))) s') g1"
    if "?listed (Inr ()) g1" for g1
  proof (rule safe_put)
    fix g2 w
    assume "up_rely g1 g2" "?I g2 w"
    moreover from this have "g2 = (True, snd g2)" "uploads (snd g2) = 0" using that by (auto simp: up_rely_def prod_eq_iff)
    ultimately show "\<exists>g3 w1. db_put E (file_key (fi_name (file_entry cat0 fi))) s' w = (Inr (), w1) \<and> up_guar g2 g3 \<and> ?I g3 w1
        \<and> uploads (snd g3) = 1 \<and> Inr () = Inr ()"
      using good_enter_document [OF _ _ s(4), of reqs "snd g2" w]
      by (intro exI [of _ "(True, snd g2 @ [Uploaded])"]) (auto simp: rely_defs)
  qed
  show ?thesis
    unfolding enter_file_task_steps [OF assms(4,5) s(1,3)]
    by (rule safe_bnd [OF list]) (auto intro!: safe_bnd [OF doc] simp: t_ret_def entered_post_def)
qed

lemma never_good: "(\<And>g1 w. R g g1 \<Longrightarrow> \<not> I g1 w) \<Longrightarrow> safe I R G Q (t_bnd (t_get E k) f) g"
  by (simp add: t_bnd_def t_get_def)

lemma safe_create:
  assumes "not_yet g"
  shows "safe (good E fi reqs cat0) up_rely up_guar (entered_post fi cat0) (create_file_task E fi) g"
proof (cases "\<exists>g1 w. up_rely g g1 \<and> good E fi reqs cat0 g1 w")
  case True
  let ?I = "good E fi reqs cat0"
  have ok: "env_ok E" "FileItem_ok fi" "length (cat_files cat0) + 1 < 2 ^ 64" "cat_ok cat0"
    using True by (auto simp: good_def shared_state_def)
  have meta: "safe ?I up_rely up_guar (\<lambda>r g. not_yet g
      \<and> (\<exists>json. r = Inr json \<and> MetaOnFilesItem_deserialize (env_boost E) json = Inr (files_doc cat0))) (t_get E ''files'') g1"
    if "not_yet g1" for g1
  proof (rule safe_get)
    fix g2 w
    assume g2: "up_rely g1 g2" "?I g2 w"
    note now = not_yet_stable [OF that g2(1)]
    obtain db where "mst_database w = Some db" "represents (env_boost E) (store_of E db) (acked cat0 (snd g2))"
      "files_doc (acked cat0 (snd g2)) = files_doc cat0"
      using g2(2) not_yet_stage [OF now] by (auto simp: good_def shared_state_def held_def same_shape_def)
    then have "\<exists>json. fst (db_get E ''files'' w) = Inr json \<and> MetaOnFilesItem_deserialize (env_boost E) json = Inr (files_doc cat0)"
      using db_reads [of w db E "MetaOnFilesItem_deserialize (env_boost E)" "''files''" "files_doc cat0"]
      by (auto simp: represents_def)
    then show "up_guar g2 g2 \<and> not_yet g2
        \<and> (\<exists>json. fst (db_get E ''files'' w) = Inr json \<and> MetaOnFilesItem_deserialize (env_boost E) json = Inr (files_doc cat0))"
      using now up_guar_refl by blast
  qed
  show ?thesis
    unfolding create_file_task_def name_get_def
    by (rule safe_bnd [OF safe_search [OF ok(4) _ assms]])
      (auto intro!: safe_bnd [OF meta] safe_enter [OF ok])
next
  case False
  then show ?thesis
    unfolding create_file_task_def t_bnd_def by (subst search_task.simps) simp
qed

text \<open>The whole handler: granted, and the file is entered; otherwise nothing is.\<close>

definition up_post :: "FileItem \<Rightarrow> catalogue \<Rightarrow> up_outcome res \<Rightarrow> ghost \<Rightarrow> bool" where
  "up_post fi cat0 r g \<longleftrightarrow> (case r of
     Inr (Granted e flds) \<Rightarrow> uploads (snd g) = 1 \<and> e = file_entry cat0 fi
   | _ \<Rightarrow> not_yet g)"

lemma up_post_stable: "up_post fi cat0 r g \<Longrightarrow> up_rely g g1 \<Longrightarrow> up_post fi cat0 r g1"
  by (auto simp: up_post_def rely_defs not_yet_def split: sum.splits up_outcome.splits)

lemma safe_up:
  assumes "not_yet g"
  shows "safe (good E fi reqs cat0) up_rely up_guar (up_post fi cat0) (up_req_task E fi) g"
proof -
  let ?I = "good E fi reqs cat0"
  have grant: "safe ?I up_rely up_guar (up_post fi cat0) (t_bnd (create_file_task E fi) (\<lambda>fi. t_ret (Granted fi flds))) g1"
    if "not_yet g1" for g1 flds
    by (rule safe_bnd [OF safe_create [OF that]]) (auto simp: entered_post_def t_ret_def up_post_def)
  have few: "safe ?I up_rely up_guar (up_post fi cat0) (t_ret x) g1" if "not_yet g1" "x = No_parts \<or> (\<exists>k. x = Too_few k)" for g1 x
    using that by (auto simp: t_ret_def up_post_def)
  have deal: "safe ?I up_rely up_guar (up_post fi cat0)
      (t_bnd (fields_task E (file_size_get fi)) (\<lambda>flds.
       if length flds < unat (redundancy_get fi) then t_ret (Too_few (length flds))
       else t_bnd (create_file_task E fi) (\<lambda>fi. t_ret (Granted fi flds)))) g1" if "not_yet g1" for g1
    by (rule safe_bnd [OF steady_fields [unfolded steady_def, rule_format, OF that]])
      (auto simp: up_post_def intro: grant few)
  show ?thesis
    unfolding up_req_task_def
    by (rule safe_bnd [OF steady_parts [unfolded steady_def, rule_format, OF assms]])
      (auto simp: up_post_def intro: deal few)
qed

section \<open>An acknowledgement against the others\<close>

lemma safe_ack:
  assumes "req \<in> set reqs"
  shows "safe (good E fi reqs cat0) ack_rely ack_guar (\<lambda>_ g1. acks (snd g1) = acks (snd g) @ [req]) (part_ack_task E req) g"
proof (cases "\<exists>g1 w. ack_rely g g1 \<and> good E fi reqs cat0 g1 w")
  case True
  let ?I = "good E fi reqs cat0" and ?i = "unat (partid_fid (part_ack_partid req))"
  let ?cat = "acked cat0 (snd g)" and ?same = "\<lambda>g1. acks (snd g1) = acks (snd g)"
  let ?f = "cat_files ?cat ! ?i"
  have same: "acked cat0 (snd g1) = ?cat" if "?same g1" for g1 using that by (simp add: acked_def)
  have rely: "?same g2" "ack_guar g2 g2" if "?same g1" "ack_rely g1 g2" for g1 g2 using that by (simp_all add: rely_defs)
  have shared: "shared_state E fi reqs cat0 (stage_of g1) ?cat w" if "?I g1 w" "?same g1" for g1 w
    using that(1) unfolding good_def same [OF that(2)] by blast
  obtain g0 w0 where "?I g0 w0" "?same g0" using True by (auto simp: ack_rely_def)
  from shared [OF this] have ok: "env_ok E" "cat_ok ?cat" and i: "?i < length (cat_files ?cat)"
    using assms by (auto simp: shared_state_def same_shape_def list_all_iff)
  have f: "?f \<in> set (cat_files ?cat)" using i by simp
  obtain v where v: "FileItem_serialize (add_part req ?f) = Inr v" "FileItem_deserialize (env_boost E) v = Inr (add_part req ?f)"
    using add_part_documents [OF env_okD(1) [OF ok(1)] ok(2) f] .
  have name: "safe ?I ack_rely ack_guar (\<lambda>r g1. ?same g1 \<and> (\<exists>json mof. r = Inr json \<and> MetaOnFilesItem_deserialize (env_boost E) json = Inr mof
      \<and> file_name_by_id mof (partid_fid (part_ack_partid req)) = Inr (fi_name ?f))) (t_get E ''files'') g"
    by (rule safe_get) (use rely read_name [OF shared i] in blast)
  have doc: "safe ?I ack_rely ack_guar (\<lambda>r g1. ?same g1 \<and> (\<exists>json. r = Inr json \<and> FileItem_deserialize (env_boost E) json = Inr ?f))
      (t_get E (file_key (fi_name ?f))) g1" if "?same g1" for g1
    by (rule safe_get) (use that rely read_file [OF shared f] in blast)
  have put: "safe ?I ack_rely ack_guar (\<lambda>r g1. r = Inr () \<and> acks (snd g1) = acks (snd g) @ [req]) (t_put E (file_key (fi_name ?f)) v) g1"
    if "?same g1" for g1
  proof (rule safe_put)
    fix g2 w
    assume g2: "ack_rely g1 g2" "?I g2 w"
    note now = rely(1) [OF that g2(1)]
    from write_part [OF shared [OF g2(2) now] assms v(2)]
    show "\<exists>g3 w1. db_put E (file_key (fi_name ?f)) v w = (Inr (), w1) \<and> ack_guar g2 g3 \<and> ?I g3 w1
        \<and> Inr () = Inr () \<and> acks (snd g3) = acks (snd g) @ [req]"
      using g2(2) now same [OF now] assms
      by (intro exI [of _ "(fst g2, snd g2 @ [Acked req])"]) (auto simp: rely_defs good_def stage_of_def)
  qed
  have rest: "steady ?I ack_rely ack_guar (\<lambda>g1. acks (snd g1) = acks (snd g) @ [req]) (all_storages_task E)"
    unfolding all_storages_task_def
    by (intro steady_bnd steady_tasks steady_map steady_ret) (auto simp: rely_defs intro: good_flag)
  have reply: "safe ?I ack_rely ack_guar (\<lambda>_ g1. acks (snd g1) = acks (snd g) @ [req])
      (t_bnd (all_storages_task E) (\<lambda>storages. t_ret (y, Some storages))) g1"
    if "acks (snd g1) = acks (snd g) @ [req]" for g1 and y :: "stid_type list"
    by (rule safe_bnd [OF rest [unfolded steady_def, rule_format, OF that]]) (auto simp: t_ret_def)
  have none: "safe ?I ack_rely ack_guar (\<lambda>_ g1. acks (snd g1) = acks (snd g) @ [req]) (t_ret x) g1"
    if "acks (snd g1) = acks (snd g) @ [req]" for g1 and x :: "stid_type list \<times> StorageItem list option"
    using that by (simp add: t_ret_def)
  show ?thesis
    unfolding part_ack_task_def
    by (rule safe_bnd [OF name]) (auto simp: t_bnd_lift record_part_run v(1)
        intro!: safe_bnd [OF doc] safe_bnd [OF put] reply none)
next
  case False
  then show ?thesis unfolding part_ack_task_def by (intro never_good) auto
qed

section \<open>All of them together\<close>

text \<open>What a request on a thread ends with.\<close>

datatype outcome =
    Up_done "up_outcome res"
  | Down_done "(FileItem \<times> StorageItem list) option res"
  | Ack_done "(stid_type list \<times> StorageItem list option) res"

definition upload_thread :: "('db, 'e) master_env_scheme \<Rightarrow> FileItem \<Rightarrow> ('db master_state, outcome) task" where
  "upload_thread E fi = task_bind (up_req_task E fi) (\<lambda>r. Done (Up_done r))"

definition download_thread :: "('db, 'e) master_env_scheme \<Rightarrow> string \<Rightarrow> ('db master_state, outcome) task" where
  "download_thread E fname = task_bind (down_req_task E fname) (\<lambda>r. Done (Down_done r))"

definition ack_thread :: "('db, 'e) master_env_scheme \<Rightarrow> part_ack \<Rightarrow> ('db master_state, outcome) task" where
  "ack_thread E req = task_bind (part_ack_task E req) (\<lambda>r. Done (Ack_done r))"

text \<open>Thread 0 is the upload, the next ones are the downloads.\<close>

definition free_rely :: "nat \<Rightarrow> ghost \<Rightarrow> ghost \<Rightarrow> bool" where
  "free_rely j = (if j = 0 then up_rely else grown)"

definition free_guar :: "nat \<Rightarrow> ghost \<Rightarrow> ghost \<Rightarrow> bool" where
  "free_guar j = (if j = 0 then up_guar else down_guar)"

definition free_post :: "FileItem \<Rightarrow> catalogue \<Rightarrow> string list \<Rightarrow> nat \<Rightarrow> outcome \<Rightarrow> ghost \<Rightarrow> bool" where
  "free_post fi cat0 names j x g \<longleftrightarrow>
     (if j = 0 then \<exists>r. x = Up_done r \<and> up_post fi cat0 r g
      else \<exists>r. x = Down_done r \<and> read_point fi cat0 (names ! (j - 1)) r g)"

definition free_thread :: "('db, 'e) master_env_scheme \<Rightarrow> FileItem \<Rightarrow> string list \<Rightarrow> nat \<Rightarrow> ('db master_state, outcome) task" where
  "free_thread E fi names j = (if j = 0 then upload_thread E fi else download_thread E (names ! (j - 1)))"

interpretation requests: rely_guarantee "good E fi reqs cat0" free_rely free_guar "free_post fi cat0 names"
  "free_thread E fi names" "Suc (length names)" ack_rely ack_guar "\<lambda>g. acks (snd g)" "\<lambda>i c. c @ [reqs ! i]"
  "\<lambda>i. ack_thread E (reqs ! i)" "length reqs" "(False, [])" for E fi reqs cat0 names
proof
  show "safe (good E fi reqs cat0) (free_rely j) (free_guar j) (free_post fi cat0 names j) (free_thread E fi names j) (False, [])"
    if "j < Suc (length names)" for j
    by (auto simp: free_rely_def free_guar_def free_thread_def upload_thread_def download_thread_def free_post_def not_yet_def
        intro!: safe_bind [OF safe_up] safe_bind [OF safe_down])
  show "safe (good E fi reqs cat0) ack_rely ack_guar (\<lambda>_ g1. acks (snd g1) = acks (snd g) @ [reqs ! i]) (ack_thread E (reqs ! i)) g"
    if "i < length reqs" for i g
    unfolding ack_thread_def using that by (intro safe_bind [OF safe_ack]) simp_all
  show "free_post fi cat0 names j x g1" if "free_post fi cat0 names j x g" "free_rely j g g1" for j x g g1
    using that by (auto simp: free_post_def free_rely_def read_point_def grown_def
        split: if_splits intro: up_post_stable prefix_order.trans)
qed (auto simp: free_rely_def free_guar_def rely_defs split: if_splits intro: prefix_order.trans)

text \<open>
  The same acknowledgements, and only the part of the upload that writes.
\<close>

definition create_thread :: "('db, 'e) master_env_scheme \<Rightarrow> FileItem
    \<Rightarrow> ('db master_state, FileItem res + (stid_type list \<times> StorageItem list option) res) task" where
  "create_thread E fi = task_bind (create_file_task E fi) (\<lambda>r. Done (Inl r))"

definition entry_thread :: "('db, 'e) master_env_scheme \<Rightarrow> part_ack
    \<Rightarrow> ('db master_state, FileItem res + (stid_type list \<times> StorageItem list option) res) task" where
  "entry_thread E req = task_bind (part_ack_task E req) (\<lambda>r. Done (Inr r))"

interpretation entering: rely_guarantee "good E fi reqs cat0" "\<lambda>_. up_rely" "\<lambda>_. up_guar"
  "\<lambda>_ x g. \<exists>r. x = Inl r \<and> entered_post fi cat0 r g" "\<lambda>_. create_thread E fi" "Suc 0" ack_rely ack_guar
  "\<lambda>g. acks (snd g)" "\<lambda>i c. c @ [reqs ! i]" "\<lambda>i. entry_thread E (reqs ! i)" "length reqs" "(False, [])" for E fi reqs cat0
proof
  show "safe (good E fi reqs cat0) up_rely up_guar (\<lambda>x g. \<exists>r. x = Inl r \<and> entered_post fi cat0 r g) (create_thread E fi) (False, [])"
    by (auto simp: create_thread_def not_yet_def intro!: safe_bind [OF safe_create])
  show "safe (good E fi reqs cat0) ack_rely ack_guar (\<lambda>_ g1. acks (snd g1) = acks (snd g) @ [reqs ! i]) (entry_thread E (reqs ! i)) g"
    if "i < length reqs" for i g
    unfolding entry_thread_def using that by (intro safe_bind [OF safe_ack]) simp_all
qed (auto simp: rely_defs entered_post_def intro: prefix_order.trans)

lemma locked_list: "map (\<lambda>req. locked (f req)) reqs = map (\<lambda>i. locked (f (reqs ! i))) [0..<length reqs]"
  by (rule nth_equalityI) simp_all

lemma good_start:
  assumes "env_ok E" "mst_database w = Some db"
    and "represents (env_boost E) (store_of E db) cat" "cat_ok cat"
    and "FileItem_ok fi" "length (cat_files cat) + 1 < 2 ^ 64"
    and "list_all (\<lambda>req. unat (partid_fid (part_ack_partid req)) < length (cat_files cat)) reqs"
  shows "good E fi reqs cat (False, []) w"
  using assms by (simp add: good_def stage_of_def acked_def shared_state_def same_shape_def held_def)

lemma applied_list: "foldl (\<lambda>c i. c @ [reqs ! i]) [] ds = map ((!) reqs) ds"
  by (induction ds rule: rev_induct) simp_all

text \<open>What the database holds once the history is complete.\<close>

lemma good_end:
  assumes "good E fi reqs cat g w" "mset ds = mset [0..<length reqs]" "acks (snd g) = map ((!) reqs) ds"
  shows "mset (acks (snd g)) = mset reqs \<and> (uploads (snd g) = 1 \<or> \<not> fst g \<longrightarrow>
    (\<exists>db. mst_database w = Some db \<and> represents (env_boost E) (store_of E db) (after fi cat (snd g))))"
proof -
  have "mset (acks (snd g)) = mset reqs" using assms(2,3) by (metis map_nth mset_map)
  moreover have "after fi cat (snd g) = found (stage_of g) fi (acked cat (snd g))" using good_after [OF assms(1)] by simp
  ultimately show ?thesis
    using assms(1) by (auto simp: good_def shared_state_def held_def stage_of_def found_def)
qed

lemma free_threads:
  "map (free_thread E fi names) [0..<Suc (length names)] = upload_thread E fi # map (download_thread E) names"
  by (rule nth_equalityI) (auto simp: free_thread_def nth_Cons' nth_append less_Suc_eq)

text \<open>
  C13: Requests on the threads of the master at the same time, an upload which takes no mutex,
  downloads, and acknowledgements under theirs, behave as if each took effect in one moment. Under
  every schedule of their database commands some thread can go on until all are done; and then
  there is a history of what took effect, each acknowledgement in it once and the upload once if it was
  granted and not otherwise, such that the database holds the catalogue after that history, the
  client who uploads is told the entry of its file, and each download is answered from the catalogue
  after some beginning of the history. It is a second upload at the same time that breaks it.
\<close>

theorem requests_linearise:
  assumes "env_ok E" "mst_database w = Some db"
    and "represents (env_boost E) (store_of E db) cat" "cat_ok cat"
    and "FileItem_ok fi" "length (cat_files cat) + 1 < 2 ^ 64"
    and "list_all (\<lambda>req. unat (partid_fid (part_ack_partid req)) < length (cat_files cat)) reqs"
    and "threads_reach (upload_thread E fi # map (download_thread E) names
      @ map (\<lambda>req. locked (ack_thread E req)) reqs, None, w) (ts, l, w1)"
  shows "if all_done (ts, l, w1)
    then \<exists>h out. mset (acks h) = mset reqs
      \<and> ts ! 0 = Done (Up_done out)
      \<and> (case out of
           Inr (Granted e flds) \<Rightarrow> uploads h = 1 \<and> e = file_entry cat fi
         | _ \<Rightarrow> uploads h = 0)
      \<and> (\<exists>db1. mst_database w1 = Some db1 \<and> represents (env_boost E) (store_of E db1) (after fi cat h))
      \<and> (\<forall>j < length names. \<exists>p. prefix p h
           \<and> ts ! Suc j = Done (Down_done (Inr (down_result (after fi cat p) (names ! j)))))
    else \<exists>c. thread_step (ts, l, w1) c"
proof -
  note start = good_start [OF assms(1-7)]
  have reach: "threads_reach (map (free_thread E fi names) [0..<Suc (length names)]
      @ map (\<lambda>i. locked (ack_thread E (reqs ! i))) [0..<length reqs], None, w) (ts, l, w1)"
    unfolding free_threads locked_list [of "ack_thread E", symmetric] using assms(8) by simp
  note reach = this [folded requests.threads_def]
  show ?thesis
  proof (cases "all_done (ts, l, w1)")
    case True
    obtain ds g where g: "mset ds = mset [0..<length reqs]" "acks (snd g) = requests.applied reqs ds" "good E fi reqs cat g w1"
      "\<forall>j < Suc (length names). \<exists>x. ts ! j = Done x \<and> free_post fi cat names j x g"
      using requests.ends_well [OF reach start True] by blast
    have acks: "acks (snd g) = map ((!) reqs) ds" using g(2) by (simp add: requests.applied_def applied_list)
    obtain out where out: "ts ! 0 = Done (Up_done out)" "up_post fi cat out g" using g(4) [rule_format, of 0] by (auto simp: free_post_def)
    have "uploads (snd g) = 1 \<or> \<not> fst g" using out(2) by (auto simp: up_post_def not_yet_def split: sum.splits up_outcome.splits)
    with good_end [OF g(3,1) acks] have db: "mset (acks (snd g)) = mset reqs"
      "\<exists>db1. mst_database w1 = Some db1 \<and> represents (env_boost E) (store_of E db1) (after fi cat (snd g))" by blast+
    have told: "case out of Inr (Granted e flds) \<Rightarrow> uploads (snd g) = 1 \<and> e = file_entry cat fi | _ \<Rightarrow> uploads (snd g) = 0"
      using out(2) by (auto simp: up_post_def not_yet_def split: sum.splits up_outcome.splits)
    have "\<exists>p. prefix p (snd g) \<and> ts ! Suc j = Done (Down_done (Inr (down_result (after fi cat p) (names ! j))))"
      if "j < length names" for j
      using g(4) [rule_format, of "Suc j"] that by (auto simp: free_post_def read_point_def)
    with db told out(1) have "\<exists>h out. mset (acks h) = mset reqs
      \<and> ts ! 0 = Done (Up_done out)
      \<and> (case out of
           Inr (Granted e flds) \<Rightarrow> uploads h = 1 \<and> e = file_entry cat fi
         | _ \<Rightarrow> uploads h = 0)
      \<and> (\<exists>db1. mst_database w1 = Some db1 \<and> represents (env_boost E) (store_of E db1) (after fi cat h))
      \<and> (\<forall>j < length names. \<exists>p. prefix p h
           \<and> ts ! Suc j = Done (Down_done (Inr (down_result (after fi cat p) (names ! j)))))"
      by (intro exI [of _ "snd g"] exI [of _ out] conjI) blast+
    then show ?thesis by (simp only: True if_True)
  next
    case False
    then show ?thesis using requests.goes_on [OF reach start False] by simp
  qed
qed

text \<open>
  An upload, a download and the two acknowledgements of the sample, one after the other.
\<close>

lemma handler_tasks_lock_free: "lock_free (down_req_task E fname)" "lock_free (up_req_task E fi)"
proof -
  have storages: "lock_free (all_storages_task E)" for E :: "('db, 'e) master_env_scheme"
    unfolding all_storages_task_def by (auto intro!: lock_free_tasks(7))
  have create: "lock_free (create_file_task E fi)" for E :: "('db, 'e) master_env_scheme" and fi
    unfolding create_file_task_def by (auto intro!: lock_free_tasks(7) search_task_lock_free enter_file_lock_free)
  have parts: "lock_free (parts_task E n)" for E :: "('db, 'e) master_env_scheme" and n
    unfolding parts_task_def by (auto intro!: lock_free_tasks(7))
  have robin: "lock_free (round_robin_task E)" for E :: "('db, 'e) master_env_scheme"
    unfolding round_robin_task_def rand_task_def by (auto intro!: lock_free_tasks(7) storages)
  have fields: "lock_free (fields_task E n)" for E :: "('db, 'e) master_env_scheme" and n
    unfolding fields_task_def by (auto intro!: lock_free_tasks(7) robin parts split: prod.split)
  have "lock_free (t_try_get E k)" for E :: "('db, 'e) master_env_scheme" and k
    by (simp add: t_try_get_def)
  then show "lock_free (down_req_task E fname)"
    unfolding down_req_task_def lookup_task_def by (auto intro!: lock_free_tasks(7) storages split: option.split)
  show "lock_free (up_req_task E fi)"
    unfolding up_req_task_def by (auto intro!: lock_free_tasks(7) parts fields create)
qed

lemma requests_linearise_witness:
  "\<exists>c h out db1 p. threads_reach (upload_thread sample_env (sample_file\<lparr>fi_name := ''b''\<rparr>)
      # map (download_thread sample_env) [''a.__0'']
      @ map (\<lambda>req. locked (ack_thread sample_env req)) sample_acks, None, fresh_state (Some (file_db 1 []))) c
    \<and> all_done c \<and> mset (acks h) = mset sample_acks \<and> fst c ! 0 = Done (Up_done out)
    \<and> mst_database (snd (snd c)) = Some db1
    \<and> represents (env_boost sample_env) (store_of sample_env db1) (after (sample_file\<lparr>fi_name := ''b''\<rparr>) (one_file 1 []) h)
    \<and> prefix p h \<and> fst c ! Suc 0
       = Done (Down_done (Inr (down_result (after (sample_file\<lparr>fi_name := ''b''\<rparr>) (one_file 1 []) p) ''a.__0'')))"
proof -
  let ?fi = "sample_file\<lparr>fi_name := ''b''\<rparr>" and ?w = "fresh_state (Some (file_db 1 []))"
  let ?u = "upload_thread sample_env ?fi" and ?d = "download_thread sample_env ''a.__0''"
  let ?a = "\<lambda>i. ack_thread sample_env (sample_acks ! i)"
  let ?ts = "?u # map (download_thread sample_env) [''a.__0''] @ map (\<lambda>req. locked (ack_thread sample_env req)) sample_acks"
  have ok: "list_all PartItem_ok []" by simp
  have "plain ''b''" by (simp add: plain_char_def)
  note fi = sample_entry(1) [OF this]
  have len: "length (cat_files (one_file 1 [])) + 1 < 2 ^ 64" by (simp add: one_file_def)
  have fids: "list_all (\<lambda>req. unat (partid_fid (part_ack_partid req)) < length (cat_files (one_file 1 []))) sample_acks"
    by (simp add: sample_acks_def one_file_def)
  have ts: "?ts = [?u, ?d, locked (?a 0), locked (?a 1)]" by (simp add: sample_acks_def)
  have free: "lock_free ?u" "lock_free ?d" "lock_free (?a i)" for i
    unfolding upload_thread_def download_thread_def ack_thread_def
    by (simp_all add: lock_free_bind handler_tasks_lock_free part_ack_lock_free)
  obtain x w0 where x: "task_run ?u ?w = (x, w0)" by (cases "task_run ?u ?w")
  obtain y w1 where y: "task_run ?d w0 = (y, w1)" by (cases "task_run ?d w0")
  obtain x1 w2 where x1: "task_run (?a 0) w1 = (x1, w2)" by (cases "task_run (?a 0) w1")
  obtain x2 w3 where x2: "task_run (?a 1) w2 = (x2, w3)" by (cases "task_run (?a 1) w2")
  have "threads_reach (?ts, None, ?w) ([Done x, ?d, locked (?a 0), locked (?a 1)], None, w0)"
    using run_through [OF free(1), of "(?ts, None, ?w)" ?ts 0 Done None ?w] threads_reach.here [of "(?ts, None, ?w)"] x
    unfolding ts by (simp add: task_bind_Done)
  then have "threads_reach (?ts, None, ?w) ([Done x, Done y, locked (?a 0), locked (?a 1)], None, w1)"
    using run_through [OF free(2), of "(?ts, None, ?w)" "[Done x, ?d, locked (?a 0), locked (?a 1)]" 1 Done None w0] y
    by (simp add: task_bind_Done)
  from finish_locked [OF free(3) this, of 2 0]
  have "threads_reach (?ts, None, ?w) ([Done x, Done y, Done x1, locked (?a 1)], None, w2)" using x1 by simp
  from finish_locked [OF free(3) this, of 3 1]
  have reach: "threads_reach (?ts, None, ?w) ([Done x, Done y, Done x1, Done x2], None, w3)" using x2 by simp
  have fin: "all_done ([Done x, Done y, Done x1, Done x2], None :: nat option, w3)" by (simp add: all_done_def)
  from requests_linearise [OF sample_env_ok file_state(1-3) [OF ok] fi len fids reach] fin
  obtain h out db1 where h: "mset (acks h) = mset sample_acks" "x = Up_done out" "mst_database w3 = Some db1"
    "represents (env_boost sample_env) (store_of sample_env db1) (after ?fi (one_file 1 []) h)"
    "\<exists>p. prefix p h \<and> y = Down_done (Inr (down_result (after ?fi (one_file 1 []) p) ''a.__0''))" by auto
  from h(5) obtain p where p: "prefix p h" "y = Down_done (Inr (down_result (after ?fi (one_file 1 []) p) ''a.__0''))" by blast
  show ?thesis
    by (intro exI [of _ "([Done x, Done y, Done x1, Done x2], None, w3)"] exI [of _ h] exI [of _ out] exI [of _ db1] exI [of _ p])
      (use reach fin h p in simp)
qed

text \<open>The part of the upload that writes always gets through.\<close>

lemma upload_among_acks:
  assumes "env_ok E" "mst_database w = Some db"
    and "represents (env_boost E) (store_of E db) cat" "cat_ok cat"
    and "FileItem_ok fi" "length (cat_files cat) + 1 < 2 ^ 64"
    and "list_all (\<lambda>req. unat (partid_fid (part_ack_partid req)) < length (cat_files cat)) reqs"
    and "threads_reach (create_thread E fi # map (\<lambda>req. locked (entry_thread E req)) reqs, None, w) (ts, l, w1)"
  shows "if all_done (ts, l, w1)
    then ts ! 0 = Done (Inl (Inr (file_entry cat fi)))
      \<and> (\<exists>order db1. mset order = mset reqs \<and> mst_database w1 = Some db1
          \<and> represents (env_boost E) (store_of E db1) (cat_add_file fi (foldl (\<lambda>cat req. cat_add_part req cat) cat order)))
    else \<exists>c. thread_step (ts, l, w1) c"
proof -
  note start = good_start [OF assms(1-7)]
  have reach: "threads_reach (map (\<lambda>_. create_thread E fi) [0..<Suc 0]
      @ map (\<lambda>i. locked (entry_thread E (reqs ! i))) [0..<length reqs], None, w) (ts, l, w1)"
    unfolding locked_list [of "entry_thread E", symmetric] using assms(8) by simp
  note reach = this [folded entering.threads_def]
  show ?thesis
  proof (cases "all_done (ts, l, w1)")
    case True
    obtain ds g where g: "mset ds = mset [0..<length reqs]" "acks (snd g) = entering.applied reqs ds" "good E fi reqs cat g w1"
      "ts ! 0 = Done (Inl (Inr (file_entry cat fi)))" "uploads (snd g) = 1"
      using entering.ends_well [OF reach start True] by (auto simp: entered_post_def)
    have acks: "acks (snd g) = map ((!) reqs) ds" using g(2) by (simp add: entering.applied_def applied_list)
    have "mset (acks (snd g)) = mset reqs" using good_end [OF g(3,1) acks] by blast
    moreover obtain db1 where "mst_database w1 = Some db1"
      "represents (env_boost E) (store_of E db1) (cat_add_file fi (acked cat (snd g)))"
      using g(3,5) by (auto simp: good_def shared_state_def held_def stage_of_def)
    ultimately have "ts ! 0 = Done (Inl (Inr (file_entry cat fi)))
      \<and> (\<exists>order db1. mset order = mset reqs \<and> mst_database w1 = Some db1
          \<and> represents (env_boost E) (store_of E db1) (cat_add_file fi (foldl (\<lambda>cat req. cat_add_part req cat) cat order)))"
      using g(4) by (intro conjI exI [of _ "acks (snd g)"] exI [of _ db1]) (simp_all add: acked_def)
    then show ?thesis by (simp only: True if_True)
  next
    case False
    then show ?thesis using entering.goes_on [OF reach start False] by simp
  qed
qed

end
