(* ===== verification/Streams.thy ===== *)
theory Streams
  imports Storage Master
begin

text \<open>
  The packets of one connection: what a dispatcher is handed when a peer sends several packets
  one after the other, for the dispatchers of the master and of the storage.
\<close>

section \<open>Handlers that leave the incoming bytes alone\<close>

definition leaves_inbox :: "('w conn, 'a) act \<Rightarrow> bool" where
  "leaves_inbox m \<longleftrightarrow> (\<forall>s w. ses_inbox (fst (snd (m (s, w)))) = ses_inbox s)"

lemma leaves_inboxD: "leaves_inbox m \<Longrightarrow> m (s, w) = (r, (s', w')) \<Longrightarrow> ses_inbox s' = ses_inbox s"
  unfolding leaves_inbox_def by (metis fst_conv snd_conv)

lemma leaves_inboxI:
  "(\<And>s w r s' w'. m (s, w) = (r, (s', w')) \<Longrightarrow> ses_inbox s' = ses_inbox s) \<Longrightarrow> leaves_inbox m"
  unfolding leaves_inbox_def by (metis prod.collapse)

named_theorems leaves_intros \<comment> \<open>what leaves the incoming bytes alone\<close>

lemma leaves_ret [leaves_intros]: "leaves_inbox (ret x)" "leaves_inbox (raise f)" "leaves_inbox (lift_res r)" "leaves_inbox (gets g)"
  by (simp_all add: leaves_inbox_def act_simps)

lemma leaves_on_world [leaves_intros]: "leaves_inbox (on_world m)"
  by (auto simp: on_world_run intro!: leaves_inboxI split: prod.splits)

lemma leaves_send [leaves_intros]: "leaves_inbox (blocking_send p)" "leaves_inbox (send p)"
  by (simp_all add: leaves_inbox_def blocking_send_run send_run)

lemma leaves_bnd [leaves_intros]: "leaves_inbox m \<Longrightarrow> (\<And>x. leaves_inbox (k x)) \<Longrightarrow> leaves_inbox (bnd m k)"
  by (rule leaves_inboxI) (force simp: bnd_run split: prod.splits sum.splits dest: leaves_inboxD)

lemma leaves_if [leaves_intros]: "leaves_inbox m \<Longrightarrow> leaves_inbox n \<Longrightarrow> leaves_inbox (if b then m else n)"
  by simp

lemma leaves_option [leaves_intros]:
  "leaves_inbox m \<Longrightarrow> (\<And>x. leaves_inbox (k x)) \<Longrightarrow> leaves_inbox (case z of None \<Rightarrow> m | Some x \<Rightarrow> k x)"
  by (cases z) simp_all

lemma leaves_split [leaves_intros]: "(\<And>x y. leaves_inbox (k x y)) \<Longrightarrow> leaves_inbox (case z of (x, y) \<Rightarrow> k x y)"
  by (cases z) simp

lemma leaves_send_ack [leaves_intros]: "leaves_inbox (send_ack p code)"
  by (auto simp: send_ack_def intro!: leaves_intros)

text \<open>The master never reads from a connection itself; the storage does only to give a part.\<close>

definition asks_for_part :: "Packet \<Rightarrow> bool" where
  "asks_for_part p \<longleftrightarrow> fromto_get p = c_s_fromto \<and> what_get p = cs_down_act_w"

lemma asks_delivered: "asks_for_part (delivered p) \<longleftrightarrow> asks_for_part p"
  by (simp add: asks_for_part_def delivered_simps)

lemma storage_leaves: "\<not> asks_for_part p \<Longrightarrow> leaves_inbox (storage_dispatcher S p)"
  by (auto simp: asks_for_part_def storage_dispatcher_def cs_up_act_def storage_send_error_def Let_def intro!: leaves_intros)

lemma leaves_send_error [leaves_intros]: "leaves_inbox (send_error p e msg)"
  by (auto simp: send_error_def intro!: leaves_intros)

lemma leaves_del_parts [leaves_intros]: "leaves_inbox (del_parts p parts)"
  by (induction parts) (auto intro!: leaves_intros)

lemma leaves_replicate_to [leaves_intros]: "leaves_inbox (replicate_to N req locs sts)"
  by (induction sts) (auto intro!: leaves_intros)

lemma master_handlers_leave:
  "leaves_inbox (cm_up_req E p)" "leaves_inbox (cm_down_req E p)" "leaves_inbox (cm_del_req E p)"
  "leaves_inbox (sm_part_ack E p)" "leaves_inbox (sm_id_req E p)"
  unfolding cm_up_req_def cm_down_req_def cm_del_req_def sm_part_ack_def sm_id_req_def Let_def
  by (auto intro!: leaves_intros)

lemma master_leaves: "leaves_inbox (master_dispatcher E p)"
  by (auto simp: master_dispatcher_is_table master_table_def Let_def intro!: leaves_intros master_handlers_leave)

section \<open>The packets a dispatcher is handed\<close>

text \<open>
  The specification: the packets are handed over one by one, each while the bytes after it are
  still to be read, as long as the dispatcher keeps the connection alive. When all are used up,
  the bytes \<open>tail\<close> of a header that is cut off are read and dropped.
\<close>

fun handed :: "'w dispatcher \<Rightarrow> string \<Rightarrow> Packet list \<Rightarrow> ('w conn, unit) act" where
  "handed d tail [] = modify (\<lambda>(s, w). (s\<lparr>ses_inbox := []\<rparr>, w))"
| "handed d tail (p # ps) =
     bnd (modify (\<lambda>(s, w). (s\<lparr>ses_inbox := concat (map packet_bytes ps) @ tail\<rparr>, w))) (\<lambda>_.
     bnd (d (delivered p)) (\<lambda>k. if k = KA_Yes then handed d tail ps else ret ()))"

lemma rounds_hand_packets:
  assumes "length tail < sizeof_PACKET_HEADER"
  shows "list_all sendable ps \<Longrightarrow> \<forall>p \<in> set ps. leaves_inbox (d (delivered p)) \<Longrightarrow>
    ses_inbox s = concat (map packet_bytes ps) @ tail \<Longrightarrow> length ps < n \<Longrightarrow>
    receive_rounds n d (s, w) = handed d tail ps (s, w)"
proof (induction ps arbitrary: s w n)
  case Nil
  with assms show ?case
    by (cases n) (auto simp: receive_round_def receive_packet_def act_simps)
next
  case (Cons p ps)
  then obtain m where m: "n = Suc m" by (cases n) auto
  let ?s = "s\<lparr>ses_inbox := concat (map packet_bytes ps) @ tail\<rparr>"
  have got: "receive_packet (s, w) = (Inr (Some (delivered p)), (?s, w))"
    using Cons.prems by (intro receive_packet_sent) simp_all
  obtain r s' w' where d: "d (delivered p) (?s, w) = (r, (s', w'))" by (metis prod.collapse)
  have "ses_inbox s' = ses_inbox ?s"
    using leaves_inboxD [where m = "d (delivered p)", OF _ d] Cons.prems(2) by simp
  then have "receive_rounds m d (s', w') = handed d tail ps (s', w')"
    using Cons.IH [of s' m w'] Cons.prems m by simp
  then show ?case
    by (simp add: m act_simps receive_round_def got d split: sum.splits)
qed

lemma receive_hands_packets:
  assumes "list_all sendable ps" "\<forall>p \<in> set ps. leaves_inbox (d (delivered p))"
    and "length tail < sizeof_PACKET_HEADER" "ses_inbox s = concat (map packet_bytes ps) @ tail"
  shows "receive d (s, w) = handed d tail ps (s, w)"
proof -
  have "length ps < Suc (length (ses_inbox s))"
    using packets_shorter_than_bytes [of ps] assms(4) by simp
  from rounds_hand_packets [OF assms(3,1,2,4) this, of w] show ?thesis
    by (simp only: receive_is_blocking_receive blocking_receive_def prod.case)
qed

text \<open>
  C21: A peer sends packets of less than 4 GiB, one after the other, and perhaps the beginning of a
  further header, and then nothing more. The master is
  handed exactly these packets, each once and in the order they were sent, until one makes it
  close the connection or fail; and so is a storage, when none of them asks it for a
  part (whoever asks for a part has to acknowledge it on the same stream). What the dispatcher
  writes while it handles one packet does not disturb the next, and once every packet
  was handled and the connection kept alive the loop ends with the stream used up.
\<close>

theorem receive_sees_packets_in_order:
  assumes "list_all sendable ps" "length tail < sizeof_PACKET_HEADER" "ses_inbox s = concat (map packet_bytes ps) @ tail"
  shows "receive (master_dispatcher E) (s, w) = handed (master_dispatcher E) tail ps (s, w)
    \<and> (list_all (\<lambda>p. \<not> asks_for_part p) ps \<longrightarrow>
        receive (storage_dispatcher S) (s, v) = handed (storage_dispatcher S) tail ps (s, v))"
proof (intro conjI impI)
  show "receive (master_dispatcher E) (s, w) = handed (master_dispatcher E) tail ps (s, w)"
    by (rule receive_hands_packets [OF assms(1) _ assms(2,3)]) (simp add: master_leaves)
  assume "list_all (\<lambda>p. \<not> asks_for_part p) ps"
  then have "\<forall>p \<in> set ps. leaves_inbox (storage_dispatcher S (delivered p))"
    by (simp add: list_all_iff storage_leaves asks_delivered)
  from receive_hands_packets [OF assms(1) this assms(2,3)]
  show "receive (storage_dispatcher S) (s, v) = handed (storage_dispatcher S) tail ps (s, v)" .
qed

text \<open>
  A client sends a good part, one that does not match its SHA-1, and the good one again: the
  first is stored, the second is refused and closes the connection, the third is never read.
\<close>

definition sent_part :: "string \<Rightarrow> Packet" where
  "sent_part bytes = add_message (up_packet \<lparr>partid_fid = 1, partid_partnum = 2\<rparr> (sha1 sample_lib ''abc'') bytes)
     (packet_empty c_s_fromto cs_up_act_w)"

lemma sent_part_facts:
  assumes "length bytes < 2 ^ 24"
  shows "payload (sent_part bytes) = up_packet \<lparr>partid_fid = 1, partid_partnum = 2\<rparr> (sha1 sample_lib ''abc'') bytes"
    "fromto_get (sent_part bytes) = c_s_fromto" "what_get (sent_part bytes) = cs_up_act_w"
    "sendable (sent_part bytes)" "\<not> asks_for_part (sent_part bytes)"
proof -
  show p: "payload (sent_part bytes) = up_packet \<lparr>partid_fid = 1, partid_partnum = 2\<rparr> (sha1 sample_lib ''abc'') bytes"
    by (simp add: sent_part_def payload_def packet_simps)
  show "fromto_get (sent_part bytes) = c_s_fromto" "what_get (sent_part bytes) = cs_up_act_w"
    by (simp_all add: sent_part_def packet_simps)
  then show "\<not> asks_for_part (sent_part bytes)" by (simp add: asks_for_part_def cs_up_act_w_def cs_down_act_w_def)
  have "length (payload (sent_part bytes)) < 2 ^ 32"
    unfolding p using up_packet_views(4) [OF sample_up_packet(4)] assms by (simp add: sizeof_up_act_def)
  then show "sendable (sent_part bytes)" by (simp add: sendable_def sent_part_def)
qed

lemma storage_takes_sent_part:
  assumes "length bytes < 2 ^ 24"
  shows "storage_dispatcher sample_storage_env (delivered (sent_part bytes)) (s, w) =
    (if sha1 sample_lib ''abc'' \<noteq> sha1 sample_lib bytes then (Inr KA_No, (answered (ack_answer s_c_fromto hash_failed) s, w))
     else (Inr KA_Yes, (answered (ack_answer s_c_fromto success) s,
        w\<lparr>sst_fs := (sst_fs w)(part_path sample_storage_conf \<lparr>partid_fid = 1, partid_partnum = 2\<rparr> \<mapsto> bytes),
          sst_opened := sst_opened w @ [(''master'', 8, packet_bytes (part_ack_packet (sst_id w) \<lparr>partid_fid = 1, partid_partnum = 2\<rparr>))]\<rparr>)))"
proof -
  let ?p = "delivered (sent_part bytes)"
  note facts = sent_part_facts [OF assms]
  have sz: "size_get ?p = word_of_nat (sizeof_up_act + length bytes)"
    using up_packet_views(4) [OF sample_up_packet(4)] by (simp add: delivered_simps facts(1))
  have "unat (size_get ?p) = sizeof_up_act + length bytes"
    unfolding sz by (rule unat_word_of_nat_32) (use assms in \<open>simp add: sizeof_up_act_def\<close>)
  then have "size_get ?p \<noteq> 0" by (auto simp: sizeof_up_act_def)
  then have "storage_dispatcher sample_storage_env ?p = cs_up_act sample_storage_env ?p"
    by (simp add: storage_dispatcher_def delivered_simps(1,2) facts(2,3) ack_w_def cs_up_act_w_def)
  with up_act_cases [where E = sample_storage_env and packet = ?p and s = s and w = w,
      OF sample_storage_env_ok(1) assms sample_up_packet(4) _ _ sz]
  show ?thesis
    by (simp add: delivered_simps(1,3) facts(1,2) sample_storage_env_ok(3) disk_with_part_def other_storages)
      (simp add: sample_storage_conf_def)
qed

lemma receive_sees_packets_in_order_witness:
  "\<exists>w'. receive (storage_dispatcher sample_storage_env)
      (session_create 1 [] (concat (map packet_bytes [sent_part ''abc'', sent_part ''abd'', sent_part ''abc'']) @ ''zz''), empty_storage) =
    (Inr (), ((session_create 1 [] (packet_bytes (sent_part ''abc'') @ ''zz''))\<lparr>ses_outbox :=
        packet_bytes (ack_answer s_c_fromto success) @ packet_bytes (ack_answer s_c_fromto hash_failed)\<rparr>, w'))
   \<and> sst_fs w' = [part_path sample_storage_conf \<lparr>partid_fid = 1, partid_partnum = 2\<rparr> \<mapsto> ''abc'']"
proof -
  let ?ps = "[sent_part ''abc'', sent_part ''abd'', sent_part ''abc'']"
  let ?s = "session_create 1 [] (concat (map packet_bytes ?ps) @ ''zz'')"
  have ok: "list_all sendable ?ps" "list_all (\<lambda>p. \<not> asks_for_part p) ?ps" by (simp_all add: sent_part_facts)
  have tail: "length ''zz'' < sizeof_PACKET_HEADER" by (simp add: sizeof_PACKET_HEADER_def)
  have inbox: "ses_inbox ?s = concat (map packet_bytes ?ps) @ ''zz''" by (simp add: session_create_def)
  have bad: "sha1 sample_lib ''abc'' \<noteq> sha1 sample_lib ''abd''"
  proof
    assume "sha1 sample_lib ''abc'' = sha1 sample_lib ''abd''"
    then have "dec_nat (enc_nat 20 (dec_nat ''abc'')) = dec_nat (enc_nat 20 (dec_nat ''abd''))"
      by (simp add: sha1_def sample_lib_def)
    then show False unfolding dec_enc_nat by simp
  qed
  have "receive (storage_dispatcher sample_storage_env) (?s, empty_storage) =
      handed (storage_dispatcher sample_storage_env) ''zz'' ?ps (?s, empty_storage)"
    using receive_sees_packets_in_order [OF ok(1) tail inbox] ok(2) by blast
  moreover have "handed (storage_dispatcher sample_storage_env) ''zz'' ?ps (?s, empty_storage) =
      (Inr (), ((session_create 1 [] (packet_bytes (sent_part ''abc'') @ ''zz''))\<lparr>ses_outbox :=
          packet_bytes (ack_answer s_c_fromto success) @ packet_bytes (ack_answer s_c_fromto hash_failed)\<rparr>,
        empty_storage\<lparr>sst_fs := [part_path sample_storage_conf \<lparr>partid_fid = 1, partid_partnum = 2\<rparr> \<mapsto> ''abc''],
          sst_opened := [(''master'', 8, packet_bytes (part_ack_packet 4 \<lparr>partid_fid = 1, partid_partnum = 2\<rparr>))]\<rparr>))"
    by (simp add: act_simps storage_takes_sent_part bad answered_def session_create_def) (simp add: empty_storage_def)
  ultimately show ?thesis by simp
qed

end
