(* ===== verification/Deletions.thy ===== *)
theory Deletions
  imports Master
begin

text \<open>
  The delete request. The master writes documents under a few keys only, whatever it is sent,
  and the bare name of a file is not one of them; so a delete request, which looks the
  name up as it stands, does not find a file that was created.
\<close>

section \<open>The keys the master writes\<close>

definition master_key :: "string \<Rightarrow> bool" where
  "master_key k \<longleftrightarrow> k \<in> {''storages'', ''files'', ''storage_sizes''} \<or> k \<in> range storage_key \<or> k \<in> range file_key"

text \<open>A connected master whose bucket holds documents under these keys only.\<close>

definition documented :: "('db, 'e) master_env_scheme \<Rightarrow> 'db master_state \<Rightarrow> bool" where
  "documented E w \<longleftrightarrow> (\<exists>db. mst_database w = Some db \<and> (\<forall>k. store_of E db k \<noteq> None \<longrightarrow> master_key k))"

definition preserves :: "('s \<Rightarrow> bool) \<Rightarrow> ('s, 'a) act \<Rightarrow> bool" where
  "preserves P m \<longleftrightarrow> (\<forall>s. P s \<longrightarrow> P (snd (m s)))"

text \<open>The same on a connection: a property of the master's state.\<close>

abbreviation on_master :: "('db master_state \<Rightarrow> bool) \<Rightarrow> 'db master_state conn \<Rightarrow> bool" where
  "on_master P \<equiv> \<lambda>c. P (snd c)"

named_theorems preserves_intros \<comment> \<open>what preserves an invariant\<close>

lemma preserves_ret [preserves_intros]:
  "preserves P (ret x)" "preserves P (raise f)" "preserves P (lift_res r)" "preserves P (gets g)"
  by (cases r) (simp_all add: preserves_def act_simps)

lemma preserves_bnd [preserves_intros]: "preserves P m \<Longrightarrow> (\<And>x. preserves P (k x)) \<Longrightarrow> preserves P (bnd m k)"
  unfolding preserves_def
proof (intro allI impI)
  fix s
  assume m: "\<forall>s. P s \<longrightarrow> P (snd (m s))" and k: "\<And>x. \<forall>s. P s \<longrightarrow> P (snd (k x s))" and "P s"
  obtain r s' where "m s = (r, s')" by (cases "m s")
  with m k \<open>P s\<close> show "P (snd (bnd m k s))" by (cases r) (auto simp: bnd_def dest: spec [of _ s])
qed

lemma preserves_if [preserves_intros]: "preserves P m \<Longrightarrow> preserves P n \<Longrightarrow> preserves P (if b then m else n)"
  by simp

lemma preserves_option [preserves_intros]:
  "preserves P m \<Longrightarrow> (\<And>x. preserves P (k x)) \<Longrightarrow> preserves P (case z of None \<Rightarrow> m | Some x \<Rightarrow> k x)"
  by (cases z) simp_all

lemma preserves_split [preserves_intros]: "(\<And>x y. preserves P (k x y)) \<Longrightarrow> preserves P (case z of (x, y) \<Rightarrow> k x y)"
  by (cases z) simp

lemma preserves_mapA [preserves_intros]: "(\<And>x. preserves P (f x)) \<Longrightarrow> preserves P (mapA f xs)"
  by (induction xs) (auto intro!: preserves_intros)

lemma preserves_on_world [preserves_intros]: "preserves P m \<Longrightarrow> preserves (on_master P) (on_world m)"
  by (auto simp: preserves_def on_world_def split: prod.splits)

lemma preserves_send [preserves_intros]: "preserves (on_master P) (blocking_send p)"
  by (simp add: preserves_def blocking_send_run split_paired_all)

lemma preserves_send_ack [preserves_intros]: "preserves (on_master P) (send_ack p code)"
  by (auto simp: send_ack_def intro!: preserves_intros)

lemma preserves_send_error [preserves_intros]: "preserves (on_master P) (send_error p code msg)"
  by (auto simp: send_error_def intro!: preserves_intros)

section \<open>The commands and the procedures\<close>

lemma preserves_modify: "(\<And>w. mst_database (f w) = mst_database w) \<Longrightarrow> preserves (documented E) (modify f)"
  unfolding preserves_def documented_def by (simp add: act_simps)

lemma preserves_db_get [preserves_intros]: "preserves (documented E) (db_get E k)"
  by (simp add: preserves_def db_get_keeps)

lemma preserves_try_db_get [preserves_intros]: "preserves (documented E) (try_logic (db_get E k))"
  by (simp add: preserves_def try_db_get_keeps)

lemma preserves_db_put:
  assumes "env_ok E" "master_key k"
  shows "preserves (documented E) (db_put E k v)"
  unfolding preserves_def
proof (intro allI impI)
  fix w
  assume "documented E w"
  then obtain db where db: "mst_database w = Some db" "\<forall>k. store_of E db k \<noteq> None \<longrightarrow> master_key k"
    by (auto simp: documented_def)
  obtain db' where "db_put E k v w = (Inr (), w\<lparr>mst_database := Some db'\<rparr>)" "store_of E db' = (store_of E db)(k \<mapsto> v)"
    by (rule db_put_run [OF assms(1) db(1)])
  with db(2) assms(2) show "documented E (snd (db_put E k v w))" by (simp add: documented_def)
qed

lemma master_keys:
  "master_key ''storages''" "master_key ''files''" "master_key (storage_key i)" "master_key (file_key n)"
  by (simp_all add: master_key_def)

lemmas preserves_puts = preserves_db_put [OF _ master_keys(1)] preserves_db_put [OF _ master_keys(2)]
  preserves_db_put [OF _ master_keys(3)] preserves_db_put [OF _ master_keys(4)]

lemma preserves_get_all_storages [preserves_intros]: "preserves (documented E) (get_all_storages E)"
  by (simp add: preserves_def documented_def get_all_storages_keeps)

lemma preserves_create_new_file: "env_ok E \<Longrightarrow> preserves (documented E) (create_new_file E fi)"
  by (auto simp: create_new_file_def enter_file_def Let_def intro!: preserves_intros preserves_puts)

lemma preserves_upload_fields: "preserves (documented E) (get_stpfields_for_upload E fsize)"
  unfolding get_stpfields_for_upload_def init_round_robin_def next_rand_def number_of_parts_def
  by (auto intro!: preserves_intros preserves_modify)

section \<open>The handlers\<close>

lemma preserves_replicate_to [preserves_intros]: "preserves (on_master P) (replicate_to N req locs sts)"
  by (induction sts) (auto intro!: preserves_intros)

lemma preserves_del_parts [preserves_intros]: "preserves (on_master P) (del_parts p parts)"
  by (induction parts) (auto intro!: preserves_intros)

lemma handlers_documented:
  assumes "env_ok E"
  shows "preserves (on_master (documented E)) (cm_up_req E p)" "preserves (on_master (documented E)) (cm_down_req E p)"
    "preserves (on_master (documented E)) (cm_del_req E p)" "preserves (on_master (documented E)) (sm_part_ack E p)"
    "preserves (on_master (documented E)) (sm_id_req E p)"
  unfolding cm_up_req_def cm_down_req_def cm_del_req_def sm_part_ack_def sm_id_req_def Let_def number_of_parts_def
  by (auto intro!: preserves_intros preserves_puts [OF assms] preserves_create_new_file [OF assms] preserves_upload_fields)

lemma dispatcher_documented: "env_ok E \<Longrightarrow> preserves (on_master (documented E)) (master_dispatcher E p)"
  by (auto simp: master_dispatcher_is_table master_table_def Let_def intro!: preserves_intros handlers_documented)

text \<open>What becomes of the master's state while it handles any requests, on any connections.\<close>

inductive requests_served :: "('db, 'e) master_env_scheme \<Rightarrow> 'db master_state \<Rightarrow> 'db master_state \<Rightarrow> bool" for E where
  none: "requests_served E w w"
| request: "requests_served E w w1 \<Longrightarrow> master_dispatcher E p (s, w1) = (r, (s', w2)) \<Longrightarrow> requests_served E w w2"

lemma served_documented: "requests_served E w w' \<Longrightarrow> env_ok E \<Longrightarrow> documented E w \<Longrightarrow> documented E w'"
proof (induction rule: requests_served.induct)
  case (request w w1 p s r s' w2)
  then show ?case using dispatcher_documented [of E p] unfolding preserves_def by (metis snd_conv)
qed

text \<open>Connecting to an empty bucket is how it starts.\<close>

lemma connected_documented:
  assumes "env_ok E" "env_files E sizes_file = Some sizes" "mst_database w = None"
    and "cb_open (env_couchbase E) (''couchbase://'' @ host @ ''/'' @ bucket) pass = Connected db" "store_of E db = Map.empty"
  shows "documented E (snd (Connector_get_instance E host pass bucket w))"
proof -
  obtain db' where "Connector_get_instance E host pass bucket w = (Inr (), w\<lparr>mst_database := Some db'\<rparr>)"
    "store_of E db' = with_default ''files'' initial_files
        (with_default ''storages'' initial_storages (with_default ''storage_sizes'' sizes Map.empty))"
    using connector_documents [OF assms(1,2), where h = host and p = pass and b = bucket and w = w and db = db]
    unfolding connector_first [OF assms(3,4), symmetric] assms(5) by blast
  then show ?thesis
    by (auto simp: documented_def master_key_def with_default_def split: if_splits)
qed

section \<open>Names of files\<close>

lemma created_name:
  "create_new_file E fi w = (Inr f, w1) \<Longrightarrow> \<exists>i. fi_name f = numbered_name (fi_name fi) i"
  by (auto simp: create_new_file_def enter_file_def act_simps Let_def name_set_def FileItem_id_set_def name_get_def
      split: option.splits sum.splits prod.splits)

lemma numbered_is_no_key:
  assumes "numbered_name n i \<notin> range file_key"
  shows "\<not> master_key (numbered_name n i)"
proof -
  have "CHR ''_'' \<notin> set (storage_key j)" for j
    using decimal_digits [of "CHR ''_''" j] by (auto simp: storage_key_def is_digit_def)
  moreover have "CHR ''_'' \<in> set (numbered_name n i)" "CHR ''.'' \<in> set (numbered_name n i)"
    by (simp_all add: numbered_name_def)
  ultimately have "numbered_name n i \<noteq> ''storages''" "numbered_name n i \<noteq> ''files''" "numbered_name n i \<noteq> ''storage_sizes''"
    "numbered_name n i \<notin> range storage_key"
    by (auto dest: arg_cong [of _ _ set])
  with assms show ?thesis by (simp add: master_key_def)
qed

text \<open>
  C29: A delete request deletes nothing. Take a master whose bucket holds only documents under keys the
  master writes, as it does after it connected to an empty bucket. A file it enters there is reported
  as missing to whoever asks for its deletion by the name the master gave it, whatever requests
  the master handled since, one at a time:
  the request looks up the name of the file as it stands, and the document is stored under that
  name with \<^verbatim>\<open>file.\<close> before it. (Only a name that itself begins with \<^verbatim>\<open>file.\<close> may lead to
  a document, that of another file.) And whatever a delete request finds, it leaves the database
  as it is.
\<close>

theorem delete_request_deletes_nothing:
  assumes "env_ok E" "documented E w" "create_new_file E fi w = (Inr f, w1)" "requests_served E w1 w2"
    and "fi_name f \<notin> range file_key"
    and "fromto_get packet = c_m_fromto" "front_data packet = Inr (fi_name f @ rest)"
      "unat (size_get packet) = length (fi_name f)"
  shows "cm_del_req E packet (s, w2) = (Inr KA_No, (answered (ack_answer m_c_fromto file_not_found) s, w2))
    \<and> (\<forall>packet' s' w'. mst_database (snd (snd (cm_del_req E packet' (s', w')))) = mst_database w')"
proof
  have "documented E w1"
    using preserves_create_new_file [OF assms(1), of fi] assms(2,3) unfolding preserves_def by (metis snd_conv)
  then have "documented E w2" by (rule served_documented [OF assms(4,1)])
  moreover obtain i where "fi_name f = numbered_name (fi_name fi) i" using created_name [OF assms(3)] by blast
  ultimately obtain db where db: "mst_database w2 = Some db" "store_of E db (fi_name f) = None"
    using numbered_is_no_key [of "fi_name fi" i] assms(5) unfolding documented_def by fastforce
  have "string_at 0 (length (fi_name f)) (fi_name f @ rest) = Inr (fi_name f)"
    by (simp add: string_at_def view_def slice_def)
  moreover have "try_logic (db_get E (fi_name f)) w2 = (Inr None, w2)"
    by (simp add: try_logic_def act_simps db_get_run [OF db(1)] db(2))
  ultimately show "cm_del_req E packet (s, w2) = (Inr KA_No, (answered (ack_answer m_c_fromto file_not_found) s, w2))"
    using assms(6) by (simp add: cm_del_req_def act_simps assms(7,8) send_error_run)
  show "\<forall>packet' s' w'. mst_database (snd (snd (cm_del_req E packet' (s', w')))) = mst_database w'"
    using keeps_cm_del_req by (auto simp: keeps_db_def)
qed

text \<open>A file is created, a client asks for it, and another for its deletion.\<close>

lemma delete_request_deletes_nothing_witness:
  "\<exists>f w1 w2. create_new_file sample_env (sample_file\<lparr>fi_name := ''a''\<rparr>) (fresh_state (Some start_db)) = (Inr f, w1)
    \<and> fi_name f = ''a.__0''
    \<and> w2 = snd (snd (master_dispatcher sample_env (packet_of_message c_m_fromto down_req_w ''a.__0'') (session_create 1 [] [], w1)))
    \<and> cm_del_req sample_env (packet_of_message c_m_fromto del_req_w ''a.__0'') (session_create 2 [] [], w2)
      = (Inr KA_No, (answered (ack_answer m_c_fromto file_not_found) (session_create 2 [] []), w2))"
proof -
  let ?fi = "sample_file\<lparr>fi_name := ''a''\<rparr>" and ?w = "fresh_state (Some start_db)"
  let ?p = "packet_of_message c_m_fromto del_req_w ''a.__0''" and ?q = "packet_of_message c_m_fromto down_req_w ''a.__0''"
  have "plain ''a''" by (simp add: plain_char_def)
  note ok = sample_entry(1) [OF this]
  have rep: "represents (env_boost sample_env) (store_of sample_env start_db) no_catalogue"
    unfolding start_state(2) by (rule start_state(3))
  have few: "length (cat_files no_catalogue) + 1 < 2 ^ 64" by simp
  obtain w1 where new: "create_new_file sample_env ?fi ?w = (Inr (sample_file\<lparr>fi_id := 0, fi_name := ''a.__0''\<rparr>), w1)"
    using create_new_file_run [OF sample_env_ok start_state(1) rep start_state(4) ok few] sample_entry(2) [of "''a''"] by auto
  have doc: "documented sample_env ?w"
    by (auto simp: documented_def start_state(1,2)) (auto simp: start_db_def master_key_def split: if_splits)
  define w2 where "w2 = snd (snd (master_dispatcher sample_env ?q (session_create 1 [] [], w1)))"
  have "master_dispatcher sample_env ?q (session_create 1 [] [], w1) =
      (fst (master_dispatcher sample_env ?q (session_create 1 [] [], w1)),
       (fst (snd (master_dispatcher sample_env ?q (session_create 1 [] [], w1))), w2))"
    by (simp add: w2_def)
  from requests_served.request [OF requests_served.none this] have served: "requests_served sample_env w1 w2" .
  have name: "fi_name (sample_file\<lparr>fi_id := 0, fi_name := ''a.__0''\<rparr>) \<notin> range file_key" by (auto simp: file_key_def)
  have pkt: "fromto_get ?p = c_m_fromto" "front_data ?p = Inr (fi_name (sample_file\<lparr>fi_id := 0, fi_name := ''a.__0''\<rparr>) @ [])"
    "unat (size_get ?p) = length (fi_name (sample_file\<lparr>fi_id := 0, fi_name := ''a.__0''\<rparr>))"
    by (simp_all add: packet_of_message_def mk_header_def fromto_get_def size_get_def front_data_def message_seq_get_def)
  have named: "fi_name (sample_file\<lparr>fi_id := 0, fi_name := ''a.__0''\<rparr>) = ''a.__0''" by (cases sample_file) simp
  from delete_request_deletes_nothing [OF sample_env_ok doc new served name pkt, of "session_create 2 [] []"]
  show ?thesis using new named w2_def by blast
qed

end
