(* ===== verification/Responses.thy ===== *)
theory Responses
  imports Database
begin

text \<open>
  The copy of couchbase++ in \<^verbatim>\<open>master/libcouchbase\<close>: commands, and the responses that libcouchbase
  delivers. The bytes of a value stay in a buffer of the library that responses share by
  counting references, or else in a block of their own with the count behind the bytes.
\<close>

section \<open>Codes and commands\<close>

type_synonym lcb_error = "32 word"

definition LCB_SUCCESS :: lcb_error where
  "LCB_SUCCESS = 0"

definition Status_success :: "lcb_error \<Rightarrow> bool" where
  "Status_success code \<longleftrightarrow> code = LCB_SUCCESS"

datatype store_mode = LCB_ADD | LCB_REPLACE | LCB_SET | LCB_APPEND | LCB_PREPEND

text \<open>
  The C structures of the commands in one record. The constructor of \<^verbatim>\<open>Command\<close> zeroes them; zero
  is no operation of \<^verbatim>\<open>lcb_storage_t\<close>.
\<close>

record lcb_cmd =
  cmd_key :: string
  cmd_exptime :: "32 word"
  cmd_cas :: "64 word"
  cmd_lock :: bool
  cmd_operation :: "store_mode option"
  cmd_value :: string
  cmd_itmflags :: "32 word"
  cmd_delta :: "64 word"
  cmd_initial :: "64 word"
  cmd_create :: bool

definition Command_make :: lcb_cmd where
  "Command_make = \<lparr>cmd_key = [], cmd_exptime = 0, cmd_cas = 0, cmd_lock = False, cmd_operation = None, cmd_value = [],
     cmd_itmflags = 0, cmd_delta = 0, cmd_initial = 0, cmd_create = False\<rparr>"

definition Command_key :: "string \<Rightarrow> lcb_cmd \<Rightarrow> lcb_cmd" where
  "Command_key s c = c\<lparr>cmd_key := s\<rparr>"

definition Command_expiry :: "32 word \<Rightarrow> lcb_cmd \<Rightarrow> lcb_cmd" where
  "Command_expiry n c = c\<lparr>cmd_exptime := n\<rparr>"

definition Command_cas :: "64 word \<Rightarrow> lcb_cmd \<Rightarrow> lcb_cmd" where
  "Command_cas casval c = c\<lparr>cmd_cas := casval\<rparr>"

text \<open>\<^verbatim>\<open>LCB_CXX_CMD_CTOR\<close>: the constructor from a key, for \<^verbatim>\<open>GetCommand\<close>, \<^verbatim>\<open>RemoveCommand\<close> and others.\<close>

definition Command_of_key :: "string \<Rightarrow> lcb_cmd" where
  "Command_of_key k = Command_key k Command_make"

definition GetCommand_locktime :: "32 word \<Rightarrow> lcb_cmd \<Rightarrow> lcb_cmd" where
  "GetCommand_locktime n c = (Command_expiry n c)\<lparr>cmd_lock := True\<rparr>"

definition StoreCommand_mode :: "store_mode \<Rightarrow> lcb_cmd \<Rightarrow> lcb_cmd" where
  "StoreCommand_mode m c = c\<lparr>cmd_operation := Some m\<rparr>"

definition StoreCommand_value :: "string \<Rightarrow> lcb_cmd \<Rightarrow> lcb_cmd" where
  "StoreCommand_value v c = c\<lparr>cmd_value := v\<rparr>"

definition StoreCommand_itemflags :: "32 word \<Rightarrow> lcb_cmd \<Rightarrow> lcb_cmd" where
  "StoreCommand_itemflags f c = c\<lparr>cmd_itmflags := f\<rparr>"

definition StoreCommand :: "store_mode \<Rightarrow> string \<Rightarrow> string \<Rightarrow> lcb_cmd" where
  "StoreCommand m k v = StoreCommand_mode m (StoreCommand_value v (Command_key k Command_make))"

text \<open>The constructor from pointers and lengths does not set the mode.\<close>

definition StoreCommand_sized :: "store_mode \<Rightarrow> string \<Rightarrow> string \<Rightarrow> lcb_cmd" where
  "StoreCommand_sized m k v = StoreCommand_value v (Command_key k Command_make)"

definition CounterCommand :: "64 word \<Rightarrow> lcb_cmd" where
  "CounterCommand d = Command_make\<lparr>cmd_delta := d\<rparr>"

definition CounterCommand_deflval :: "64 word \<Rightarrow> lcb_cmd \<Rightarrow> lcb_cmd" where
  "CounterCommand_deflval d c = c\<lparr>cmd_initial := d, cmd_create := True\<rparr>"

section \<open>Memory\<close>

text \<open>
  A pointer to bytes: into a buffer of the library at an offset, to the start of a block of
  \<^verbatim>\<open>new char[]\<close>, or to memory of the library that is gone after the callback. Buffers and blocks
  have a count of references and their bytes.
\<close>

datatype vptr = P_null | P_back nat nat | P_heap nat | P_foreign

record memory =
  mem_backs :: "nat \<rightharpoonup> nat \<times> string"
  mem_heap :: "nat \<rightharpoonup> 64 word \<times> string"

definition no_memory :: memory where
  "no_memory = \<lparr>mem_backs = Map.empty, mem_heap = Map.empty\<rparr>"

text \<open>\<^verbatim>\<open>lcb_backbuf_ref\<close>, \<^verbatim>\<open>lcb_backbuf_unref\<close>: the last reference frees the buffer.\<close>

definition backbuf_ref :: "nat \<Rightarrow> memory \<Rightarrow> memory res" where
  "backbuf_ref h m = (case mem_backs m h of
     None \<Rightarrow> Inl Undefined
   | Some (n, s) \<Rightarrow> Inr (m\<lparr>mem_backs := (mem_backs m)(h \<mapsto> (n + 1, s))\<rparr>))"

definition backbuf_unref :: "nat \<Rightarrow> memory \<Rightarrow> memory res" where
  "backbuf_unref h m = (case mem_backs m h of
     None \<Rightarrow> Inl Undefined
   | Some (n, s) \<Rightarrow> Inr (m\<lparr>mem_backs := (mem_backs m)(h := if n \<le> 1 then None else Some (n - 1, s))\<rparr>))"

text \<open>What \<^verbatim>\<open>new char[n]\<close> returns, and what is in it then.\<close>

record heap_env =
  new_address :: "memory \<Rightarrow> nat"
  new_bytes :: "memory \<Rightarrow> nat \<Rightarrow> string"

section \<open>Responses\<close>

text \<open>
  What a callback of the library gets. Of a \<^verbatim>\<open>lcb_RESPGET\<close>: the pointer to the value, its size,
  the handle of the buffer it is in, the bytes of that buffer, the flags of the item. Of a
  \<^verbatim>\<open>lcb_RESPENDURE\<close>, its counts; of a \<^verbatim>\<open>lcb_RESPOBSERVE\<close>, the status and whether it is the master's.
\<close>

record endure_info =
  ei_nresponses :: "16 word"
  ei_exists_master :: bool
  ei_persisted_master :: bool
  ei_npersisted :: "8 word"
  ei_nreplicated :: "8 word"

datatype lcb_body =
    B_plain
  | B_get vptr nat "nat option" string "32 word"
  | B_counter "64 word"
  | B_stats string string string
  | B_endure endure_info
  | B_observe "8 word" bool

record lcb_resp =
  lr_cookie :: nat
  lr_rc :: lcb_error
  lr_cas :: "64 word"
  lr_key :: string
  lr_final :: bool
  lr_body :: lcb_body

text \<open>\<^verbatim>\<open>Response<T>\<close>. Its constructor leaves the union as it is: \<open>None\<close> is an indeterminate value.\<close>

record response =
  rs_rc :: "lcb_error option"
  rs_cas :: "64 word option"
  rs_key :: "string option"
  rs_final :: "bool option"

record get_response = response +
  gr_value :: vptr
  gr_nvalue :: nat
  gr_bufh :: "nat option"
  gr_itmflags :: "32 word option"

definition determinate :: "'a option \<Rightarrow> 'a res" where
  "determinate x = (case x of None \<Rightarrow> Inl Undefined | Some y \<Rightarrow> Inr y)"

definition Response_make :: response where
  "Response_make = \<lparr>rs_rc = None, rs_cas = None, rs_key = None, rs_final = None\<rparr>"

definition Response_status :: "'a response_scheme \<Rightarrow> lcb_error res" where
  "Response_status r = determinate (rs_rc r)"

definition Response_cas :: "'a response_scheme \<Rightarrow> (64 word) res" where
  "Response_cas r = determinate (rs_cas r)"

definition Response_final :: "'a response_scheme \<Rightarrow> bool res" where
  "Response_final r = determinate (rs_final r)"

definition Response_key :: "'a response_scheme \<Rightarrow> string res" where
  "Response_key r = determinate (rs_key r)"

definition Response_setcode :: "'a response_scheme \<Rightarrow> lcb_error \<Rightarrow> 'a response_scheme" where
  "Response_setcode r c = r\<lparr>rs_rc := Some c\<rparr>"

definition Response_set_key :: "string \<Rightarrow> 'a response_scheme \<Rightarrow> 'a response_scheme" where
  "Response_set_key k r = r\<lparr>rs_key := Some k\<rparr>"

definition Response_handle_response :: "lcb_resp \<Rightarrow> 'a response_scheme \<Rightarrow> 'a response_scheme" where
  "Response_handle_response r g =
     g\<lparr>rs_rc := Some (lr_rc r), rs_cas := Some (lr_cas r), rs_key := Some (lr_key r), rs_final := Some (lr_final r)\<rparr>"

definition GetResponse_make :: get_response where
  "GetResponse_make = \<lparr>rs_rc = None, rs_cas = None, rs_key = None, rs_final = None,
     gr_value = P_null, gr_nvalue = 0, gr_bufh = None, gr_itmflags = None\<rparr>"

definition has_shared_buffer :: "get_response \<Rightarrow> bool" where
  "has_shared_buffer g \<longleftrightarrow> gr_bufh g \<noteq> None \<and> gr_value g \<noteq> P_null"

definition has_alloc_buffer :: "get_response \<Rightarrow> bool" where
  "has_alloc_buffer g \<longleftrightarrow> gr_bufh g = None \<and> gr_value g \<noteq> P_null"

text \<open>
  The block a response owns with the count behind the value. Of a pointer that is no block,
  or when the size is not that of the block, the count is not there to be read.
\<close>

definition own_block :: "get_response \<Rightarrow> memory \<Rightarrow> (nat \<times> 64 word \<times> string) res" where
  "own_block g m = (case gr_value g of
     P_heap a \<Rightarrow> (case mem_heap m a of
       Some (rc, s) \<Rightarrow> if length s = gr_nvalue g then Inr (a, rc, s) else Inl Undefined
     | None \<Rightarrow> Inl Undefined)
   | _ \<Rightarrow> Inl Undefined)"

text \<open>
  \<^verbatim>\<open>GetResponse::handle_response\<close>. A value that is in no buffer of the library gets a block of its
  own, into which it is not copied.
\<close>

definition GetResponse_handle_response :: "heap_env \<Rightarrow> lcb_resp \<Rightarrow> get_response \<Rightarrow> memory \<Rightarrow> (get_response \<times> memory) res" where
  "GetResponse_handle_response H r g m = (case lr_body r of
     B_get value_ptr nvalue bufh bytes flags \<Rightarrow>
       (let g1 = (Response_handle_response r g)\<lparr>gr_value := value_ptr, gr_nvalue := nvalue, gr_bufh := bufh, gr_itmflags := Some flags\<rparr> in
        if Status_success (lr_rc r) then
          (case bufh of
             Some h \<Rightarrow> rbind (backbuf_ref h m) (\<lambda>m1. Inr (g1, m1))
           | None \<Rightarrow>
               if nvalue \<noteq> 0 then
                 (let a = new_address H m in
                  Inr (g1\<lparr>gr_value := P_heap a\<rparr>, m\<lparr>mem_heap := (mem_heap m)(a \<mapsto> (1, new_bytes H m nvalue))\<rparr>))
               else Inr (g1, m))
        else Inr (g1\<lparr>gr_bufh := None, gr_value := P_null\<rparr>, m))
   | _ \<Rightarrow> Inl Undefined)"

definition GetResponse_clear :: "get_response \<Rightarrow> memory \<Rightarrow> (get_response \<times> memory) res" where
  "GetResponse_clear g m =
     rbind
       (if has_shared_buffer g then backbuf_unref (the (gr_bufh g)) m
        else if has_alloc_buffer g then
          rbind (own_block g m) (\<lambda>(a, rc, s).
            if rc = 1 then Inr (m\<lparr>mem_heap := (mem_heap m)(a := None)\<rparr>)
            else Inr (m\<lparr>mem_heap := (mem_heap m)(a \<mapsto> (rc - 1, s))\<rparr>))
        else Inr m)
       (\<lambda>m1. Inr (g\<lparr>gr_value := P_null, gr_nvalue := 0, gr_bufh := None\<rparr>, m1))"

text \<open>\<^verbatim>\<open>assign_first\<close>, which is also the copy constructor, takes everything over.\<close>

definition GetResponse_assign_first :: "get_response \<Rightarrow> memory \<Rightarrow> (get_response \<times> memory) res" where
  "GetResponse_assign_first other m =
     rbind
       (if has_shared_buffer other then backbuf_ref (the (gr_bufh other)) m
        else if has_alloc_buffer other then
          rbind (own_block other m) (\<lambda>(a, rc, s). Inr (m\<lparr>mem_heap := (mem_heap m)(a \<mapsto> (rc + 1, s))\<rparr>))
        else Inr m)
       (\<lambda>m1. Inr (other, m1))"

text \<open>\<^verbatim>\<open>value()\<close> as the master uses it: a \<^verbatim>\<open>Buffer\<close> that is turned into a string.\<close>

definition Buffer_to_string :: "vptr \<Rightarrow> nat \<Rightarrow> memory \<Rightarrow> string res" where
  "Buffer_to_string p n m =
     (if n = 0 then Inr []
      else case p of
        P_back h off \<Rightarrow> (case mem_backs m h of
          Some (_, s) \<Rightarrow> view (off + n) (slice off n) s
        | None \<Rightarrow> Inl Undefined)
      | P_heap a \<Rightarrow> (case mem_heap m a of Some (_, s) \<Rightarrow> view n (take n) s | None \<Rightarrow> Inl Undefined)
      | _ \<Rightarrow> Inl Undefined)"

definition GetResponse_value :: "get_response \<Rightarrow> memory \<Rightarrow> string res" where
  "GetResponse_value g m = Buffer_to_string (gr_value g) (gr_nvalue g) m"

text \<open>\<^verbatim>\<open>value(std::string&)\<close>: the string is left alone when the status is a failure.\<close>

definition GetResponse_value_into :: "get_response \<Rightarrow> memory \<Rightarrow> string \<Rightarrow> string res" where
  "GetResponse_value_into g m s =
     rbind (Response_status g) (\<lambda>st. if Status_success st then GetResponse_value g m else Inr s)"

section \<open>The life of responses\<close>

text \<open>
  During the callback the library holds a reference of its own to the buffer of the response
  and drops it afterwards.
\<close>

definition lend :: "lcb_resp \<Rightarrow> memory \<Rightarrow> memory" where
  "lend r m = (case lr_body r of
     B_get _ _ (Some h) bytes _ \<Rightarrow>
       m\<lparr>mem_backs := (mem_backs m)(h \<mapsto> (case mem_backs m h of None \<Rightarrow> (1, bytes) | Some (n, s) \<Rightarrow> (n + 1, s)))\<rparr>
   | _ \<Rightarrow> m)"

definition take_back :: "lcb_resp \<Rightarrow> memory \<Rightarrow> memory res" where
  "take_back r m = (case lr_body r of B_get _ _ (Some h) _ _ \<Rightarrow> backbuf_unref h m | _ \<Rightarrow> Inr m)"

text \<open>A program that receives, copies, assigns and destroys responses; its variables are numbers.\<close>

datatype pool_op = Receive nat lcb_resp | Copy nat nat | Assign nat nat | Destroy nat

record pool =
  pl_objs :: "nat \<rightharpoonup> get_response"
  pl_mem :: memory

definition object :: "nat \<Rightarrow> pool \<Rightarrow> get_response res" where
  "object i p = determinate (pl_objs p i)"

fun pool_step :: "heap_env \<Rightarrow> pool_op \<Rightarrow> pool \<Rightarrow> pool res" where
  "pool_step H (Receive i r) p =
     rbind (GetResponse_handle_response H r GetResponse_make (lend r (pl_mem p))) (\<lambda>(g, m).
     rbind (take_back r m) (\<lambda>m1. Inr \<lparr>pl_objs = (pl_objs p)(i \<mapsto> g), pl_mem = m1\<rparr>))"
| "pool_step H (Copy i j) p =
     rbind (object j p) (\<lambda>other.
     rbind (GetResponse_assign_first other (pl_mem p)) (\<lambda>(g, m). Inr \<lparr>pl_objs = (pl_objs p)(i \<mapsto> g), pl_mem = m\<rparr>))"
| "pool_step H (Assign i j) p =
     rbind (object i p) (\<lambda>g.
     rbind (GetResponse_clear g (pl_mem p)) (\<lambda>(g1, m1).
     rbind (object j \<lparr>pl_objs = (pl_objs p)(i \<mapsto> g1), pl_mem = m1\<rparr>) (\<lambda>other.
     rbind (GetResponse_assign_first other m1) (\<lambda>(g2, m2). Inr \<lparr>pl_objs = (pl_objs p)(i \<mapsto> g2), pl_mem = m2\<rparr>))))"
| "pool_step H (Destroy i) p =
     rbind (object i p) (\<lambda>g.
     rbind (GetResponse_clear g (pl_mem p)) (\<lambda>(g1, m1). Inr \<lparr>pl_objs = (pl_objs p)(i := None), pl_mem = m1\<rparr>))"

fun pool_run :: "heap_env \<Rightarrow> pool_op list \<Rightarrow> pool \<Rightarrow> pool res" where
  "pool_run H [] p = Inr p"
| "pool_run H (x # xs) p = rbind (pool_step H x p) (pool_run H xs)"

text \<open>
  What it should be: every variable has a string of its own. Assigning a response to itself
  is not what it should be: the value is gone.
\<close>

definition answer_value :: "lcb_resp \<Rightarrow> string" where
  "answer_value r = (case lr_body r of
     B_get (P_back h off) n (Some _) bytes _ \<Rightarrow> if Status_success (lr_rc r) then slice off n bytes else []
   | _ \<Rightarrow> [])"

fun value_step :: "pool_op \<Rightarrow> (nat \<rightharpoonup> string) \<Rightarrow> (nat \<rightharpoonup> string)" where
  "value_step (Receive i r) v = v(i \<mapsto> answer_value r)"
| "value_step (Copy i j) v = v(i := v j)"
| "value_step (Assign i j) v = (if i = j then v(i \<mapsto> []) else v(i := v j))"
| "value_step (Destroy i) v = v(i := None)"

text \<open>
  The variables of an operation are there, and the library gives a value in a buffer of its
  own, the same bytes as long as that buffer lives, or a failure without a value.
\<close>

definition shared_answer :: "lcb_resp \<Rightarrow> bool" where
  "shared_answer r \<longleftrightarrow> (case lr_body r of
     B_get p n (Some h) bytes _ \<Rightarrow> Status_success (lr_rc r) \<and> (\<exists>off. p = P_back h off \<and> off + n \<le> length bytes)
   | B_get p n None _ _ \<Rightarrow> \<not> Status_success (lr_rc r) \<and> n = 0
   | _ \<Rightarrow> False)"

definition answer_fits :: "lcb_resp \<Rightarrow> (nat \<Rightarrow> string) \<Rightarrow> bool" where
  "answer_fits r buffers \<longleftrightarrow> (case lr_body r of B_get _ _ (Some h) bytes _ \<Rightarrow> bytes = buffers h | _ \<Rightarrow> True)"

fun op_ok :: "(nat \<Rightarrow> string) \<Rightarrow> pool_op \<Rightarrow> (nat \<rightharpoonup> string) \<Rightarrow> bool" where
  "op_ok buffers (Receive i r) v \<longleftrightarrow> v i = None \<and> shared_answer r \<and> answer_fits r buffers"
| "op_ok buffers (Copy i j) v \<longleftrightarrow> v i = None \<and> v j \<noteq> None"
| "op_ok buffers (Assign i j) v \<longleftrightarrow> v i \<noteq> None \<and> v j \<noteq> None"
| "op_ok buffers (Destroy i) v \<longleftrightarrow> v i \<noteq> None"

fun ops_ok :: "(nat \<Rightarrow> string) \<Rightarrow> pool_op list \<Rightarrow> (nat \<rightharpoonup> string) \<Rightarrow> bool" where
  "ops_ok buffers [] v \<longleftrightarrow> True"
| "ops_ok buffers (x # xs) v \<longleftrightarrow> op_ok buffers x v \<and> ops_ok buffers xs (value_step x v)"

text \<open>How many variables hold a reference to a buffer.\<close>

definition holds :: "get_response \<Rightarrow> nat \<Rightarrow> bool" where
  "holds g h \<longleftrightarrow> gr_bufh g = Some h \<and> gr_value g \<noteq> P_null"

definition holders :: "(nat \<rightharpoonup> get_response) \<Rightarrow> nat \<Rightarrow> nat" where
  "holders objs h = card {i \<in> dom objs. holds (the (objs i)) h}"

lemma holders_insert:
  assumes "finite (dom objs)" "i \<notin> dom objs"
  shows "holders (objs(i \<mapsto> g)) h = holders objs h + of_bool (holds g h)"
proof -
  have eq: "{k \<in> dom (objs(i \<mapsto> g)). holds (the ((objs(i \<mapsto> g)) k)) h} =
      {k \<in> dom objs. holds (the (objs k)) h} \<union> (if holds g h then {i} else {})"
    using assms(2) by auto
  have fin: "finite {k \<in> dom objs. holds (the (objs k)) h}" using assms(1) by simp
  have "i \<notin> {k \<in> dom objs. holds (the (objs k)) h}" using assms(2) by simp
  then show ?thesis unfolding holders_def eq using fin by (simp del: dom_fun_upd)
qed

lemma holders_remove:
  assumes "finite (dom objs)" "objs i = Some g"
  shows "holders objs h = holders (objs(i := None)) h + of_bool (holds g h)"
proof -
  have "objs = (objs(i := None))(i \<mapsto> g)" using assms(2) by (simp add: fun_upd_idem)
  then show ?thesis
    using holders_insert [of "objs(i := None)" i g h] assms(1) by simp
qed

lemma holders_update:
  assumes "finite (dom objs)" "objs i = Some g"
  shows "holders (objs(i \<mapsto> g')) h + of_bool (holds g h) = holders objs h + of_bool (holds g' h)"
  using holders_remove [OF assms, of h] holders_insert [of "objs(i := None)" i g' h] assms(1) by simp

text \<open>A response that can be read: it has no value, or its value lies in a buffer it holds.\<close>

definition readable :: "(nat \<Rightarrow> string) \<Rightarrow> get_response \<Rightarrow> string \<Rightarrow> bool" where
  "readable buffers g s \<longleftrightarrow>
     (gr_value g = P_null \<and> gr_nvalue g = 0 \<and> s = [])
     \<or> (\<exists>h off. gr_bufh g = Some h \<and> gr_value g = P_back h off \<and> off + gr_nvalue g \<le> length (buffers h)
          \<and> s = slice off (gr_nvalue g) (buffers h))"

definition counts :: "(nat \<Rightarrow> string) \<Rightarrow> (nat \<rightharpoonup> get_response) \<Rightarrow> memory \<Rightarrow> bool" where
  "counts buffers objs m \<longleftrightarrow>
     (\<forall>h. mem_backs m h = (if holders objs h = 0 then None else Some (holders objs h, buffers h)))"

lemma counts_same: "counts buffers objs m \<Longrightarrow> (\<And>h. holders objs' h = holders objs h) \<Longrightarrow> counts buffers objs' m"
  by (simp add: counts_def)

lemma ref_counts:
  assumes "counts buffers objs m" "holders objs k \<noteq> 0" "\<And>h. holders objs' h = holders objs h + of_bool (h = k)"
  shows "\<exists>m1. backbuf_ref k m = Inr m1 \<and> counts buffers objs' m1 \<and> mem_heap m1 = mem_heap m"
  using assms by (auto simp: counts_def backbuf_ref_def)

lemma unref_counts:
  assumes "counts buffers objs m" "\<And>h. holders objs h = holders objs' h + of_bool (h = k)"
  shows "\<exists>m1. backbuf_unref k m = Inr m1 \<and> counts buffers objs' m1 \<and> mem_heap m1 = mem_heap m"
  using assms by (auto simp: counts_def backbuf_unref_def)

definition emptied :: "get_response \<Rightarrow> get_response" where
  "emptied g = g\<lparr>gr_value := P_null, gr_nvalue := 0, gr_bufh := None\<rparr>"

lemma emptied_facts [simp]: "\<not> holds (emptied g) h" "readable buffers (emptied g) []" "gr_value (emptied g) = P_null"
  by (simp_all add: emptied_def holds_def readable_def)

lemma readable_holds:
  assumes "readable buffers g s"
  shows "(\<not> has_shared_buffer g \<and> \<not> has_alloc_buffer g \<and> (\<forall>h. \<not> holds g h))
    \<or> (\<exists>k. has_shared_buffer g \<and> gr_bufh g = Some k \<and> (\<forall>h. holds g h \<longleftrightarrow> h = k))"
  using assms by (auto simp: readable_def has_shared_buffer_def has_alloc_buffer_def holds_def)

lemma clear_counts:
  assumes "counts buffers objs m" "finite (dom objs)" "objs i = Some g" "readable buffers g s"
  shows "\<exists>m1. GetResponse_clear g m = Inr (emptied g, m1) \<and> counts buffers (objs(i \<mapsto> emptied g)) m1 \<and> mem_heap m1 = mem_heap m"
  using readable_holds [OF assms(4)]
proof (elim disjE exE)
  assume none: "\<not> has_shared_buffer g \<and> \<not> has_alloc_buffer g \<and> (\<forall>h. \<not> holds g h)"
  have "holders (objs(i \<mapsto> emptied g)) h = holders objs h" for h
    using holders_update [OF assms(2,3), of "emptied g" h] none by simp
  from counts_same [OF assms(1) this] show ?thesis
    using none by (simp add: GetResponse_clear_def emptied_def)
next
  fix k
  assume k: "has_shared_buffer g \<and> gr_bufh g = Some k \<and> (\<forall>h. holds g h \<longleftrightarrow> h = k)"
  have "holders objs h = holders (objs(i \<mapsto> emptied g)) h + of_bool (h = k)" for h
    using holders_update [OF assms(2,3), of "emptied g" h] k by simp
  from unref_counts [OF assms(1) this] show ?thesis
    using k by (auto simp: GetResponse_clear_def emptied_def)
qed

lemma assign_counts:
  assumes "counts buffers objs m" "finite (dom objs)" "objs j = Some other" "readable buffers other s"
    and "objs i = None \<or> (\<exists>g. objs i = Some g \<and> gr_value g = P_null)"
  shows "\<exists>m1. GetResponse_assign_first other m = Inr (other, m1) \<and> counts buffers (objs(i \<mapsto> other)) m1 \<and> mem_heap m1 = mem_heap m"
proof -
  have gain: "holders (objs(i \<mapsto> other)) h = holders objs h + of_bool (holds other h)" for h
    using assms(5)
  proof (elim disjE exE conjE)
    assume "objs i = None"
    then show ?thesis using holders_insert [OF assms(2), of i other h] by (simp add: domIff)
  next
    fix g
    assume "objs i = Some g" "gr_value g = P_null"
    then show ?thesis using holders_update [OF assms(2), of i g other h] by (simp add: holds_def)
  qed
  from readable_holds [OF assms(4)] show ?thesis
  proof (elim disjE exE)
    assume none: "\<not> has_shared_buffer other \<and> \<not> has_alloc_buffer other \<and> (\<forall>h. \<not> holds other h)"
    then have "holders (objs(i \<mapsto> other)) h = holders objs h" for h using gain by simp
    from counts_same [OF assms(1) this] show ?thesis using none by (simp add: GetResponse_assign_first_def)
  next
    fix k
    assume k: "has_shared_buffer other \<and> gr_bufh other = Some k \<and> (\<forall>h. holds other h \<longleftrightarrow> h = k)"
    have "holders objs k \<noteq> 0"
      using holders_remove [OF assms(2,3), of k] k by simp
    from ref_counts [OF assms(1) this, of "objs(i \<mapsto> other)"] gain k show ?thesis
      by (auto simp: GetResponse_assign_first_def)
  qed
qed

lemma receive_counts:
  assumes "counts buffers objs m" "finite (dom objs)" "objs i = None" "shared_answer r" "answer_fits r buffers"
  shows "\<exists>g m1 m2. GetResponse_handle_response H r GetResponse_make (lend r m) = Inr (g, m1) \<and> take_back r m1 = Inr m2
    \<and> counts buffers (objs(i \<mapsto> g)) m2 \<and> mem_heap m2 = mem_heap m \<and> readable buffers g (answer_value r)"
proof -
  obtain p n bufh bytes flags where body: "lr_body r = B_get p n bufh bytes flags"
    using assms(4) by (cases "lr_body r") (simp_all add: shared_answer_def)
  have insert: "holders (objs(i \<mapsto> g)) h = holders objs h + of_bool (holds g h)" for g h
    using holders_insert [OF assms(2), of i g h] assms(3) by (simp add: domIff)
  show ?thesis
  proof (cases bufh)
    case None
    let ?g = "(Response_handle_response r GetResponse_make)\<lparr>gr_nvalue := 0, gr_itmflags := Some flags, gr_bufh := None, gr_value := P_null\<rparr>"
    have fail: "\<not> Status_success (lr_rc r)" "n = 0" using assms(4) body None by (simp_all add: shared_answer_def)
    have "holders (objs(i \<mapsto> ?g)) h = holders objs h" for h using insert by (simp add: holds_def)
    from counts_same [OF assms(1) this] show ?thesis
      using body None fail
      by (simp add: GetResponse_handle_response_def lend_def take_back_def Let_def readable_def answer_value_def split: vptr.splits)
  next
    case (Some k)
    then obtain off where ok: "Status_success (lr_rc r)" "p = P_back k off" "off + n \<le> length bytes" "bytes = buffers k"
      using assms(4,5) body by (auto simp: shared_answer_def answer_fits_def)
    let ?g = "(Response_handle_response r GetResponse_make)\<lparr>gr_value := p, gr_nvalue := n, gr_bufh := Some k, gr_itmflags := Some flags\<rparr>"
    have more: "holders (objs(i \<mapsto> ?g)) h = holders objs h + of_bool (h = k)" for h
      using insert ok(2) by (auto simp: holds_def)
    have there: "mem_backs m k = (if holders objs k = 0 then None else Some (holders objs k, buffers k))"
      using assms(1) by (simp add: counts_def)
    let ?m2 = "m\<lparr>mem_backs := (mem_backs m)(k \<mapsto> (holders objs k + 1, buffers k))\<rparr>"
    let ?m1 = "m\<lparr>mem_backs := (mem_backs m)(k \<mapsto> (holders objs k + 2, buffers k))\<rparr>"
    note there
    moreover from this have "GetResponse_handle_response H r GetResponse_make (lend r m) = Inr (?g, ?m1)"
      using body Some ok(1,4) by (simp add: GetResponse_handle_response_def lend_def backbuf_ref_def Let_def)
    moreover have "take_back r ?m1 = Inr ?m2"
      using body Some by (simp add: take_back_def backbuf_unref_def)
    moreover have "counts buffers (objs(i \<mapsto> ?g)) ?m2" using assms(1) more by (simp add: counts_def)
    moreover have "readable buffers ?g (answer_value r)"
      using body Some ok by (simp add: readable_def answer_value_def)
    ultimately show ?thesis by fastforce
  qed
qed

text \<open>The variables, their references and their values hang together.\<close>

definition pool_inv :: "(nat \<Rightarrow> string) \<Rightarrow> (nat \<rightharpoonup> string) \<Rightarrow> pool \<Rightarrow> bool" where
  "pool_inv buffers v p \<longleftrightarrow>
     finite (dom (pl_objs p)) \<and> counts buffers (pl_objs p) (pl_mem p) \<and> mem_heap (pl_mem p) = Map.empty
     \<and> (\<forall>i. rel_option (readable buffers) (pl_objs p i) (v i))"

lemma pool_invI:
  assumes "finite (dom objs)" "counts buffers objs m" "mem_heap m = Map.empty" "\<And>i. rel_option (readable buffers) (objs i) (v i)"
  shows "pool_inv buffers v \<lparr>pl_objs = objs, pl_mem = m\<rparr>"
  using assms by (simp add: pool_inv_def)

lemma pool_step_values:
  assumes "pool_inv buffers v p" "op_ok buffers x v"
  shows "\<exists>p1. pool_step H x p = Inr p1 \<and> pool_inv buffers (value_step x v) p1"
proof -
  obtain objs m where p: "p = \<lparr>pl_objs = objs, pl_mem = m\<rparr>" by (cases p)
  have fin: "finite (dom objs)" and cnt: "counts buffers objs m" and heap: "mem_heap m = Map.empty"
    and rel: "\<And>i. rel_option (readable buffers) (objs i) (v i)"
    using assms(1) by (simp_all add: pool_inv_def p)
  have at: "\<exists>g. objs i = Some g \<and> readable buffers g s" if "v i = Some s" for i s
    using rel [of i] that by (auto simp: option_rel_Some2)
  have free: "objs i = None" if "v i = None" for i
    using rel [of i] that by simp
  show ?thesis
  proof (cases x)
    case (Receive i r)
    then have ok: "objs i = None" "shared_answer r" "answer_fits r buffers" using assms(2) free by simp_all
    obtain g m1 m2 where run: "GetResponse_handle_response H r GetResponse_make (lend r m) = Inr (g, m1)" "take_back r m1 = Inr m2"
      "counts buffers (objs(i \<mapsto> g)) m2" "mem_heap m2 = mem_heap m" "readable buffers g (answer_value r)"
      using receive_counts [OF cnt fin ok] by blast
    then show ?thesis using fin heap rel by (auto simp: Receive p intro!: pool_invI)
  next
    case (Copy i j)
    then obtain s where val: "v j = Some s" and i: "objs i = None" using assms(2) free by auto
    obtain g where j: "v j = Some s" "objs j = Some g" "readable buffers g s" using val at [OF val] by blast
    obtain m1 where run: "GetResponse_assign_first g m = Inr (g, m1)" "counts buffers (objs(i \<mapsto> g)) m1" "mem_heap m1 = mem_heap m"
      using assign_counts [OF cnt fin j(2,3), of i] i by blast
    then show ?thesis using fin heap rel j by (auto simp: Copy p object_def determinate_def intro!: pool_invI)
  next
    case (Assign i j)
    then obtain s t where vals: "v i = Some s" "v j = Some t" using assms(2) by auto
    obtain g other where i: "v i = Some s" "objs i = Some g" "readable buffers g s"
      and j: "v j = Some t" "objs j = Some other" "readable buffers other t"
      using vals at [OF vals(1)] at [OF vals(2)] by blast
    let ?objs = "objs(i \<mapsto> emptied g)" and ?v = "v(i \<mapsto> [])"
    obtain m1 where clear: "GetResponse_clear g m = Inr (emptied g, m1)" "counts buffers ?objs m1" "mem_heap m1 = mem_heap m"
      using clear_counts [OF cnt fin i(2,3)] by blast
    have fin1: "finite (dom ?objs)" using fin by simp
    have rel1: "rel_option (readable buffers) (?objs k) (?v k)" for k using rel by simp
    obtain other1 t1 where j1: "?objs j = Some other1" "readable buffers other1 t1" "?v j = Some t1"
      using i j by (cases "i = j") auto
    obtain m2 where run: "GetResponse_assign_first other1 m1 = Inr (other1, m2)" "counts buffers (?objs(i \<mapsto> other1)) m2" "mem_heap m2 = mem_heap m1"
      using assign_counts [OF clear(2) fin1 j1(1,2), of i] by (auto simp del: fun_upd_apply simp: fun_upd_same)
    have "pool_inv buffers (value_step (Assign i j) v) \<lparr>pl_objs = objs(i \<mapsto> other1), pl_mem = m2\<rparr>"
    proof (rule pool_invI)
      show "finite (dom (objs(i \<mapsto> other1)))" using fin by simp
      show "counts buffers (objs(i \<mapsto> other1)) m2" using run(2) by simp
      show "mem_heap m2 = Map.empty" using run(3) clear(3) heap by simp
      show "rel_option (readable buffers) ((objs(i \<mapsto> other1)) k) (value_step (Assign i j) v k)" for k
        using rel [of k] j1 by (auto split: if_splits)
    qed
    then show ?thesis using i clear(1) j1(1) run(1) by (auto simp: Assign p object_def determinate_def)
  next
    case (Destroy i)
    then obtain s where val: "v i = Some s" using assms(2) by auto
    obtain g where i: "v i = Some s" "objs i = Some g" "readable buffers g s" using val at [OF val] by blast
    obtain m1 where clear: "GetResponse_clear g m = Inr (emptied g, m1)" "counts buffers (objs(i \<mapsto> emptied g)) m1" "mem_heap m1 = mem_heap m"
      using clear_counts [OF cnt fin i(2,3)] by blast
    have "holders (objs(i := None)) h = holders (objs(i \<mapsto> emptied g)) h" for h
      using holders_insert [of "objs(i := None)" i "emptied g" h] fin by simp
    from counts_same [OF clear(2) this] have "counts buffers (objs(i := None)) m1" .
    then show ?thesis using fin heap rel i clear(1,3) by (auto simp: Destroy p object_def determinate_def intro!: pool_invI)
  qed
qed

lemma pool_run_values:
  "pool_inv buffers v p \<Longrightarrow> ops_ok buffers xs v \<Longrightarrow>
   \<exists>p1. pool_run H xs p = Inr p1 \<and> pool_inv buffers (fold value_step xs v) p1"
proof (induction xs arbitrary: v p)
  case Nil
  then show ?case by simp
next
  case (Cons x xs)
  then show ?case using pool_step_values [of buffers v p x H] by fastforce
qed

lemma readable_value:
  assumes "counts buffers objs m" "finite (dom objs)" "objs i = Some g" "readable buffers g s"
  shows "GetResponse_value g m = Inr s"
  using readable_holds [OF assms(4)]
proof (elim disjE exE)
  assume "\<not> has_shared_buffer g \<and> \<not> has_alloc_buffer g \<and> (\<forall>h. \<not> holds g h)"
  then show ?thesis
    using assms(4) by (auto simp: readable_def has_shared_buffer_def GetResponse_value_def Buffer_to_string_def)
next
  fix k
  assume k: "has_shared_buffer g \<and> gr_bufh g = Some k \<and> (\<forall>h. holds g h \<longleftrightarrow> h = k)"
  then have "holders objs k \<noteq> 0" using holders_remove [OF assms(2,3), of k] by simp
  then have "mem_backs m k = Some (holders objs k, buffers k)" using assms(1) by (simp add: counts_def)
  then show ?thesis
    using assms(4) k
    by (auto simp: readable_def has_shared_buffer_def GetResponse_value_def Buffer_to_string_def view_def slice_def)
qed

text \<open>
  C19: Responses that share the buffers of the library behave as strings. However they are
  received, copied, assigned and destroyed, nothing is read or freed that is gone, every response reads
  back the bytes it stands for, and when the last of them is destroyed no buffer is left. The one
  difference: a response that is assigned to itself loses its value.
\<close>

theorem responses_are_values:
  assumes "ops_ok buffers xs Map.empty"
  shows "\<exists>p. pool_run H xs \<lparr>pl_objs = Map.empty, pl_mem = no_memory\<rparr> = Inr p
    \<and> (\<forall>i. map_option (\<lambda>g. GetResponse_value g (pl_mem p)) (pl_objs p i) = map_option Inr (fold value_step xs Map.empty i))
    \<and> (fold value_step xs Map.empty = Map.empty \<longrightarrow> pl_mem p = no_memory)"
proof -
  have "pool_inv buffers Map.empty \<lparr>pl_objs = Map.empty, pl_mem = no_memory\<rparr>"
    by (simp add: pool_inv_def counts_def holders_def no_memory_def)
  from pool_run_values [OF this assms] obtain p where p: "pool_run H xs \<lparr>pl_objs = Map.empty, pl_mem = no_memory\<rparr> = Inr p"
    "pool_inv buffers (fold value_step xs Map.empty) p" by blast
  then have inv: "finite (dom (pl_objs p))" "counts buffers (pl_objs p) (pl_mem p)" "mem_heap (pl_mem p) = Map.empty"
    "\<And>i. rel_option (readable buffers) (pl_objs p i) (fold value_step xs Map.empty i)"
    by (simp_all add: pool_inv_def)
  have "map_option (\<lambda>g. GetResponse_value g (pl_mem p)) (pl_objs p i) = map_option Inr (fold value_step xs Map.empty i)" for i
    using inv(4) [of i] readable_value [OF inv(2,1)] by (cases "pl_objs p i") (auto simp: option_rel_Some1)
  moreover have "pl_mem p = no_memory" if "fold value_step xs Map.empty = Map.empty"
  proof -
    have "pl_objs p i = None" for i using inv(4) [of i] that by simp
    then have "pl_objs p = Map.empty" by (simp add: fun_eq_iff)
    then have "holders (pl_objs p) h = 0" for h by (simp add: holders_def)
    then have "mem_backs (pl_mem p) = Map.empty" using inv(2) by (simp add: counts_def fun_eq_iff)
    then show ?thesis using inv(3) by (simp add: no_memory_def)
  qed
  ultimately show ?thesis using p(1) by blast
qed

definition sample_heap :: heap_env where
  "sample_heap = \<lparr>new_address = (\<lambda>_. 0), new_bytes = (\<lambda>_ n. replicate n (CHR ''?''))\<rparr>"

definition sample_answer :: "nat \<Rightarrow> lcb_resp" where
  "sample_answer off = \<lparr>lr_cookie = 0, lr_rc = 0, lr_cas = 1, lr_key = ''k'', lr_final = True,
     lr_body = B_get (P_back 7 off) 3 (Some 7) ''abcdef'' 0\<rparr>"

lemma responses_are_values_witness:
  "\<exists>p. pool_run sample_heap
      [Receive 0 (sample_answer 1), Copy 1 0, Receive 2 (sample_answer 3), Destroy 0, Assign 2 1, Destroy 1, Destroy 2]
      \<lparr>pl_objs = Map.empty, pl_mem = no_memory\<rparr> = Inr p \<and> pl_mem p = no_memory"
proof -
  let ?xs = "[Receive 0 (sample_answer 1), Copy 1 0, Receive 2 (sample_answer 3), Destroy 0, Assign 2 1, Destroy 1, Destroy 2]"
  have ok: "ops_ok (\<lambda>_. ''abcdef'') ?xs Map.empty"
    by (simp add: sample_answer_def shared_answer_def answer_fits_def Status_success_def LCB_SUCCESS_def)
  have "fold value_step ?xs Map.empty = Map.empty" by (auto simp: fun_eq_iff)
  with responses_are_values [OF ok, of sample_heap] show ?thesis by blast
qed

text \<open>
  A value that the library gives in no buffer of its own is lost: the response has a block of
  the right size with whatever was in it.
\<close>

lemma unshared_value_lost:
  assumes "lr_body r = B_get ptr n None bytes flags" "Status_success (lr_rc r)" "0 < n" "length (new_bytes H m n) = n"
  shows "\<exists>g m1. GetResponse_handle_response H r GetResponse_make m = Inr (g, m1)
    \<and> GetResponse_value g m1 = Inr (new_bytes H m n)"
  using assms
  by (simp add: GetResponse_handle_response_def Let_def GetResponse_value_def Buffer_to_string_def view_def)

end
