(* ===== verification/Couchbase_Client.thy ===== *)
theory Couchbase_Client
  imports Responses
begin

text \<open>
  The client of couchbase++ (\<^verbatim>\<open>libcouchbase/couchbase++.h\<close>, \<^verbatim>\<open>client.inl.h\<close>) over the C library, which is
  a parameter, and the commands of \<^verbatim>\<open>CouchbaseDb\<close> on it. They are shown to be the commands on the
  store that the rest of the development works with.
\<close>

section \<open>The library\<close>

text \<open>
  The functions of libcouchbase on an instance \<open>'i\<close>. A command is scheduled with a cookie, the
  address of the response object. \<open>lcb_next\<close> is the next callback that \<^verbatim>\<open>lcb_wait3\<close> makes, \<open>None\<close>
  when nothing is pending.
\<close>

record 'i lcb =
  lcb_create :: "string \<Rightarrow> string option \<Rightarrow> lcb_error + 'i"
  lcb_connect :: "'i \<Rightarrow> lcb_error \<times> 'i"
  lcb_bootstrap_status :: "'i \<Rightarrow> lcb_error"
  lcb_sched_enter :: "'i \<Rightarrow> 'i"
  lcb_sched_leave :: "'i \<Rightarrow> 'i"
  lcb_sched_fail :: "'i \<Rightarrow> 'i"
  lcb_get3 :: "'i \<Rightarrow> nat \<Rightarrow> lcb_cmd \<Rightarrow> lcb_error \<times> 'i"
  lcb_store3 :: "'i \<Rightarrow> nat \<Rightarrow> lcb_cmd \<Rightarrow> lcb_error \<times> 'i"
  lcb_remove3 :: "'i \<Rightarrow> nat \<Rightarrow> lcb_cmd \<Rightarrow> lcb_error \<times> 'i"
  lcb_counter3 :: "'i \<Rightarrow> nat \<Rightarrow> lcb_cmd \<Rightarrow> lcb_error \<times> 'i"
  lcb_unlock3 :: "'i \<Rightarrow> nat \<Rightarrow> lcb_cmd \<Rightarrow> lcb_error \<times> 'i"
  lcb_stats3 :: "'i \<Rightarrow> nat \<Rightarrow> lcb_cmd \<Rightarrow> lcb_error \<times> 'i"
  lcb_next :: "'i \<Rightarrow> (lcb_resp \<times> 'i) option"
  lcb_strerror :: "lcb_error \<Rightarrow> string"
  lcb_heap :: heap_env

section \<open>The other responses\<close>

record counter_response = response +
  cr_value :: "64 word option"

record stats_response = response +
  sr_stats :: "string \<rightharpoonup> (string \<rightharpoonup> string)"
  sr_initialized :: bool
  sr_done :: bool

definition CounterResponse_make :: counter_response where
  "CounterResponse_make = \<lparr>rs_rc = None, rs_cas = None, rs_key = None, rs_final = None, cr_value = None\<rparr>"

definition CounterResponse_value :: "counter_response \<Rightarrow> (64 word) res" where
  "CounterResponse_value r = determinate (cr_value r)"

definition StatsResponse_make :: stats_response where
  "StatsResponse_make = \<lparr>rs_rc = None, rs_cas = None, rs_key = None, rs_final = None,
     sr_stats = Map.empty, sr_initialized = False, sr_done = False\<rparr>"

text \<open>\<^verbatim>\<open>initialized\<close> is never set, so every callback overwrites the status of the one before.\<close>

definition StatsResponse_handle_response :: "lcb_resp \<Rightarrow> stats_response \<Rightarrow> stats_response res" where
  "StatsResponse_handle_response r g =
     (let g1 = (if sr_initialized g then g else Response_handle_response r g) in
      if lr_rc r \<noteq> LCB_SUCCESS then
        Inr (if rs_rc g1 = Some LCB_SUCCESS then g1\<lparr>rs_rc := Some (lr_rc r)\<rparr> else g1)
      else if lr_final r then Inr (g1\<lparr>sr_done := True\<rparr>)
      else case lr_body r of
        B_stats server key val \<Rightarrow>
          Inr (g1\<lparr>sr_stats := (sr_stats g1)(key \<mapsto> (case sr_stats g1 key of None \<Rightarrow> Map.empty | Some m \<Rightarrow> m)(server \<mapsto> val))\<rparr>)
      | _ \<Rightarrow> Inl Undefined)"

text \<open>\<^verbatim>\<open>EndureResponse\<close> and \<^verbatim>\<open>ObserveResponse\<close>, which collects the replies of the servers.\<close>

record endure_response = response +
  er_info :: "endure_info option"

record server_reply =
  sv_cas :: "64 word"
  sv_master :: bool
  sv_status :: "8 word"

record observe_response = response +
  or_initialized :: bool
  or_sinfo :: "server_reply list"

definition EndureResponse_make :: endure_response where
  "EndureResponse_make = \<lparr>rs_rc = None, rs_cas = None, rs_key = None, rs_final = None, er_info = None\<rparr>"

definition EndureResponse_info :: "(endure_info \<Rightarrow> 'a) \<Rightarrow> endure_response \<Rightarrow> 'a res" where
  "EndureResponse_info f r = rbind (determinate (er_info r)) (\<lambda>i. Inr (f i))"

definition ObserveResponse_make :: observe_response where
  "ObserveResponse_make = \<lparr>rs_rc = None, rs_cas = None, rs_key = None, rs_final = None, or_initialized = False, or_sinfo = []\<rparr>"

definition ObserveResponse_handle_response :: "lcb_resp \<Rightarrow> observe_response \<Rightarrow> observe_response res" where
  "ObserveResponse_handle_response r g =
     (if lr_final r then Inr g
      else
        let g1 = (if or_initialized g then g else (Response_handle_response r g)\<lparr>or_initialized := True\<rparr>);
            g2 = (if lr_rc r \<noteq> LCB_SUCCESS \<and> rs_rc g1 = Some LCB_SUCCESS then g1\<lparr>rs_rc := Some (lr_rc r)\<rparr> else g1) in
        if lr_rc r = LCB_SUCCESS then
          (case lr_body r of
             B_observe st master \<Rightarrow> Inr (g2\<lparr>or_sinfo := or_sinfo g2 @ [\<lparr>sv_cas = lr_cas r, sv_master = master, sv_status = st\<rparr>]\<rparr>)
           | _ \<Rightarrow> Inl Undefined)
        else Inr g2)"

definition ServerReply_make :: server_reply where
  "ServerReply_make = \<lparr>sv_cas = 0, sv_master = False, sv_status = 0\<rparr>"

definition master_reply :: "observe_response \<Rightarrow> server_reply" where
  "master_reply g = (case find sv_master (or_sinfo g) of Some r \<Rightarrow> r | None \<Rightarrow> ServerReply_make)"

text \<open>
  A \<^verbatim>\<open>CallbackCommand\<close> makes a response of its kind for each callback, hands it to the function it
  was given and destroys it. What the function sees is recorded: key, status, value.
\<close>

datatype callee = K_get | K_base

type_synonym call = "string \<times> lcb_error \<times> string option"

definition CallbackCommand_handle_response :: "heap_env \<Rightarrow> callee \<Rightarrow> lcb_resp \<Rightarrow> memory \<Rightarrow> (call \<times> memory) res" where
  "CallbackCommand_handle_response H k r m = (case k of
     K_base \<Rightarrow> Inr ((lr_key r, lr_rc r, None), m)
   | K_get \<Rightarrow>
       rbind (GetResponse_handle_response H r GetResponse_make m) (\<lambda>(g, m1).
       rbind (if Status_success (lr_rc r) then rbind (GetResponse_value (Response_set_key (lr_key r) g) m1) (\<lambda>s. Inr (Some s))
              else Inr None) (\<lambda>v.
       rbind (GetResponse_clear (Response_set_key (lr_key r) g) m1) (\<lambda>(g1, m2).
       Inr ((lr_key r, lr_rc r, v), m2)))))"

text \<open>The classes of \<^verbatim>\<open>Handler\<close>; \<open>H_base\<close> stands for the store, remove, touch and unlock responses.\<close>

datatype handler =
    H_get get_response
  | H_base response
  | H_counter counter_response
  | H_stats stats_response
  | H_endure endure_response
  | H_observe observe_response
  | H_callback callee "call list"

fun handle_response :: "heap_env \<Rightarrow> lcb_resp \<Rightarrow> handler \<Rightarrow> memory \<Rightarrow> (handler \<times> memory) res" where
  "handle_response H r (H_get g) m = rbind (GetResponse_handle_response H r g m) (\<lambda>(g1, m1). Inr (H_get g1, m1))"
| "handle_response H r (H_base g) m = Inr (H_base (Response_handle_response r g), m)"
| "handle_response H r (H_counter g) m = (case lr_body r of
     B_counter v \<Rightarrow> Inr (H_counter ((Response_handle_response r g)\<lparr>cr_value := Some v\<rparr>), m)
   | _ \<Rightarrow> Inl Undefined)"
| "handle_response H r (H_stats g) m = rbind (StatsResponse_handle_response r g) (\<lambda>g1. Inr (H_stats g1, m))"
| "handle_response H r (H_endure g) m = (case lr_body r of
     B_endure i \<Rightarrow> Inr (H_endure ((Response_handle_response r g)\<lparr>er_info := Some i\<rparr>), m)
   | _ \<Rightarrow> Inl Undefined)"
| "handle_response H r (H_observe g) m = rbind (ObserveResponse_handle_response r g) (\<lambda>g1. Inr (H_observe g1, m))"
| "handle_response H r (H_callback k calls) m =
     rbind (CallbackCommand_handle_response H k r m) (\<lambda>(x, m1). Inr (H_callback k (calls @ [x]), m1))"

fun handler_done :: "handler \<Rightarrow> bool" where
  "handler_done (H_stats g) = sr_done g"
| "handler_done _ = True"

fun handler_set_key :: "string \<Rightarrow> handler \<Rightarrow> handler" where
  "handler_set_key k (H_get g) = H_get (Response_set_key k g)"
| "handler_set_key k (H_base g) = H_base (Response_set_key k g)"
| "handler_set_key k (H_counter g) = H_counter (Response_set_key k g)"
| "handler_set_key k (H_stats g) = H_stats (Response_set_key k g)"
| "handler_set_key k (H_endure g) = H_endure (Response_set_key k g)"
| "handler_set_key k (H_observe g) = H_observe (Response_set_key k g)"
| "handler_set_key k (H_callback c calls) = H_callback c calls"

fun handler_status :: "handler \<Rightarrow> lcb_error res" where
  "handler_status (H_get g) = Response_status g"
| "handler_status (H_base g) = Response_status g"
| "handler_status (H_counter g) = Response_status g"
| "handler_status (H_stats g) = Response_status g"
| "handler_status (H_endure g) = Response_status g"
| "handler_status (H_observe g) = Response_status g"
| "handler_status (H_callback c calls) = Inl Undefined"

fun handler_cas :: "handler \<Rightarrow> (64 word) res" where
  "handler_cas (H_get g) = Response_cas g"
| "handler_cas (H_base g) = Response_cas g"
| "handler_cas (H_counter g) = Response_cas g"
| "handler_cas (H_stats g) = Response_cas g"
| "handler_cas (H_endure g) = Response_cas g"
| "handler_cas (H_observe g) = Response_cas g"
| "handler_cas (H_callback c calls) = Inl Undefined"

section \<open>The client\<close>

text \<open>\<open>cbc_handlers\<close> are the response objects that are alive, by address.\<close>

record 'i cb_client =
  cbc_instance :: 'i
  cbc_remaining :: "64 word"
  cbc_handlers :: "nat \<rightharpoonup> handler"
  cbc_memory :: memory
  cbc_callback :: bool

text \<open>
  \<^verbatim>\<open>cbwrap\<close> and \<^verbatim>\<open>Client::_dispatch\<close>; true when the loop is broken out of. A cookie that is the
  address of no response is a dangling pointer. The library has its reference to the buffer of
  the response during the call.
\<close>

definition Client_dispatch :: "'i lcb \<Rightarrow> lcb_resp \<Rightarrow> 'i cb_client \<Rightarrow> bool res \<times> 'i cb_client" where
  "Client_dispatch L r c = (case cbc_handlers c (lr_cookie r) of
     None \<Rightarrow> (Inl Undefined, c)
   | Some h \<Rightarrow>
       (case rbind (handle_response (lcb_heap L) r h (lend r (cbc_memory c))) (\<lambda>(h1, m1). rbind (take_back r m1) (\<lambda>m2. Inr (h1, m2))) of
          Inl f \<Rightarrow> (Inl f, c)
        | Inr (h1, m1) \<Rightarrow>
            (let c1 = c\<lparr>cbc_handlers := (cbc_handlers c)(lr_cookie r \<mapsto> h1), cbc_memory := m1\<rparr> in
             if handler_done h1
             then (Inr (cbc_remaining c1 - 1 = 0), c1\<lparr>cbc_remaining := cbc_remaining c1 - 1\<rparr>)
             else (Inr False, c1))))"

definition wait_ends :: "bool res \<Rightarrow> bool" where
  "wait_ends r = (case r of Inl _ \<Rightarrow> True | Inr stop \<Rightarrow> stop)"

text \<open>
  \<^verbatim>\<open>lcb_wait3\<close>: callbacks until nothing is pending or the loop is broken out of. Before \<^verbatim>\<open>connect\<close>
  has installed the callback, responses go nowhere. \<^verbatim>\<open>lcb_breakout\<close> is taken to stop the loop after
  the callback that calls it.
\<close>

partial_function (option) wait_loop :: "'i lcb \<Rightarrow> 'i cb_client \<Rightarrow> (unit res \<times> 'i cb_client) option" where
  "wait_loop L c = (case lcb_next L (cbc_instance c) of
     None \<Rightarrow> Some (Inr (), c)
   | Some x \<Rightarrow>
       (if cbc_callback c then
          (let d = Client_dispatch L (fst x) (c\<lparr>cbc_instance := snd x\<rparr>) in
           if wait_ends (fst d) then Some (rbind (fst d) (\<lambda>_. Inr ()), snd d) else wait_loop L (snd d))
        else wait_loop L (c\<lparr>cbc_instance := snd x\<rparr>)))"

definition Client_wait :: "'i lcb \<Rightarrow> ('i cb_client, unit) act" where
  "Client_wait L c = (case wait_loop L c of None \<Rightarrow> (Inl Looping, c) | Some x \<Rightarrow> x)"

definition on_instance :: "('i \<Rightarrow> 'i) \<Rightarrow> 'i cb_client \<Rightarrow> 'i cb_client" where
  "on_instance f c = c\<lparr>cbc_instance := f (cbc_instance c)\<rparr>"

text \<open>The constructor and \<^verbatim>\<open>connect()\<close>. \<^verbatim>\<open>m_duropts\<close>, which nothing sets, is a constant of \<open>Batches\<close>.\<close>

definition Client_make :: "'i lcb \<Rightarrow> string \<Rightarrow> string \<Rightarrow> lcb_error + 'i cb_client" where
  "Client_make L connstr passwd =
     (case lcb_create L connstr (if passwd = [] then None else Some passwd) of
        Inl rv \<Rightarrow> Inl rv
      | Inr i \<Rightarrow> Inr \<lparr>cbc_instance = i, cbc_remaining = 0, cbc_handlers = Map.empty, cbc_memory = no_memory, cbc_callback = False\<rparr>)"

definition Client_connect :: "'i lcb \<Rightarrow> ('i cb_client, lcb_error) act" where
  "Client_connect L =
     bnd (\<lambda>c. (Inr (fst (lcb_connect L (cbc_instance c))), on_instance (\<lambda>i. snd (lcb_connect L i)) c)) (\<lambda>st.
     if \<not> Status_success st then ret st
     else bnd (Client_wait L) (\<lambda>_.
       bnd (gets (\<lambda>c. lcb_bootstrap_status L (cbc_instance c))) (\<lambda>st.
       if Status_success st then bnd (modify (\<lambda>c. c\<lparr>cbc_callback := True\<rparr>)) (\<lambda>_. ret st) else ret st)))"

text \<open>
  \<^verbatim>\<open>schedule\<close> and \<^verbatim>\<open>run\<close> on the response at the address \<open>a\<close>. The status of the scheduling is
  returned, and is in the response only if a callback puts it there.
\<close>

definition Client_run :: "'i lcb \<Rightarrow> ('i \<Rightarrow> nat \<Rightarrow> lcb_cmd \<Rightarrow> lcb_error \<times> 'i) \<Rightarrow> nat \<Rightarrow> lcb_cmd \<Rightarrow> handler \<Rightarrow> ('i cb_client, lcb_error) act" where
  "Client_run L scheduler a cmd resp =
     bnd (modify (\<lambda>c. (on_instance (lcb_sched_enter L) c)\<lparr>cbc_handlers := (cbc_handlers c)(a \<mapsto> resp)\<rparr>)) (\<lambda>_.
     bnd (\<lambda>c. (Inr (fst (scheduler (cbc_instance c) a cmd)), on_instance (\<lambda>i. snd (scheduler i a cmd)) c)) (\<lambda>s.
     bnd (if \<not> Status_success s then modify (on_instance (lcb_sched_fail L))
          else bnd (modify (on_instance (lcb_sched_leave L))) (\<lambda>_. Client_wait L)) (\<lambda>_.
     bnd (modify (\<lambda>c. c\<lparr>cbc_handlers := (cbc_handlers c)(a := map_option (handler_set_key (cmd_key cmd)) (cbc_handlers c a))\<rparr>)) (\<lambda>_.
     ret s))))"

definition Client_get :: "'i lcb \<Rightarrow> nat \<Rightarrow> lcb_cmd \<Rightarrow> ('i cb_client, lcb_error) act" where
  "Client_get L a cmd = Client_run L (lcb_get3 L) a cmd (H_get GetResponse_make)"

definition Client_store :: "'i lcb \<Rightarrow> nat \<Rightarrow> lcb_cmd \<Rightarrow> ('i cb_client, lcb_error) act" where
  "Client_store L a cmd = Client_run L (lcb_store3 L) a cmd (H_base Response_make)"

definition Client_upsert :: "'i lcb \<Rightarrow> nat \<Rightarrow> string \<Rightarrow> string \<Rightarrow> ('i cb_client, lcb_error) act" where
  "Client_upsert L a k v = Client_store L a (StoreCommand LCB_SET k v)"

definition Client_insert :: "'i lcb \<Rightarrow> nat \<Rightarrow> string \<Rightarrow> string \<Rightarrow> ('i cb_client, lcb_error) act" where
  "Client_insert L a k v = Client_store L a (StoreCommand LCB_ADD k v)"

definition Client_replace :: "'i lcb \<Rightarrow> nat \<Rightarrow> string \<Rightarrow> string \<Rightarrow> ('i cb_client, lcb_error) act" where
  "Client_replace L a k v = Client_store L a (StoreCommand LCB_REPLACE k v)"

definition Client_remove :: "'i lcb \<Rightarrow> nat \<Rightarrow> lcb_cmd \<Rightarrow> ('i cb_client, lcb_error) act" where
  "Client_remove L a cmd = Client_run L (lcb_remove3 L) a cmd (H_base Response_make)"

text \<open>\<^verbatim>\<open>TouchCommand\<close> is a \<^verbatim>\<open>Command<OpInfo::Store>\<close>, so the function that is called is \<^verbatim>\<open>lcb_store3\<close>.\<close>

definition Client_touch :: "'i lcb \<Rightarrow> nat \<Rightarrow> lcb_cmd \<Rightarrow> ('i cb_client, lcb_error) act" where
  "Client_touch L a cmd = Client_run L (lcb_store3 L) a cmd (H_base Response_make)"

definition Client_counter :: "'i lcb \<Rightarrow> nat \<Rightarrow> lcb_cmd \<Rightarrow> ('i cb_client, lcb_error) act" where
  "Client_counter L a cmd = Client_run L (lcb_counter3 L) a cmd (H_counter CounterResponse_make)"

definition Client_unlock :: "'i lcb \<Rightarrow> nat \<Rightarrow> lcb_cmd \<Rightarrow> ('i cb_client, lcb_error) act" where
  "Client_unlock L a cmd = Client_run L (lcb_unlock3 L) a cmd (H_base Response_make)"

definition Client_stats :: "'i lcb \<Rightarrow> nat \<Rightarrow> string \<Rightarrow> ('i cb_client, lcb_error) act" where
  "Client_stats L a key = Client_run L (lcb_stats3 L) a (Command_of_key key) (H_stats StatsResponse_make)"

section \<open>The commands of \<^verbatim>\<open>CouchbaseDb\<close> on the client\<close>

definition response_at :: "nat \<Rightarrow> ('i cb_client, handler) act" where
  "response_at a = bnd (gets (\<lambda>c. cbc_handlers c a)) (\<lambda>h. lift_res (determinate h))"

text \<open>The end of the life of the response at \<open>a\<close>.\<close>

definition response_end :: "nat \<Rightarrow> ('i cb_client, unit) act" where
  "response_end a =
     bnd (response_at a) (\<lambda>h.
     bnd (case h of
            H_get g \<Rightarrow> bnd (\<lambda>c. (GetResponse_clear g (cbc_memory c), c)) (\<lambda>(g1, m1). modify (\<lambda>c. c\<lparr>cbc_memory := m1\<rparr>))
          | _ \<Rightarrow> ret ()) (\<lambda>_.
     modify (\<lambda>c. c\<lparr>cbc_handlers := (cbc_handlers c)(a := None)\<rparr>)))"

definition response_value :: "nat \<Rightarrow> ('i cb_client, string) act" where
  "response_value a = bnd (response_at a) (\<lambda>h. case h of
     H_get g \<Rightarrow> (\<lambda>c. (GetResponse_value g (cbc_memory c), c))
   | _ \<Rightarrow> raise Undefined)"

definition client_cmd_get :: "'i lcb \<Rightarrow> nat \<Rightarrow> string \<Rightarrow> ('i cb_client, string) act" where
  "client_cmd_get L a key =
     bnd (Client_get L a (Command_of_key key)) (\<lambda>_.
     bnd (response_at a) (\<lambda>h. bnd (lift_res (handler_status h)) (\<lambda>st.
     if \<not> Status_success st then
       bnd (response_end a) (\<lambda>_. raise (Throw (Logic_error (''Key '' @ key @ '' does not exists.''))))
     else bnd (response_value a) (\<lambda>s. bnd (response_end a) (\<lambda>_. ret s)))))"

definition client_cmd_remove :: "'i lcb \<Rightarrow> nat \<Rightarrow> string \<Rightarrow> ('i cb_client, unit) act" where
  "client_cmd_remove L a key =
     bnd (Client_remove L a (Command_of_key key)) (\<lambda>_. response_end a)"

definition client_cmd_put :: "'i lcb \<Rightarrow> nat \<Rightarrow> string \<Rightarrow> string \<Rightarrow> ('i cb_client, unit) act" where
  "client_cmd_put L a key val =
     bnd (Client_upsert L a key val) (\<lambda>_.
     bnd (response_at a) (\<lambda>h. bnd (lift_res (handler_status h)) (\<lambda>st.
     if \<not> Status_success st then
       bnd (lift_res (handler_cas h)) (\<lambda>cas.
       bnd (response_end a) (\<lambda>_. raise (Throw (Logic_error (''Can't put '' @ key @ '', error: '' @ decimal (unat cas))))))
     else response_end a)))"

text \<open>\<^verbatim>\<open>client_{...}\<close> and \<^verbatim>\<open>client_.connect()\<close> of the constructor of \<^verbatim>\<open>CouchbaseDb\<close>.\<close>

definition client_open :: "'i lcb \<Rightarrow> string \<Rightarrow> string \<Rightarrow> ('i cb_client connection) res" where
  "client_open L connstr passwd =
     (case Client_make L connstr passwd of
        Inl rv \<Rightarrow> Inr Status_thrown
      | Inr c \<Rightarrow> (case Client_connect L c of
          (Inl f, _) \<Rightarrow> Inl f
        | (Inr st, c1) \<Rightarrow> Inr (if Status_success st then Connected c1 else Not_connected (lcb_strerror L st))))"

section \<open>The interface of a database\<close>

text \<open>
  The class \<^verbatim>\<open>Database\<close>: what its three commands promise, given what the store holds. A command
  that comes in a sequence is run whatever became of those before it.
\<close>

datatype db_command = Get string | Put string string | Remove string

fun command_run :: "(string \<Rightarrow> ('s, string) act) \<Rightarrow> (string \<Rightarrow> string \<Rightarrow> ('s, unit) act) \<Rightarrow> (string \<Rightarrow> ('s, unit) act) \<Rightarrow>
    db_command \<Rightarrow> ('s, string) act" where
  "command_run get put remove (Get k) = get k"
| "command_run get put remove (Put k v) = bnd (put k v) (\<lambda>_. ret [])"
| "command_run get put remove (Remove k) = bnd (remove k) (\<lambda>_. ret [])"

fun commands_run :: "(string \<Rightarrow> ('s, string) act) \<Rightarrow> (string \<Rightarrow> string \<Rightarrow> ('s, unit) act) \<Rightarrow> (string \<Rightarrow> ('s, unit) act) \<Rightarrow>
    db_command list \<Rightarrow> 's \<Rightarrow> string res list \<times> 's" where
  "commands_run get put remove [] s = ([], s)"
| "commands_run get put remove (x # xs) s =
     (let (r, s1) = command_run get put remove x s; (rs, s2) = commands_run get put remove xs s1 in (r # rs, s2))"

text \<open>Couchbase takes keys of 1 to 250 bytes and values up to 20 MiB.\<close>

definition key_fits :: "string \<Rightarrow> bool" where
  "key_fits k \<longleftrightarrow> k \<noteq> [] \<and> length k \<le> 250"

definition value_fits :: "string \<Rightarrow> bool" where
  "value_fits v \<longleftrightarrow> length v \<le> 20 * 2 ^ 20"

fun command_fits :: "db_command \<Rightarrow> bool" where
  "command_fits (Get k) = key_fits k"
| "command_fits (Put k v) = (key_fits k \<and> value_fits v)"
| "command_fits (Remove k) = key_fits k"

text \<open>The answers and the contents after a sequence of commands on a map.\<close>

fun map_answer :: "db_command \<Rightarrow> (string \<rightharpoonup> string) \<Rightarrow> string res" where
  "map_answer (Get k) m = of_option (Logic_error (''Key '' @ k @ '' does not exists.'')) (m k)"
| "map_answer (Put k v) m = Inr []"
| "map_answer (Remove k) m = Inr []"

fun map_after :: "db_command \<Rightarrow> (string \<rightharpoonup> string) \<Rightarrow> (string \<rightharpoonup> string)" where
  "map_after (Get k) m = m"
| "map_after (Put k v) m = m(k \<mapsto> v)"
| "map_after (Remove k) m = m(k := None)"

fun map_answers :: "db_command list \<Rightarrow> (string \<rightharpoonup> string) \<Rightarrow> string res list" where
  "map_answers [] m = []"
| "map_answers (x # xs) m = map_answer x m # map_answers xs (map_after x m)"

locale database_commands =
  fixes get :: "string \<Rightarrow> ('s, string) act" and put :: "string \<Rightarrow> string \<Rightarrow> ('s, unit) act" and remove :: "string \<Rightarrow> ('s, unit) act"
    and contents :: "'s \<Rightarrow> string \<rightharpoonup> string" and valid :: "'s \<Rightarrow> bool"
    and outstanding :: "'s \<Rightarrow> 'n :: comm_ring_1" and cost :: 'n
  assumes get: "valid s \<Longrightarrow> key_fits k \<Longrightarrow>
      \<exists>s1. get k s = (of_option (Logic_error (''Key '' @ k @ '' does not exists.'')) (contents s k), s1)
        \<and> valid s1 \<and> contents s1 = contents s \<and> outstanding s1 = outstanding s - cost"
    and put: "valid s \<Longrightarrow> key_fits k \<Longrightarrow> value_fits v \<Longrightarrow>
      \<exists>s1. put k v s = (Inr (), s1) \<and> valid s1 \<and> contents s1 = (contents s)(k \<mapsto> v)
        \<and> outstanding s1 = outstanding s - cost"
    and remove: "valid s \<Longrightarrow> key_fits k \<Longrightarrow>
      \<exists>s1. remove k s = (Inr (), s1) \<and> valid s1 \<and> contents s1 = (contents s)(k := None)
        \<and> outstanding s1 = outstanding s - cost"
begin

lemma command: "valid s \<Longrightarrow> command_fits x \<Longrightarrow>
    \<exists>s1. command_run get put remove x s = (map_answer x (contents s), s1) \<and> valid s1 \<and> contents s1 = map_after x (contents s)
      \<and> outstanding s1 = outstanding s - cost"
  using get [of s] put [of s] remove [of s] by (cases x) (fastforce simp: act_simps)+

lemma commands: "valid s \<Longrightarrow> list_all command_fits xs \<Longrightarrow>
    \<exists>s1. commands_run get put remove xs s = (map_answers xs (contents s), s1)
      \<and> valid s1 \<and> contents s1 = fold map_after xs (contents s)
      \<and> outstanding s1 = outstanding s - of_nat (length xs) * cost"
proof (induction xs arbitrary: s)
  case Nil
  then show ?case by simp
next
  case (Cons x xs)
  then obtain s1 where s1: "command_run get put remove x s = (map_answer x (contents s), s1)" "valid s1" "contents s1 = map_after x (contents s)"
    "outstanding s1 = outstanding s - cost"
    using command [of s x] by auto
  with Cons.IH [of s1] Cons.prems show ?case by (auto simp: algebra_simps)
qed

end

text \<open>The commands on the store that the master is modelled with.\<close>

definition store_get :: "'db couchbase \<Rightarrow> string \<Rightarrow> ('db, string) act" where
  "store_get C k = (\<lambda>db. (CouchbaseDb_cmd_get C db k, db))"

definition store_put :: "'db couchbase \<Rightarrow> string \<Rightarrow> string \<Rightarrow> ('db, unit) act" where
  "store_put C k v = (\<lambda>db. case CouchbaseDb_cmd_put C db k v of Inl f \<Rightarrow> (Inl f, db) | Inr db1 \<Rightarrow> (Inr (), db1))"

definition store_remove :: "'db couchbase \<Rightarrow> string \<Rightarrow> ('db, unit) act" where
  "store_remove C k = (\<lambda>db. (Inr (), CouchbaseDb_cmd_remove C db k))"

lemma database_of_cb:
  assumes "cb_ok C"
  shows "database_commands (store_get C) (store_put C) (store_remove C) (cb_get C) (\<lambda>_. True) (\<lambda>_. 0 :: int) 0"
proof
  fix k v and s :: 'a
  show "\<exists>s1. store_get C k s = (of_option (Logic_error (''Key '' @ k @ '' does not exists.'')) (cb_get C s k), s1)
      \<and> True \<and> cb_get C s1 = cb_get C s \<and> (0 :: int) = 0 - 0"
    by (simp add: store_get_def CouchbaseDb_cmd_get_def)
  obtain db' where "cb_upsert C s k v = Inr db'" "\<forall>k'. cb_get C db' k' = (if k' = k then Some v else cb_get C s k')"
    using assms unfolding cb_ok_def by blast
  then show "\<exists>s1. store_put C k v s = (Inr (), s1) \<and> True \<and> cb_get C s1 = (cb_get C s)(k \<mapsto> v) \<and> (0 :: int) = 0 - 0"
    by (auto simp: store_put_def CouchbaseDb_cmd_put_def)
  show "\<exists>s1. store_remove C k s = (Inr (), s1) \<and> True \<and> cb_get C s1 = (cb_get C s)(k := None) \<and> (0 :: int) = 0 - 0"
    using assms by (auto simp: store_remove_def CouchbaseDb_cmd_remove_def cb_ok_def)
qed

section \<open>The client as a database\<close>

text \<open>What the library delivers for a get of a key that holds \<open>v\<close>, or of one that is not there.\<close>

definition get_answer :: "lcb_resp \<Rightarrow> string option \<Rightarrow> bool" where
  "get_answer r v \<longleftrightarrow> shared_answer r \<and> (Status_success (lr_rc r) \<longleftrightarrow> v \<noteq> None) \<and> v \<in> {None, Some (answer_value r)}"

text \<open>
  The library with a reachable cluster, as it is documented: every command that is scheduled
  gets one callback with the cookie it was given; a get finds what was stored last.
\<close>

locale lcb_server =
  fixes L :: "'i lcb" and held :: "'i \<Rightarrow> string \<rightharpoonup> string" and idle :: "'i \<Rightarrow> bool"
  assumes idle_next: "idle i \<Longrightarrow> lcb_next L i = None"
    and get3: "idle i \<Longrightarrow> key_fits k \<Longrightarrow>
      \<exists>j r j1. lcb_get3 L (lcb_sched_enter L i) a (Command_of_key k) = (LCB_SUCCESS, j) \<and> lcb_next L (lcb_sched_leave L j) = Some (r, j1)
        \<and> lr_cookie r = a \<and> get_answer r (held i k) \<and> idle j1 \<and> held j1 = held i"
    and store3: "idle i \<Longrightarrow> key_fits k \<Longrightarrow> value_fits v \<Longrightarrow>
      \<exists>j r j1. lcb_store3 L (lcb_sched_enter L i) a (StoreCommand LCB_SET k v) = (LCB_SUCCESS, j) \<and> lcb_next L (lcb_sched_leave L j) = Some (r, j1)
        \<and> lr_cookie r = a \<and> lr_rc r = LCB_SUCCESS \<and> lr_body r = B_plain \<and> idle j1 \<and> held j1 = (held i)(k \<mapsto> v)"
    and remove3: "idle i \<Longrightarrow> key_fits k \<Longrightarrow>
      \<exists>j r j1. lcb_remove3 L (lcb_sched_enter L i) a (Command_of_key k) = (LCB_SUCCESS, j) \<and> lcb_next L (lcb_sched_leave L j) = Some (r, j1)
        \<and> lr_cookie r = a \<and> lr_body r = B_plain \<and> idle j1 \<and> held j1 = (held i)(k := None)"

text \<open>A client between two commands: no response is alive and no buffer is held.\<close>

definition client_ready :: "('i \<Rightarrow> bool) \<Rightarrow> 'i cb_client \<Rightarrow> bool" where
  "client_ready idle c \<longleftrightarrow> idle (cbc_instance c) \<and> cbc_handlers c = Map.empty \<and> cbc_memory c = no_memory \<and> cbc_callback c"

lemma wait_once:
  assumes "lcb_next L (cbc_instance c) = Some (r, j)" "cbc_callback c" "lcb_next L j = None"
    and "Client_dispatch L r (c\<lparr>cbc_instance := j\<rparr>) = (Inr stop, c1)" "cbc_instance c1 = j"
  shows "Client_wait L c = (Inr (), c1)"
proof -
  have "wait_loop L c1 = Some (Inr (), c1)"
    by (subst wait_loop.simps) (simp add: assms(3,5))
  then have "wait_loop L c = Some (Inr (), c1)"
    by (subst wait_loop.simps) (simp add: assms(1,2,4) wait_ends_def Let_def)
  then show ?thesis by (simp add: Client_wait_def)
qed

text \<open>One command whose response is handled.\<close>

lemma Client_run_once:
  assumes "scheduler (lcb_sched_enter L (cbc_instance c)) a cmd = (LCB_SUCCESS, j)" "lcb_next L (lcb_sched_leave L j) = Some (r, j1)"
    and "lr_cookie r = a" "lcb_next L j1 = None" "cbc_callback c" "cbc_handlers c = Map.empty" "handler_done h1"
    and "handle_response (lcb_heap L) r resp (lend r (cbc_memory c)) = Inr (h1, m1)" "take_back r m1 = Inr m2"
  shows "Client_run L scheduler a cmd resp c =
    (Inr LCB_SUCCESS, c\<lparr>cbc_instance := j1, cbc_handlers := [a \<mapsto> handler_set_key (cmd_key cmd) h1], cbc_memory := m2,
       cbc_remaining := cbc_remaining c - 1\<rparr>)"
proof -
  let ?c = "c\<lparr>cbc_instance := lcb_sched_leave L j, cbc_handlers := [a \<mapsto> resp]\<rparr>"
  let ?d = "c\<lparr>cbc_instance := j1, cbc_handlers := [a \<mapsto> h1], cbc_memory := m2, cbc_remaining := cbc_remaining c - 1\<rparr>"
  have "Client_dispatch L r (?c\<lparr>cbc_instance := j1\<rparr>) = (Inr (cbc_remaining c - 1 = 0), ?d)"
    using assms(3,7-9) by (simp add: Client_dispatch_def Let_def)
  from wait_once [OF _ _ assms(4) this] have "Client_wait L ?c = (Inr (), ?d)"
    using assms(2,5) by simp
  then show ?thesis
    using assms(1,6) by (cases c) (simp add: Client_run_def act_simps on_instance_def Status_success_def)
qed

text \<open>The response of a get is handled, read and destroyed; no buffer is left.\<close>

lemma handle_get_answer:
  assumes "get_answer r v"
  shows "\<exists>g m1 m2. GetResponse_handle_response H r GetResponse_make (lend r no_memory) = Inr (g, m1) \<and> take_back r m1 = Inr m2
    \<and> rs_rc g = Some (lr_rc r) \<and> (\<forall>k. GetResponse_clear (Response_set_key k g) m2 = Inr (emptied (Response_set_key k g), no_memory))
    \<and> (\<forall>s k. v = Some s \<longrightarrow> GetResponse_value (Response_set_key k g) m2 = Inr s)"
proof -
  let ?buffers = "\<lambda>_ :: nat. (case lr_body r of B_get _ _ _ bytes _ \<Rightarrow> bytes | _ \<Rightarrow> [])"
  have none: "counts ?buffers Map.empty no_memory" by (simp add: counts_def holders_def no_memory_def)
  have fits: "answer_fits r ?buffers"
    by (simp add: answer_fits_def split: lcb_body.splits option.splits)
  have shared: "shared_answer r" using assms by (simp add: get_answer_def)
  obtain g m1 m2 where run: "GetResponse_handle_response H r GetResponse_make (lend r no_memory) = Inr (g, m1)" "take_back r m1 = Inr m2"
    "counts ?buffers [0 \<mapsto> g] m2" "mem_heap m2 = mem_heap no_memory" "readable ?buffers g (answer_value r)"
    using receive_counts [where i = 0 and H = H, OF none _ _ shared fits] by auto
  have rc: "rs_rc g = Some (lr_rc r)"
    using run(1) by (auto simp: GetResponse_handle_response_def Response_handle_response_def Let_def backbuf_ref_def
        split: lcb_body.splits option.splits if_splits)
  have key: "readable ?buffers (Response_set_key k g) (answer_value r)" "holds (Response_set_key k g) h = holds g h" for k h
    using run(5) by (simp_all add: readable_def holds_def Response_set_key_def)
  have same: "counts ?buffers [0 \<mapsto> Response_set_key k g] m2" for k
    by (rule counts_same [OF run(3)])
      (use holders_insert [of Map.empty 0 g] holders_insert [of Map.empty 0 "Response_set_key k g"] key(2) in \<open>simp add: holders_def\<close>)
  have clear: "GetResponse_clear (Response_set_key k g) m2 = Inr (emptied (Response_set_key k g), no_memory)" for k
  proof -
    obtain m3 where m3: "GetResponse_clear (Response_set_key k g) m2 = Inr (emptied (Response_set_key k g), m3)"
      "counts ?buffers ([0 \<mapsto> Response_set_key k g](0 \<mapsto> emptied (Response_set_key k g))) m3" "mem_heap m3 = mem_heap m2"
      using clear_counts [where i = 0, OF same _ _ key(1)] by auto
    have "holders [0 \<mapsto> emptied (Response_set_key k g)] h = 0" for h
      using holders_insert [of Map.empty 0 "emptied (Response_set_key k g)" h] by (simp add: holders_def)
    then have "mem_backs m3 = Map.empty" using m3(2) by (simp add: counts_def fun_eq_iff)
    with m3(1,3) run(4) show ?thesis by (simp add: no_memory_def)
  qed
  have "GetResponse_value (Response_set_key k g) m2 = Inr s" if "v = Some s" for s k
    using readable_value [where i = 0, OF same _ _ key(1)] assms that by (simp add: get_answer_def)
  with run(1,2) rc clear show ?thesis by blast
qed

context lcb_server
begin

lemma client_get:
  assumes "client_ready idle c" "key_fits k"
  shows "\<exists>c1. client_cmd_get L a k c =
      (of_option (Logic_error (''Key '' @ k @ '' does not exists.'')) (held (cbc_instance c) k), c1)
    \<and> client_ready idle c1 \<and> held (cbc_instance c1) = held (cbc_instance c) \<and> cbc_remaining c1 = cbc_remaining c - 1"
proof -
  have c: "idle (cbc_instance c)" "cbc_handlers c = Map.empty" "cbc_memory c = no_memory" "cbc_callback c"
    using assms(1) by (simp_all add: client_ready_def)
  obtain j r j1 where lib: "lcb_get3 L (lcb_sched_enter L (cbc_instance c)) a (Command_of_key k) = (LCB_SUCCESS, j)"
    "lcb_next L (lcb_sched_leave L j) = Some (r, j1)" "lr_cookie r = a" "get_answer r (held (cbc_instance c) k)"
    "idle j1" "held j1 = held (cbc_instance c)"
    using get3 [OF c(1) assms(2)] by blast
  obtain g m1 m2 where g: "GetResponse_handle_response (lcb_heap L) r GetResponse_make (lend r no_memory) = Inr (g, m1)"
    "take_back r m1 = Inr m2" "rs_rc g = Some (lr_rc r)"
    "\<And>k. GetResponse_clear (Response_set_key k g) m2 = Inr (emptied (Response_set_key k g), no_memory)"
    "\<And>s k'. held (cbc_instance c) k = Some s \<Longrightarrow> GetResponse_value (Response_set_key k' g) m2 = Inr s"
    using handle_get_answer [OF lib(4), of "lcb_heap L"] by metis
  have run: "Client_run L (lcb_get3 L) a (Command_of_key k) (H_get GetResponse_make) c =
      (Inr LCB_SUCCESS, c\<lparr>cbc_instance := j1, cbc_handlers := [a \<mapsto> H_get (Response_set_key (cmd_key (Command_of_key k)) g)],
         cbc_memory := m2, cbc_remaining := cbc_remaining c - 1\<rparr>)"
    using Client_run_once [where scheduler = "lcb_get3 L", OF lib(1-3) idle_next [OF lib(5)] c(4,2), of "H_get g"] g(1,2) c(3) by simp
  have "Status_success (lr_rc r) \<longleftrightarrow> held (cbc_instance c) k \<noteq> None" using lib(4) by (simp add: get_answer_def)
  then show ?thesis
    using g(3-5) lib(5,6) c(4)
    by (cases "held (cbc_instance c) k")
      (auto simp: client_cmd_get_def Client_get_def run act_simps response_at_def determinate_def Response_status_def
        Response_set_key_def response_end_def response_value_def client_ready_def)
qed

lemma client_put:
  assumes "client_ready idle c" "key_fits k" "value_fits v"
  shows "\<exists>c1. client_cmd_put L a k v c = (Inr (), c1)
    \<and> client_ready idle c1 \<and> held (cbc_instance c1) = (held (cbc_instance c))(k \<mapsto> v) \<and> cbc_remaining c1 = cbc_remaining c - 1"
proof -
  have c: "idle (cbc_instance c)" "cbc_handlers c = Map.empty" "cbc_memory c = no_memory" "cbc_callback c"
    using assms(1) by (simp_all add: client_ready_def)
  obtain j r j1 where lib: "lcb_store3 L (lcb_sched_enter L (cbc_instance c)) a (StoreCommand LCB_SET k v) = (LCB_SUCCESS, j)"
    "lcb_next L (lcb_sched_leave L j) = Some (r, j1)" "lr_cookie r = a" "lr_rc r = LCB_SUCCESS" "lr_body r = B_plain"
    "idle j1" "held j1 = (held (cbc_instance c))(k \<mapsto> v)"
    using store3 [OF c(1) assms(2,3)] by blast
  show ?thesis
    using Client_run_once [where scheduler = "lcb_store3 L", OF lib(1-3) idle_next [OF lib(6)] c(4,2), of "H_base (Response_handle_response r Response_make)"] lib(4-7) c
    by (auto simp: client_cmd_put_def Client_upsert_def Client_store_def lend_def take_back_def act_simps response_at_def
        determinate_def Response_status_def Response_set_key_def Response_handle_response_def Status_success_def
        response_end_def client_ready_def)
qed

lemma client_remove:
  assumes "client_ready idle c" "key_fits k"
  shows "\<exists>c1. client_cmd_remove L a k c = (Inr (), c1)
    \<and> client_ready idle c1 \<and> held (cbc_instance c1) = (held (cbc_instance c))(k := None) \<and> cbc_remaining c1 = cbc_remaining c - 1"
proof -
  have c: "idle (cbc_instance c)" "cbc_handlers c = Map.empty" "cbc_memory c = no_memory" "cbc_callback c"
    using assms(1) by (simp_all add: client_ready_def)
  obtain j r j1 where lib: "lcb_remove3 L (lcb_sched_enter L (cbc_instance c)) a (Command_of_key k) = (LCB_SUCCESS, j)"
    "lcb_next L (lcb_sched_leave L j) = Some (r, j1)" "lr_cookie r = a" "lr_body r = B_plain"
    "idle j1" "held j1 = (held (cbc_instance c))(k := None)"
    using remove3 [OF c(1) assms(2)] by blast
  show ?thesis
    using Client_run_once [where scheduler = "lcb_remove3 L", OF lib(1-3) idle_next [OF lib(5)] c(4,2), of "H_base (Response_handle_response r Response_make)"] lib(4-6) c
    by (auto simp: client_cmd_remove_def Client_remove_def lend_def take_back_def act_simps response_at_def
        determinate_def response_end_def client_ready_def)
qed

end

sublocale lcb_server \<subseteq> over_client: database_commands "client_cmd_get L a" "client_cmd_put L a" "client_cmd_remove L a"
    "\<lambda>c. held (cbc_instance c)" "client_ready idle" cbc_remaining 1 for a
  by unfold_locales (fact client_get client_put client_remove)+

context lcb_server
begin

lemma client_commands:
  "client_ready idle c \<Longrightarrow> list_all command_fits xs \<Longrightarrow>
   \<exists>c1. commands_run (client_cmd_get L a) (client_cmd_put L a) (client_cmd_remove L a) xs c =
      (map_answers xs (held (cbc_instance c)), c1)
     \<and> client_ready idle c1 \<and> held (cbc_instance c1) = fold map_after xs (held (cbc_instance c))
     \<and> cbc_remaining c1 = cbc_remaining c - of_nat (length xs)"
  using over_client.commands [of c xs a] by simp

end


text \<open>A library whose server is a map; what it is to deliver is a queue.\<close>

type_synonym sample_instance = "(string \<rightharpoonup> string) \<times> lcb_resp list"

definition sample_response :: "nat \<Rightarrow> lcb_cmd \<Rightarrow> lcb_error \<Rightarrow> lcb_body \<Rightarrow> lcb_resp" where
  "sample_response a cmd rc body = \<lparr>lr_cookie = a, lr_rc = rc, lr_cas = 1, lr_key = cmd_key cmd, lr_final = True, lr_body = body\<rparr>"

definition sample_get3 :: "sample_instance \<Rightarrow> nat \<Rightarrow> lcb_cmd \<Rightarrow> lcb_error \<times> sample_instance" where
  "sample_get3 i a cmd = (LCB_SUCCESS, fst i, snd i @ [case fst i (cmd_key cmd) of
     None \<Rightarrow> sample_response a cmd 13 (B_get P_null 0 None [] 0)
   | Some v \<Rightarrow> sample_response a cmd LCB_SUCCESS (B_get (P_back 0 0) (length v) (Some 0) v 0)])"

definition sample_store3 :: "sample_instance \<Rightarrow> nat \<Rightarrow> lcb_cmd \<Rightarrow> lcb_error \<times> sample_instance" where
  "sample_store3 i a cmd = (LCB_SUCCESS, (fst i)(cmd_key cmd \<mapsto> cmd_value cmd), snd i @ [sample_response a cmd LCB_SUCCESS B_plain])"

definition sample_remove3 :: "sample_instance \<Rightarrow> nat \<Rightarrow> lcb_cmd \<Rightarrow> lcb_error \<times> sample_instance" where
  "sample_remove3 i a cmd = (LCB_SUCCESS, (fst i)(cmd_key cmd := None),
     snd i @ [sample_response a cmd (if fst i (cmd_key cmd) = None then 13 else LCB_SUCCESS) B_plain])"

definition sample_lcb :: "sample_instance lcb" where
  "sample_lcb = \<lparr>lcb_create = (\<lambda>_ _. Inr (Map.empty, [])), lcb_connect = Pair LCB_SUCCESS, lcb_bootstrap_status = (\<lambda>_. LCB_SUCCESS),
     lcb_sched_enter = id, lcb_sched_leave = id, lcb_sched_fail = id,
     lcb_get3 = sample_get3, lcb_store3 = sample_store3, lcb_remove3 = sample_remove3,
     lcb_counter3 = (\<lambda>i _ _. (1, i)), lcb_unlock3 = (\<lambda>i _ _. (1, i)), lcb_stats3 = (\<lambda>i _ _. (1, i)),
     lcb_next = (\<lambda>i. case snd i of [] \<Rightarrow> None | r # rs \<Rightarrow> Some (r, fst i, rs)),
     lcb_strerror = (\<lambda>_. ''error''), lcb_heap = sample_heap\<rparr>"

interpretation sample_server: lcb_server sample_lcb fst "\<lambda>i. snd i = []"
proof
  fix i :: sample_instance and k v a
  assume idle: "snd i = []"
  show "lcb_next sample_lcb i = None" using idle by (simp add: sample_lcb_def)
  show "\<exists>j r j1. lcb_get3 sample_lcb (lcb_sched_enter sample_lcb i) a (Command_of_key k) = (LCB_SUCCESS, j)
      \<and> lcb_next sample_lcb (lcb_sched_leave sample_lcb j) = Some (r, j1)
      \<and> lr_cookie r = a \<and> get_answer r (fst i k) \<and> snd j1 = [] \<and> fst j1 = fst i"
    using idle
    by (cases "fst i k") (auto simp: sample_lcb_def sample_get3_def sample_response_def Command_of_key_def Command_key_def
        get_answer_def shared_answer_def answer_value_def Status_success_def LCB_SUCCESS_def slice_def)
  show "\<exists>j r j1. lcb_store3 sample_lcb (lcb_sched_enter sample_lcb i) a (StoreCommand LCB_SET k v) = (LCB_SUCCESS, j)
      \<and> lcb_next sample_lcb (lcb_sched_leave sample_lcb j) = Some (r, j1)
      \<and> lr_cookie r = a \<and> lr_rc r = LCB_SUCCESS \<and> lr_body r = B_plain \<and> snd j1 = [] \<and> fst j1 = (fst i)(k \<mapsto> v)"
    using idle by (simp add: sample_lcb_def sample_store3_def sample_response_def StoreCommand_def StoreCommand_mode_def
        StoreCommand_value_def Command_key_def)
  show "\<exists>j r j1. lcb_remove3 sample_lcb (lcb_sched_enter sample_lcb i) a (Command_of_key k) = (LCB_SUCCESS, j)
      \<and> lcb_next sample_lcb (lcb_sched_leave sample_lcb j) = Some (r, j1)
      \<and> lr_cookie r = a \<and> lr_body r = B_plain \<and> snd j1 = [] \<and> fst j1 = (fst i)(k := None)"
    using idle by (simp add: sample_lcb_def sample_remove3_def sample_response_def Command_of_key_def Command_key_def)
qed

interpretation sample_store_commands: database_commands "store_get sample_couchbase" "store_put sample_couchbase"
  "store_remove sample_couchbase" "cb_get sample_couchbase" "\<lambda>_. True" "\<lambda>_. 0 :: int" 0
  by (rule database_of_cb [OF sample_couchbase_ok])

text \<open>A client that connects is ready for commands, and the one of the sample does.\<close>

lemma client_open_ready:
  assumes "lcb_create L connstr (if passwd = [] then None else Some passwd) = Inr i" "lcb_connect L i = (LCB_SUCCESS, j)"
    and "lcb_next L j = None" "lcb_bootstrap_status L j = LCB_SUCCESS" "idle j"
  shows "\<exists>c. client_open L connstr passwd = Inr (Connected c) \<and> client_ready idle c \<and> cbc_instance c = j"
proof -
  let ?c = "\<lparr>cbc_instance = j, cbc_remaining = 0, cbc_handlers = Map.empty, cbc_memory = no_memory, cbc_callback = False\<rparr>"
  have "wait_loop L ?c = Some (Inr (), ?c)"
    by (subst wait_loop.simps) (simp add: assms(3))
  then have "Client_wait L ?c = (Inr (), ?c)" by (simp add: Client_wait_def)
  then show ?thesis
    using assms(1,2,4,5)
    by (simp add: client_open_def Client_make_def Client_connect_def act_simps on_instance_def Status_success_def client_ready_def)
qed


text \<open>
  A command that is not scheduled gets no callback: the commands then read a status that was
  never written.
\<close>

lemma unscheduled_status_undefined:
  assumes "lcb_get3 L (lcb_sched_enter L (cbc_instance c)) a (Command_of_key k) = (e, i)" "e \<noteq> LCB_SUCCESS"
  shows "fst (client_cmd_get L a k c) = Inl Undefined"
  using assms
  by (cases c) (simp add: client_cmd_get_def Client_get_def Client_run_def act_simps on_instance_def Status_success_def
      response_at_def determinate_def GetResponse_make_def Response_set_key_def Response_status_def)

text \<open>A touch is scheduled as a store without an operation.\<close>

lemma touch_is_a_store: "Client_touch L a (Command_of_key k) = Client_store L a (Command_of_key k)"
  by (simp add: Client_touch_def Client_store_def)

text \<open>The first response of a client that was never told how many to expect makes the count wrap.\<close>

lemma remaining_wraps:
  assumes "cbc_remaining c = 0" "cbc_handlers c (lr_cookie r) = Some (H_base h)" "lr_body r = B_plain"
  shows "fst (Client_dispatch L r c) = Inr False" "cbc_remaining (snd (Client_dispatch L r c)) = - 1"
  using assms by (simp_all add: Client_dispatch_def lend_def take_back_def Let_def)

end
