(* ===== verification/Batches.thy ===== *)
theory Batches
  imports Couchbase_Client
begin

text \<open>
  Batches of couchbase++ (\<^verbatim>\<open>Context\<close>, \<^verbatim>\<open>BatchCommand\<close>, \<^verbatim>\<open>CallbackCommand\<close> of \<^verbatim>\<open>batch.inl.h\<close>) and its
  durability operations (\<^verbatim>\<open>mctx.inl.h\<close>, \<^verbatim>\<open>endure.h\<close>). How many responses a wait delivers depends on the
  count of outstanding ones, which single commands make wrap.
\<close>

section \<open>Contexts\<close>

text \<open>\<^verbatim>\<open>Client::schedule\<close>.\<close>

type_synonym 'i scheduler = "'i \<Rightarrow> nat \<Rightarrow> lcb_cmd \<Rightarrow> lcb_error \<times> 'i"

definition Client_schedule :: "'i scheduler \<Rightarrow> lcb_cmd \<Rightarrow> nat \<Rightarrow> ('i cb_client, lcb_error) act" where
  "Client_schedule scheduler cmd a =
     (\<lambda>c. (Inr (fst (scheduler (cbc_instance c) a cmd)), on_instance (\<lambda>i. snd (scheduler i a cmd)) c))"

record batch_context =
  bx_entered :: bool
  bx_remaining :: "64 word"

definition Context_reset :: "'i lcb \<Rightarrow> ('i cb_client, batch_context) act" where
  "Context_reset L = bnd (modify (on_instance (lcb_sched_enter L))) (\<lambda>_. ret \<lparr>bx_entered = True, bx_remaining = 0\<rparr>)"

definition Context_make :: "'i lcb \<Rightarrow> ('i cb_client, batch_context) act" where
  "Context_make L = Context_reset L"

definition Context_add :: "'i scheduler \<Rightarrow> lcb_cmd \<Rightarrow> nat \<Rightarrow> batch_context \<Rightarrow> ('i cb_client, lcb_error \<times> batch_context) act" where
  "Context_add scheduler cmd a x =
     bnd (Client_schedule scheduler cmd a) (\<lambda>st.
       ret (st, if Status_success st then x\<lparr>bx_remaining := bx_remaining x + 1\<rparr> else x))"

definition Context_bail :: "'i lcb \<Rightarrow> batch_context \<Rightarrow> ('i cb_client, batch_context) act" where
  "Context_bail L x = bnd (modify (on_instance (lcb_sched_fail L))) (\<lambda>_. ret (x\<lparr>bx_entered := False\<rparr>))"

definition Context_submit :: "'i lcb \<Rightarrow> batch_context \<Rightarrow> ('i cb_client, batch_context) act" where
  "Context_submit L x =
     bnd (modify (\<lambda>c. c\<lparr>cbc_remaining := cbc_remaining c + bx_remaining x\<rparr>)) (\<lambda>_.
     bnd (modify (on_instance (lcb_sched_leave L))) (\<lambda>_. ret (x\<lparr>bx_entered := False\<rparr>)))"

text \<open>The destructor, and the assignment from another context, which leaves that one empty.\<close>

definition Context_end :: "'i lcb \<Rightarrow> batch_context \<Rightarrow> ('i cb_client, unit) act" where
  "Context_end L x = (if bx_entered x then bnd (Context_bail L x) (\<lambda>_. ret ()) else ret ())"

definition Context_move :: "batch_context \<Rightarrow> batch_context \<times> batch_context" where
  "Context_move other = (other, other\<lparr>bx_entered := False, bx_remaining := 0\<rparr>)"

section \<open>Batches\<close>

text \<open>The list of the responses of a batch, by address. A response is listed even if the command is not scheduled.\<close>

record batch_command =
  bc_ctx :: batch_context
  bc_resplist :: "nat list"

definition BatchCommand_make :: "'i lcb \<Rightarrow> ('i cb_client, batch_command) act" where
  "BatchCommand_make L = bnd (Context_make L) (\<lambda>x. ret \<lparr>bc_ctx = x, bc_resplist = []\<rparr>)"

definition handler_new :: "nat \<Rightarrow> handler \<Rightarrow> ('i cb_client, unit) act" where
  "handler_new a h = modify (\<lambda>c. c\<lparr>cbc_handlers := (cbc_handlers c)(a \<mapsto> h)\<rparr>)"

definition BatchCommand_add :: "'i scheduler \<Rightarrow> handler \<Rightarrow> nat \<Rightarrow> lcb_cmd \<Rightarrow> batch_command \<Rightarrow> ('i cb_client, lcb_error \<times> batch_command) act" where
  "BatchCommand_add scheduler resp a cmd b =
     bnd (handler_new a resp) (\<lambda>_.
     bnd (Context_add scheduler cmd a (bc_ctx b)) (\<lambda>(st, x).
       ret (st, b\<lparr>bc_ctx := x, bc_resplist := bc_resplist b @ [a]\<rparr>)))"

definition BatchCommand_submit :: "'i lcb \<Rightarrow> batch_command \<Rightarrow> ('i cb_client, batch_command) act" where
  "BatchCommand_submit L b = bnd (Context_submit L (bc_ctx b)) (\<lambda>x. ret (b\<lparr>bc_ctx := x\<rparr>))"

text \<open>The destructor: the responses, then the context.\<close>

fun responses_end :: "nat list \<Rightarrow> ('i cb_client, unit) act" where
  "responses_end [] = ret ()"
| "responses_end (a # as) = bnd (response_end a) (\<lambda>_. responses_end as)"

definition BatchCommand_end :: "'i lcb \<Rightarrow> batch_command \<Rightarrow> ('i cb_client, unit) act" where
  "BatchCommand_end L b = bnd (responses_end (bc_resplist b)) (\<lambda>_. Context_end L (bc_ctx b))"

text \<open>A \<^verbatim>\<open>CallbackCommand\<close> is the handler of all its commands.\<close>

definition CallbackCommand_make :: "'i lcb \<Rightarrow> callee \<Rightarrow> nat \<Rightarrow> ('i cb_client, batch_context) act" where
  "CallbackCommand_make L k a = bnd (handler_new a (H_callback k [])) (\<lambda>_. Context_make L)"

definition CallbackCommand_add :: "'i scheduler \<Rightarrow> nat \<Rightarrow> lcb_cmd \<Rightarrow> batch_context \<Rightarrow> ('i cb_client, lcb_error \<times> batch_context) act" where
  "CallbackCommand_add scheduler a cmd x = Context_add scheduler cmd a x"

definition CallbackCommand_submit :: "'i lcb \<Rightarrow> batch_context \<Rightarrow> ('i cb_client, batch_context) act" where
  "CallbackCommand_submit L x = Context_submit L x"

text \<open>How a batch is used: all is added, submitted, and waited for.\<close>

fun batch_adds :: "'i scheduler \<Rightarrow> handler \<Rightarrow> (nat \<times> lcb_cmd) list \<Rightarrow> batch_command \<Rightarrow> ('i cb_client, batch_command) act" where
  "batch_adds scheduler resp [] b = ret b"
| "batch_adds scheduler resp ((a, cmd) # cmds) b =
     bnd (BatchCommand_add scheduler resp a cmd b) (\<lambda>(st, b1). batch_adds scheduler resp cmds b1)"

definition batch_run :: "'i lcb \<Rightarrow> 'i scheduler \<Rightarrow> handler \<Rightarrow> (nat \<times> lcb_cmd) list \<Rightarrow> ('i cb_client, batch_command) act" where
  "batch_run L scheduler resp cmds =
     bnd (BatchCommand_make L) (\<lambda>b.
     bnd (batch_adds scheduler resp cmds b) (\<lambda>b.
     bnd (BatchCommand_submit L b) (\<lambda>b.
     bnd (Client_wait L) (\<lambda>_. ret b))))"

fun callback_adds :: "'i scheduler \<Rightarrow> nat \<Rightarrow> lcb_cmd list \<Rightarrow> batch_context \<Rightarrow> ('i cb_client, batch_context) act" where
  "callback_adds scheduler a [] x = ret x"
| "callback_adds scheduler a (cmd # cmds) x =
     bnd (CallbackCommand_add scheduler a cmd x) (\<lambda>(st, x1). callback_adds scheduler a cmds x1)"

definition callback_run :: "'i lcb \<Rightarrow> 'i scheduler \<Rightarrow> callee \<Rightarrow> nat \<Rightarrow> lcb_cmd list \<Rightarrow> ('i cb_client, batch_context) act" where
  "callback_run L scheduler k a cmds =
     bnd (CallbackCommand_make L k a) (\<lambda>x.
     bnd (callback_adds scheduler a cmds x) (\<lambda>x.
     bnd (CallbackCommand_submit L x) (\<lambda>x.
     bnd (Client_wait L) (\<lambda>_. ret x))))"

section \<open>What a wait delivers\<close>

text \<open>The library has these responses to deliver, in this order, and then none.\<close>

fun pending :: "'i lcb \<Rightarrow> 'i \<Rightarrow> lcb_resp list \<Rightarrow> bool" where
  "pending L i [] \<longleftrightarrow> lcb_next L i = None"
| "pending L i (r # rs) \<longleftrightarrow> (case lcb_next L i of None \<Rightarrow> False | Some (x, j) \<Rightarrow> x = r \<and> pending L j rs)"

text \<open>All commands are scheduled.\<close>

fun scheduled :: "'i scheduler \<Rightarrow> 'i \<Rightarrow> (nat \<times> lcb_cmd) list \<Rightarrow> 'i option" where
  "scheduled scheduler i [] = Some i"
| "scheduled scheduler i ((a, cmd) # cmds) =
     (case scheduler i a cmd of (e, j) \<Rightarrow> if Status_success e then scheduled scheduler j cmds else None)"

text \<open>
  With this count of outstanding responses and \<open>n\<close> of them pending, so many are handled: the loop is
  broken out of when the count is zero after a response, which it may never be.
\<close>

definition handled :: "64 word \<Rightarrow> nat \<Rightarrow> nat" where
  "handled remaining n = (if 0 < unat remaining \<and> unat remaining \<le> n then unat remaining else n)"

text \<open>The handlers that only take over what comes: those of stores, and callbacks for them.\<close>

fun plain_handler :: "handler \<Rightarrow> bool" where
  "plain_handler (H_base g) = True"
| "plain_handler (H_callback k calls) = (k = K_base)"
| "plain_handler h = False"

fun answered :: "lcb_resp \<Rightarrow> handler \<Rightarrow> handler" where
  "answered r (H_base g) = H_base (Response_handle_response r g)"
| "answered r (H_callback k calls) = H_callback k (calls @ [(lr_key r, lr_rc r, None)])"
| "answered r h = h"

definition answered_by :: "lcb_resp \<Rightarrow> (nat \<rightharpoonup> handler) \<Rightarrow> (nat \<rightharpoonup> handler)" where
  "answered_by r hs = hs(lr_cookie r := map_option (answered r) (hs (lr_cookie r)))"

lemma answered_plain:
  assumes "plain_handler h" "lr_body r = B_plain"
  shows "handle_response H r h m = Inr (answered r h, m)" "plain_handler (answered r h)" "handler_done (answered r h)"
  using assms by (cases h; simp add: CallbackCommand_handle_response_def)+

lemma handled_Suc:
  assumes "Suc n < 2 ^ 64"
  shows "handled r (Suc n) = (if r = 1 then 1 else Suc (handled (r - 1) n))"
proof (cases "r = 0")
  case True
  have "unat (- 1 :: 64 word) = 2 ^ 64 - 1" by (simp add: unsigned_minus_1_eq_mask mask_eq_exp_minus_1)
  then show ?thesis using assms True by (simp add: handled_def)
next
  case False
  then have r: "unat (r - 1) = unat r - 1" "0 < unat r" by (simp_all add: unat_minus_one unat_gt_0)
  have "r = 1 \<longleftrightarrow> unat r = 1" by (metis unat_1 unsigned_word_eqI)
  then show ?thesis using r by (auto simp: handled_def)
qed

text \<open>After single commands, as many as \<open>k\<close>, each of which took one off a count it had not added to.\<close>

lemma handled_after:
  assumes "n < 2 ^ 64" "k < 2 ^ 64"
  shows "handled (of_nat n - of_nat k) n = (if 0 < k \<and> k < n then n - k else n)"
proof -
  have u: "unat (of_nat n :: 64 word) = n" "unat (of_nat k :: 64 word) = k"
    using assms by (simp_all add: unsigned_of_nat take_bit_nat_eq_self)
  show ?thesis
  proof (cases "k \<le> n")
    case True
    then have "of_nat k \<le> (of_nat n :: 64 word)" using u by (simp add: word_le_nat_alt)
    then have "unat (of_nat n - of_nat k :: 64 word) = n - k" using u by (simp add: unat_sub)
    then show ?thesis using True by (auto simp: handled_def)
  next
    case False
    have "unat (of_nat n - of_nat k :: 64 word) = n + 2 ^ 64 - k"
      using False u assms by (simp add: unat_sub_if_size word_size word_le_nat_alt)
    then show ?thesis using False assms by (auto simp: handled_def)
  qed
qed

lemma wait_pending:
  assumes "pending L (cbc_instance c) rs" "cbc_callback c" "length rs < 2 ^ 64"
    and "\<forall>r \<in> set rs. lr_body r = B_plain \<and> (\<exists>h. cbc_handlers c (lr_cookie r) = Some h \<and> plain_handler h)"
  shows "\<exists>i. wait_loop L c = Some (Inr (), c\<lparr>cbc_instance := i, cbc_remaining := cbc_remaining c - of_nat (handled (cbc_remaining c) (length rs)),
      cbc_handlers := fold answered_by (take (handled (cbc_remaining c) (length rs)) rs) (cbc_handlers c)\<rparr>)
    \<and> pending L i (drop (handled (cbc_remaining c) (length rs)) rs)"
  using assms
proof (induction rs arbitrary: c)
  case Nil
  then have "wait_loop L c = Some (Inr (), c)" by (subst wait_loop.simps) simp
  then show ?case using Nil.prems(1) by (cases c) (auto simp: handled_def)
next
  case (Cons r rs)
  obtain j where j: "lcb_next L (cbc_instance c) = Some (r, j)" "pending L j rs"
    using Cons.prems(1) by (auto split: option.splits)
  obtain h where h: "cbc_handlers c (lr_cookie r) = Some h" "plain_handler h" "lr_body r = B_plain" using Cons.prems(4) by auto
  let ?c1 = "c\<lparr>cbc_instance := j, cbc_remaining := cbc_remaining c - 1, cbc_handlers := answered_by r (cbc_handlers c)\<rparr>"
  have step: "Client_dispatch L r (c\<lparr>cbc_instance := j\<rparr>) = (Inr (cbc_remaining c = 1), ?c1)"
    using h answered_plain [OF h(2,3)] by (cases c) (simp add: Client_dispatch_def lend_def take_back_def answered_by_def Let_def)
  have n: "handled (cbc_remaining c) (length (r # rs)) = (if cbc_remaining c = 1 then 1 else Suc (handled (cbc_remaining c - 1) (length rs)))"
    using handled_Suc [of "length rs"] Cons.prems(3) by simp
  show ?case
  proof (cases "cbc_remaining c = 1")
    case True
    then have "wait_loop L c = Some (Inr (), ?c1)"
      using j(1) Cons.prems(2) step by (subst wait_loop.simps) (simp add: wait_ends_def Let_def)
    then show ?thesis using j(2) True unfolding n by (intro exI [of _ j]) simp
  next
    case False
    then have loop: "wait_loop L c = wait_loop L ?c1"
      using j(1) Cons.prems(2) step by (subst wait_loop.simps) (simp add: wait_ends_def Let_def)
    have "\<forall>r' \<in> set rs. lr_body r' = B_plain \<and> (\<exists>h. cbc_handlers ?c1 (lr_cookie r') = Some h \<and> plain_handler h)"
      using Cons.prems(4) h answered_plain(2) [OF h(2,3)] by (auto simp: answered_by_def)
    from Cons.IH [of ?c1, OF _ _ _ this] j(2) Cons.prems(2,3)
    obtain i where "wait_loop L ?c1 = Some (Inr (), ?c1\<lparr>cbc_instance := i,
        cbc_remaining := cbc_remaining ?c1 - of_nat (handled (cbc_remaining ?c1) (length rs)),
        cbc_handlers := fold answered_by (take (handled (cbc_remaining ?c1) (length rs)) rs) (cbc_handlers ?c1)\<rparr>)"
      "pending L i (drop (handled (cbc_remaining ?c1) (length rs)) rs)" by auto
    then show ?thesis using False unfolding n loop by (intro exI [of _ i]) (simp add: algebra_simps)
  qed
qed

lemma answered_other:
  "a \<notin> lr_cookie ` set rs \<Longrightarrow> fold answered_by rs hs a = hs a"
proof (induction rs arbitrary: hs)
  case (Cons r rs)
  then show ?case by (simp add: answered_by_def)
qed simp

lemma answered_own:
  "distinct (map lr_cookie rs) \<Longrightarrow> r \<in> set rs \<Longrightarrow> fold answered_by rs hs (lr_cookie r) = map_option (answered r) (hs (lr_cookie r))"
proof (induction rs arbitrary: hs)
  case (Cons x rs)
  show ?case
  proof (cases "r = x")
    case True
    have "answered_by x hs (lr_cookie x) = map_option (answered x) (hs (lr_cookie x))" by (simp add: answered_by_def)
    then show ?thesis using Cons.prems(1) True answered_other [of "lr_cookie x" rs "answered_by x hs"] by simp
  next
    case False
    then have rs: "r \<in> set rs" using Cons.prems(2) by simp
    then have "lr_cookie r \<in> lr_cookie ` set rs" by (rule imageI)
    then have "lr_cookie r \<noteq> lr_cookie x" using Cons.prems(1) by (metis distinct.simps(2) list.simps(9) list.set_map)
    then have "answered_by x hs (lr_cookie r) = hs (lr_cookie r)" by (simp add: answered_by_def)
    then show ?thesis using Cons.IH [of "answered_by x hs"] Cons.prems(1) rs by simp
  qed
qed simp

lemma batch_adds_run:
  assumes "scheduled scheduler (cbc_instance c) cmds = Some j"
  shows "batch_adds scheduler resp cmds b c =
    (Inr (b\<lparr>bc_ctx := (bc_ctx b)\<lparr>bx_remaining := bx_remaining (bc_ctx b) + of_nat (length cmds)\<rparr>, bc_resplist := bc_resplist b @ map fst cmds\<rparr>),
     c\<lparr>cbc_instance := j, cbc_handlers := \<lambda>a. if a \<in> fst ` set cmds then Some resp else cbc_handlers c a\<rparr>)"
  using assms
proof (induction cmds arbitrary: b c)
  case (Cons x cmds)
  obtain a cmd where x: "x = (a, cmd)" by (cases x)
  obtain i where i: "scheduler (cbc_instance c) a cmd = (LCB_SUCCESS, i)" "scheduled scheduler i cmds = Some j"
    using Cons.prems x by (auto simp: Status_success_def split: prod.splits if_splits)
  let ?c = "c\<lparr>cbc_instance := i, cbc_handlers := (cbc_handlers c)(a \<mapsto> resp)\<rparr>"
  let ?b = "b\<lparr>bc_ctx := (bc_ctx b)\<lparr>bx_remaining := bx_remaining (bc_ctx b) + 1\<rparr>, bc_resplist := bc_resplist b @ [a]\<rparr>"
  have "BatchCommand_add scheduler resp a cmd b c = (Inr (LCB_SUCCESS, ?b), ?c)"
    using i(1) by (simp add: BatchCommand_add_def handler_new_def Context_add_def Client_schedule_def act_simps on_instance_def Status_success_def)
  moreover have "batch_adds scheduler resp cmds ?b ?c =
      (Inr (?b\<lparr>bc_ctx := (bc_ctx ?b)\<lparr>bx_remaining := bx_remaining (bc_ctx ?b) + of_nat (length cmds)\<rparr>, bc_resplist := bc_resplist ?b @ map fst cmds\<rparr>),
       ?c\<lparr>cbc_instance := j, cbc_handlers := \<lambda>a. if a \<in> fst ` set cmds then Some resp else cbc_handlers ?c a\<rparr>)"
    using Cons.IH [of ?c ?b] i(2) by simp
  moreover have "(\<lambda>k. if k \<in> fst ` set cmds then Some resp else cbc_handlers ?c k) =
      (\<lambda>k. if k \<in> fst ` set (x # cmds) then Some resp else cbc_handlers c k)" by (auto simp: x fun_eq_iff)
  ultimately show ?case by (simp add: x bnd_run algebra_simps)
qed (simp add: ret_run)

text \<open>The status that a response has.\<close>

definition status_at :: "nat \<Rightarrow> 'i cb_client \<Rightarrow> lcb_error res" where
  "status_at a c = rbind (determinate (cbc_handlers c a)) handler_status"

lemma batch_run_waits:
  assumes "scheduled scheduler (lcb_sched_enter L (cbc_instance c)) cmds = Some j" "pending L (lcb_sched_leave L j) rs"
    and "map lr_cookie rs = map fst cmds" "distinct (map fst cmds)" "\<forall>r \<in> set rs. lr_body r = B_plain"
    and "cbc_callback c" "length cmds < 2 ^ 64"
  defines "m \<equiv> handled (cbc_remaining c + of_nat (length cmds)) (length cmds)"
  shows "\<exists>b c1. batch_run L scheduler (H_base Response_make) cmds c = (Inr b, c1) \<and> bc_resplist b = map fst cmds
    \<and> (\<forall>i < length cmds. status_at (fst (cmds ! i)) c1 = (if i < m then Inr (lr_rc (rs ! i)) else Inl Undefined))
    \<and> pending L (cbc_instance c1) (drop m rs) \<and> cbc_remaining c1 = cbc_remaining c + of_nat (length cmds) - of_nat m"
proof -
  let ?resp = "H_base Response_make"
  let ?hs = "\<lambda>a. if a \<in> fst ` set cmds then Some ?resp else cbc_handlers c a"
  let ?c = "c\<lparr>cbc_handlers := ?hs, cbc_remaining := cbc_remaining c + of_nat (length cmds), cbc_instance := lcb_sched_leave L j\<rparr>"
  let ?b = "\<lparr>bc_ctx = \<lparr>bx_entered = False, bx_remaining = of_nat (length cmds)\<rparr>, bc_resplist = map fst cmds\<rparr>"
  have len: "length rs = length cmds" using assms(3) by (metis length_map)
  have cookies: "lr_cookie ` set rs = fst ` set cmds" using assms(3) by (metis list.set_map)
  then have base: "\<forall>r \<in> set rs. ?hs (lr_cookie r) = Some ?resp" by auto
  obtain i where wait: "wait_loop L ?c = Some (Inr (), ?c\<lparr>cbc_instance := i, cbc_remaining := cbc_remaining ?c - of_nat m,
      cbc_handlers := fold answered_by (take m rs) ?hs\<rparr>)" "pending L i (drop m rs)"
    using wait_pending [of L ?c rs] assms(2,5,6,7) base len unfolding m_def by auto
  let ?c1 = "?c\<lparr>cbc_instance := i, cbc_remaining := cbc_remaining ?c - of_nat m, cbc_handlers := fold answered_by (take m rs) ?hs\<rparr>"
  have "batch_adds scheduler ?resp cmds \<lparr>bc_ctx = \<lparr>bx_entered = True, bx_remaining = 0\<rparr>, bc_resplist = []\<rparr>
      (c\<lparr>cbc_instance := lcb_sched_enter L (cbc_instance c)\<rparr>) =
    (Inr \<lparr>bc_ctx = \<lparr>bx_entered = True, bx_remaining = of_nat (length cmds)\<rparr>, bc_resplist = map fst cmds\<rparr>,
     c\<lparr>cbc_instance := j, cbc_handlers := ?hs\<rparr>)"
    using batch_adds_run [where c = "c\<lparr>cbc_instance := lcb_sched_enter L (cbc_instance c)\<rparr>"] assms(1) by (simp cong: if_cong)
  then have run: "batch_run L scheduler ?resp cmds c = (Inr ?b, ?c1)"
    using wait(1) by (simp add: batch_run_def BatchCommand_make_def Context_make_def Context_reset_def BatchCommand_submit_def
        Context_submit_def act_simps on_instance_def Client_wait_def)
  have "status_at (fst (cmds ! k)) ?c1 = (if k < m then Inr (lr_rc (rs ! k)) else Inl Undefined)" if k: "k < length cmds" for k
  proof -
    have cookie: "fst (cmds ! k) = lr_cookie (rs ! k)" using assms(3) k len by (metis nth_map)
    have some: "\<forall>r \<in> set (take m rs). ?hs (lr_cookie r) = Some ?resp" using base by (meson in_set_takeD)
    have dist: "distinct (map lr_cookie (take m rs))" using assms(3,4) by (metis distinct_take take_map)
    show ?thesis
    proof (cases "k < m")
      case True
      then have "rs ! k \<in> set (take m rs)" using k len by (metis length_take min_less_iff_conj nth_mem nth_take)
      from answered_own [where hs = ?hs, OF dist this] some [rule_format, OF this] True show ?thesis
        unfolding status_at_def cookie by (simp add: determinate_def Response_status_def Response_handle_response_def)
    next
      case False
      have "lr_cookie (rs ! k) \<notin> lr_cookie ` set (take m rs)"
      proof
        assume "lr_cookie (rs ! k) \<in> lr_cookie ` set (take m rs)"
        then obtain n where "n < m" "n < length rs" "map lr_cookie rs ! k = map lr_cookie rs ! n"
          using k len by (auto simp: in_set_conv_nth)
        then show False using nth_eq_iff_index_eq [of "map lr_cookie rs" k n] assms(3,4) k len False by simp
      qed
      moreover have "rs ! k \<in> set rs" using k len by simp
      ultimately show ?thesis using answered_other [of "lr_cookie (rs ! k)" "take m rs"] base False
        unfolding status_at_def cookie by (simp add: determinate_def Response_status_def Response_make_def)
    qed
  qed
  then show ?thesis using run wait(2) by (intro exI [of _ ?b] exI [of _ ?c1]) simp
qed

text \<open>
  C39: A batch after single commands is not waited for. Each command that was run alone left the
  count of outstanding responses one lower than before, so a batch of \<open>n\<close> commands after \<open>k\<close> of them,
  \<open>k\<close> being less than \<open>n\<close>, is broken off after \<open>n - k\<close> responses: the others have an
  indeterminate status, and their callbacks are made in the next wait, when the batch may be gone.
  On a fresh client, and after at least as many single commands, all the responses are delivered.
\<close>

theorem batch_broken_off:
  assumes "scheduled scheduler (lcb_sched_enter L (cbc_instance c)) cmds = Some j" "pending L (lcb_sched_leave L j) rs"
    and "map lr_cookie rs = map fst cmds" "distinct (map fst cmds)" "\<forall>r \<in> set rs. lr_body r = B_plain"
    and "cbc_callback c" "length cmds < 2 ^ 64" "cbc_remaining c = - of_nat k" "k < 2 ^ 64"
  shows "let m = (if 0 < k \<and> k < length cmds then length cmds - k else length cmds) in
    \<exists>b c1. batch_run L scheduler (H_base Response_make) cmds c = (Inr b, c1) \<and> bc_resplist b = map fst cmds
      \<and> (\<forall>i < length cmds. status_at (fst (cmds ! i)) c1 = (if i < m then Inr (lr_rc (rs ! i)) else Inl Undefined))
      \<and> pending L (cbc_instance c1) (drop m rs)"
proof -
  have m: "handled (cbc_remaining c + of_nat (length cmds)) (length cmds) = (if 0 < k \<and> k < length cmds then length cmds - k else length cmds)"
    using handled_after [OF assms(7,9)] assms(8) by simp
  from batch_run_waits [OF assms(1-7)] show ?thesis unfolding m Let_def by blast
qed

text \<open>A batch of two stores on the sample after a single one: only one of them is waited for.\<close>

lemma batch_broken_off_witness:
  "\<exists>c1 b c2. client_cmd_put sample_lcb 5 ''k'' ''v'' \<lparr>cbc_instance = (Map.empty, []), cbc_remaining = 0, cbc_handlers = Map.empty,
        cbc_memory = no_memory, cbc_callback = True\<rparr> = (Inr (), c1)
    \<and> batch_run sample_lcb (lcb_store3 sample_lcb) (H_base Response_make) [(6, StoreCommand LCB_SET ''a'' ''1''), (7, StoreCommand LCB_SET ''b'' ''2'')] c1 = (Inr b, c2)
    \<and> bc_resplist b = [6, 7] \<and> status_at 6 c2 = Inr LCB_SUCCESS \<and> status_at 7 c2 = Inl Undefined"
proof -
  let ?c = "\<lparr>cbc_instance = (Map.empty, []), cbc_remaining = 0, cbc_handlers = Map.empty, cbc_memory = no_memory, cbc_callback = True\<rparr> :: sample_instance cb_client"
  let ?c1 = "\<lparr>cbc_instance = ([''k'' \<mapsto> ''v''], []), cbc_remaining = - 1, cbc_handlers = Map.empty, cbc_memory = no_memory, cbc_callback = True\<rparr> :: sample_instance cb_client"
  let ?cmds = "[(6 :: nat, StoreCommand LCB_SET ''a'' ''1''), (7, StoreCommand LCB_SET ''b'' ''2'')]"
  let ?r = "\<lambda>(a :: nat) cmd. sample_response a cmd LCB_SUCCESS B_plain"
  let ?rs = "[?r 6 (snd (?cmds ! 0)), ?r 7 (snd (?cmds ! 1))]"
  note defs = sample_lcb_def sample_store3_def sample_response_def
  have put: "client_cmd_put sample_lcb 5 ''k'' ''v'' ?c = (Inr (), ?c1)"
  proof -
    have "Client_run sample_lcb (lcb_store3 sample_lcb) 5 (StoreCommand LCB_SET ''k'' ''v'') (H_base Response_make) ?c =
        (Inr LCB_SUCCESS, ?c\<lparr>cbc_instance := ([''k'' \<mapsto> ''v''], []),
           cbc_handlers := [5 \<mapsto> handler_set_key ''k'' (H_base (Response_handle_response (?r 5 (StoreCommand LCB_SET ''k'' ''v'')) Response_make))],
           cbc_memory := no_memory, cbc_remaining := cbc_remaining ?c - 1\<rparr>)"
      using Client_run_once [where scheduler = "lcb_store3 sample_lcb" and L = sample_lcb and c = ?c and a = 5 and cmd = "StoreCommand LCB_SET ''k'' ''v''"
          and j = "([''k'' \<mapsto> ''v''], [?r 5 (StoreCommand LCB_SET ''k'' ''v'')])" and r = "?r 5 (StoreCommand LCB_SET ''k'' ''v'')"
          and ?j1.0 = "([''k'' \<mapsto> ''v''], [])" and resp = "H_base Response_make" and ?m1.0 = no_memory and ?m2.0 = no_memory
          and ?h1.0 = "H_base (Response_handle_response (?r 5 (StoreCommand LCB_SET ''k'' ''v'')) Response_make)"]
      by (simp add: defs StoreCommand_def StoreCommand_mode_def StoreCommand_value_def Command_key_def lend_def take_back_def)
    then show ?thesis
      by (simp add: client_cmd_put_def Client_upsert_def Client_store_def act_simps response_at_def determinate_def Response_status_def
          Response_set_key_def Response_handle_response_def Status_success_def response_end_def defs)
  qed
  have lib: "scheduled (lcb_store3 sample_lcb) (lcb_sched_enter sample_lcb (cbc_instance ?c1)) ?cmds =
      Some ([''k'' \<mapsto> ''v'', ''a'' \<mapsto> ''1'', ''b'' \<mapsto> ''2''], ?rs)"
    "pending sample_lcb (lcb_sched_leave sample_lcb ([''k'' \<mapsto> ''v'', ''a'' \<mapsto> ''1'', ''b'' \<mapsto> ''2''], ?rs)) ?rs"
    by (simp_all add: defs Status_success_def StoreCommand_def StoreCommand_mode_def StoreCommand_value_def Command_key_def)
  have rs: "map lr_cookie ?rs = map fst ?cmds" "distinct (map fst ?cmds)" "\<forall>r \<in> set ?rs. lr_body r = B_plain"
    "cbc_callback ?c1" "length ?cmds < 2 ^ 64" "cbc_remaining ?c1 = - of_nat 1" "(1 :: nat) < 2 ^ 64"
    by (simp_all add: sample_response_def)
  from batch_broken_off [OF lib rs] obtain b c2 where b: "batch_run sample_lcb (lcb_store3 sample_lcb) (H_base Response_make) ?cmds ?c1 = (Inr b, c2)"
    "bc_resplist b = map fst ?cmds" "\<forall>i < 2. status_at (fst (?cmds ! i)) c2 = (if i < 1 then Inr (lr_rc (?rs ! i)) else Inl Undefined)"
    by (auto simp: Let_def numeral_2_eq_2)
  have "status_at 6 c2 = Inr LCB_SUCCESS" "status_at 7 c2 = Inl Undefined"
    using b(3) [rule_format, of 0] b(3) [rule_format, of 1] by (simp_all add: sample_response_def)
  then show ?thesis using put b(1,2) by auto
qed

text \<open>The calls that a \<^verbatim>\<open>CallbackCommand\<close> makes until the wait is over.\<close>

lemma callback_adds_run:
  assumes "scheduled scheduler (cbc_instance c) (map (Pair a) cmds) = Some j"
  shows "callback_adds scheduler a cmds x c = (Inr (x\<lparr>bx_remaining := bx_remaining x + of_nat (length cmds)\<rparr>), c\<lparr>cbc_instance := j\<rparr>)"
  using assms
proof (induction cmds arbitrary: x c)
  case (Cons cmd cmds)
  obtain i where i: "scheduler (cbc_instance c) a cmd = (LCB_SUCCESS, i)" "scheduled scheduler i (map (Pair a) cmds) = Some j"
    using Cons.prems by (auto simp: Status_success_def split: prod.splits if_splits)
  then show ?case
    using Cons.IH [of "c\<lparr>cbc_instance := i\<rparr>" "x\<lparr>bx_remaining := bx_remaining x + 1\<rparr>"]
    by (simp add: CallbackCommand_add_def Context_add_def Client_schedule_def act_simps on_instance_def Status_success_def algebra_simps)
qed (simp add: ret_run)

lemma answered_calls:
  "\<forall>r \<in> set rs. lr_cookie r = a \<Longrightarrow> hs a = Some (H_callback k calls) \<Longrightarrow>
   fold answered_by rs hs a = Some (H_callback k (calls @ map (\<lambda>r. (lr_key r, lr_rc r, None)) rs))"
  by (induction rs arbitrary: hs calls) (auto simp: answered_by_def)

lemma callback_run_calls:
  assumes "scheduled scheduler (lcb_sched_enter L (cbc_instance c)) (map (Pair a) cmds) = Some j" "pending L (lcb_sched_leave L j) rs"
    and "length rs = length cmds" "\<forall>r \<in> set rs. lr_cookie r = a \<and> lr_body r = B_plain" "cbc_callback c" "length cmds < 2 ^ 64"
  defines "m \<equiv> handled (cbc_remaining c + of_nat (length cmds)) (length cmds)"
  shows "\<exists>x c1. callback_run L scheduler K_base a cmds c = (Inr x, c1)
    \<and> cbc_handlers c1 a = Some (H_callback K_base (map (\<lambda>r. (lr_key r, lr_rc r, None)) (take m rs)))"
proof -
  let ?c = "c\<lparr>cbc_handlers := (cbc_handlers c)(a \<mapsto> H_callback K_base []), cbc_remaining := cbc_remaining c + of_nat (length cmds),
      cbc_instance := lcb_sched_leave L j\<rparr>"
  obtain i where wait: "wait_loop L ?c = Some (Inr (), ?c\<lparr>cbc_instance := i, cbc_remaining := cbc_remaining ?c - of_nat m,
      cbc_handlers := fold answered_by (take m rs) (cbc_handlers ?c)\<rparr>)"
    using wait_pending [of L ?c rs] assms(2-6) unfolding m_def by auto
  have "callback_run L scheduler K_base a cmds c = (Inr \<lparr>bx_entered = False, bx_remaining = of_nat (length cmds)\<rparr>,
      ?c\<lparr>cbc_instance := i, cbc_remaining := cbc_remaining ?c - of_nat m, cbc_handlers := fold answered_by (take m rs) (cbc_handlers ?c)\<rparr>)"
    using callback_adds_run [where c = "c\<lparr>cbc_handlers := (cbc_handlers c)(a \<mapsto> H_callback K_base []), cbc_instance := lcb_sched_enter L (cbc_instance c)\<rparr>"
        and x = "\<lparr>bx_entered = True, bx_remaining = 0\<rparr>"] assms(1) wait
    by (simp add: callback_run_def CallbackCommand_make_def handler_new_def Context_make_def Context_reset_def CallbackCommand_submit_def
        Context_submit_def act_simps on_instance_def Client_wait_def)
  moreover have "fold answered_by (take m rs) (cbc_handlers ?c) a = Some (H_callback K_base (map (\<lambda>r. (lr_key r, lr_rc r, None)) (take m rs)))"
    using answered_calls [of "take m rs" a "cbc_handlers ?c" K_base "[]"] assms(4) by (auto dest: in_set_takeD)
  ultimately show ?thesis by auto
qed

text \<open>A callback that comes when its response is gone.\<close>

lemma late_callback_undefined:
  assumes "pending L (cbc_instance c) (r # rs)" "cbc_callback c" "cbc_handlers c (lr_cookie r) = None"
  shows "fst (Client_wait L c) = Inl Undefined"
proof -
  obtain j where "lcb_next L (cbc_instance c) = Some (r, j)" using assms(1) by (auto split: option.splits)
  moreover have "Client_dispatch L r (c\<lparr>cbc_instance := j\<rparr>) = (Inl Undefined, c\<lparr>cbc_instance := j\<rparr>)"
    using assms(3) by (simp add: Client_dispatch_def)
  ultimately have "wait_loop L c = Some (Inl Undefined, c\<lparr>cbc_instance := j\<rparr>)"
    using assms(2) by (subst wait_loop.simps) (simp add: wait_ends_def Let_def)
  then show ?thesis by (simp add: Client_wait_def)
qed

section \<open>Durability\<close>

text \<open>\<^verbatim>\<open>DurabilityOptions\<close>, with the enumerations \<^verbatim>\<open>PersistTo\<close> and \<^verbatim>\<open>ReplicateTo\<close>.\<close>

datatype persist_level = Persist_none | Persist_master | Persist_two | Persist_three | Persist_four

datatype replicate_level = Replicate_none | Replicate_one | Replicate_two | Replicate_three

fun persist_code :: "persist_level \<Rightarrow> 16 word" where
  "persist_code Persist_none = 0"
| "persist_code Persist_master = 1"
| "persist_code Persist_two = 2"
| "persist_code Persist_three = 3"
| "persist_code Persist_four = 4"

fun replicate_code :: "replicate_level \<Rightarrow> 16 word" where
  "replicate_code Replicate_none = 0"
| "replicate_code Replicate_one = 1"
| "replicate_code Replicate_two = 2"
| "replicate_code Replicate_three = 3"

record durability =
  dur_persist_to :: "16 word"
  dur_replicate_to :: "16 word"
  dur_cap_max :: bool

definition DurabilityOptions_persist_to :: "persist_level \<Rightarrow> durability \<Rightarrow> durability" where
  "DurabilityOptions_persist_to n d = d\<lparr>dur_persist_to := persist_code n\<rparr>"

definition DurabilityOptions_replicate_to :: "replicate_level \<Rightarrow> durability \<Rightarrow> durability" where
  "DurabilityOptions_replicate_to n d = d\<lparr>dur_replicate_to := replicate_code n\<rparr>"

definition DurabilityOptions_cap_max :: "bool \<Rightarrow> durability \<Rightarrow> durability" where
  "DurabilityOptions_cap_max enabled d = d\<lparr>dur_cap_max := enabled\<rparr>"

definition DurabilityOptions_make :: "persist_level \<Rightarrow> replicate_level \<Rightarrow> bool \<Rightarrow> durability" where
  "DurabilityOptions_make p r cap =
     DurabilityOptions_cap_max cap (DurabilityOptions_replicate_to r (DurabilityOptions_persist_to p
       \<lparr>dur_persist_to = 0, dur_replicate_to = 0, dur_cap_max = False\<rparr>))"

definition DurabilityOptions_enabled :: "durability \<Rightarrow> bool" where
  "DurabilityOptions_enabled d \<longleftrightarrow> dur_persist_to d \<noteq> 0 \<or> dur_replicate_to d \<noteq> 0"

text \<open>\<^verbatim>\<open>m_duropts\<close> of a client, which nothing sets after the constructor.\<close>

definition m_duropts :: durability where
  "m_duropts = DurabilityOptions_make Persist_none Replicate_none True"

record endure_command =
  ec_cmd :: lcb_cmd
  ec_options :: "durability option"

definition EndureCommand_make :: "string \<Rightarrow> 64 word \<Rightarrow> endure_command" where
  "EndureCommand_make k casval = \<lparr>ec_cmd = Command_cas casval (Command_key k Command_make), ec_options = None\<rparr>"

definition EndureCommand_options :: "durability \<Rightarrow> endure_command \<Rightarrow> endure_command" where
  "EndureCommand_options d c = c\<lparr>ec_options := Some d\<rparr>"

section \<open>Contexts of several commands\<close>

text \<open>
  The functions of \<^verbatim>\<open>lcb_MULTICMD_CTX\<close>, which is a handle of the library; the first may fail and
  give no handle.
\<close>

record ('i, 'm) lcb_multi =
  lm_endure_ctxnew :: "'i \<Rightarrow> durability \<Rightarrow> (lcb_error \<times> 'm option) \<times> 'i"
  lm_observe_ctxnew :: "'i \<Rightarrow> 'm option \<times> 'i"
  lm_addcmd :: "'i \<Rightarrow> 'm \<Rightarrow> lcb_cmd \<Rightarrow> lcb_error \<times> 'i"
  lm_done :: "'i \<Rightarrow> 'm \<Rightarrow> nat \<Rightarrow> lcb_error \<times> 'i"
  lm_fail :: "'i \<Rightarrow> 'm \<Rightarrow> 'i"

text \<open>\<^verbatim>\<open>MultiContextT\<close>: the handle, the cookie, and whether there is a client.\<close>

record 'm multi_context =
  mc_inner :: "'m option"
  mc_cookie :: "nat option"
  mc_client :: bool

definition MultiContext_null :: "'m multi_context" where
  "MultiContext_null = \<lparr>mc_inner = None, mc_cookie = None, mc_client = False\<rparr>"

definition MultiContext_make :: "'m option \<Rightarrow> nat \<Rightarrow> 'm multi_context" where
  "MultiContext_make m a = \<lparr>mc_inner = m, mc_cookie = Some a, mc_client = True\<rparr>"

text \<open>The assignment from another one asserts that this one has no handle and takes the other's.\<close>

definition MultiContext_move :: "'m multi_context \<Rightarrow> 'm multi_context \<Rightarrow> ('m multi_context \<times> 'm multi_context) res" where
  "MultiContext_move this other =
     (if mc_inner this \<noteq> None then Inl Undefined else Inr (other, other\<lparr>mc_inner := None\<rparr>))"

definition on_library :: "('i \<Rightarrow> 'a \<times> 'i) \<Rightarrow> ('i cb_client, 'a) act" where
  "on_library f = (\<lambda>c. (Inr (fst (f (cbc_instance c))), on_instance (\<lambda>i. snd (f i)) c))"

definition MultiContext_add :: "('i, 'm) lcb_multi \<Rightarrow> lcb_cmd \<Rightarrow> 'm multi_context \<Rightarrow> ('i cb_client, lcb_error) act" where
  "MultiContext_add M cmd x = (case mc_inner x of
     None \<Rightarrow> raise Undefined
   | Some m \<Rightarrow> on_library (\<lambda>i. lm_addcmd M i m cmd))"

definition MultiContext_done :: "'i lcb \<Rightarrow> ('i, 'm) lcb_multi \<Rightarrow> 'm multi_context \<Rightarrow> ('i cb_client, lcb_error \<times> 'm multi_context) act" where
  "MultiContext_done L M x =
     (if \<not> mc_client x then raise Undefined
      else bnd (modify (on_instance (lcb_sched_enter L))) (\<lambda>_.
       case (mc_inner x, mc_cookie x) of
         (Some m, Some a) \<Rightarrow>
           bnd (on_library (\<lambda>i. lm_done M i m a)) (\<lambda>s.
           bnd (modify (on_instance (if \<not> Status_success s then lcb_sched_fail L else lcb_sched_leave L))) (\<lambda>_.
           ret (s, x\<lparr>mc_inner := None\<rparr>)))
       | _ \<Rightarrow> raise Undefined))"

definition MultiContext_bail :: "('i, 'm) lcb_multi \<Rightarrow> 'm multi_context \<Rightarrow> ('i cb_client, 'm multi_context) act" where
  "MultiContext_bail M x = (case mc_inner x of
     None \<Rightarrow> ret x
   | Some m \<Rightarrow> bnd (modify (on_instance (\<lambda>i. lm_fail M i m))) (\<lambda>_. ret (x\<lparr>mc_inner := None\<rparr>)))"

definition mctx_endure :: "('i, 'm) lcb_multi \<Rightarrow> durability \<Rightarrow> nat \<Rightarrow> 'm multi_context \<Rightarrow> ('i cb_client, lcb_error \<times> 'm multi_context) act" where
  "mctx_endure M opts a out =
     bnd (on_library (\<lambda>i. lm_endure_ctxnew M i opts)) (\<lambda>(rv, mctx). case mctx of
       None \<Rightarrow> ret (rv, out)
     | Some m \<Rightarrow> bnd (lift_res (MultiContext_move out (MultiContext_make (Some m) a))) (\<lambda>(this, tmp). ret (rv, this)))"

definition mctx_observe :: "('i, 'm) lcb_multi \<Rightarrow> nat \<Rightarrow> 'm multi_context \<Rightarrow> ('i cb_client, lcb_error \<times> 'm multi_context) act" where
  "mctx_observe M a out =
     bnd (on_library (lm_observe_ctxnew M)) (\<lambda>mctx.
     bnd (lift_res (MultiContext_move out (MultiContext_make mctx a))) (\<lambda>(this, tmp). ret (LCB_SUCCESS, this)))"

section \<open>\<^verbatim>\<open>Client::endure\<close>\<close>

record 'm endure_context =
  ex_remaining :: "64 word"
  ex_ctx :: "'m multi_context"

definition EndureContext_make :: "('i, 'm) lcb_multi \<Rightarrow> durability \<Rightarrow> nat \<Rightarrow> ('i cb_client, lcb_error \<times> 'm endure_context) act" where
  "EndureContext_make M opts a =
     bnd (mctx_endure M opts a MultiContext_null) (\<lambda>(rc, x). ret (rc, \<lparr>ex_remaining = 0, ex_ctx = x\<rparr>))"

definition EndureContext_bail :: "('i, 'm) lcb_multi \<Rightarrow> 'm endure_context \<Rightarrow> ('i cb_client, 'm endure_context) act" where
  "EndureContext_bail M e = bnd (MultiContext_bail M (ex_ctx e)) (\<lambda>x. ret \<lparr>ex_remaining = 0, ex_ctx = x\<rparr>)"

definition EndureContext_add :: "('i, 'm) lcb_multi \<Rightarrow> endure_command \<Rightarrow> 'm endure_context \<Rightarrow> ('i cb_client, lcb_error \<times> 'm endure_context) act" where
  "EndureContext_add M cmd e =
     bnd (MultiContext_add M (ec_cmd cmd) (ex_ctx e)) (\<lambda>st.
       ret (st, if Status_success st then e\<lparr>ex_remaining := ex_remaining e + 1\<rparr> else e))"

definition EndureContext_submit :: "'i lcb \<Rightarrow> ('i, 'm) lcb_multi \<Rightarrow> 'm endure_context \<Rightarrow> ('i cb_client, lcb_error \<times> 'm endure_context) act" where
  "EndureContext_submit L M e =
     bnd (MultiContext_done L M (ex_ctx e)) (\<lambda>(st, x).
     bnd (if Status_success st then modify (\<lambda>c. c\<lparr>cbc_remaining := cbc_remaining c + ex_remaining e\<rparr>) else ret ()) (\<lambda>_.
     ret (st, e\<lparr>ex_ctx := x\<rparr>)))"

definition EndureContext_end :: "('i, 'm) lcb_multi \<Rightarrow> 'm endure_context \<Rightarrow> ('i cb_client, unit) act" where
  "EndureContext_end M e = bnd (MultiContext_bail M (ex_ctx e)) (\<lambda>_. ret ())"

text \<open>The response at \<open>a\<close> is returned, with a status put into it when the library was not reached.\<close>

definition endure_answer :: "nat \<Rightarrow> lcb_error option \<Rightarrow> ('i cb_client, endure_response) act" where
  "endure_answer a code =
     bnd (response_at a) (\<lambda>h.
     bnd (modify (\<lambda>c. c\<lparr>cbc_handlers := (cbc_handlers c)(a := None)\<rparr>)) (\<lambda>_.
     case h of
       H_endure r \<Rightarrow> ret (case code of None \<Rightarrow> r | Some e \<Rightarrow> Response_setcode r e)
     | _ \<Rightarrow> raise Undefined))"

definition Client_endure :: "'i lcb \<Rightarrow> ('i, 'm) lcb_multi \<Rightarrow> lcb_error \<Rightarrow> nat \<Rightarrow> endure_command \<Rightarrow> durability option \<Rightarrow> ('i cb_client, endure_response) act" where
  "Client_endure L M LCB_EINVAL a cmd options =
     bnd (handler_new a (H_endure EndureResponse_make)) (\<lambda>_.
     let options = (case options of None \<Rightarrow> m_duropts | Some d \<Rightarrow> d) in
     if \<not> DurabilityOptions_enabled options then endure_answer a (Some LCB_EINVAL)
     else
       bnd (EndureContext_make M options a) (\<lambda>(st, ctx).
       if \<not> Status_success st then bnd (EndureContext_end M ctx) (\<lambda>_. endure_answer a (Some st))
       else
         bnd (EndureContext_add M cmd ctx) (\<lambda>(st, ctx).
         if \<not> Status_success st then bnd (EndureContext_end M ctx) (\<lambda>_. endure_answer a (Some st))
         else
           bnd (EndureContext_submit L M ctx) (\<lambda>(st, ctx).
           if \<not> Status_success st then bnd (EndureContext_end M ctx) (\<lambda>_. endure_answer a (Some st))
           else bnd (Client_wait L) (\<lambda>_. bnd (EndureContext_end M ctx) (\<lambda>_. endure_answer a None))))))"

text \<open>
  Without options nothing is asked for: the options of the client are those of its constructor,
  which are not enabled.
\<close>

lemma endure_without_options:
  "\<exists>r c1. Client_endure L M LCB_EINVAL a cmd None c = (Inr r, c1) \<and> Response_status r = Inr LCB_EINVAL \<and> cbc_instance c1 = cbc_instance c"
  by (simp add: Client_endure_def handler_new_def m_duropts_def DurabilityOptions_make_def DurabilityOptions_cap_max_def
      DurabilityOptions_replicate_to_def DurabilityOptions_persist_to_def DurabilityOptions_enabled_def endure_answer_def
      response_at_def determinate_def act_simps Response_setcode_def Response_status_def)

text \<open>Otherwise the answer is the one the library gives; a status that is not a success takes its place.\<close>

lemma endure_answers:
  assumes "DurabilityOptions_enabled d" "lm_endure_ctxnew M (cbc_instance c) d = ((LCB_SUCCESS, Some m), i1)"
    and "lm_addcmd M i1 m (ec_cmd cmd) = (LCB_SUCCESS, i2)" "lm_done M (lcb_sched_enter L i2) m a = (LCB_SUCCESS, i3)"
    and "pending L (lcb_sched_leave L i3) [r]" "lr_cookie r = a" "lr_body r = B_endure info" "cbc_callback c"
  shows "\<exists>g c1. Client_endure L M LCB_EINVAL a cmd (Some d) c = (Inr g, c1) \<and> Response_status g = Inr (lr_rc r)
    \<and> EndureResponse_info id g = Inr info \<and> cbc_remaining c1 = cbc_remaining c"
proof -
  let ?c = "c\<lparr>cbc_handlers := (cbc_handlers c)(a \<mapsto> H_endure EndureResponse_make), cbc_instance := lcb_sched_leave L i3, cbc_remaining := cbc_remaining c + 1\<rparr>"
  let ?g = "(Response_handle_response r EndureResponse_make)\<lparr>er_info := Some info\<rparr>"
  obtain j where j: "lcb_next L (lcb_sched_leave L i3) = Some (r, j)" "lcb_next L j = None"
    using assms(5) by (auto split: option.splits)
  let ?c1 = "c\<lparr>cbc_handlers := (cbc_handlers c)(a \<mapsto> H_endure ?g), cbc_instance := j\<rparr>"
  have "Client_dispatch L r (?c\<lparr>cbc_instance := j\<rparr>) = (Inr (cbc_remaining c = 0), ?c1)"
    using assms(6,7) by (cases c) (simp add: Client_dispatch_def lend_def take_back_def Let_def)
  from wait_once [OF _ _ j(2) this] have wait: "Client_wait L ?c = (Inr (), ?c1)" using j(1) assms(8) by simp
  show ?thesis
    using assms(1-4) wait
    by (simp add: Client_endure_def handler_new_def EndureContext_make_def mctx_endure_def on_library_def MultiContext_move_def
        MultiContext_null_def MultiContext_make_def EndureContext_add_def MultiContext_add_def EndureContext_submit_def MultiContext_done_def
        EndureContext_end_def MultiContext_bail_def endure_answer_def response_at_def determinate_def act_simps on_instance_def
        Status_success_def EndureResponse_info_def Response_status_def Response_handle_response_def)
qed

lemma endure_refused:
  assumes "DurabilityOptions_enabled d" "lm_endure_ctxnew M (cbc_instance c) d = ((LCB_SUCCESS, Some m), i1)"
    and "lm_addcmd M i1 m (ec_cmd cmd) = (e, i2)" "e \<noteq> LCB_SUCCESS"
  shows "\<exists>g c1. Client_endure L M LCB_EINVAL a cmd (Some d) c = (Inr g, c1) \<and> Response_status g = Inr e
    \<and> cbc_instance c1 = lm_fail M i2 m \<and> cbc_remaining c1 = cbc_remaining c"
  using assms
  by (simp add: Client_endure_def handler_new_def EndureContext_make_def mctx_endure_def on_library_def MultiContext_move_def
      MultiContext_null_def MultiContext_make_def EndureContext_add_def MultiContext_add_def EndureContext_end_def MultiContext_bail_def
      endure_answer_def response_at_def determinate_def act_simps on_instance_def Status_success_def Response_status_def Response_setcode_def)

section \<open>Observe\<close>

definition add_flag :: "32 word \<Rightarrow> bool \<Rightarrow> 32 word \<Rightarrow> 32 word" where
  "add_flag flag enabled flags = (if enabled then or flags flag else and flags (not flag))"

text \<open>\<^verbatim>\<open>ObserveCommand::master_only\<close> on the flags of the command; the flag is a constant of the library.\<close>

definition ObserveCommand_master_only :: "32 word \<Rightarrow> bool \<Rightarrow> 32 word \<Rightarrow> 32 word" where
  "ObserveCommand_master_only f_master_only val cmdflags = add_flag f_master_only val cmdflags"

definition ServerReply_persisted :: "8 word \<Rightarrow> server_reply \<Rightarrow> bool" where
  "ServerReply_persisted LCB_OBSERVE_PERSISTED r \<longleftrightarrow> and (sv_status r) LCB_OBSERVE_PERSISTED \<noteq> 0"

definition ServerReply_exists :: "8 word \<Rightarrow> 8 word \<Rightarrow> server_reply \<Rightarrow> bool" where
  "ServerReply_exists LCB_OBSERVE_FOUND LCB_OBSERVE_PERSISTED r \<longleftrightarrow>
     sv_status r = LCB_OBSERVE_FOUND \<or> ServerReply_persisted LCB_OBSERVE_PERSISTED r"

text \<open>The replies of the servers are collected in order, up to the final response, which is passed over.\<close>

fun observe_all :: "lcb_resp list \<Rightarrow> observe_response \<Rightarrow> observe_response res" where
  "observe_all [] g = Inr g"
| "observe_all (r # rs) g = rbind (ObserveResponse_handle_response r g) (observe_all rs)"

lemma observe_all_collects:
  assumes "\<forall>r \<in> set rs. lr_rc r = LCB_SUCCESS \<and> \<not> lr_final r \<and> lr_body r = B_observe (st r) (ms r)"
  shows "\<exists>g1. observe_all rs g = Inr g1
    \<and> or_sinfo g1 = or_sinfo g @ map (\<lambda>r. \<lparr>sv_cas = lr_cas r, sv_master = ms r, sv_status = st r\<rparr>) rs"
  using assms
proof (induction rs arbitrary: g)
  case (Cons r rs)
  have r: "lr_rc r = LCB_SUCCESS" "\<not> lr_final r" "lr_body r = B_observe (st r) (ms r)" using Cons.prems by simp_all
  let ?g = "(if or_initialized g then g else (Response_handle_response r g)\<lparr>or_initialized := True\<rparr>)"
  have "ObserveResponse_handle_response r g = Inr (?g\<lparr>or_sinfo := or_sinfo g @ [\<lparr>sv_cas = lr_cas r, sv_master = ms r, sv_status = st r\<rparr>]\<rparr>)"
    using r by (simp add: ObserveResponse_handle_response_def Response_handle_response_def Let_def)
  then show ?case
    using Cons.IH [of "?g\<lparr>or_sinfo := or_sinfo g @ [\<lparr>sv_cas = lr_cas r, sv_master = ms r, sv_status = st r\<rparr>]\<rparr>"] Cons.prems by simp
qed simp

text \<open>An observe that no server replied to has no status, and every reply is taken for a whole response.\<close>

lemma observe_nothing:
  assumes "lr_final r"
  shows "rbind (observe_all [r] ObserveResponse_make) Response_status = Inl Undefined" "handler_done (H_observe g)"
  using assms by (simp_all add: ObserveResponse_handle_response_def ObserveResponse_make_def Response_status_def determinate_def)

end
