(* ===== verification/Row_Queries.thy ===== *)
theory Row_Queries
  imports Batches
begin

text \<open>
  Queries that deliver rows: the rows that arrive in callbacks are kept until a loop over the query
  asks for them (\<^verbatim>\<open>row_common.h\<close>); views (\<^verbatim>\<open>views.h\<close>, \<^verbatim>\<open>views.inl.h\<close>) and N1QL (\<^verbatim>\<open>query.h\<close>,
  \<^verbatim>\<open>query.inl.h\<close>). Locale \<open>row_source\<close>: the loop gets every row once, in order, and ends; it is
  interpreted for both.
\<close>

section \<open>Rows that are kept\<close>

text \<open>
  A query: the instance and the count of its client, the buffers of documents, the handle that is
  set while the query is active, the rows that were kept, and what came with the last response.
\<close>

record ('i, 'row, 'meta) row_query =
  rq_instance :: 'i
  rq_remaining :: "64 word"
  rq_memory :: memory
  rq_handle :: "nat option"
  rq_rows :: "'row list"
  rq_meta :: 'meta

definition rq_active :: "('i, 'row, 'meta) row_query \<Rightarrow> bool" where
  "rq_active q \<longleftrightarrow> rq_handle q \<noteq> None"

text \<open>\<^verbatim>\<open>Client::breakout\<close>: whether the loop is broken out of.\<close>

definition breakout :: "(('i, 'row, 'meta) row_query, bool) act" where
  "breakout = gets (\<lambda>q. rq_remaining q = 0)"

definition rp_add :: "'row \<Rightarrow> (('i, 'row, 'meta) row_query, unit) act" where
  "rp_add row = modify (\<lambda>q. q\<lparr>rq_rows := rq_rows q @ [row]\<rparr>)"

text \<open>\<^verbatim>\<open>lcb_wait3\<close> with the callback of the query, which says whether the loop is broken out of.\<close>

partial_function (option) row_wait :: "('i \<Rightarrow> ('e \<times> 'i) option) \<Rightarrow> ('e \<Rightarrow> (('i, 'row, 'meta) row_query, bool) act)
    \<Rightarrow> ('i, 'row, 'meta) row_query \<Rightarrow> (unit res \<times> ('i, 'row, 'meta) row_query) option" where
  "row_wait N D q = (case N (rq_instance q) of
     None \<Rightarrow> Some (Inr (), q)
   | Some x \<Rightarrow>
       (let d = D (fst x) (q\<lparr>rq_instance := snd x\<rparr>) in
        if wait_ends (fst d) then Some (rbind (fst d) (\<lambda>_. Inr ()), snd d) else row_wait N D (snd d)))"

text \<open>
  \<^verbatim>\<open>rp_next\<close>: the first row, waiting for one while the query is active. It does not end when the
  query stays active and nothing comes.
\<close>

partial_function (option) rp_next :: "('i \<Rightarrow> ('e \<times> 'i) option) \<Rightarrow> ('e \<Rightarrow> (('i, 'row, 'meta) row_query, bool) act)
    \<Rightarrow> ('i, 'row, 'meta) row_query \<Rightarrow> ('row option res \<times> ('i, 'row, 'meta) row_query) option" where
  "rp_next N D q =
     (if rq_rows q \<noteq> [] then Some (Inr (Some (hd (rq_rows q))), q)
      else if \<not> rq_active q then Some (Inr None, q)
      else Option.bind (row_wait N D q) (\<lambda>w. case fst w of
        Inl f \<Rightarrow> Some (Inl f, snd w)
      | Inr _ \<Rightarrow> rp_next N D (snd w)))"

text \<open>\<^verbatim>\<open>operator++\<close> of the iterator destroys the row it was at.\<close>

definition rp_pop :: "('row \<Rightarrow> memory \<Rightarrow> memory res) \<Rightarrow> (('i, 'row, 'meta) row_query, unit) act" where
  "rp_pop destroy = (\<lambda>q. case rq_rows q of
     [] \<Rightarrow> (Inl Undefined, q)
   | row # rows \<Rightarrow> (case destroy row (rq_memory q) of
       Inl f \<Rightarrow> (Inl f, q)
     | Inr m \<Rightarrow> (Inr (), q\<lparr>rq_rows := rows, rq_memory := m\<rparr>)))"

text \<open>A loop from \<^verbatim>\<open>begin()\<close> to \<^verbatim>\<open>end()\<close>: what its body saw of each row.\<close>

partial_function (option) read_rows :: "('i \<Rightarrow> ('e \<times> 'i) option) \<Rightarrow> ('e \<Rightarrow> (('i, 'row, 'meta) row_query, bool) act)
    \<Rightarrow> ('row \<Rightarrow> memory \<Rightarrow> memory res) \<Rightarrow> ('row \<Rightarrow> 'a res)
    \<Rightarrow> ('i, 'row, 'meta) row_query \<Rightarrow> ('a list res \<times> ('i, 'row, 'meta) row_query) option" where
  "read_rows N D destroy body q =
     Option.bind (rp_next N D q) (\<lambda>w. case fst w of
       Inl f \<Rightarrow> Some (Inl f, snd w)
     | Inr None \<Rightarrow> Some (Inr [], snd w)
     | Inr (Some row) \<Rightarrow> (case body row of
         Inl f \<Rightarrow> Some (Inl f, snd w)
       | Inr x \<Rightarrow>
           (let p = rp_pop destroy (snd w) in
            case fst p of
              Inl f \<Rightarrow> Some (Inl f, snd p)
            | Inr _ \<Rightarrow> Option.bind (read_rows N D destroy body (snd p)) (\<lambda>r. Some (rbind (fst r) (\<lambda>xs. Inr (x # xs)), snd r)))))"

text \<open>The library has these to deliver, and then nothing.\<close>

fun rows_pending :: "('i \<Rightarrow> ('e \<times> 'i) option) \<Rightarrow> 'i \<Rightarrow> 'e list \<Rightarrow> bool" where
  "rows_pending N i [] \<longleftrightarrow> N i = None"
| "rows_pending N i (e # es) \<longleftrightarrow> (case N i of None \<Rightarrow> False | Some (x, j) \<Rightarrow> x = e \<and> rows_pending N j es)"

text \<open>
  A source of rows: a response that is not the last adds one row, the last one ends the query. What
  the body sees of a row is what was in the response.
\<close>

locale row_source =
  fixes dispatch :: "'e \<Rightarrow> (('i, 'row, 'meta) row_query, bool) act" and destroy :: "'row \<Rightarrow> memory \<Rightarrow> memory res"
    and body :: "'row \<Rightarrow> 'a res" and row_ok final :: "'e \<Rightarrow> bool" and seen :: "'e \<Rightarrow> 'a" and meta_of :: "'e \<Rightarrow> 'meta"
  assumes row: "row_ok e \<Longrightarrow> rq_active q \<Longrightarrow> \<exists>row. dispatch e q = (Inr (rq_remaining q = 0), q\<lparr>rq_rows := rq_rows q @ [row]\<rparr>)
      \<and> body row = Inr (seen e) \<and> (\<forall>m. destroy row m = Inr m)"
    and final: "final e \<Longrightarrow> rq_active q \<Longrightarrow>
      dispatch e q = (Inr (rq_remaining q = 0), q\<lparr>rq_handle := None, rq_meta := meta_of e\<rparr>)"
begin

definition keeps :: "'a list \<Rightarrow> 'row list \<Rightarrow> bool" where
  "keeps xs rows \<longleftrightarrow> list_all2 (\<lambda>x row. body row = Inr x \<and> (\<forall>m. destroy row m = Inr m)) xs rows"

text \<open>\<open>xs\<close> is kept and what \<open>es\<close> holds is to come, or the query is over.\<close>

definition coming :: "('i \<Rightarrow> ('e \<times> 'i) option) \<Rightarrow> 'a list \<Rightarrow> 'e list \<Rightarrow> 'e \<Rightarrow> ('i, 'row, 'meta) row_query \<Rightarrow> bool" where
  "coming N xs es e q \<longleftrightarrow> keeps xs (rq_rows q)
     \<and> (if rq_active q then rows_pending N (rq_instance q) (es @ [e]) \<and> list_all row_ok es \<and> final e
        else es = [] \<and> rq_meta q = meta_of e)"

lemma wait_coming:
  assumes "coming N xs es e q" "rq_active q"
  shows "\<exists>q1 es1 es2. row_wait N dispatch q = Some (Inr (), q1) \<and> es = es1 @ es2 \<and> coming N (xs @ map seen es1) es2 e q1
    \<and> (es1 = [] \<longrightarrow> \<not> rq_active q1)"
  using assms
proof (induction es arbitrary: xs q)
  case Nil
  then obtain j where j: "N (rq_instance q) = Some (e, j)" "N j = None" "final e"
    by (auto simp: coming_def split: option.splits)
  let ?q = "q\<lparr>rq_instance := j, rq_handle := None, rq_meta := meta_of e\<rparr>"
  have "dispatch e (q\<lparr>rq_instance := j\<rparr>) = (Inr (rq_remaining q = 0), ?q)"
    using final [OF j(3), of "q\<lparr>rq_instance := j\<rparr>"] Nil.prems(2) by (simp add: rq_active_def)
  moreover have "row_wait N dispatch ?q = Some (Inr (), ?q)" by (subst row_wait.simps) (simp add: j(2))
  ultimately have "row_wait N dispatch q = Some (Inr (), ?q)"
    by (subst row_wait.simps) (simp add: j(1) wait_ends_def Let_def)
  then show ?case using Nil.prems by (intro exI [of _ ?q]) (simp add: coming_def rq_active_def)
next
  case (Cons x es)
  then obtain j where j: "N (rq_instance q) = Some (x, j)" "rows_pending N j (es @ [e])" "row_ok x" "list_all row_ok es" "final e"
    by (auto simp: coming_def split: option.splits)
  obtain r where r: "dispatch x (q\<lparr>rq_instance := j\<rparr>) = (Inr (rq_remaining q = 0), q\<lparr>rq_instance := j, rq_rows := rq_rows q @ [r]\<rparr>)"
    "body r = Inr (seen x)" "\<forall>m. destroy r m = Inr m"
    using row [OF j(3), of "q\<lparr>rq_instance := j\<rparr>"] Cons.prems(2) by (auto simp: rq_active_def)
  let ?q = "q\<lparr>rq_instance := j, rq_rows := rq_rows q @ [r]\<rparr>"
  have q: "coming N (xs @ [seen x]) es e ?q" "rq_active ?q"
    using Cons.prems j r by (simp_all add: coming_def rq_active_def keeps_def list_all2_appendI)
  show ?case
  proof (cases "rq_remaining q = 0")
    case True
    then have "row_wait N dispatch q = Some (Inr (), ?q)"
      using j(1) r(1) by (subst row_wait.simps) (simp add: wait_ends_def Let_def)
    then show ?thesis using q by (intro exI [of _ ?q] exI [of _ "[x]"] exI [of _ es]) simp
  next
    case False
    then have loop: "row_wait N dispatch q = row_wait N dispatch ?q"
      using j(1) r(1) by (subst row_wait.simps) (simp add: wait_ends_def Let_def)
    obtain q1 es1 es2 where "row_wait N dispatch ?q = Some (Inr (), q1)" "es = es1 @ es2" "coming N ((xs @ [seen x]) @ map seen es1) es2 e q1"
      using Cons.IH [OF q] by blast
    then show ?thesis unfolding loop by (intro exI [of _ q1] exI [of _ "x # es1"] exI [of _ es2]) simp
  qed
qed

lemma next_coming:
  assumes "coming N xs es e q"
  shows "\<exists>q1 ys es2. rp_next N dispatch q = Some (Inr (case ys of [] \<Rightarrow> None | _ \<Rightarrow> Some (hd (rq_rows q1))), q1)
    \<and> coming N ys es2 e q1 \<and> xs @ map seen es = ys @ map seen es2 \<and> (ys = [] \<longrightarrow> \<not> rq_active q1)
    \<and> length ys + length es2 = length xs + length es"
proof (cases "xs = [] \<and> rq_active q")
  case False
  then have "rp_next N dispatch q = Some (Inr (case xs of [] \<Rightarrow> None | _ \<Rightarrow> Some (hd (rq_rows q))), q)"
    using assms by (subst rp_next.simps) (auto simp: coming_def keeps_def list_all2_Nil2 split: list.splits)
  then show ?thesis using assms False by blast
next
  case True
  then obtain q1 es1 es2 where q1: "row_wait N dispatch q = Some (Inr (), q1)" "es = es1 @ es2" "coming N (map seen es1) es2 e q1"
    "es1 = [] \<longrightarrow> \<not> rq_active q1" using wait_coming [OF assms] by auto
  have "rq_rows q = []" using assms True by (simp add: coming_def keeps_def)
  then have "rp_next N dispatch q = rp_next N dispatch q1"
    using True q1(1) by (subst rp_next.simps) simp
  moreover have "rp_next N dispatch q1 = Some (Inr (case map seen es1 of [] \<Rightarrow> None | _ \<Rightarrow> Some (hd (rq_rows q1))), q1)"
    using q1(3,4) by (subst rp_next.simps) (auto simp: coming_def keeps_def list_all2_Nil2 split: list.splits)
  ultimately show ?thesis using True q1(2-4) by (intro exI [of _ q1] exI [of _ "map seen es1"] exI [of _ es2]) simp
qed

lemma read_coming:
  assumes "coming N xs es e q"
  shows "\<exists>q1. read_rows N dispatch destroy body q = Some (Inr (xs @ map seen es), q1) \<and> \<not> rq_active q1 \<and> rq_rows q1 = [] \<and> rq_meta q1 = meta_of e"
  using assms
proof (induction "length xs + length es" arbitrary: xs es q rule: less_induct)
  case less
  obtain q1 ys es2 where n: "rp_next N dispatch q = Some (Inr (case ys of [] \<Rightarrow> None | _ \<Rightarrow> Some (hd (rq_rows q1))), q1)"
    "coming N ys es2 e q1" "xs @ map seen es = ys @ map seen es2" "ys = [] \<longrightarrow> \<not> rq_active q1"
    "length ys + length es2 = length xs + length es"
    using next_coming [OF less.prems] by blast
  show ?case
  proof (cases ys)
    case Nil
    then have "es2 = []" "rq_rows q1 = []" "rq_meta q1 = meta_of e" using n(2,4) by (auto simp: coming_def keeps_def)
    then show ?thesis using n Nil by (subst read_rows.simps) simp
  next
    case (Cons y zs)
    then obtain r rows where r: "rq_rows q1 = r # rows" "body r = Inr y" "\<forall>m. destroy r m = Inr m" "keeps zs rows"
      using n(2) by (auto simp: coming_def keeps_def list_all2_Cons1)
    let ?q = "q1\<lparr>rq_rows := rows\<rparr>"
    have pop: "rp_pop destroy q1 = (Inr (), ?q)" using r(1,3) by (cases q1) (simp add: rp_pop_def)
    have "coming N zs es2 e ?q" using n(2) r(4) by (simp add: coming_def rq_active_def)
    from less.hyps [OF _ this] n(5) Cons
    obtain q2 where q2: "read_rows N dispatch destroy body ?q = Some (Inr (zs @ map seen es2), q2)"
      "\<not> rq_active q2" "rq_rows q2 = []" "rq_meta q2 = meta_of e" by auto
    then have "read_rows N dispatch destroy body q = Some (Inr (y # zs @ map seen es2), q2)"
      using n(1) Cons r(1,2) pop by (subst read_rows.simps) (simp add: Let_def)
    then show ?thesis using q2(2-4) n(3) Cons by simp
  qed
qed

end

text \<open>A query that stays active although nothing is pending is waited for without end.\<close>

lemma rp_next_spins:
  assumes "rq_active q" "rq_rows q = []" "N (rq_instance q) = None"
  shows "rp_next N D q = None"
proof -
  have wait: "row_wait N D q = Some (Inr (), q)" by (subst row_wait.simps) (simp add: assms(3))
  have "N' = N \<and> D' = D \<longrightarrow> q' \<noteq> q" if "rp_next N' D' q' = Some y" for N' D' q' y
  proof (rule rp_next.raw_induct [where P = "\<lambda>N' D' q' _. N' = N \<and> D' = D \<longrightarrow> q' \<noteq> q", OF _ that])
    fix f N' D' q' y
    assume IH: "\<And>N' D' q' y. f N' D' q' = Some y \<Longrightarrow> N' = N \<and> D' = D \<longrightarrow> q' \<noteq> q"
      and body: "(if rq_rows q' \<noteq> [] then Some (Inr (Some (hd (rq_rows q'))), q')
        else if \<not> rq_active q' then Some (Inr None, q')
        else Option.bind (row_wait N' D' q') (\<lambda>w. case fst w of Inl f \<Rightarrow> Some (Inl f, snd w) | Inr _ \<Rightarrow> f N' D' (snd w))) = Some y"
    show "N' = N \<and> D' = D \<longrightarrow> q' \<noteq> q"
      using body IH [of N D q y] assms(1,2) wait by auto
  qed
  then show ?thesis by (metis not_Some_eq)
qed

end
