(* ===== verification/Views.thy ===== *)
theory Views
  imports Row_Queries
begin

text \<open>
  Views of couchbase++ (\<^verbatim>\<open>views.h\<close>, \<^verbatim>\<open>views.inl.h\<close>): the command with its options, the rows, which are
  detached from the memory of the library when they are kept, the metadata, and the query.
\<close>

section \<open>Commands\<close>

text \<open>The view, the option string and the flags; the flags are constants of the library.\<close>

record view_command =
  vc_design :: string
  vc_view :: string
  vc_options :: string
  vc_cmdflags :: "32 word"

record view_flags =
  F_SPATIAL :: "32 word"
  F_INCLUDE_DOCS :: "32 word"
  F_NOROWPARSE :: "32 word"

definition ViewCommand_make :: "string \<Rightarrow> string \<Rightarrow> view_command" where
  "ViewCommand_make design view_name = \<lparr>vc_design = design, vc_view = view_name, vc_options = [], vc_cmdflags = 0\<rparr>"

definition add_cmd_flag :: "32 word \<Rightarrow> bool \<Rightarrow> view_command \<Rightarrow> view_command" where
  "add_cmd_flag flag enabled c = c\<lparr>vc_cmdflags := add_flag flag enabled (vc_cmdflags c)\<rparr>"

definition ViewCommand_spatial :: "view_flags \<Rightarrow> bool \<Rightarrow> view_command \<Rightarrow> view_command" where
  "ViewCommand_spatial F enabled = add_cmd_flag (F_SPATIAL F) enabled"

definition ViewCommand_include_docs :: "view_flags \<Rightarrow> bool \<Rightarrow> view_command \<Rightarrow> view_command" where
  "ViewCommand_include_docs F enabled = add_cmd_flag (F_INCLUDE_DOCS F) enabled"

definition ViewCommand_no_parse_rows :: "view_flags \<Rightarrow> bool \<Rightarrow> view_command \<Rightarrow> view_command" where
  "ViewCommand_no_parse_rows F enabled = add_cmd_flag (F_NOROWPARSE F) enabled"

definition add_option :: "string \<Rightarrow> string \<Rightarrow> view_command \<Rightarrow> view_command" where
  "add_option key val c = c\<lparr>vc_options := vc_options c @ key @ ''='' @ val @ ''&''\<rparr>"

definition add_bool_option :: "string \<Rightarrow> bool \<Rightarrow> view_command \<Rightarrow> view_command" where
  "add_bool_option key val = add_option key (if val then ''true'' else ''false'')"

definition add_int_option :: "string \<Rightarrow> 32 word \<Rightarrow> view_command \<Rightarrow> view_command" where
  "add_int_option key val = add_option key (int_text val)"

text \<open>The particular options; \<^verbatim>\<open>reduce\<close> sets the option of \<^verbatim>\<open>descending\<close>.\<close>

datatype stale_mode = Stale_ok | Stale_false | Stale_update_after

datatype view_option =
    Skip "32 word"
  | Limit "32 word"
  | Descending bool
  | Reduce bool
  | Group bool
  | Group_level "32 word"
  | Stale stale_mode

fun ViewCommand_option :: "view_option \<Rightarrow> view_command \<Rightarrow> view_command" where
  "ViewCommand_option (Skip n) = add_int_option ''skip'' n"
| "ViewCommand_option (Limit n) = add_int_option ''limit'' n"
| "ViewCommand_option (Descending b) = add_bool_option ''descending'' b"
| "ViewCommand_option (Reduce b) = add_bool_option ''descending'' b"
| "ViewCommand_option (Group b) = add_bool_option ''group'' b"
| "ViewCommand_option (Group_level n) = add_int_option ''group_level'' n"
| "ViewCommand_option (Stale m) =
     add_option ''stale'' (case m of Stale_ok \<Rightarrow> ''ok'' | Stale_false \<Rightarrow> ''false'' | Stale_update_after \<Rightarrow> ''update_after'')"

definition ViewCommand_options :: "string \<Rightarrow> view_command \<Rightarrow> view_command" where
  "ViewCommand_options opts c = c\<lparr>vc_options := opts\<rparr>"

text \<open>Options are separated by an ampersand, one follows the last, and earlier ones stay.\<close>

lemma options_are_listed:
  "vc_options (fold (\<lambda>(k, v). add_option k v) kvs c) = vc_options c @ concat (map (\<lambda>(k, v). k @ ''='' @ v @ ''&'') kvs)"
  by (induction kvs arbitrary: c) (auto simp: add_option_def)

lemma reduce_is_descending: "ViewCommand_option (Reduce b) = ViewCommand_option (Descending b)"
  by simp

text \<open>Flags that do not meet are set and cleared without each other.\<close>

lemma flags_apart:
  assumes "and f g = 0"
  shows "and (vc_cmdflags (add_cmd_flag f b c)) g = and (vc_cmdflags c) g"
    "and (vc_cmdflags (add_cmd_flag f b c)) f = (if b then f else 0)"
proof -
  have fg: "\<And>n. bit f n \<Longrightarrow> bit g n \<Longrightarrow> False" using assms by (metis bit_0_eq bit_and_iff bot_apply bot_bool_def)
  show "and (vc_cmdflags (add_cmd_flag f b c)) g = and (vc_cmdflags c) g"
    by (rule bit_word_eqI) (use fg in \<open>auto simp: add_cmd_flag_def add_flag_def bit_simps\<close>)
  show "and (vc_cmdflags (add_cmd_flag f b c)) f = (if b then f else 0)"
    by (rule bit_word_eqI) (auto simp: add_cmd_flag_def add_flag_def bit_simps)
qed

section \<open>Responses\<close>

text \<open>What a callback gets: the parts of a row or the last value, a document, the HTTP response.\<close>

record http_resp =
  ht_rc :: lcb_error
  ht_status :: "16 word"
  ht_body :: string

record view_resp =
  vr_final :: bool
  vr_rc :: lcb_error
  vr_key :: string
  vr_value :: string
  vr_docid :: string
  vr_geometry :: string
  vr_docresp :: "lcb_resp option"
  vr_htresp :: "http_resp option"

section \<open>Rows\<close>

text \<open>
  A \<^verbatim>\<open>Buffer\<close> of a row lies in the memory of the library, which is there during the callback, or at
  an offset in the block that the row holds.
\<close>

datatype row_buffer = Lent string | Own nat nat

fun row_buffer_size :: "row_buffer \<Rightarrow> nat" where
  "row_buffer_size (Lent s) = length s"
| "row_buffer_size (Own off n) = n"

definition row_buffer_text :: "bool \<Rightarrow> string option \<Rightarrow> row_buffer \<Rightarrow> string res" where
  "row_buffer_text during_callback block b =
     (if row_buffer_size b = 0 then Inr []
      else case b of
        Lent s \<Rightarrow> if during_callback then Inr s else Inl Undefined
      | Own off n \<Rightarrow> (case block of None \<Rightarrow> Inl Undefined | Some t \<Rightarrow> view (off + n) (slice off n) t))"

record view_row =
  vw_buf :: "string option"
  vw_key :: row_buffer
  vw_value :: row_buffer
  vw_geometry :: row_buffer
  vw_docid :: row_buffer
  vw_document :: get_response
  vw_hasdoc :: "bool option"

text \<open>The constructor; \<^verbatim>\<open>m_hasdoc\<close> is set only if there is a document.\<close>

definition ViewRow_make :: "heap_env \<Rightarrow> view_resp \<Rightarrow> memory \<Rightarrow> (view_row \<times> memory) res" where
  "ViewRow_make H r m =
     (if vr_final r then Inl Undefined
      else
        let row = \<lparr>vw_buf = None, vw_key = Lent (vr_key r), vw_value = Lent (vr_value r), vw_geometry = Lent (vr_geometry r),
             vw_docid = Lent (vr_docid r), vw_document = GetResponse_make, vw_hasdoc = None\<rparr> in
        case vr_docresp r of
          None \<Rightarrow> Inr (row, m)
        | Some d \<Rightarrow> rbind (GetResponse_handle_response H d GetResponse_make m) (\<lambda>(g, m1).
            Inr (row\<lparr>vw_hasdoc := Some True, vw_document := g\<rparr>, m1)))"

definition has_document :: "view_row \<Rightarrow> bool res" where
  "has_document row = determinate (vw_hasdoc row)"

text \<open>
  \<^verbatim>\<open>detatch_buf\<close> copies a buffer behind the bytes \<open>tmp\<close> that are already in the block. The block is
  made by \<^verbatim>\<open>new char[]\<close> and given to a \<^verbatim>\<open>shared_ptr<char>\<close>, copies of the row share it.
\<close>

definition detatch_buf :: "bool \<Rightarrow> row_buffer \<Rightarrow> string \<Rightarrow> (row_buffer \<times> string) res" where
  "detatch_buf during_callback tgt tmp =
     rbind (row_buffer_text during_callback None tgt) (\<lambda>s. Inr (Own (length tmp) (length s), tmp @ s))"

definition ViewRow_detatch :: "bool \<Rightarrow> view_row \<Rightarrow> view_row res" where
  "ViewRow_detatch during_callback row =
     (if vw_buf row \<noteq> None then Inr row
      else
        rbind (detatch_buf during_callback (vw_key row) []) (\<lambda>(key, tmp).
        rbind (detatch_buf during_callback (vw_value row) tmp) (\<lambda>(val, tmp).
        rbind (detatch_buf during_callback (vw_docid row) tmp) (\<lambda>(docid, tmp).
        rbind (detatch_buf during_callback (vw_geometry row) tmp) (\<lambda>(geometry, tmp).
        Inr (row\<lparr>vw_buf := Some tmp, vw_key := key, vw_value := val, vw_docid := docid, vw_geometry := geometry\<rparr>))))))"

text \<open>Key, value, document number and geometry as the program reads them.\<close>

definition ViewRow_texts :: "bool \<Rightarrow> view_row \<Rightarrow> (string \<times> string \<times> string \<times> string) res" where
  "ViewRow_texts during_callback row =
     (let text = row_buffer_text during_callback (vw_buf row) in
      rbind (text (vw_key row)) (\<lambda>k. rbind (text (vw_value row)) (\<lambda>v. rbind (text (vw_docid row)) (\<lambda>d.
      rbind (text (vw_geometry row)) (\<lambda>g. Inr (k, v, d, g))))))"

text \<open>The copy of a row, and its end.\<close>

definition ViewRow_copy :: "view_row \<Rightarrow> memory \<Rightarrow> (view_row \<times> memory) res" where
  "ViewRow_copy row m = rbind (GetResponse_assign_first (vw_document row) m) (\<lambda>(g, m1). Inr (row\<lparr>vw_document := g\<rparr>, m1))"

definition ViewRow_end :: "view_row \<Rightarrow> memory \<Rightarrow> memory res" where
  "ViewRow_end row m = rbind (GetResponse_clear (vw_document row) m) (\<lambda>(g, m1). Inr m1)"

lemma text_of_own [simp]: "row_buffer_text during (Some (a @ s @ b)) (Own (length a) (length s)) = Inr s"
  by (simp add: row_buffer_text_def view_def slice_def)

lemma detatch_keeps_texts:
  assumes "ViewRow_texts True row = Inr ts" "vw_buf row = None"
  shows "\<exists>row1. ViewRow_detatch True row = Inr row1 \<and> ViewRow_texts during row1 = Inr ts
    \<and> vw_document row1 = vw_document row \<and> vw_hasdoc row1 = vw_hasdoc row \<and> vw_buf row1 \<noteq> None"
proof -
  obtain k v d g where t: "row_buffer_text True None (vw_key row) = Inr k" "row_buffer_text True None (vw_value row) = Inr v"
    "row_buffer_text True None (vw_docid row) = Inr d" "row_buffer_text True None (vw_geometry row) = Inr g" "ts = (k, v, d, g)"
    using assms by (auto simp: ViewRow_texts_def Let_def result_simps)
  let ?row = "row\<lparr>vw_buf := Some (k @ v @ d @ g), vw_key := Own 0 (length k), vw_value := Own (length k) (length v),
    vw_docid := Own (length (k @ v)) (length d), vw_geometry := Own (length (k @ v @ d)) (length g)\<rparr>"
  have own: "row_buffer_text during (Some (k @ v @ d @ g)) (Own 0 (length k)) = Inr k"
    "row_buffer_text during (Some (k @ v @ d @ g)) (Own (length k) (length v)) = Inr v"
    "row_buffer_text during (Some (k @ v @ d @ g)) (Own (length (k @ v)) (length d)) = Inr d"
    "row_buffer_text during (Some (k @ v @ d @ g)) (Own (length (k @ v @ d)) (length g)) = Inr g"
    using text_of_own [of during "[]" k "v @ d @ g"] text_of_own [of during k v "d @ g"]
      text_of_own [of during "k @ v" d g] text_of_own [of during "k @ v @ d" g "[]"] by simp_all
  have "ViewRow_detatch True row = Inr ?row"
    using assms(2) t(1-4) by (simp add: ViewRow_detatch_def detatch_buf_def)
  moreover have "ViewRow_texts during ?row = Inr ts"
    using own t(5) by (simp add: ViewRow_texts_def Let_def del: length_append)
  ultimately show ?thesis by (intro exI [of _ ?row]) simp
qed

lemma detatch_twice: "ViewRow_detatch b row = Inr row1 \<Longrightarrow> ViewRow_detatch b1 row1 = Inr row1"
  by (auto simp: ViewRow_detatch_def result_simps split: if_splits)

text \<open>Whether there is a document cannot be asked of a row without one.\<close>

lemma no_document_undefined:
  assumes "vr_docresp r = None" "ViewRow_make H r m = Inr (row, m1)"
  shows "has_document row = Inl Undefined"
  using assms by (auto simp: ViewRow_make_def has_document_def determinate_def Let_def split: if_splits)

section \<open>Metadata\<close>

record view_meta =
  vm_body :: string
  vm_http :: string
  vm_rc :: lcb_error
  vm_htcode :: "16 word"

definition ViewMeta_none :: view_meta where
  "ViewMeta_none = \<lparr>vm_body = [], vm_http = [], vm_rc = LCB_SUCCESS, vm_htcode = 0\<rparr>"

text \<open>
  The constructor puts the HTTP body where the metadata is, and the status of the library where
  that of HTTP should be.
\<close>

definition ViewMeta_make :: "view_resp \<Rightarrow> view_meta" where
  "ViewMeta_make r =
     (let m = \<lparr>vm_body = vr_value r, vm_http = [], vm_rc = vr_rc r, vm_htcode = - 1\<rparr> in
      case vr_htresp r of
        None \<Rightarrow> m
      | Some h \<Rightarrow>
          let m1 = m\<lparr>vm_htcode := ucast (ht_rc h)\<rparr> in
          if ht_body h \<noteq> [] then m1\<lparr>vm_body := ht_body h\<rparr> else m1)"

lemma http_body_is_body:
  assumes "vr_htresp r = Some h" "ht_body h \<noteq> []"
  shows "vm_http (ViewMeta_make r) = []" "vm_body (ViewMeta_make r) = ht_body h" "vm_htcode (ViewMeta_make r) = ucast (ht_rc h)"
  using assms by (simp_all add: ViewMeta_make_def Let_def)

section \<open>Queries\<close>

text \<open>The functions of the library: the start of a query, which gives a handle, and its end.\<close>

record 'i lcb_views =
  lv_view_query :: "'i \<Rightarrow> view_command \<Rightarrow> (lcb_error \<times> nat) \<times> 'i"
  lv_view_cancel :: "'i \<Rightarrow> nat \<Rightarrow> 'i"
  lv_next :: "'i \<Rightarrow> (view_resp \<times> 'i) option"

type_synonym ('i, 'meta) view_query = "('i, view_row, 'meta) row_query"

definition CallbackViewQuery_make :: "'i lcb_views \<Rightarrow> view_command \<Rightarrow> (('i, 'meta) view_query, lcb_error) act" where
  "CallbackViewQuery_make V cmd = (\<lambda>q. case lv_view_query V (rq_instance q) cmd of
     ((st, h), i) \<Rightarrow> (Inr st, q\<lparr>rq_instance := i, rq_handle := (if Status_success st then Some h else None)\<rparr>))"

text \<open>
  \<^verbatim>\<open>_dispatch\<close> with the functions of the query; a missing one throws, out of a callback of the C
  library. The row that is handed over is destroyed afterwards.
\<close>

definition CallbackViewQuery_dispatch :: "heap_env \<Rightarrow> (view_row \<Rightarrow> (('i, 'meta) view_query, bool) act) option
    \<Rightarrow> (view_meta \<Rightarrow> (('i, 'meta) view_query, bool) act) option \<Rightarrow> view_resp \<Rightarrow> (('i, 'meta) view_query, bool) act" where
  "CallbackViewQuery_dispatch H rowcb donecb resp =
     (if \<not> vr_final resp then
        bnd (\<lambda>q. case ViewRow_make H resp (rq_memory q) of
            Inl f \<Rightarrow> (Inl f, q)
          | Inr (row, m) \<Rightarrow> (Inr row, q\<lparr>rq_memory := m\<rparr>)) (\<lambda>row.
        case rowcb of
          None \<Rightarrow> raise Undefined
        | Some f \<Rightarrow> bnd (f row) (\<lambda>stop.
            bnd (\<lambda>q. case ViewRow_end row (rq_memory q) of Inl f \<Rightarrow> (Inl f, q) | Inr m \<Rightarrow> (Inr (), q\<lparr>rq_memory := m\<rparr>)) (\<lambda>_.
            ret stop)))
      else
        case donecb of
          None \<Rightarrow> raise Undefined
        | Some f \<Rightarrow> bnd (f (ViewMeta_make resp)) (\<lambda>stop. bnd (modify (\<lambda>q. q\<lparr>rq_handle := None\<rparr>)) (\<lambda>_. ret stop)))"

definition CallbackViewQuery_stop :: "'i lcb_views \<Rightarrow> (('i, 'meta) view_query, unit) act" where
  "CallbackViewQuery_stop V = (\<lambda>q. case rq_handle q of
     None \<Rightarrow> (Inr (), q)
   | Some h \<Rightarrow> (Inr (), q\<lparr>rq_instance := lv_view_cancel V (rq_instance q) h, rq_handle := None\<rparr>))"

text \<open>\<^verbatim>\<open>ViewQuery\<close>: what it does with a row and at the end.\<close>

definition ViewQuery_handle_row :: "view_row \<Rightarrow> (('i, view_meta) view_query, bool) act" where
  "ViewQuery_handle_row row =
     bnd (lift_res (ViewRow_detatch True row)) (\<lambda>row.
     bnd (\<lambda>q. case ViewRow_copy row (rq_memory q) of
         Inl f \<Rightarrow> (Inl f, q)
       | Inr (row1, m) \<Rightarrow> rp_add row1 (q\<lparr>rq_memory := m\<rparr>)) (\<lambda>_.
     breakout))"

definition ViewQuery_handle_done :: "view_meta \<Rightarrow> (('i, view_meta) view_query, bool) act" where
  "ViewQuery_handle_done meta = bnd (modify (\<lambda>q. q\<lparr>rq_meta := meta\<rparr>)) (\<lambda>_. breakout)"

text \<open>\<^verbatim>\<open>viewcb\<close>; the library has its reference to the buffer of a document during the call.\<close>

definition viewcb :: "(view_resp \<Rightarrow> (('i, 'meta) view_query, bool) act) \<Rightarrow> view_resp \<Rightarrow> (('i, 'meta) view_query, bool) act" where
  "viewcb dispatch resp = (case vr_docresp resp of
     None \<Rightarrow> dispatch resp
   | Some d \<Rightarrow>
       bnd (modify (\<lambda>q. q\<lparr>rq_memory := lend d (rq_memory q)\<rparr>)) (\<lambda>_.
       bnd (dispatch resp) (\<lambda>stop.
       bnd (\<lambda>q. case take_back d (rq_memory q) of Inl f \<Rightarrow> (Inl f, q) | Inr m \<Rightarrow> (Inr (), q\<lparr>rq_memory := m\<rparr>)) (\<lambda>_.
       ret stop))))"

definition ViewQuery_dispatch :: "heap_env \<Rightarrow> view_resp \<Rightarrow> (('i, view_meta) view_query, bool) act" where
  "ViewQuery_dispatch H = viewcb (CallbackViewQuery_dispatch H (Some ViewQuery_handle_row) (Some ViewQuery_handle_done))"

definition ViewQuery_status :: "('i, view_meta) view_query \<Rightarrow> lcb_error res" where
  "ViewQuery_status q = (if rq_active q then Inl Undefined else Inr (vm_rc (rq_meta q)))"

text \<open>A loop over a query that reads the texts of each row.\<close>

definition ViewQuery_read :: "heap_env \<Rightarrow> 'i lcb_views \<Rightarrow> ('i, view_meta) view_query
    \<Rightarrow> ((string \<times> string \<times> string \<times> string) list res \<times> ('i, view_meta) view_query) option" where
  "ViewQuery_read H V = read_rows (lv_next V) (ViewQuery_dispatch H) ViewRow_end (ViewRow_texts False)"

definition row_texts :: "view_resp \<Rightarrow> string \<times> string \<times> string \<times> string" where
  "row_texts r = (vr_key r, vr_value r, vr_docid r, vr_geometry r)"

lemma empty_document:
  "GetResponse_assign_first GetResponse_make m = Inr (GetResponse_make, m)"
  "GetResponse_clear GetResponse_make m = Inr (GetResponse_make, m)"
  by (simp_all add: GetResponse_assign_first_def GetResponse_clear_def has_shared_buffer_def has_alloc_buffer_def GetResponse_make_def)

interpretation view_rows: row_source "ViewQuery_dispatch H" ViewRow_end "ViewRow_texts False"
  "\<lambda>r. \<not> vr_final r \<and> vr_docresp r = None" "\<lambda>r. vr_final r \<and> vr_docresp r = None" row_texts ViewMeta_make for H
proof
  fix r :: view_resp and q :: "('i, view_meta) view_query"
  assume r: "\<not> vr_final r \<and> vr_docresp r = None"
  let ?row = "\<lparr>vw_buf = None, vw_key = Lent (vr_key r), vw_value = Lent (vr_value r), vw_geometry = Lent (vr_geometry r),
    vw_docid = Lent (vr_docid r), vw_document = GetResponse_make, vw_hasdoc = None\<rparr>"
  have "ViewRow_texts True ?row = Inr (row_texts r)" by (simp add: ViewRow_texts_def row_buffer_text_def row_texts_def)
  then obtain row1 where row1: "ViewRow_detatch True ?row = Inr row1" "ViewRow_texts False row1 = Inr (row_texts r)"
    "vw_document row1 = GetResponse_make"
    using detatch_keeps_texts [of ?row "row_texts r" False] by auto
  have "ViewRow_copy row1 m = Inr (row1, m)" "ViewRow_end row1 m = Inr m" "ViewRow_end ?row m = Inr m" for m
    using row1(3) empty_document by (simp_all add: ViewRow_copy_def ViewRow_end_def)
  with row1(1,2) r show "\<exists>row. ViewQuery_dispatch H r q = (Inr (rq_remaining q = 0), q\<lparr>rq_rows := rq_rows q @ [row]\<rparr>)
      \<and> ViewRow_texts False row = Inr (row_texts r) \<and> (\<forall>m. ViewRow_end row m = Inr m)"
    by (intro exI [of _ row1]) (simp add: ViewQuery_dispatch_def viewcb_def CallbackViewQuery_dispatch_def ViewRow_make_def ViewQuery_handle_row_def
        rp_add_def breakout_def act_simps Let_def)
next
  fix r :: view_resp and q :: "('i, view_meta) view_query"
  assume "vr_final r \<and> vr_docresp r = None"
  then show "ViewQuery_dispatch H r q = (Inr (rq_remaining q = 0), q\<lparr>rq_handle := None, rq_meta := ViewMeta_make r\<rparr>)"
    by (cases q) (simp add: ViewQuery_dispatch_def viewcb_def CallbackViewQuery_dispatch_def ViewQuery_handle_done_def breakout_def act_simps)
qed

text \<open>
  C40: A loop over a view query sees every row the library delivers, once and in order, with the
  key, value, document number and geometry it had in its callback, although the memory of the
  library is gone by then; and the loop ends, with the query over and its metadata there. This
  is so whatever the count of outstanding responses is, which decides only how many rows a wait brings.
\<close>

theorem view_rows_in_order:
  assumes "lv_view_query V (rq_instance q) cmd = ((LCB_SUCCESS, h), i)" "rows_pending (lv_next V) i (rs @ [e])"
    and "list_all (\<lambda>r. \<not> vr_final r \<and> vr_docresp r = None) rs" "vr_final e" "vr_docresp e = None" "rq_rows q = []"
  shows "\<exists>q0 q1. CallbackViewQuery_make V cmd q = (Inr LCB_SUCCESS, q0)
    \<and> ViewQuery_read H V q0 = Some (Inr (map row_texts rs), q1)
    \<and> ViewQuery_status q1 = Inr (vr_rc e) \<and> rq_meta q1 = ViewMeta_make e \<and> rq_rows q1 = []"
proof -
  let ?q = "q\<lparr>rq_instance := i, rq_handle := Some h\<rparr>"
  have make: "CallbackViewQuery_make V cmd q = (Inr LCB_SUCCESS, ?q)"
    using assms(1) by (simp add: CallbackViewQuery_make_def Status_success_def)
  have "view_rows.coming (lv_next V) [] rs e ?q"
    using assms(2-6) by (simp add: view_rows.coming_def view_rows.keeps_def rq_active_def)
  from view_rows.read_coming [OF this, of H]
  obtain q1 where "ViewQuery_read H V ?q = Some (Inr (map row_texts rs), q1)" "\<not> rq_active q1" "rq_rows q1 = []" "rq_meta q1 = ViewMeta_make e"
    by (auto simp: ViewQuery_read_def)
  moreover have "vm_rc (ViewMeta_make e) = vr_rc e" by (simp add: ViewMeta_make_def Let_def split: option.split)
  ultimately show ?thesis using make by (auto simp: ViewQuery_status_def)
qed

text \<open>
  The buffer of a document is held as long as its row: the copy that is kept has the one reference
  that is left after the callback, and the end of the row gives it back.
\<close>

lemma row_document_released:
  assumes "vr_docresp r = Some d" "\<not> vr_final r" "lr_body d = B_get (P_back h off) n (Some h) bytes flags" "Status_success (lr_rc d)"
    and "mem_backs (rq_memory q) h = None"
  shows "\<exists>row q1. ViewQuery_dispatch H r q = (Inr (rq_remaining q = 0), q1) \<and> rq_rows q1 = rq_rows q @ [row]
    \<and> has_document row = Inr True \<and> (off + n \<le> length bytes \<longrightarrow> GetResponse_value (vw_document row) (rq_memory q1) = Inr (slice off n bytes))
    \<and> mem_backs (rq_memory q1) h = Some (1, bytes) \<and> ViewRow_end row (rq_memory q1) = Inr (rq_memory q)"
proof -
  let ?g = "(Response_handle_response d GetResponse_make)\<lparr>gr_value := P_back h off, gr_nvalue := n, gr_bufh := Some h, gr_itmflags := Some flags\<rparr>"
  let ?row = "\<lparr>vw_buf = None, vw_key = Lent (vr_key r), vw_value = Lent (vr_value r), vw_geometry = Lent (vr_geometry r),
    vw_docid = Lent (vr_docid r), vw_document = ?g, vw_hasdoc = Some True\<rparr>"
  let ?m = "rq_memory q"
  let ?held = "\<lambda>k. ?m\<lparr>mem_backs := (mem_backs ?m)(h \<mapsto> (k, bytes))\<rparr>"
  have "ViewRow_texts True ?row = Inr (row_texts r)" by (simp add: ViewRow_texts_def row_buffer_text_def row_texts_def)
  then obtain row1 where row1: "ViewRow_detatch True ?row = Inr row1" "vw_document row1 = ?g" "vw_hasdoc row1 = Some True"
    using detatch_keeps_texts [of ?row "row_texts r" False] by auto
  have shared: "has_shared_buffer ?g" by (simp add: has_shared_buffer_def)
  have make: "ViewRow_make H r (?held 1) = Inr (?row, ?held 2)"
    using assms(1-4) by (simp add: ViewRow_make_def GetResponse_handle_response_def backbuf_ref_def Let_def numeral_2_eq_2)
  have copy: "ViewRow_copy row1 (?held 2) = Inr (row1, ?held (Suc 2))"
    using row1(2) shared by (simp add: ViewRow_copy_def GetResponse_assign_first_def backbuf_ref_def)
  have gone: "ViewRow_end ?row (?held (Suc 2)) = Inr (?held 2)"
    using shared by (simp add: ViewRow_end_def GetResponse_clear_def backbuf_unref_def)
  have lent: "lend d ?m = ?held 1" "take_back d (?held 2) = Inr (?held 1)"
    using assms(3,5) by (simp_all add: lend_def take_back_def backbuf_unref_def)
  have popped: "ViewRow_end row1 (?held 1) = Inr ?m"
    using row1(2) shared assms(5) by (simp add: ViewRow_end_def GetResponse_clear_def backbuf_unref_def fun_upd_idem)
  have "ViewQuery_dispatch H r q = (Inr (rq_remaining q = 0), q\<lparr>rq_rows := rq_rows q @ [row1], rq_memory := ?held 1\<rparr>)"
    using assms(1,2) make copy gone lent row1(1)
    by (cases q) (simp add: ViewQuery_dispatch_def viewcb_def CallbackViewQuery_dispatch_def ViewQuery_handle_row_def rp_add_def breakout_def act_simps)
  moreover have "off + n \<le> length bytes \<longrightarrow> GetResponse_value (vw_document row1) (?held 1) = Inr (slice off n bytes)"
    using row1(2) by (simp add: GetResponse_value_def Buffer_to_string_def view_def slice_def)
  ultimately show ?thesis
    using popped row1(3) by (intro exI [of _ row1] exI [of _ "q\<lparr>rq_rows := rq_rows q @ [row1], rq_memory := ?held 1\<rparr>"]) (simp add: has_document_def determinate_def)
qed

text \<open>A library with two rows to deliver.\<close>

definition sample_row :: "string \<Rightarrow> string \<Rightarrow> view_resp" where
  "sample_row k v = \<lparr>vr_final = False, vr_rc = LCB_SUCCESS, vr_key = k, vr_value = v, vr_docid = ''doc'', vr_geometry = [],
     vr_docresp = None, vr_htresp = None\<rparr>"

definition sample_end :: view_resp where
  "sample_end = (sample_row [] ''{}'')\<lparr>vr_final := True\<rparr>"

definition sample_views :: "view_resp list lcb_views" where
  "sample_views = \<lparr>lv_view_query = (\<lambda>i cmd. ((LCB_SUCCESS, 1), [sample_row ''a'' ''1'', sample_row ''b'' ''2'', sample_end])),
     lv_view_cancel = (\<lambda>i h. []), lv_next = (\<lambda>i. case i of [] \<Rightarrow> None | r # rs \<Rightarrow> Some (r, rs))\<rparr>"

definition sample_query :: "64 word \<Rightarrow> (view_resp list, view_meta) view_query" where
  "sample_query remaining = \<lparr>rq_instance = [], rq_remaining = remaining, rq_memory = no_memory, rq_handle = None, rq_rows = [],
     rq_meta = ViewMeta_none\<rparr>"

lemma view_rows_in_order_witness:
  "\<exists>q0 q1. CallbackViewQuery_make sample_views (ViewCommand_make ''design'' ''view'') (sample_query 0) = (Inr LCB_SUCCESS, q0)
    \<and> ViewQuery_read sample_heap sample_views q0 = Some (Inr [(''a'', ''1'', ''doc'', []), (''b'', ''2'', ''doc'', [])], q1)
    \<and> vm_body (rq_meta q1) = ''{}''"
proof -
  have lib: "lv_view_query sample_views (rq_instance (sample_query 0)) (ViewCommand_make ''design'' ''view'') =
      ((LCB_SUCCESS, 1), [sample_row ''a'' ''1'', sample_row ''b'' ''2''] @ [sample_end])"
    "rows_pending (lv_next sample_views) ([sample_row ''a'' ''1'', sample_row ''b'' ''2''] @ [sample_end]) ([sample_row ''a'' ''1'', sample_row ''b'' ''2''] @ [sample_end])"
    "list_all (\<lambda>r. \<not> vr_final r \<and> vr_docresp r = None) [sample_row ''a'' ''1'', sample_row ''b'' ''2'']"
    "vr_final sample_end" "vr_docresp sample_end = None" "rq_rows (sample_query 0) = []"
    by (simp_all add: sample_views_def sample_row_def sample_end_def sample_query_def)
  have "map row_texts [sample_row ''a'' ''1'', sample_row ''b'' ''2''] = [(''a'', ''1'', ''doc'', []), (''b'', ''2'', ''doc'', [])]"
    "vm_body (ViewMeta_make sample_end) = ''{}''"
    by (simp_all add: row_texts_def sample_row_def sample_end_def ViewMeta_make_def)
  then show ?thesis using view_rows_in_order [OF lib, of sample_heap] by metis
qed

end
