(* ===== verification/N1ql.thy ===== *)
theory N1ql
  imports Row_Queries
begin

text \<open>
  N1QL queries of couchbase++ (\<^verbatim>\<open>query.h\<close>, \<^verbatim>\<open>query.inl.h\<close>), the other source of rows, and the logging
  interface of \<^verbatim>\<open>logging.h\<close>.
\<close>

section \<open>Commands\<close>

text \<open>The functions of the library on the parameters \<open>'p\<close> of a query, and on an instance.\<close>

record n1ql_resp =
  nq_final :: bool
  nq_rc :: lcb_error
  nq_row :: string
  nq_htresp :: "(16 word \<times> string) option"

record ('i, 'p, 'c) lcb_n1ql =
  n1p_new :: 'p
  n1p_setquery :: "'p \<Rightarrow> string \<Rightarrow> lcb_error \<times> 'p"
  n1p_setopt :: "'p \<Rightarrow> string \<Rightarrow> string \<Rightarrow> lcb_error \<times> 'p"
  n1p_namedparam :: "'p \<Rightarrow> string \<Rightarrow> string \<Rightarrow> lcb_error \<times> 'p"
  n1p_posparam :: "'p \<Rightarrow> string \<Rightarrow> lcb_error \<times> 'p"
  n1p_reset :: "'p \<Rightarrow> 'p"
  n1p_mkcmd :: "'p \<Rightarrow> lcb_error \<times> 'c"
  n1ql_query :: "'i \<Rightarrow> 'c \<Rightarrow> lcb_error \<times> 'i"
  n1ql_next :: "'i \<Rightarrow> (n1ql_resp \<times> 'i) option"

definition QueryCommand_make :: "('i, 'p, 'c) lcb_n1ql \<Rightarrow> string \<Rightarrow> 'p" where
  "QueryCommand_make N stmt = snd (n1p_setquery N (n1p_new N) stmt)"

definition QueryCommand_raw_option :: "('i, 'p, 'c) lcb_n1ql \<Rightarrow> string \<Rightarrow> string \<Rightarrow> 'p \<Rightarrow> lcb_error \<times> 'p" where
  "QueryCommand_raw_option N name val p = n1p_setopt N p name val"

definition QueryCommand_named_param :: "('i, 'p, 'c) lcb_n1ql \<Rightarrow> string \<Rightarrow> string \<Rightarrow> 'p \<Rightarrow> lcb_error \<times> 'p" where
  "QueryCommand_named_param N name val p = n1p_namedparam N p name val"

definition QueryCommand_pos_param :: "('i, 'p, 'c) lcb_n1ql \<Rightarrow> string \<Rightarrow> 'p \<Rightarrow> lcb_error \<times> 'p" where
  "QueryCommand_pos_param N val p = n1p_posparam N p val"

definition QueryCommand_clear :: "('i, 'p, 'c) lcb_n1ql \<Rightarrow> 'p \<Rightarrow> 'p" where
  "QueryCommand_clear N p = n1p_reset N p"

section \<open>Rows and metadata\<close>

text \<open>The text of a row lies in the library, during the callback, or in a block of the row.\<close>

datatype query_row = Row_lent string | Row_own string

definition QueryRow_make :: "n1ql_resp \<Rightarrow> query_row" where
  "QueryRow_make r = Row_lent (nq_row r)"

fun QueryRow_detatch :: "query_row \<Rightarrow> query_row" where
  "QueryRow_detatch (Row_lent s) = (if s \<noteq> [] then Row_own s else Row_lent s)"
| "QueryRow_detatch (Row_own s) = Row_own s"

fun QueryRow_json :: "bool \<Rightarrow> query_row \<Rightarrow> string res" where
  "QueryRow_json during_callback (Row_lent s) = (if during_callback \<or> s = [] then Inr s else Inl Undefined)"
| "QueryRow_json during_callback (Row_own s) = Inr s"

record query_meta =
  qm_buf :: string
  qm_httpbuf :: string
  qm_status :: lcb_error
  qm_httpcode :: "16 word"

definition QueryMeta_none :: query_meta where
  "QueryMeta_none = \<lparr>qm_buf = [], qm_httpbuf = [], qm_status = LCB_SUCCESS, qm_httpcode = 0\<rparr>"

definition QueryMeta_make :: "n1ql_resp \<Rightarrow> query_meta" where
  "QueryMeta_make r =
     (let m = QueryMeta_none\<lparr>qm_status := nq_rc r, qm_buf := nq_row r\<rparr> in
      case nq_htresp r of
        None \<Rightarrow> m
      | Some (code, body) \<Rightarrow> m\<lparr>qm_httpcode := code, qm_httpbuf := body\<rparr>)"

section \<open>Queries\<close>

text \<open>\<^verbatim>\<open>m_done\<close> is a query without a handle. It is not set when the query could not be started.\<close>

type_synonym 'i n1ql_state = "('i, query_row, query_meta) row_query"

definition CallbackQuery_make :: "('i, 'p, 'c) lcb_n1ql \<Rightarrow> 'p \<Rightarrow> ('i n1ql_state, lcb_error) act" where
  "CallbackQuery_make N p = (\<lambda>q. let q0 = q\<lparr>rq_handle := Some 0\<rparr> in
     case n1p_mkcmd N p of (st, cmd) \<Rightarrow>
       if Status_success st then
         (case n1ql_query N (rq_instance q0) cmd of (st1, i) \<Rightarrow> (Inr st1, q0\<lparr>rq_instance := i\<rparr>))
       else (Inr st, q0))"

definition CallbackQuery_dispatch :: "(query_row \<Rightarrow> ('i n1ql_state, bool) act) \<Rightarrow> (query_meta \<Rightarrow> ('i n1ql_state, bool) act)
    \<Rightarrow> n1ql_resp \<Rightarrow> ('i n1ql_state, bool) act" where
  "CallbackQuery_dispatch rowcb donecb resp =
     (if nq_final resp then bnd (modify (\<lambda>q. q\<lparr>rq_handle := None\<rparr>)) (\<lambda>_. donecb (QueryMeta_make resp))
      else rowcb (QueryRow_make resp))"

definition Query_dispatch :: "n1ql_resp \<Rightarrow> ('i n1ql_state, bool) act" where
  "Query_dispatch = CallbackQuery_dispatch
     (\<lambda>row. bnd (rp_add (QueryRow_detatch row)) (\<lambda>_. breakout))
     (\<lambda>meta. bnd (modify (\<lambda>q. q\<lparr>rq_meta := meta\<rparr>)) (\<lambda>_. breakout))"

definition Query_read :: "('i, 'p, 'c) lcb_n1ql \<Rightarrow> 'i n1ql_state \<Rightarrow> (string list res \<times> 'i n1ql_state) option" where
  "Query_read N = read_rows (n1ql_next N) Query_dispatch (\<lambda>_. Inr) (QueryRow_json False)"

text \<open>\<^verbatim>\<open>Query::execute\<close>: the rows are passed over.\<close>

definition Query_execute :: "('i, 'p, 'c) lcb_n1ql \<Rightarrow> string \<Rightarrow> 'i n1ql_state \<Rightarrow> (query_meta res \<times> 'i n1ql_state) option" where
  "Query_execute N stmt q = (case CallbackQuery_make N (QueryCommand_make N stmt) q of
     (Inl f, q1) \<Rightarrow> Some (Inl f, q1)
   | (Inr st, q1) \<Rightarrow>
       if \<not> Status_success st then Some (Inr (QueryMeta_none\<lparr>qm_status := st\<rparr>), q1)
       else Option.bind (read_rows (n1ql_next N) Query_dispatch (\<lambda>_. Inr) (\<lambda>_. Inr ()) q1)
         (\<lambda>(r, q2). Some (rbind r (\<lambda>_. Inr (rq_meta q2)), q2)))"

lemma query_row_step:
  "\<not> nq_final r \<Longrightarrow> Query_dispatch r q = (Inr (rq_remaining q = 0), q\<lparr>rq_rows := rq_rows q @ [QueryRow_detatch (Row_lent (nq_row r))]\<rparr>)"
  by (simp add: Query_dispatch_def CallbackQuery_dispatch_def QueryRow_make_def rp_add_def breakout_def act_simps)

lemma query_final_step:
  "nq_final r \<Longrightarrow> Query_dispatch r q = (Inr (rq_remaining q = 0), q\<lparr>rq_handle := None, rq_meta := QueryMeta_make r\<rparr>)"
  by (simp add: Query_dispatch_def CallbackQuery_dispatch_def breakout_def act_simps)

interpretation query_rows: row_source Query_dispatch "\<lambda>_. Inr" "QueryRow_json False" "\<lambda>r. \<not> nq_final r" nq_final nq_row QueryMeta_make
  by unfold_locales (auto simp: query_row_step query_final_step)

interpretation query_passes: row_source Query_dispatch "\<lambda>_. Inr" "\<lambda>_. Inr ()" "\<lambda>r. \<not> nq_final r" nq_final "\<lambda>_. ()" QueryMeta_make
  by unfold_locales (auto simp: query_row_step query_final_step)

text \<open>A query sees its rows in order, and ends.\<close>

lemma query_rows_in_order:
  assumes "rows_pending (n1ql_next N) (rq_instance q) (rs @ [e])" "list_all (\<lambda>r. \<not> nq_final r) rs" "nq_final e"
    and "rq_active q" "rq_rows q = []"
  shows "\<exists>q1. Query_read N q = Some (Inr (map nq_row rs), q1) \<and> \<not> rq_active q1 \<and> rq_meta q1 = QueryMeta_make e"
proof -
  have "query_rows.coming (n1ql_next N) [] rs e q"
    using assms by (simp add: query_rows.coming_def query_rows.keeps_def)
  from query_rows.read_coming [OF this] show ?thesis by (auto simp: Query_read_def)
qed

lemma query_executes:
  assumes "n1p_mkcmd N (QueryCommand_make N stmt) = (LCB_SUCCESS, cmd)" "n1ql_query N (rq_instance q) cmd = (LCB_SUCCESS, i)"
    and "rows_pending (n1ql_next N) i (rs @ [e])" "list_all (\<lambda>r. \<not> nq_final r) rs" "nq_final e" "rq_rows q = []"
  shows "\<exists>q1. Query_execute N stmt q = Some (Inr (QueryMeta_make e), q1)"
proof -
  let ?q = "q\<lparr>rq_handle := Some 0, rq_instance := i\<rparr>"
  have "query_passes.coming (n1ql_next N) [] rs e ?q"
    using assms(3-6) by (simp add: query_passes.coming_def query_passes.keeps_def rq_active_def)
  from query_passes.read_coming [OF this] obtain q1 where
    "read_rows (n1ql_next N) Query_dispatch (\<lambda>_. Inr) (\<lambda>_. Inr ()) ?q = Some (Inr (map (\<lambda>_. ()) rs), q1)" "rq_meta q1 = QueryMeta_make e"
    by auto
  then show ?thesis
    using assms(1,2) by (simp add: Query_execute_def CallbackQuery_make_def Status_success_def Let_def)
qed

text \<open>
  A query that could not be started counts as active, so a loop over it never ends; only
  \<^verbatim>\<open>execute\<close> looks at the status first.
\<close>

lemma failed_query_spins:
  assumes "CallbackQuery_make N p q = (Inr st, q1)" "\<not> Status_success st" "rq_rows q = []" "n1ql_next N (rq_instance q1) = None"
  shows "Query_read N q1 = None"
proof -
  have "rq_active q1" "rq_rows q1 = []"
    using assms(1,3) by (auto simp: CallbackQuery_make_def rq_active_def Let_def split: prod.splits if_splits)
  then have "rp_next (n1ql_next N) Query_dispatch q1 = None" by (rule rp_next_spins) (rule assms(4))
  then show ?thesis unfolding Query_read_def by (subst read_rows.simps) simp
qed

section \<open>Logging\<close>

text \<open>\<^verbatim>\<open>Logger\<close>: a message is logged from a severity on; \<^verbatim>\<open>FileLogger\<close> writes it on a line of its file.\<close>

record log_meta =
  lg_iid :: "32 word"
  lg_srcline :: "32 word"
  lg_subsys :: string
  lg_srcfile :: string

record file_logger =
  fl_minlevel :: int
  fl_file :: "string option"
  fl_should_close :: bool

definition should_log :: "file_logger \<Rightarrow> int \<Rightarrow> bool" where
  "should_log l level \<longleftrightarrow> fl_minlevel l \<le> level"

text \<open>The constructor from a name throws when the file cannot be opened (\<open>None\<close>).\<close>

definition FileLogger_open :: "int \<Rightarrow> string option \<Rightarrow> file_logger option" where
  "FileLogger_open LCB_LOG_WARN opened = (case opened of
     None \<Rightarrow> None
   | Some text \<Rightarrow> Some \<lparr>fl_minlevel = LCB_LOG_WARN, fl_file = Some text, fl_should_close = True\<rparr>)"

definition FileLogger_of :: "int \<Rightarrow> string \<Rightarrow> file_logger" where
  "FileLogger_of LCB_LOG_WARN text = \<lparr>fl_minlevel = LCB_LOG_WARN, fl_file = Some text, fl_should_close = False\<rparr>"

definition FileLogger_end :: "file_logger \<Rightarrow> file_logger" where
  "FileLogger_end l = (if fl_should_close l \<and> fl_file l \<noteq> None then l\<lparr>fl_file := None\<rparr> else l)"

text \<open>The message is what \<^verbatim>\<open>vfprintf\<close> makes of the format and its arguments.\<close>

definition FileLogger_log :: "log_meta \<Rightarrow> string \<Rightarrow> file_logger \<Rightarrow> file_logger" where
  "FileLogger_log m message l = l\<lparr>fl_file := map_option (\<lambda>text. text @ ''Couchbase ['' @ int_text (lg_iid m) @ ''] ('' @ lg_subsys m
      @ '' - '' @ lg_srcfile m @ '':'' @ int_text (lg_srcline m) @ ''): '' @ message @ [CHR 0x0A]) (fl_file l)\<rparr>"

definition logcb :: "32 word \<Rightarrow> string \<Rightarrow> int \<Rightarrow> string \<Rightarrow> 32 word \<Rightarrow> string \<Rightarrow> file_logger \<Rightarrow> file_logger" where
  "logcb iid subsys severity srcfile srcline message l =
     (if should_log l severity
      then FileLogger_log \<lparr>lg_iid = iid, lg_srcline = srcline, lg_subsys = subsys, lg_srcfile = srcfile\<rparr> message l
      else l)"

text \<open>Nothing that was written is lost, and what is below the level adds nothing.\<close>

lemma log_appends:
  assumes "fl_file l = Some text"
  shows "\<exists>line. fl_file (logcb iid subsys severity srcfile srcline message l) = Some (text @ line)
    \<and> (line = [] \<longleftrightarrow> severity < fl_minlevel l)"
  using assms by (simp add: logcb_def should_log_def FileLogger_log_def)

end
