(* ===== verification/Spec2Isabelle.thy ===== *)
theory Spec2Isabelle
  imports Client_Program Loggers End_To_End Concurrent_Requests Streams Deletions Views N1ql
begin

text \<open>
  A verification development for MP2P, a distributed file store written in C++.

  \<^bold>\<open>The program.\<close> A \<^emph>\<open>master\<close> keeps, in a Couchbase database, the catalogue of the storages and of
  the files. A \<^emph>\<open>storage\<close> keeps parts of files on its disk. A \<^emph>\<open>client\<close> uploads a file: it asks
  the master, which enters the file and answers with the storages that are to take its parts; it
  sends each of them its parts; each storage checks the SHA-1, writes the part and tells the
  master. A download goes the other way: the master names a storage for each part, the client
  fetches the parts and writes them into a new file. All of them exchange packets over TCP, with
  the structures of \<^verbatim>\<open>libtools/network/masks\<close>. Paths below are relative to \<^verbatim>\<open>src/src\<close>.

  \<^bold>\<open>How it is modelled.\<close> A computation is a state transformer \<open>('w, 'a) act\<close> of \<open>Prelude\<close>: it takes
  a state and returns an outcome and a state. An outcome is a value or a fault: an exception of
  the code (\<open>Throw\<close>, with the standard exceptions it throws and catches), undefined behaviour and
  \<^verbatim>\<open>std::terminate\<close> (\<open>Undefined\<close>), or a loop that does not end (\<open>Looping\<close>). Every throw, early
  return and \<^verbatim>\<open>catch\<close> of the code is a branch of the definitions. Integers are words of the width
  they have in the code; the \<^verbatim>\<open>float\<close> divisions are computed as IEEE single precision; bytes are
  characters and buffers are lists of them, and a read outside a buffer is undefined (\<open>view\<close>).

  \<^bold>\<open>The theories,\<close> from the bottom up:

  \<^item> \<open>Prelude\<close>: outcomes, computations and their sequencing, bytes, little-endian images, decimal
    numbers; the collections \<open>act_simps\<close> and \<open>result_simps\<close> that unfold computations.

  \<^item> \<open>Messages\<close>: the packed structures, message numbers and error codes of \<^verbatim>\<open>masks/blocks.hh\<close> and
    \<^verbatim>\<open>masks/messages.hh\<close>. Locale \<open>packed\<close>: what holds of every structure that is written and read
    back, interpreted for each of them.

  \<^item> \<open>Shared_Buffer\<close>, \<open>Packet\<close>: \<^verbatim>\<open>utils/shared-buffer*\<close> over an explicit memory, so that aliasing
    shows, and \<^verbatim>\<open>network/packet.*\<close>.

  \<^item> \<open>Session\<close>: \<^verbatim>\<open>network/session.*\<close>. A connection is the bytes its peer sends and those written
    on it. Sending, receiving, the loop a dispatcher keeps alive, acknowledgements. \<open>Streams\<close>: the
    dispatchers of the two servers are handed what is sent, in order, once.

  \<^item> \<open>Net_Misc\<close>, \<open>Part_Size\<close>, \<open>Files\<close>: \<^verbatim>\<open>network/misc.hxx\<close> (addresses; the cutting of files) and
    \<^verbatim>\<open>files/file.*\<close> (mapped files, the SHA-1 computed in pieces).

  \<^item> \<open>Utils\<close>: \<^verbatim>\<open>utils/misc.*\<close>, \<^verbatim>\<open>color.cc\<close>, \<^verbatim>\<open>init.cc\<close> and the active object of \<^verbatim>\<open>logger.cc\<close>, whose
    senders and thread interleave. \<open>Loggers\<close>: the loggers made of it and the programs of
    \<^verbatim>\<open>logger-tests\<close>, the printer under a mutex as a step relation with its invariant.

  \<^item> \<open>Json\<close>, \<open>Items\<close>, \<open>Database\<close>: the documents of \<^verbatim>\<open>master/database.h*\<close> and \<^verbatim>\<open>database_items.hxx\<close>
    with their serializers, and the connector. Locale \<open>json_item\<close>: a document that is written reads
    back as the item it came from; locale \<open>key_value\<close>: what the commands on the database promise.

  \<^item> \<open>Responses\<close>, \<open>Couchbase_Client\<close>: the copy of couchbase++ in \<^verbatim>\<open>master/libcouchbase\<close>, with responses
    that share the buffers of libcouchbase. Locale \<open>database_commands\<close> is the class \<^verbatim>\<open>Database\<close>; it
    holds of the store of \<open>Database\<close> and, by a sublocale, of a client over a library that works as
    documented (locale \<open>lcb_server\<close>), so that the two answer alike. The rest of the copy, which the
    program does not use: \<open>Batches\<close>, batches, durability and observe; \<open>Row_Queries\<close>, \<open>Views\<close>, \<open>N1ql\<close>,
    the queries that deliver rows, over the locale \<open>row_source\<close>, and the logging interface.

  \<^item> \<open>Sizes\<close>, \<open>Catalogue\<close>, \<open>Upload\<close>: \<^verbatim>\<open>master/database_procedures.hxx\<close>. The record \<open>catalogue\<close> is the
    abstract state of the master, and \<open>represents\<close> says that the documents of a database stand
    for it; the procedures are shown to read and change it as they should.

  \<^item> \<open>Master\<close>, \<open>Requests\<close>: the five handlers of \<^verbatim>\<open>master/master_callbacks.hxx\<close> and the dispatcher of
    \<^verbatim>\<open>master.hxx\<close>, each as an operation on the catalogue and an answer on the connection. \<open>Deletions\<close>:
    the keys the master writes, kept by every handler, so that a delete request finds no file.

  \<^item> \<open>Interleaving\<close>, \<open>Collisions\<close>: handlers as sequences of database commands that the threads of the
    master interleave. Acknowledgements, which are under a mutex, come out as one after the other
    under every schedule; new storages and new files, which are not, can get the same identifier.
    \<open>Rely\<close>: tasks proved against what the others may do meanwhile, over a ghost state; locale
    \<open>rely_guarantee\<close>, threads without a mutex among threads under one. \<open>Handler_Tasks\<close>: uploads,
    downloads and deletions as such tasks, equal to the handlers of \<open>Master\<close> when they run alone.
    \<open>Upload_Stages\<close>, \<open>Concurrent_Requests\<close>: the database while a file is being entered, and the
    interpretation of the locale for one upload, any downloads and any acknowledgements at once,
    which come out as one after the other under every schedule.

  \<^item> \<open>Conf\<close>, \<open>Storage\<close>: the configurations, and \<^verbatim>\<open>storage/storage.cc\<close> with \<^verbatim>\<open>storage_callbacks.cc\<close>:
    the identifier of a storage, its two handlers and its dispatcher over a file system.

  \<^item> \<open>Client\<close>, \<open>Transfers\<close>: \<^verbatim>\<open>client/client.cc\<close>. The tasks of a transfer run in any order; what an
    upload sends, what a refused part leads to, what a download leaves.

  \<^item> \<open>Options\<close> and \<open>Options_Master\<close>, \<open>Options_Storage\<close>, \<open>Options_Client\<close>: the three option parsers.
    Locale \<open>option_parser\<close>: how a parser ends, interpreted for the three.

  \<^item> \<open>Server\<close>, \<open>Programs\<close>, \<open>Client_Program\<close>: \<^verbatim>\<open>network/server.cc\<close>, the life of the programs around
    it (accepting, running, the signal, stopping, joining, destruction) and the main functions.

  \<^item> \<open>Deployment\<close>: a client and the master on the two ends of one connection, with the reports of
    the storages in between: an upload and a download from the first request to the last byte.
    \<open>End_To_End\<close>: the storages on their connections too; what an uploading client sends is what a
    downloading client reads after it went through them.

  \<^bold>\<open>What is shown.\<close> The properties are numbered in the texts before them. Round trips: packets,
  documents, parts, whole files. Refinement: each request is the operation on the catalogue it
  means to be; the options are the file's overridden by the arguments. Invariants: the catalogue
  stays well formed, a storage keeps its identifier, the documents of the connector, whole lines
  in a log. Termination and its failure: the receive loop, the dealing of parts, the shutdown.
  Bounds: for files below 16 MiB the \<^verbatim>\<open>float\<close> division is the exact one, one byte above it is not.
  What a statement assumes of the sizes, names and peers is said in the text before it.
  Many statements describe an error of the code exactly, such as the bytes a download loses when
  the number of parts does not divide the size (\<open>lost_bytes\<close>), or that a program stopped by a
  signal is aborted.

  \<^bold>\<open>Bounds and fuel.\<close> A blocking receive is given one round more than its peer has bytes: a round
  that goes on has read a header, so more are never used, and the theory proves that any larger
  number gives the same result. The dealing of parts has fuel \<open>stp_fuel\<close>, proved to be enough
  when a storage has room for any part; without room no fuel is. The search for a free name
  terminates because it counts in 64 bits. \<open>cut_ok\<close> bounds a file to less than 16 MiB, where the
  shipped table of sizes gives at most four parts (\<open>first_size_small\<close>).

  \<^bold>\<open>Parameters.\<close> What is not in the repository's own code is an argument of the definitions, with
  what the code relies on as a named hypothesis and an instance that satisfies it: Boost's JSON
  reader, conversions and option parser (\<open>boost\<close>, \<open>opt_lib\<close>; hypotheses \<open>boost_ok\<close>, \<open>casts_ok\<close>),
  the resolver and the texts of addresses (\<open>net_lib\<close>, \<open>net_ok\<close>), Couchbase (\<open>couchbase\<close>, \<open>cb_ok\<close>; \<open>lcb\<close>, \<open>lcb_server\<close>),
  OpenSSL and mapped files (\<open>files_lib\<close>; \<open>sha1_ok\<close>, \<open>mapping_ok\<close>), the clock, the random start
  and shuffle, the system calls of \<^verbatim>\<open>check_system\<close>, and what peers send.

  \<^bold>\<open>Atomicity.\<close> In \<open>Interleaving\<close>, \<open>Collisions\<close> and \<open>Handler_Tasks\<close> to \<open>Concurrent_Requests\<close> the step
  is one command to the database or one access to a global of \<^verbatim>\<open>database_procedures.hxx\<close>; the dealing
  of the parts of one upload is one access, so that data races inside it do not show. Elsewhere a
  handler runs as one step: handlers of different connections interleave between, not inside them.
  The tasks of a client each run to their end, in any order. The steps of the loggers are single
  accesses to their queues.

  \<^bold>\<open>Not modelled.\<close> The text written to the logs, the drawing of the progress bar, file
  permissions; timeouts, which the configurations hold and the code does not use; the stop of a
  connection in the middle of a write; of couchbase++, that a block of \<^verbatim>\<open>new char[]\<close> is released by
  \<^verbatim>\<open>delete\<close>, and the installation of a logger. \<^verbatim>\<open>classic.cc\<close> has a data race between its sender and its
  thread, which the steps of \<open>Loggers\<close> do not show. The lock-free queue and Catch are third-party
  headers: the queue is modelled by what it documents, order per producer.
\<close>

end
